(* ===== verification/Prelude.thy ===== *)
theory Prelude imports Main begin

text \<open>
  Shared vocabulary of the development.

  \<^item> Exceptions of the Python code and of the database driver are values: an operation that can
    raise returns \<open>py_exn + 'a\<close>. An exception leaves every open transaction rolled back, so the
    error side carries no state.
  \<^item> A database table is the list of its rows. \<open>fetchrow\<close> is the first row that satisfies a
    \<^verbatim>\<open>WHERE\<close> clause, \<open>update_returning\<close> is \<^verbatim>\<open>UPDATE ... WHERE ... RETURNING *\<close> read with
    \<^verbatim>\<open>fetchrow\<close>.
  \<^item> \<open>statement_timestamp()\<close> differs from statement to statement of one call: an operation takes
    \<open>ts\<close>, where \<open>ts k\<close> is the clock of the k-th statement that reads it.
  \<^item> The locales at the end state what the code relies on when it guards a transition with a
    compare-and-set update.
\<close>

named_theorems table_simps \<open>laws of tables, used to evaluate database statements\<close>

section \<open>Exceptions as values\<close>

datatype py_exn =
    UniqueViolation string
  | CheckViolation string
  | NotNullViolation string
  | ForeignKeyViolation string
  | DataError string
  | ValueError string
  | KeyError string
  | RuntimeError string
  | TypeError string
  | AssertionError
  | CancelledError

type_synonym 'a outcome = "py_exn + 'a"

text \<open>What an HTTP handler raises: an error with a status and a detail, or an exception that nothing catches.\<close>

datatype http_error = HTTPException nat string | ServerError py_exn

text \<open>The text of a row id.\<close>

type_synonym uuid = string

definition try_then :: "'a outcome \<Rightarrow> ('a \<Rightarrow> 'b outcome) \<Rightarrow> 'b outcome" where
  "try_then r f = (case r of Inl e \<Rightarrow> Inl e | Inr x \<Rightarrow> f x)"

lemma try_then_simps [simp]:
  "try_then (Inl e) f = Inl e"
  "try_then (Inr x) f = f x"
  by (simp_all add: try_then_def)

lemma try_then_Inr_iff:
  "try_then r f = Inr y \<longleftrightarrow> (\<exists>x. r = Inr x \<and> f x = Inr y)"
  by (cases r) auto

lemma try_then_InrE:
  assumes "try_then r f = Inr y"
  obtains x where "r = Inr x" "f x = Inr y"
  using assms by (auto simp: try_then_Inr_iff)

lemma try_then_cong [fundef_cong]:
  "r = r' \<Longrightarrow> (\<And>x. r' = Inr x \<Longrightarrow> f x = g x) \<Longrightarrow> try_then r f = try_then r' g"
  by (cases r') auto

section \<open>Python text\<close>

text \<open>
  Text is a list of characters. \<open>lower\<close>, \<open>strip\<close> and the substring test are those of Python on
  ASCII text (the only text the constants of the code are compared with).
\<close>

definition py_lower_char :: "char \<Rightarrow> char" where
  "py_lower_char c =
     (if of_char c \<ge> (65::nat) \<and> of_char c \<le> (90::nat) then char_of (of_char c + (32::nat)) else c)"

definition py_lower :: "string \<Rightarrow> string" where
  "py_lower s = map py_lower_char s"

definition py_isspace :: "char \<Rightarrow> bool" where
  "py_isspace c = (let n = (of_char c :: nat) in n = 32 \<or> (9 \<le> n \<and> n \<le> 13) \<or> (28 \<le> n \<and> n \<le> 31))"

definition py_strip :: "string \<Rightarrow> string" where
  "py_strip s = rev (dropWhile py_isspace (rev (dropWhile py_isspace s)))"

fun starts_with :: "'a list \<Rightarrow> 'a list \<Rightarrow> bool" where
  "starts_with [] s = True"
| "starts_with (p # ps) [] = False"
| "starts_with (p # ps) (c # s) = (p = c \<and> starts_with ps s)"

fun contains :: "'a list \<Rightarrow> 'a list \<Rightarrow> bool" where
  "contains p [] = (p = [])"
| "contains p (c # s) = (starts_with p (c # s) \<or> contains p s)"

lemma starts_with_iff: "starts_with p s \<longleftrightarrow> (\<exists>r. s = p @ r)"
  by (induction p s rule: starts_with.induct) auto

lemma contains_iff: "contains p s \<longleftrightarrow> (\<exists>l r. s = l @ p @ r)"
proof (induction s)
  case (Cons c s)
  have "(\<exists>l r. c # s = l @ p @ r) \<longleftrightarrow> (\<exists>r. c # s = p @ r) \<or> (\<exists>l r. s = l @ p @ r)"
    by (metis append_Cons append_Nil list.exhaust list.sel(3))
  then show ?case using Cons by (simp add: starts_with_iff)
qed auto

text \<open>\<^verbatim>\<open>length(btrim(x)) > 0\<close> of the table constraints: some character is not a blank.\<close>

definition btrim_nonempty :: "string \<Rightarrow> bool" where
  "btrim_nonempty s = list_ex (\<lambda>c. c \<noteq> CHR '' '') s"

text \<open>Clocks count microseconds, the resolution of \<^verbatim>\<open>timestamptz\<close>; intervals are given in seconds.\<close>

definition seconds :: "int \<Rightarrow> int" where
  [simp]: "seconds n = n * 1000000"

text \<open>Python truth of an optional text: \<open>None\<close> and the empty string are false.\<close>

fun truthy :: "string option \<Rightarrow> bool" where
  "truthy None = False"
| "truthy (Some s) = (s \<noteq> [])"

definition or_empty :: "string option \<Rightarrow> string" where
  "or_empty x = (case x of None \<Rightarrow> [] | Some s \<Rightarrow> s)"

lemma truthy_iff: "truthy x \<longleftrightarrow> (\<exists>s. x = Some s \<and> s \<noteq> [])"
  by (cases x) auto

section \<open>Tables\<close>

definition fetchrow :: "('r \<Rightarrow> bool) \<Rightarrow> 'r list \<Rightarrow> 'r option" where
  "fetchrow p t = find p t"

definition update_where :: "('r \<Rightarrow> bool) \<Rightarrow> ('r \<Rightarrow> 'r) \<Rightarrow> 'r list \<Rightarrow> 'r list" where
  "update_where p f t = map (\<lambda>r. if p r then f r else r) t"

definition update_returning ::
    "('r \<Rightarrow> bool) \<Rightarrow> ('r \<Rightarrow> 'r) \<Rightarrow> 'r list \<Rightarrow> 'r option \<times> 'r list" where
  "update_returning p f t = (map_option f (fetchrow p t), update_where p f t)"

text \<open>An update whose new rows must satisfy the table's \<^verbatim>\<open>CHECK\<close> constraints, or nothing happens.\<close>

definition checked_update ::
    "string \<Rightarrow> ('r \<Rightarrow> bool) \<Rightarrow> ('r \<Rightarrow> bool) \<Rightarrow> ('r \<Rightarrow> 'r) \<Rightarrow> 'r list \<Rightarrow> ('r option \<times> 'r list) outcome" where
  "checked_update name chk p f t =
     (if list_ex (\<lambda>r. p r \<and> \<not> chk (f r)) t then Inl (CheckViolation name)
      else Inr (update_returning p f t))"

lemma fetchrow_None_iff: "fetchrow p t = None \<longleftrightarrow> (\<forall>r \<in> set t. \<not> p r)"
  by (auto simp: fetchrow_def find_None_iff)

lemma fetchrow_SomeD: "fetchrow p t = Some r \<Longrightarrow> r \<in> set t \<and> p r"
  by (auto simp: fetchrow_def find_Some_iff)

lemma fetchrow_simps [table_simps]:
  "fetchrow p [] = None"
  "fetchrow p (r # t) = (if p r then Some r else fetchrow p t)"
  by (simp_all add: fetchrow_def)

lemma update_where_simps [table_simps]:
  "update_where p f [] = []"
  "update_where p f (r # t) = (if p r then f r else r) # update_where p f t"
  by (simp_all add: update_where_def)

lemma set_update_where:
  "x \<in> set (update_where p f t) \<longleftrightarrow> (\<exists>r \<in> set t. x = (if p r then f r else r))"
  by (auto simp: update_where_def)

lemma update_where_none: "(\<forall>r \<in> set t. \<not> p r) \<Longrightarrow> update_where p f t = t"
  by (simp add: update_where_def map_idI)

lemma map_update_where: "(\<And>r. k (f r) = k r) \<Longrightarrow> map k (update_where p f t) = map k t"
  by (induction t) (auto simp: update_where_def)

lemma length_update_where [simp]: "length (update_where p f t) = length t"
  by (simp add: update_where_def)

lemma update_returning_None:
  "update_returning p f t = (None, t') \<Longrightarrow> t' = t \<and> (\<forall>r \<in> set t. \<not> p r)"
  by (auto simp: update_returning_def fetchrow_None_iff update_where_none)

lemma update_returning_SomeD:
  assumes "update_returning p f t = (Some r', t')"
  obtains r where "r \<in> set t" "p r" "r' = f r" "fetchrow p t = Some r" "t' = update_where p f t"
  using assms by (auto simp: update_returning_def dest: fetchrow_SomeD)

lemma distinct_map_eqD: "distinct (map k t) \<Longrightarrow> r \<in> set t \<Longrightarrow> r' \<in> set t \<Longrightarrow> k r = k r' \<Longrightarrow> r = r'"
  by (meson distinct_map inj_onD)

lemma fetchrow_distinct:
  assumes "distinct (map k t)" "r \<in> set t" "p r" "\<And>x. p x \<Longrightarrow> k x = k r"
  shows "fetchrow p t = Some r"
proof -
  obtain x where x: "fetchrow p t = Some x"
    using assms(2,3) by (cases "fetchrow p t") (auto simp: fetchrow_None_iff)
  then have "x \<in> set t" "k x = k r" using fetchrow_SomeD assms(4) by fastforce+
  with assms x show ?thesis by (metis distinct_map_eqD)
qed

lemma checked_update_Inr:
  "checked_update name chk p f t = Inr x \<longleftrightarrow>
     x = update_returning p f t \<and> (\<forall>r \<in> set t. p r \<longrightarrow> chk (f r))"
  by (auto simp: checked_update_def list_ex_iff)

lemma all_update_where:
  "(\<forall>r \<in> set t. Q r) \<Longrightarrow> (\<And>r. r \<in> set t \<Longrightarrow> p r \<Longrightarrow> Q r \<Longrightarrow> Q (f r)) \<Longrightarrow> \<forall>r \<in> set (update_where p f t). Q r"
  by (auto simp: set_update_where)

section \<open>Compare-and-set transitions\<close>

text \<open>
  What a caller of a guarded \<^verbatim>\<open>UPDATE ... WHERE id = k AND guard RETURNING *\<close> relies on. The
  operation \<open>p\<close> (its kind and its parameters) updates a row with \<open>upd p\<close> when \<open>guard p\<close> holds;
  an update keeps the row's key and switches off every guard of the family.
\<close>

definition cas :: "('r \<Rightarrow> 'k) \<Rightarrow> ('p \<Rightarrow> 'r \<Rightarrow> bool) \<Rightarrow> ('p \<Rightarrow> 'r \<Rightarrow> 'r) \<Rightarrow> 'p \<Rightarrow> 'k \<Rightarrow> 'r list
    \<Rightarrow> 'r option \<times> 'r list" where
  "cas key guard upd p k t = update_returning (\<lambda>r. key r = k \<and> guard p r) (upd p) t"

locale keyed_cas =
  fixes key :: "'r \<Rightarrow> 'k" and guard :: "'p \<Rightarrow> 'r \<Rightarrow> bool" and upd :: "'p \<Rightarrow> 'r \<Rightarrow> 'r"
  assumes key_upd: "key (upd p r) = key r"
begin

lemma cas_keys: "map key (snd (cas key guard upd p k t)) = map key t"
  by (simp add: cas_def update_returning_def map_update_where key_upd)

lemma cas_lost: "cas key guard upd p k t = (None, t') \<Longrightarrow> t' = t"
  unfolding cas_def by (drule update_returning_None) simp

lemma cas_won:
  assumes "cas key guard upd p k t = (Some r', t')"
  obtains r where "r \<in> set t" "key r = k" "guard p r" "r' = upd p r" "r' \<in> set t'"
proof -
  from assms obtain r where r: "r \<in> set t" "key r = k \<and> guard p r" "r' = upd p r"
      "t' = update_where (\<lambda>r. key r = k \<and> guard p r) (upd p) t"
    by (auto simp: cas_def elim: update_returning_SomeD)
  moreover from r have "r' \<in> set t'"
    by (auto simp: set_update_where intro!: bexI[of _ r])
  ultimately show thesis using that by blast
qed

lemma cas_frame:
  "x \<in> set t \<Longrightarrow> key x \<noteq> k \<Longrightarrow> x \<in> set (snd (cas key guard upd p k t))"
  by (force simp: cas_def update_returning_def set_update_where)

lemma cas_rows:
  assumes "x \<in> set (snd (cas key guard upd p k t))"
  shows "x \<in> set t \<or> (\<exists>r \<in> set t. key r = k \<and> guard p r \<and> x = upd p r)"
  using assms by (auto simp: cas_def update_returning_def set_update_where split: if_splits)

end

locale exclusive_cas = keyed_cas +
  assumes guard_off: "guard p r \<Longrightarrow> \<not> guard q (upd p r)"
begin

text \<open>At most one of the family's operations wins on a row: after a win every other one loses.\<close>

lemma cas_once:
  assumes d: "distinct (map key t)" and w: "cas key guard upd p k t = (Some r', t')"
  shows "cas key guard upd q k t' = (None, t')"
proof -
  from w obtain r where r: "r \<in> set t" "key r = k" "guard p r" "r' = upd p r" "r' \<in> set t'"
    by (rule cas_won)
  have d': "distinct (map key t')" using d w cas_keys[of p k t] by simp
  have "\<not> guard q x" if "x \<in> set t'" "key x = k" for x
  proof -
    have "x = r'" using that r d' key_upd distinct_map_eqD[OF d'] by metis
    then show ?thesis using r guard_off by simp
  qed
  then have "\<forall>x \<in> set t'. \<not> (key x = k \<and> guard q x)" by blast
  then show ?thesis
    by (auto simp: cas_def update_returning_def fetchrow_None_iff update_where_none)
qed

lemma cas_second_loses:
  assumes "distinct (map key t)" "fst (cas key guard upd p k t) \<noteq> None"
  shows "fst (cas key guard upd q k (snd (cas key guard upd p k t))) = None"
  using assms cas_once by (cases "cas key guard upd p k t") fastforce

end

section \<open>Step relations\<close>

text \<open>
  A store whose contents change only by the steps of a relation: an invariant that every step keeps
  holds in every reachable state.
\<close>

locale invariant_system =
  fixes init :: "'s" and step :: "'s \<Rightarrow> 's \<Rightarrow> bool" and inv :: "'s \<Rightarrow> bool"
  assumes inv_init: "inv init" and inv_step: "step s t \<Longrightarrow> inv s \<Longrightarrow> inv t"
begin

lemma inv_rtranclp: "step\<^sup>*\<^sup>* s t \<Longrightarrow> inv s \<Longrightarrow> inv t"
  by (induction rule: rtranclp_induct) (auto intro: inv_step)

lemma inv_reachable: "step\<^sup>*\<^sup>* init t \<Longrightarrow> inv t"
  using inv_rtranclp inv_init by blast

end

end
