(* ===== verification/Task_Roles.thy ===== *)
theory Task_Roles imports Prelude begin

text \<open>
  The role vocabulary of the task API and the server-side role checks over it:
  \<^verbatim>\<open>shared/sdk/tasks/rbac.py\<close>, \<^verbatim>\<open>shared/sdk/tasks/workroom_rbac.py\<close> and the status
  vocabularies of \<^verbatim>\<open>shared/sdk/tasks/models.py\<close> and \<^verbatim>\<open>workroom_models.py\<close>. A Python
  \<^verbatim>\<open>frozenset\<close> of strings is the list of its members.
\<close>

section \<open>Task roles (rbac.py)\<close>

definition TASK_ROLES :: "string list" where
  "TASK_ROLES =
    [''requester'', ''pm_engineering_lead'', ''reviewer_approver'', ''platform_admin'',
     ''agent_operator'', ''security_compliance_reviewer'']"

definition CREATE_ROLES :: "string list" where
  "CREATE_ROLES = [''requester'', ''pm_engineering_lead'', ''platform_admin'']"

definition VIEW_ROLES :: "string list" where
  "VIEW_ROLES = TASK_ROLES"

definition SUBMIT_ROLES :: "string list" where
  "SUBMIT_ROLES = CREATE_ROLES"

definition can_create :: "string \<Rightarrow> bool" where
  "can_create r \<longleftrightarrow> r \<in> set CREATE_ROLES"

definition can_view :: "string \<Rightarrow> bool" where
  "can_view r \<longleftrightarrow> r \<in> set VIEW_ROLES"

definition can_submit :: "string \<Rightarrow> bool" where
  "can_submit r \<longleftrightarrow> r \<in> set SUBMIT_ROLES"

section \<open>Task statuses (models.py)\<close>

definition FIRST_CLASS_TASK_TYPES :: "string list" where
  "FIRST_CLASS_TASK_TYPES = [''software_delivery'', ''documentation'', ''platform_improvement'']"

definition TASK_STATUS :: "string list" where
  "TASK_STATUS =
    [''draft'', ''submitted'', ''intake_review'', ''clarification_needed'',
     ''clarification_expired'', ''approved_for_execution'', ''running'', ''waiting_approval'',
     ''blocked'', ''failed'', ''delivery_ready'', ''changes_requested'', ''qa_rerun_requested'',
     ''accepted'', ''rejected'', ''archived'', ''canceled'']"

definition TERMINAL_TASK_STATUSES :: "string list" where
  "TERMINAL_TASK_STATUSES =
    [''accepted'', ''rejected'', ''canceled'', ''archived'', ''failed'', ''completed'', ''aborted'']"

section \<open>Workroom roles (workroom\_rbac.py)\<close>

definition MESSAGE_BODY_MAX_LENGTH :: nat where "MESSAGE_BODY_MAX_LENGTH = 8000"
definition CLARIFICATION_QUESTION_MAX_LENGTH :: nat where "CLARIFICATION_QUESTION_MAX_LENGTH = 4000"
definition CLARIFICATION_ANSWER_MAX_LENGTH :: nat where
  "CLARIFICATION_ANSWER_MAX_LENGTH = MESSAGE_BODY_MAX_LENGTH"
definition CLARIFICATION_REMINDER_HOURS :: int where "CLARIFICATION_REMINDER_HOURS = 24"
definition CLARIFICATION_DUE_HOURS :: int where "CLARIFICATION_DUE_HOURS = 72"

definition VISIBILITY_ROLES :: "(string \<times> string list) list" where
  "VISIBILITY_ROLES =
    [(''task_participants'', TASK_ROLES),
     (''operators'', [''pm_engineering_lead'', ''platform_admin'', ''agent_operator'']),
     (''audit_only'', [''security_compliance_reviewer'']),
     (''private_system'', [''platform_admin'', ''agent_operator''])]"

definition AUDIT_EVIDENCE_ROLES :: "string list" where
  "AUDIT_EVIDENCE_ROLES =
    [''platform_admin'', ''agent_operator'', ''security_compliance_reviewer'',
     ''pm_engineering_lead'']"

definition POST_MESSAGE_ROLES :: "string list" where
  "POST_MESSAGE_ROLES =
    [''requester'', ''pm_engineering_lead'', ''reviewer_approver'', ''platform_admin'',
     ''agent_operator'']"

definition CREATE_CLARIFICATION_ROLES :: "string list" where
  "CREATE_CLARIFICATION_ROLES = [''pm_engineering_lead'', ''platform_admin'', ''agent_operator'']"

definition ANSWER_CLARIFICATION_ROLES :: "string list" where
  "ANSWER_CLARIFICATION_ROLES = [''requester'', ''pm_engineering_lead'', ''platform_admin'']"

definition can_view_workroom :: "string \<Rightarrow> bool" where
  "can_view_workroom r \<longleftrightarrow> r \<in> set VIEW_ROLES"

definition can_post_message :: "string \<Rightarrow> bool" where
  "can_post_message r \<longleftrightarrow> r \<in> set POST_MESSAGE_ROLES"

definition can_create_clarification :: "string \<Rightarrow> bool" where
  "can_create_clarification r \<longleftrightarrow> r \<in> set CREATE_CLARIFICATION_ROLES"

definition can_answer_clarification :: "string \<Rightarrow> bool" where
  "can_answer_clarification r \<longleftrightarrow> r \<in> set ANSWER_CLARIFICATION_ROLES"

definition visible_message :: "string \<Rightarrow> string \<Rightarrow> bool" where
  "visible_message r visibility =
     (case map_of VISIBILITY_ROLES visibility of None \<Rightarrow> False | Some roles \<Rightarrow> r \<in> set roles)"

text \<open>A workroom message carries its visibility and fields the filter does not read.\<close>

record task_message =
  tm_id :: string
  tm_body :: string
  tm_visibility :: string

definition filter_messages_by_visibility :: "task_message list \<Rightarrow> string \<Rightarrow> task_message list" where
  "filter_messages_by_visibility messages r = [m \<leftarrow> messages. visible_message r (tm_visibility m)]"

definition can_view_audit_evidence :: "string \<Rightarrow> bool" where
  "can_view_audit_evidence r \<longleftrightarrow> r \<in> set AUDIT_EVIDENCE_ROLES"

lemmas role_defs =
  TASK_ROLES_def CREATE_ROLES_def VIEW_ROLES_def SUBMIT_ROLES_def can_create_def can_view_def
  can_submit_def VISIBILITY_ROLES_def AUDIT_EVIDENCE_ROLES_def POST_MESSAGE_ROLES_def
  CREATE_CLARIFICATION_ROLES_def ANSWER_CLARIFICATION_ROLES_def can_view_workroom_def
  can_post_message_def can_create_clarification_def can_answer_clarification_def
  visible_message_def can_view_audit_evidence_def

lemma workroom_roles_are_task_roles:
  "can_post_message r \<or> can_create_clarification r \<or> can_answer_clarification r \<or>
   can_view_audit_evidence r \<or> visible_message r v \<Longrightarrow> can_view_workroom r"
  by (auto simp: role_defs split: if_splits)

lemma visible_message_unknown:
  "v \<notin> {''task_participants'', ''operators'', ''audit_only'', ''private_system''}
   \<Longrightarrow> \<not> visible_message r v"
  by (auto simp: visible_message_def VISIBILITY_ROLES_def)

lemma filter_messages_hidden:
  "\<not> can_view_workroom r \<Longrightarrow> filter_messages_by_visibility ms r = []"
  using workroom_roles_are_task_roles by (auto simp: filter_messages_by_visibility_def filter_empty_conv)

end
