(* ===== verification/Authz_Policy.thy ===== *)
theory Authz_Policy imports Task_Roles begin

text \<open>
  The fail-closed permission decision for resume and replay authorizations
  (\<^verbatim>\<open>shared/sdk/tasks/authorization_policy.py\<close>): role tables, principals, scopes and
  \<open>evaluate\<close>. The lemmas give the exact set of permitted operations and the separation of duties
  between the operator, the approver, the policy authority and the service identity.
\<close>

definition OPERATOR_ROLES :: "string list" where
  "OPERATOR_ROLES = [''pm_engineering_lead'', ''platform_admin'', ''agent_operator'']"

definition REPLAY_APPROVER_ROLES :: "string list" where
  "REPLAY_APPROVER_ROLES = [''reviewer_approver'', ''platform_admin'']"

definition ACTION_ROLES :: "(string \<times> string list) list" where
  "ACTION_ROLES =
    [(''request_resume'', OPERATOR_ROLES),
     (''cancel_resume'', OPERATOR_ROLES),
     (''request_replay'', OPERATOR_ROLES),
     (''authorize_replay'', REPLAY_APPROVER_ROLES),
     (''reject_replay'', OPERATOR_ROLES @ REPLAY_APPROVER_ROLES),
     (''cancel_replay'', OPERATOR_ROLES),
     (''revoke'', OPERATOR_ROLES @ REPLAY_APPROVER_ROLES)]"

definition POLICY_AUTHORITY_ACTIONS :: "string list" where
  "POLICY_AUTHORITY_ACTIONS = [''authorize_resume'', ''reject_resume'']"

definition CONSUME_ACTIONS :: "string list" where
  "CONSUME_ACTIONS = [''consume_resume'', ''consume_replay'']"

record actor =
  principal_id :: string
  role :: string
  is_service_identity :: bool
  is_policy_authority :: bool

record scope =
  team_id :: "string option"
  project_id :: "string option"

record policy_outcome =
  allowed :: bool
  result_kind :: string
  reason_code :: string
  policy_result :: string

definition PolicyOutcome :: "bool \<Rightarrow> string \<Rightarrow> string \<Rightarrow> string \<Rightarrow> policy_outcome" where
  "PolicyOutcome a k r p = \<lparr>allowed = a, result_kind = k, reason_code = r, policy_result = p\<rparr>"

definition isolation_ok :: "scope \<Rightarrow> scope \<Rightarrow> string option" where
  "isolation_ok actor_scope resource_scope =
    (if team_id actor_scope = None \<or> team_id resource_scope = None then Some ''cross_team_denied''
     else if team_id actor_scope \<noteq> team_id resource_scope then Some ''cross_team_denied''
     else if project_id actor_scope = None \<or> project_id resource_scope = None
       then Some ''cross_project_denied''
     else if project_id actor_scope \<noteq> project_id resource_scope then Some ''cross_project_denied''
     else None)"

definition evaluate ::
    "string \<Rightarrow> actor \<Rightarrow> scope \<Rightarrow> scope \<Rightarrow> string option \<Rightarrow> bool \<Rightarrow> string option \<Rightarrow> policy_outcome" where
  "evaluate action a actor_scope resource_scope requested_by production_effect
      production_approval_reference =
    (if is_service_identity a then
       (if action \<notin> set CONSUME_ACTIONS
        then PolicyOutcome False ''forbidden'' ''service_identity_cannot_decide'' ''deny''
        else case isolation_ok actor_scope resource_scope of
          Some d \<Rightarrow> PolicyOutcome False ''not_found_masked'' d ''deny''
        | None \<Rightarrow>
            if production_effect \<and> \<not> truthy production_approval_reference
            then PolicyOutcome False ''production_approval_required''
                   ''production_approval_required'' ''deny''
            else PolicyOutcome True ''ok'' ''policy_allow'' ''allow'')
     else if is_policy_authority a then
       (if action \<notin> set POLICY_AUTHORITY_ACTIONS
        then PolicyOutcome False ''forbidden'' ''policy_authority_scope'' ''deny''
        else case isolation_ok actor_scope resource_scope of
          Some d \<Rightarrow> PolicyOutcome False ''not_found_masked'' d ''deny''
        | None \<Rightarrow> PolicyOutcome True ''ok'' ''policy_allow'' ''allow'')
     else if action \<in> set CONSUME_ACTIONS
       then PolicyOutcome False ''forbidden'' ''rbac_denied'' ''deny''
     else if action \<in> set POLICY_AUTHORITY_ACTIONS
       then PolicyOutcome False ''forbidden'' ''policy_authority_required'' ''deny''
     else case map_of ACTION_ROLES action of
       None \<Rightarrow> PolicyOutcome False ''forbidden'' ''unknown_action_type'' ''deny''
     | Some roles \<Rightarrow>
         if role a \<notin> set TASK_ROLES then PolicyOutcome False ''forbidden'' ''rbac_denied'' ''deny''
         else if role a \<notin> set roles then PolicyOutcome False ''forbidden'' ''rbac_denied'' ''deny''
         else case isolation_ok actor_scope resource_scope of
           Some d \<Rightarrow> PolicyOutcome False ''not_found_masked'' d ''deny''
         | None \<Rightarrow>
             if action = ''authorize_replay'' \<and> requested_by = Some (principal_id a)
             then PolicyOutcome False ''forbidden'' ''two_person_required'' ''deny''
             else PolicyOutcome True ''ok'' ''policy_allow'' ''allow'')"

section \<open>What is permitted\<close>

lemma PolicyOutcome_sel [simp]:
  "allowed (PolicyOutcome a k r p) = a" "result_kind (PolicyOutcome a k r p) = k"
  "reason_code (PolicyOutcome a k r p) = r" "policy_result (PolicyOutcome a k r p) = p"
  by (simp_all add: PolicyOutcome_def)

lemma isolation_ok_None_iff:
  "isolation_ok s r = None \<longleftrightarrow>
     (\<exists>t p. team_id s = Some t \<and> team_id r = Some t \<and> project_id s = Some p \<and> project_id r = Some p)"
  by (auto simp: isolation_ok_def)

lemma action_classes_disjoint:
  "action \<in> set CONSUME_ACTIONS \<Longrightarrow> action \<notin> set POLICY_AUTHORITY_ACTIONS"
  "action \<in> set CONSUME_ACTIONS \<Longrightarrow> map_of ACTION_ROLES action = None"
  "action \<in> set POLICY_AUTHORITY_ACTIONS \<Longrightarrow> map_of ACTION_ROLES action = None"
  by (auto simp: CONSUME_ACTIONS_def POLICY_AUTHORITY_ACTIONS_def ACTION_ROLES_def)

text \<open>The permission relation the contract documents, by kind of principal.\<close>

definition may_service :: "string \<Rightarrow> bool \<Rightarrow> string option \<Rightarrow> bool" where
  "may_service action production_effect ref \<longleftrightarrow>
     action \<in> set CONSUME_ACTIONS \<and> (production_effect \<longrightarrow> truthy ref)"

definition may_human :: "string \<Rightarrow> actor \<Rightarrow> string option \<Rightarrow> bool" where
  "may_human action a requested_by \<longleftrightarrow>
     (\<exists>roles. map_of ACTION_ROLES action = Some roles \<and> role a \<in> set roles) \<and>
     role a \<in> set TASK_ROLES \<and>
     (action = ''authorize_replay'' \<longrightarrow> requested_by \<noteq> Some (principal_id a))"

lemma evaluate_allowed_iff:
  "allowed (evaluate action a as rs rb pe ref) \<longleftrightarrow>
     isolation_ok as rs = None \<and>
     (if is_service_identity a then may_service action pe ref
      else if is_policy_authority a then action \<in> set POLICY_AUTHORITY_ACTIONS
      else may_human action a rb)"
  unfolding evaluate_def may_service_def may_human_def
  using action_classes_disjoint[of action] by (auto split: option.splits)

lemma evaluate_allowed_scope:
  "allowed (evaluate action a as rs rb pe ref) \<Longrightarrow>
     team_id as \<noteq> None \<and> project_id as \<noteq> None \<and> team_id as = team_id rs \<and> project_id as = project_id rs"
  by (auto simp: evaluate_allowed_iff isolation_ok_None_iff)

text \<open>Every branch returns the one allowing outcome or a denial of a documented kind.\<close>

definition outcome_wf :: "policy_outcome \<Rightarrow> bool" where
  "outcome_wf out \<longleftrightarrow>
     (if allowed out then out = PolicyOutcome True ''ok'' ''policy_allow'' ''allow''
      else result_kind out \<in> {''forbidden'', ''not_found_masked'', ''production_approval_required''})"

lemma outcome_wf_branches:
  "outcome_wf x \<Longrightarrow> outcome_wf y \<Longrightarrow> outcome_wf (if c then x else y)"
  "outcome_wf x \<Longrightarrow> (\<And>d. outcome_wf (f d)) \<Longrightarrow> outcome_wf (case z of None \<Rightarrow> x | Some d \<Rightarrow> f d)"
  by (simp_all split: option.split)

lemma outcome_wf_leaves:
  "outcome_wf (PolicyOutcome True ''ok'' ''policy_allow'' ''allow'')"
  "outcome_wf (PolicyOutcome False ''forbidden'' r p)"
  "outcome_wf (PolicyOutcome False ''not_found_masked'' r p)"
  "outcome_wf (PolicyOutcome False ''production_approval_required'' r p)"
  by (simp_all add: outcome_wf_def)

lemma evaluate_wf: "outcome_wf (evaluate action a as rs rb pe ref)"
  unfolding evaluate_def by (intro outcome_wf_branches outcome_wf_leaves)

lemma evaluate_deny_kind:
  "\<not> allowed (evaluate action a as rs rb pe ref) \<Longrightarrow>
     result_kind (evaluate action a as rs rb pe ref)
       \<in> {''forbidden'', ''not_found_masked'', ''production_approval_required''}"
  using evaluate_wf[of action a as rs rb pe ref] by (simp only: outcome_wf_def if_False)

lemma evaluate_allowed_reason:
  "allowed (evaluate action a as rs rb pe ref) \<Longrightarrow>
     evaluate action a as rs rb pe ref = PolicyOutcome True ''ok'' ''policy_allow'' ''allow''"
  using evaluate_wf[of action a as rs rb pe ref] by (simp only: outcome_wf_def if_True)

section \<open>Separation of duties\<close>

definition duty_of :: "string \<Rightarrow> string" where
  "duty_of action =
     (if action \<in> set CONSUME_ACTIONS then ''consume''
      else if action \<in> set POLICY_AUTHORITY_ACTIONS then ''decide_resume'' else ''human'')"

lemma evaluate_duty:
  assumes "allowed (evaluate action a as rs rb pe ref)"
  shows "duty_of action =
    (if is_service_identity a then ''consume''
     else if is_policy_authority a then ''decide_resume'' else ''human'')"
  using assms action_classes_disjoint[of action]
  by (auto simp: evaluate_allowed_iff duty_of_def may_service_def may_human_def split: if_splits)

text \<open>
  Separation of duties: whatever else the arguments are, one principal is never permitted two
  operations of different duties (consume, resume decision, human operation), and no human is
  permitted to authorize a replay they requested themselves. A permitted operation always has the
  same defined team and project on both sides.
\<close>

theorem evaluate_separates_duties:
  assumes "allowed (evaluate action a as rs rb pe ref)"
  shows "(allowed (evaluate action' a as' rs' rb' pe' ref') \<longrightarrow> duty_of action' = duty_of action) \<and>
    (action = ''authorize_replay'' \<longrightarrow>
       \<not> is_service_identity a \<and> \<not> is_policy_authority a \<and> rb \<noteq> Some (principal_id a)) \<and>
    (\<exists>t p. as = \<lparr>team_id = Some t, project_id = Some p\<rparr> \<and> rs = \<lparr>team_id = Some t, project_id = Some p\<rparr>)"
proof -
  have "allowed (evaluate action' a as' rs' rb' pe' ref') \<longrightarrow> duty_of action' = duty_of action"
    using evaluate_duty assms by simp
  moreover have "action = ''authorize_replay'' \<longrightarrow>
      \<not> is_service_identity a \<and> \<not> is_policy_authority a \<and> rb \<noteq> Some (principal_id a)"
    using assms by (auto simp: evaluate_allowed_iff may_service_def may_human_def CONSUME_ACTIONS_def
        POLICY_AUTHORITY_ACTIONS_def split: if_splits)
  moreover have "\<exists>t p. as = \<lparr>team_id = Some t, project_id = Some p\<rparr> \<and>
      rs = \<lparr>team_id = Some t, project_id = Some p\<rparr>"
    using evaluate_allowed_scope[OF assms] by (cases as, cases rs) auto
  ultimately show ?thesis by blast
qed

definition demo_scope :: scope where
  "demo_scope = \<lparr>team_id = Some ''t1'', project_id = Some ''p1''\<rparr>"

definition human :: "string \<Rightarrow> string \<Rightarrow> actor" where
  "human pid r = \<lparr>principal_id = pid, role = r, is_service_identity = False, is_policy_authority = False\<rparr>"

lemmas policy_eval =
  evaluate_def isolation_ok_def CONSUME_ACTIONS_def POLICY_AUTHORITY_ACTIONS_def ACTION_ROLES_def
  OPERATOR_ROLES_def REPLAY_APPROVER_ROLES_def TASK_ROLES_def

theorem evaluate_separates_duties_witness:
  "allowed (evaluate ''authorize_replay'' (human ''u2'' ''reviewer_approver'') demo_scope demo_scope
      (Some ''u1'') False None) \<and>
   Some ''u1'' \<noteq> Some (principal_id (human ''u2'' ''reviewer_approver''))"
proof -
  have h: "allowed (evaluate ''authorize_replay'' (human ''u2'' ''reviewer_approver'') demo_scope
      demo_scope (Some ''u1'') False None)"
    by (simp add: policy_eval human_def demo_scope_def)
  show ?thesis using evaluate_separates_duties[OF h] h by simp
qed

end
