(* ===== verification/Authz_Model.thy ===== *)
theory Authz_Model imports Authz_Policy begin

text \<open>
  The durable authorization row and its projections
  (\<^verbatim>\<open>shared/sdk/tasks/authorization_model.py\<close>): the vocabularies, the single authoritative state
  of a row, and the bounded audit payload with its two rejection rules (unknown key, unsafe value).
  The row is the record of the columns of \<^verbatim>\<open>resume_replay_authorizations\<close>.
\<close>

section \<open>Vocabularies\<close>

definition ACTION_TYPES :: "string list" where
  "ACTION_TYPES = [''resume'', ''replay'']"

definition RESOURCE_TYPES :: "string list" where
  "RESOURCE_TYPES = [''clarification'', ''outbox_event'']"

definition DECISIONS :: "string list" where
  "DECISIONS = [''pending'', ''authorized'', ''rejected'', ''canceled'']"

definition AUTH_STATES :: "string list" where
  "AUTH_STATES = [''pending'', ''authorized'', ''rejected'', ''canceled'', ''expired'', ''revoked'',
     ''consumed'']"

definition REASON_CODES :: "string list" where
  "REASON_CODES =
    [''ok'', ''policy_allow'', ''policy_deny'', ''rbac_denied'', ''unknown_action_type'',
     ''cross_team_denied'', ''cross_project_denied'', ''resource_not_found'',
     ''two_person_required'', ''service_identity_cannot_request'',
     ''service_identity_cannot_decide'', ''policy_authority_required'', ''policy_authority_scope'',
     ''production_approval_required'', ''production_approval_invalid_reference'',
     ''production_approval_not_found'', ''production_approval_already_consumed'',
     ''production_approval_already_revoked'', ''production_approval_expired'',
     ''production_approval_wrong_action'', ''production_approval_wrong_resource'',
     ''production_approval_wrong_scope'', ''production_approval_stale_state'',
     ''production_approval_conflict'', ''invalid_transition'', ''already_decided'',
     ''already_consumed'', ''already_revoked'', ''expired'', ''stale_state'', ''conflict'',
     ''revoked'', ''operator_revoked'', ''operator_canceled'']"

definition RESULT_KINDS :: "string list" where
  "RESULT_KINDS =
    [''ok'', ''forbidden'', ''not_found_masked'', ''conflict'', ''expired'', ''stale_state'',
     ''already_decided'', ''already_consumed'', ''revoked'', ''production_approval_required'',
     ''invalid_transition'']"

definition SAFE_PAYLOAD_KEYS :: "string list" where
  "SAFE_PAYLOAD_KEYS =
    [''authorization_id'', ''action_type'', ''resource_type'', ''resource_id'', ''team_id'',
     ''project_id'', ''request_id'', ''actor_id'', ''actor_role'', ''decision'', ''state'',
     ''reason_code'', ''policy_result'', ''policy_version'', ''resource_state_version'',
     ''production_effect'', ''event'', ''occurred_at'', ''idempotency_key'']"

definition FORBIDDEN_VALUE_MARKERS :: "string list" where
  "FORBIDDEN_VALUE_MARKERS =
    [''password'', ''secret'', ''token'', ''dsn='', ''postgres://'', ''redis://'']"

section \<open>The authorization row\<close>

record auth_row =
  ra_authorization_id :: string
  ra_action_type :: string
  ra_resource_type :: string
  ra_resource_id :: string
  ra_team_id :: string
  ra_project_id :: string
  ra_request_id :: string
  ra_requested_by :: string
  ra_requested_role :: string
  ra_requested_at :: int
  ra_decision :: string
  ra_decided_by :: "string option"
  ra_decided_role :: "string option"
  ra_decided_at :: "int option"
  ra_decision_reason_code :: "string option"
  ra_policy_result :: "string option"
  ra_policy_version :: "string option"
  ra_resource_state_version :: string
  ra_production_effect :: bool
  ra_production_approval_reference :: "string option"
  ra_expires_at :: int
  ra_consumed_at :: "int option"
  ra_consumed_by :: "string option"
  ra_revoked_at :: "int option"
  ra_revoked_by :: "string option"
  ra_revocation_reason_code :: "string option"
  ra_expired_at :: "int option"
  ra_idempotency_key :: string
  ra_updated_at :: int

definition project_state :: "auth_row \<Rightarrow> int \<Rightarrow> string" where
  "project_state row now =
    (if ra_consumed_at row \<noteq> None then ''consumed''
     else if ra_revoked_at row \<noteq> None then ''revoked''
     else if ra_expired_at row \<noteq> None then ''expired''
     else if ra_decision row \<in> {''pending'', ''authorized''} \<and> ra_expires_at row \<le> now
       then ''expired''
     else if ra_decision row = ''rejected'' then ''rejected''
     else if ra_decision row = ''canceled'' then ''canceled''
     else if ra_decision row = ''authorized'' then ''authorized''
     else ''pending'')"

section \<open>Audit payloads\<close>

text \<open>A value of a payload dict; \<open>PNested\<close> stands for every value that is not a scalar of these kinds.\<close>

datatype pval = PStr string | PBool bool | PInt int | PNull | PNested "pval list"

text \<open>
  The scan both payload builders of the code share: the first key outside the allowlist, or the
  first text value that is longer than 500 characters or contains a forbidden marker, raises.
\<close>

fun scan_payload :: "string list \<Rightarrow> string \<Rightarrow> (string \<times> pval) list \<Rightarrow> unit outcome" where
  "scan_payload keys what [] = Inr ()"
| "scan_payload keys what ((k, v) # rest) =
     (if k \<notin> set keys then Inl (ValueError (what @ '' key not allowed: '' @ k))
      else case v of
        PStr s \<Rightarrow>
          if length s > 500 then Inl (ValueError (what @ '' value too long: '' @ k))
          else if list_ex (\<lambda>m. contains m (py_lower s)) FORBIDDEN_VALUE_MARKERS
            then Inl (ValueError (what @ '' value looks unsafe: '' @ k))
          else scan_payload keys what rest
      | _ \<Rightarrow> scan_payload keys what rest)"

definition assert_reason_code :: "string option \<Rightarrow> string option outcome" where
  "assert_reason_code code =
    (case code of None \<Rightarrow> Inr None
     | Some c \<Rightarrow> if c \<in> set REASON_CODES then Inr (Some c)
         else Inl (ValueError (''unknown authorization reason_code: '' @ c)))"

fun some_fields :: "(string \<times> pval option) list \<Rightarrow> (string \<times> pval) list" where
  "some_fields [] = []"
| "some_fields ((k, None) # rest) = some_fields rest"
| "some_fields ((k, Some v) # rest) = (k, v) # some_fields rest"

definition pstr :: "string option \<Rightarrow> pval option" where
  "pstr = map_option PStr"

text \<open>The arguments of \<open>build_audit_payload\<close>; \<open>None\<close> is Python's \<^verbatim>\<open>None\<close>.\<close>

record audit_args =
  au_event :: string
  au_authorization_id :: string
  au_action_type :: string
  au_resource_type :: string
  au_resource_id :: string
  au_actor_id :: string
  au_reason_code :: "string option"
  au_state :: string
  au_team_id :: "string option"
  au_project_id :: "string option"
  au_request_id :: "string option"
  au_actor_role :: "string option"
  au_policy_result :: "string option"
  au_policy_version :: "string option"
  au_resource_state_version :: "string option"
  au_production_effect :: "bool option"
  au_idempotency_key :: "string option"
  au_occurred_at :: "string option"

definition audit_raw :: "audit_args \<Rightarrow> string option \<Rightarrow> (string \<times> pval option) list" where
  "audit_raw x reason =
    [(''event'', Some (PStr (au_event x))),
     (''authorization_id'', Some (PStr (au_authorization_id x))),
     (''action_type'', Some (PStr (au_action_type x))),
     (''resource_type'', Some (PStr (au_resource_type x))),
     (''resource_id'', Some (PStr (au_resource_id x))),
     (''actor_id'', Some (PStr (au_actor_id x))),
     (''actor_role'', pstr (au_actor_role x)),
     (''reason_code'', pstr reason),
     (''state'', Some (PStr (au_state x))),
     (''team_id'', pstr (au_team_id x)),
     (''project_id'', pstr (au_project_id x)),
     (''request_id'', pstr (au_request_id x)),
     (''policy_result'', pstr (au_policy_result x)),
     (''policy_version'', pstr (au_policy_version x)),
     (''resource_state_version'', pstr (au_resource_state_version x)),
     (''production_effect'', map_option PBool (au_production_effect x)),
     (''idempotency_key'', pstr (au_idempotency_key x)),
     (''occurred_at'', pstr (au_occurred_at x))]"

type_synonym payload = "(string \<times> pval) list"

definition build_audit_payload :: "audit_args \<Rightarrow> payload outcome" where
  "build_audit_payload x =
    try_then (assert_reason_code (au_reason_code x)) (\<lambda>reason.
      let payload = some_fields (audit_raw x reason) in
      try_then (scan_payload SAFE_PAYLOAD_KEYS ''audit payload'' payload) (\<lambda>_. Inr payload))"

section \<open>Properties of the projections\<close>

lemma project_state_in_states: "project_state row now \<in> set AUTH_STATES"
  by (simp add: project_state_def AUTH_STATES_def)

lemma project_state_consumed_iff: "project_state row now = ''consumed'' \<longleftrightarrow> ra_consumed_at row \<noteq> None"
  by (simp add: project_state_def)

lemma project_state_authorized_iff:
  "project_state row now = ''authorized'' \<longleftrightarrow>
     ra_decision row = ''authorized'' \<and> ra_consumed_at row = None \<and> ra_revoked_at row = None \<and>
     ra_expired_at row = None \<and> now < ra_expires_at row"
  by (auto simp: project_state_def)

definition safe_value :: "pval \<Rightarrow> bool" where
  "safe_value v = (case v of PStr s \<Rightarrow> length s \<le> 500 \<and>
     (\<forall>m \<in> set FORBIDDEN_VALUE_MARKERS. \<not> contains m (py_lower s)) | _ \<Rightarrow> True)"

lemma scan_payload_ok_iff:
  "scan_payload keys what p = Inr () \<longleftrightarrow> (\<forall>(k, v) \<in> set p. k \<in> set keys \<and> safe_value v)"
proof (induction p)
  case (Cons kv p)
  obtain k v where kv: "kv = (k, v)" by (cases kv)
  show ?case using Cons unfolding kv
    by (cases v) (auto simp: safe_value_def list_ex_iff)
qed simp

lemma some_fields_keys: "fst ` set (some_fields r) \<subseteq> fst ` set r"
  by (induction r rule: some_fields.induct) auto

lemma audit_payload_values_safe:
  assumes "build_audit_payload x = Inr p"
  shows "\<forall>(k, v) \<in> set p. k \<in> set SAFE_PAYLOAD_KEYS \<and> safe_value v"
proof -
  from assms have "scan_payload SAFE_PAYLOAD_KEYS ''audit payload'' p = Inr ()"
    by (auto simp: build_audit_payload_def try_then_Inr_iff Let_def)
  then show ?thesis by (simp only: scan_payload_ok_iff)
qed

lemma audit_raw_keys_safe: "fst ` set (audit_raw x r) \<subseteq> set SAFE_PAYLOAD_KEYS"
  by (simp add: audit_raw_def SAFE_PAYLOAD_KEYS_def)

end
