(* ===== verification/Authz_Repo.thy ===== *)
theory Authz_Repo imports Authz_Model begin

text \<open>
  The authorization repository (\<^verbatim>\<open>shared/sdk/tasks/authorization_repository.py\<close>) over the table
  \<^verbatim>\<open>resume_replay_authorizations\<close> of migration 032, one definition per statement. The table's
  \<^verbatim>\<open>CHECK\<close> constraints are \<open>rra_checks\<close>, its partial unique index \<open>rra_active\<close>.

  The deciding updates (approve, reject, cancel) and the final updates (revoke, consume) are two
  families of compare-and-set operations; both are interpreted as \<open>exclusive_cas\<close>. Concurrency is
  the relation \<open>rra_step\<close>: any statement of the repository, by any caller, at any time. Its
  invariant holds in every reachable table, and every step follows the abstract life cycle of an
  authorization.
\<close>

type_synonym auth_table = "auth_row list"

section \<open>Constraints of the table\<close>

definition rra_active :: "auth_row \<Rightarrow> bool" where
  "rra_active r \<longleftrightarrow> ra_decision r \<in> {''pending'', ''authorized''} \<and>
     ra_consumed_at r = None \<and> ra_revoked_at r = None \<and> ra_expired_at r = None"

definition bounded :: "nat \<Rightarrow> string option \<Rightarrow> bool" where
  "bounded n x = (case x of None \<Rightarrow> True | Some s \<Rightarrow> length s \<le> n)"

definition rra_checks :: "auth_row \<Rightarrow> bool" where
  "rra_checks r \<longleftrightarrow>
     ra_action_type r \<in> set ACTION_TYPES \<and> ra_resource_type r \<in> set RESOURCE_TYPES \<and>
     ra_decision r \<in> set DECISIONS \<and>
     (case ra_policy_result r of None \<Rightarrow> True
      | Some p \<Rightarrow> p \<in> {''allow'', ''deny'', ''not_applicable''}) \<and>
     ra_requested_at r < ra_expires_at r \<and>
     (ra_consumed_at r = None \<or> ra_decision r = ''authorized'') \<and>
     (ra_revoked_at r = None \<or> ra_decision r = ''authorized'') \<and>
     (ra_consumed_at r = None) = (ra_consumed_by r = None) \<and>
     (ra_revoked_at r = None) = (ra_revoked_by r = None) \<and>
     (ra_consumed_at r = None \<or> ra_revoked_at r = None) \<and>
     (ra_decision r = ''pending'' \<or> ra_decided_by r \<noteq> None \<and> ra_decided_at r \<noteq> None) \<and>
     (ra_action_type r \<noteq> ''replay'' \<or> ra_decision r \<noteq> ''authorized'' \<or>
        ra_decided_by r \<noteq> Some (ra_requested_by r)) \<and>
     bounded 64 (ra_decision_reason_code r) \<and> bounded 64 (ra_revocation_reason_code r) \<and>
     btrim_nonempty (ra_resource_state_version r) \<and>
     length (ra_requested_by r) \<le> 128 \<and>
     1 \<le> length (ra_idempotency_key r) \<and> length (ra_idempotency_key r) \<le> 256 \<and>
     btrim_nonempty (ra_idempotency_key r)"

text \<open>
  The isolation predicate \<^verbatim>\<open>_SCOPE\<close>: \<^verbatim>\<open>IS NOT DISTINCT FROM\<close> against a column that is never
  \<^verbatim>\<open>NULL\<close>, so a missing scope matches no row.
\<close>

definition in_scope :: "string option \<Rightarrow> string option \<Rightarrow> auth_row \<Rightarrow> bool" where
  "in_scope team project r \<longleftrightarrow> team = Some (ra_team_id r) \<and> project = Some (ra_project_id r)"

section \<open>Insert and reads\<close>

record auth_request =
  rq_action_type :: string
  rq_resource_type :: string
  rq_resource_id :: string
  rq_requested_by :: string
  rq_requested_role :: string
  rq_resource_state_version :: string
  rq_expires_at :: int
  rq_idempotency_key :: string
  rq_team_id :: "string option"
  rq_project_id :: "string option"
  rq_production_effect :: bool
  rq_production_approval_reference :: "string option"

definition new_auth_row :: "auth_request \<Rightarrow> string \<Rightarrow> string \<Rightarrow> int \<Rightarrow> string \<Rightarrow> string \<Rightarrow> auth_row" where
  "new_auth_row q aid rid now team project =
    \<lparr>ra_authorization_id = aid, ra_action_type = rq_action_type q,
     ra_resource_type = rq_resource_type q, ra_resource_id = rq_resource_id q,
     ra_team_id = team, ra_project_id = project, ra_request_id = rid,
     ra_requested_by = rq_requested_by q, ra_requested_role = rq_requested_role q,
     ra_requested_at = now, ra_decision = ''pending'', ra_decided_by = None,
     ra_decided_role = None, ra_decided_at = None, ra_decision_reason_code = None,
     ra_policy_result = None, ra_policy_version = None,
     ra_resource_state_version = rq_resource_state_version q,
     ra_production_effect = rq_production_effect q,
     ra_production_approval_reference = rq_production_approval_reference q,
     ra_expires_at = rq_expires_at q, ra_consumed_at = None, ra_consumed_by = None,
     ra_revoked_at = None, ra_revoked_by = None, ra_revocation_reason_code = None,
     ra_expired_at = None, ra_idempotency_key = rq_idempotency_key q, ra_updated_at = now\<rparr>"

text \<open>
  \<open>aid\<close> and \<open>rid\<close> are the \<^verbatim>\<open>uuid_generate_v4()\<close> defaults of the new row. The unique indexes are
  checked in the order in which the migration creates them.
\<close>

definition create_request ::
    "string \<Rightarrow> string \<Rightarrow> int \<Rightarrow> auth_request \<Rightarrow> auth_table \<Rightarrow> (auth_row \<times> auth_table) outcome" where
  "create_request aid rid now q t =
    (case rq_team_id q of None \<Rightarrow> Inl (NotNullViolation ''team_id'')
     | Some team \<Rightarrow> (case rq_project_id q of None \<Rightarrow> Inl (NotNullViolation ''project_id'')
     | Some project \<Rightarrow>
        (let row = new_auth_row q aid rid now team project in
         if \<not> rra_checks row then Inl (CheckViolation ''resume_replay_authorizations'')
         else if list_ex (\<lambda>r. ra_authorization_id r = aid) t
           then Inl (UniqueViolation ''resume_replay_authorizations_pkey'')
         else if list_ex (\<lambda>r. ra_idempotency_key r = rq_idempotency_key q) t
           then Inl (UniqueViolation ''uq_rra_idempotency_key'')
         else if list_ex (\<lambda>r. rra_active r \<and> ra_action_type r = rq_action_type q \<and>
                  ra_resource_id r = rq_resource_id q) t
           then Inl (UniqueViolation ''uq_rra_active_request'')
         else Inr (row, t @ [row]))))"

definition get_authorization ::
    "string \<Rightarrow> string option \<Rightarrow> string option \<Rightarrow> auth_table \<Rightarrow> auth_row option" where
  "get_authorization aid team project t =
     fetchrow (\<lambda>r. ra_authorization_id r = aid \<and> in_scope team project r) t"

definition get_active_by_resource ::
    "string \<Rightarrow> string \<Rightarrow> string option \<Rightarrow> string option \<Rightarrow> auth_table \<Rightarrow> auth_row option" where
  "get_active_by_resource action resource team project t =
     fetchrow (\<lambda>r. ra_action_type r = action \<and> ra_resource_id r = resource \<and> rra_active r \<and>
       in_scope team project r) t"

section \<open>The deciding and the final updates\<close>

datatype decide_op =
    Approve (d_now: int) (d_by: string) (d_role: string) (d_reason: "string option")
      (d_policy: string) (d_version: string) (d_team: "string option") (d_project: "string option")
  | Reject (d_now: int) (d_by: string) (d_role: string) (d_reason: "string option")
      (d_team: "string option") (d_project: "string option")
  | Cancel (d_now: int) (d_by: string) (d_role: string) (d_reason: "string option")
      (d_team: "string option") (d_project: "string option")

definition decide_guard :: "decide_op \<Rightarrow> auth_row \<Rightarrow> bool" where
  "decide_guard p r \<longleftrightarrow> ra_decision r = ''pending'' \<and> ra_expired_at r = None \<and>
     in_scope (d_team p) (d_project p) r"

fun decide_upd :: "decide_op \<Rightarrow> auth_row \<Rightarrow> auth_row" where
  "decide_upd (Approve now by rl reason policy version _ _) r =
     r\<lparr>ra_decision := ''authorized'', ra_decided_by := Some by, ra_decided_role := Some rl,
       ra_decided_at := Some now, ra_decision_reason_code := reason,
       ra_policy_result := Some policy, ra_policy_version := Some version, ra_updated_at := now\<rparr>"
| "decide_upd (Reject now by rl reason _ _) r =
     r\<lparr>ra_decision := ''rejected'', ra_decided_by := Some by, ra_decided_role := Some rl,
       ra_decided_at := Some now, ra_decision_reason_code := reason, ra_updated_at := now\<rparr>"
| "decide_upd (Cancel now by rl reason _ _) r =
     r\<lparr>ra_decision := ''canceled'', ra_decided_by := Some by, ra_decided_role := Some rl,
       ra_decided_at := Some now, ra_decision_reason_code := reason, ra_updated_at := now\<rparr>"

datatype final_op =
    Revoke (f_now: int) (f_by: string) (f_reason: "string option")
      (f_team: "string option") (f_project: "string option")
  | Consume (f_now: int) (f_by: string) (f_version: string)
      (f_team: "string option") (f_project: "string option")

fun final_guard :: "final_op \<Rightarrow> auth_row \<Rightarrow> bool" where
  "final_guard (Revoke now by reason team project) r \<longleftrightarrow>
     ra_decision r = ''authorized'' \<and>
     ra_consumed_at r = None \<and> ra_revoked_at r = None \<and> ra_expired_at r = None \<and>
     in_scope team project r"
| "final_guard (Consume now by version team project) r \<longleftrightarrow>
     ra_decision r = ''authorized'' \<and>
     ra_consumed_at r = None \<and> ra_revoked_at r = None \<and> ra_expired_at r = None \<and>
     now < ra_expires_at r \<and> ra_resource_state_version r = version \<and>
     in_scope team project r"

fun final_upd :: "final_op \<Rightarrow> auth_row \<Rightarrow> auth_row" where
  "final_upd (Revoke now by reason _ _) r =
     r\<lparr>ra_revoked_at := Some now, ra_revoked_by := Some by, ra_revocation_reason_code := reason,
       ra_updated_at := now\<rparr>"
| "final_upd (Consume now by _ _ _) r =
     r\<lparr>ra_consumed_at := Some now, ra_consumed_by := Some by, ra_updated_at := now\<rparr>"

definition decide :: "decide_op \<Rightarrow> string \<Rightarrow> auth_table \<Rightarrow> (auth_row option \<times> auth_table) outcome" where
  "decide p aid t =
     checked_update ''resume_replay_authorizations'' rra_checks
       (\<lambda>r. ra_authorization_id r = aid \<and> decide_guard p r) (decide_upd p) t"

definition finish :: "final_op \<Rightarrow> string \<Rightarrow> auth_table \<Rightarrow> (auth_row option \<times> auth_table) outcome" where
  "finish p aid t =
     checked_update ''resume_replay_authorizations'' rra_checks
       (\<lambda>r. ra_authorization_id r = aid \<and> final_guard p r) (final_upd p) t"

definition approve where
  "approve now aid by rl reason policy version team project =
     decide (Approve now by rl reason policy version team project) aid"

definition reject where
  "reject now aid by rl reason team project = decide (Reject now by rl reason team project) aid"

definition cancel where
  "cancel now aid by rl reason team project = decide (Cancel now by rl reason team project) aid"

definition revoke where
  "revoke now aid by reason team project = finish (Revoke now by reason team project) aid"

definition consume where
  "consume now aid by version team project = finish (Consume now by version team project) aid"

section \<open>The expiry scan\<close>

definition expiry_due :: "int \<Rightarrow> auth_row \<Rightarrow> bool" where
  "expiry_due now r \<longleftrightarrow> rra_active r \<and> ra_expires_at r \<le> now"

text \<open>
  \<open>scan\<close> is the order in which the database visits the rows of the inner query, which has a
  \<^verbatim>\<open>LIMIT\<close> and no \<^verbatim>\<open>ORDER BY\<close>.
\<close>

definition expire_due_authorizations ::
    "(auth_table \<Rightarrow> auth_table) \<Rightarrow> int \<Rightarrow> nat \<Rightarrow> auth_table \<Rightarrow> nat \<times> auth_table" where
  "expire_due_authorizations scan now limit t =
    (let picked = map ra_authorization_id (take limit (filter (expiry_due now) (scan t)));
         p = (\<lambda>r. expiry_due now r \<and> ra_authorization_id r \<in> set picked)
     in (length (filter p t),
         update_where p (\<lambda>r. r\<lparr>ra_expired_at := Some now, ra_updated_at := now\<rparr>) t))"

end
