(* ===== verification/Authz_Lifecycle.thy ===== *)
theory Authz_Lifecycle imports Authz_Repo begin

text \<open>
  The life of an authorization under concurrent callers. \<open>rra_step\<close> has one rule per statement of
  the repository; \<open>rra_inv\<close> is what every reachable table satisfies; \<open>life_step\<close> is the abstract
  life cycle that every step refines. The single-use theorem follows: after one consume has won, no
  sequence of repository statements makes another final update of the same row succeed.
\<close>

section \<open>Compare-and-set families\<close>

lemma decide_upd_keys [simp]:
  "ra_authorization_id (decide_upd p r) = ra_authorization_id r"
  "ra_idempotency_key (decide_upd p r) = ra_idempotency_key r"
  "ra_action_type (decide_upd p r) = ra_action_type r"
  "ra_resource_id (decide_upd p r) = ra_resource_id r"
  by (cases p; simp)+

lemma final_upd_keys [simp]:
  "ra_authorization_id (final_upd p r) = ra_authorization_id r"
  "ra_idempotency_key (final_upd p r) = ra_idempotency_key r"
  "ra_action_type (final_upd p r) = ra_action_type r"
  "ra_resource_id (final_upd p r) = ra_resource_id r"
  by (cases p; simp)+

interpretation decides: exclusive_cas ra_authorization_id decide_guard decide_upd
proof
  show "ra_authorization_id (decide_upd p r) = ra_authorization_id r" for p r by simp
  show "decide_guard p r \<Longrightarrow> \<not> decide_guard q (decide_upd p r)" for p q r
    by (cases p) (simp_all add: decide_guard_def)
qed

interpretation finals: exclusive_cas ra_authorization_id final_guard final_upd
proof
  show "ra_authorization_id (final_upd p r) = ra_authorization_id r" for p r by simp
  show "final_guard p r \<Longrightarrow> \<not> final_guard q (final_upd p r)" for p q r
    by (cases p; cases q; simp)
qed

lemma decide_cas:
  "decide p aid t = Inr x \<Longrightarrow> x = cas ra_authorization_id decide_guard decide_upd p aid t"
  by (simp add: decide_def cas_def checked_update_Inr)

lemma finish_cas:
  "finish p aid t = Inr x \<Longrightarrow> x = cas ra_authorization_id final_guard final_upd p aid t"
  by (simp add: finish_def cas_def checked_update_Inr)

section \<open>The abstract life cycle\<close>

datatype auth_life = Pending | Authorized | Rejected | Canceled | Expired | Revoked | Consumed

definition life :: "auth_row \<Rightarrow> auth_life" where
  "life r =
    (if ra_consumed_at r \<noteq> None then Consumed
     else if ra_revoked_at r \<noteq> None then Revoked
     else if ra_expired_at r \<noteq> None then Expired
     else if ra_decision r = ''rejected'' then Rejected
     else if ra_decision r = ''canceled'' then Canceled
     else if ra_decision r = ''authorized'' then Authorized
     else Pending)"

inductive life_step :: "auth_life \<Rightarrow> auth_life \<Rightarrow> bool" where
  authorize: "life_step Pending Authorized"
| reject: "life_step Pending Rejected"
| cancel: "life_step Pending Canceled"
| expire_pending: "life_step Pending Expired"
| expire_authorized: "life_step Authorized Expired"
| revoke: "life_step Authorized Revoked"
| consume: "life_step Authorized Consumed"

inductive_cases life_step_fromE: "life_step l l'"
inductive_simps life_step_simps: "life_step l l'"

definition terminal :: "auth_life \<Rightarrow> bool" where
  "terminal l \<longleftrightarrow> l \<in> {Rejected, Canceled, Expired, Revoked, Consumed}"

lemma terminal_no_step: "terminal l \<Longrightarrow> \<not> life_step l l'"
  by (auto simp: terminal_def elim: life_step_fromE)

section \<open>The step relation\<close>

inductive rra_step :: "auth_table \<Rightarrow> auth_table \<Rightarrow> bool" where
  insert: "create_request aid rid now q t = Inr (row, t') \<Longrightarrow> rra_step t t'"
| decide: "decide p aid t = Inr (x, t') \<Longrightarrow> rra_step t t'"
| finish: "finish p aid t = Inr (x, t') \<Longrightarrow> rra_step t t'"
| expire: "expire_due_authorizations scan now limit t = (n, t') \<Longrightarrow> rra_step t t'"

definition expire_upd :: "int \<Rightarrow> auth_row \<Rightarrow> auth_row" where
  "expire_upd now r = r\<lparr>ra_expired_at := Some now, ra_updated_at := now\<rparr>"

text \<open>Every step appends one fresh pending row or rewrites rows in place by one of the updates.\<close>

lemma create_request_Inr:
  assumes "create_request aid rid now q t = Inr (row, t')"
  obtains team project where "row = new_auth_row q aid rid now team project" "t' = t @ [row]"
    "rq_team_id q = Some team" "rq_project_id q = Some project" "rra_checks row"
    "aid \<notin> ra_authorization_id ` set t" "rq_idempotency_key q \<notin> ra_idempotency_key ` set t"
    "\<forall>r \<in> set t. rra_active r \<longrightarrow>
       \<not> (ra_action_type r = rq_action_type q \<and> ra_resource_id r = rq_resource_id q)"
proof -
  from assms obtain team project where tp: "rq_team_id q = Some team" "rq_project_id q = Some project"
    by (auto simp: create_request_def split: option.splits)
  show thesis
    using assms unfolding create_request_def tp Let_def
    by (intro that[of team project])
       (auto simp: tp list_ex_iff image_iff split: if_splits)
qed

lemma rra_step_cases:
  assumes "rra_step t t'"
  obtains (new) aid rid now q row where "create_request aid rid now q t = Inr (row, t')"
  | (upd) P f where "t' = update_where P f t"
      "\<And>r. r \<in> set t \<Longrightarrow> P r \<Longrightarrow>
         (\<exists>p. decide_guard p r \<and> f r = decide_upd p r \<and> rra_checks (f r)) \<or>
         (\<exists>p. final_guard p r \<and> f r = final_upd p r \<and> rra_checks (f r)) \<or>
         (\<exists>now. expiry_due now r \<and> f r = expire_upd now r)"
  using assms
proof cases
  case (insert aid rid now q row)
  then show ?thesis by (rule new)
next
  case (decide p aid x)
  then show ?thesis
    by (intro upd[of "\<lambda>r. ra_authorization_id r = aid \<and> decide_guard p r" "decide_upd p"])
       (auto simp: decide_def checked_update_Inr update_returning_def)
next
  case (finish p aid x)
  then show ?thesis
    by (intro upd[of "\<lambda>r. ra_authorization_id r = aid \<and> final_guard p r" "final_upd p"])
       (auto simp: finish_def checked_update_Inr update_returning_def)
next
  case (expire scan now limit n)
  then show ?thesis
    by (intro upd[of "\<lambda>r. expiry_due now r \<and> ra_authorization_id r \<in>
          set (map ra_authorization_id (take limit (filter (expiry_due now) (scan t))))"
          "expire_upd now"])
       (auto simp: expire_due_authorizations_def Let_def expire_upd_def[abs_def])
qed

section \<open>The invariant\<close>

definition rra_wf :: "auth_row \<Rightarrow> bool" where
  "rra_wf r \<longleftrightarrow> rra_checks r \<and>
     (ra_expired_at r \<noteq> None \<longrightarrow> ra_consumed_at r = None \<and> ra_revoked_at r = None \<and>
        ra_decision r \<in> {''pending'', ''authorized''})"

definition one_active :: "auth_table \<Rightarrow> bool" where
  "one_active t \<longleftrightarrow>
     (\<forall>r \<in> set t. \<forall>r' \<in> set t. rra_active r \<and> rra_active r' \<and>
        ra_action_type r = ra_action_type r' \<and> ra_resource_id r = ra_resource_id r' \<longrightarrow>
        ra_authorization_id r = ra_authorization_id r')"

definition rra_inv :: "auth_table \<Rightarrow> bool" where
  "rra_inv t \<longleftrightarrow> distinct (map ra_authorization_id t) \<and> distinct (map ra_idempotency_key t) \<and>
     (\<forall>r \<in> set t. rra_wf r) \<and> one_active t"

lemma one_activeI:
  "(\<And>r r'. r \<in> set t \<Longrightarrow> r' \<in> set t \<Longrightarrow> rra_active r \<Longrightarrow> rra_active r' \<Longrightarrow>
      ra_action_type r = ra_action_type r' \<Longrightarrow> ra_resource_id r = ra_resource_id r' \<Longrightarrow>
      ra_authorization_id r = ra_authorization_id r') \<Longrightarrow> one_active t"
  unfolding one_active_def by blast

lemma one_activeD:
  "one_active t \<Longrightarrow> r \<in> set t \<Longrightarrow> r' \<in> set t \<Longrightarrow> rra_active r \<Longrightarrow> rra_active r' \<Longrightarrow>
   ra_action_type r = ra_action_type r' \<Longrightarrow> ra_resource_id r = ra_resource_id r' \<Longrightarrow>
   ra_authorization_id r = ra_authorization_id r'"
  unfolding one_active_def by blast

definition rra_upd_ok :: "auth_row \<Rightarrow> auth_row \<Rightarrow> bool" where
  "rra_upd_ok r r' \<longleftrightarrow>
     (\<exists>p. decide_guard p r \<and> r' = decide_upd p r \<and> rra_checks r') \<or>
     (\<exists>p. final_guard p r \<and> r' = final_upd p r \<and> rra_checks r') \<or>
     (\<exists>now. expiry_due now r \<and> r' = expire_upd now r)"

lemma rra_upd_ok_cases:
  assumes "rra_upd_ok r r'"
  obtains (decide) p where "decide_guard p r" "r' = decide_upd p r" "rra_checks r'"
  | (finish) p where "final_guard p r" "r' = final_upd p r" "rra_checks r'"
  | (expire) now where "expiry_due now r" "r' = expire_upd now r"
  using assms by (auto simp: rra_upd_ok_def)

lemma rra_upd_keys:
  assumes "rra_upd_ok r r'"
  shows "ra_authorization_id r' = ra_authorization_id r" "ra_idempotency_key r' = ra_idempotency_key r"
    "ra_action_type r' = ra_action_type r" "ra_resource_id r' = ra_resource_id r"
  using assms by (cases rule: rra_upd_ok_cases; simp add: expire_upd_def)+

lemma rra_upd_active:
  assumes "rra_upd_ok r r'" "rra_active r'"
  shows "rra_active r"
  using assms(1)
proof (cases rule: rra_upd_ok_cases)
  case (decide p)
  then show ?thesis using assms(2)
    by (cases p) (auto simp: rra_active_def decide_guard_def)
next
  case (finish p)
  then show ?thesis using assms(2) by (cases p) (auto simp: rra_active_def)
next
  case (expire now)
  then show ?thesis by (simp add: expiry_due_def)
qed

lemma rra_upd_wf:
  assumes "rra_upd_ok r r'" "rra_wf r"
  shows "rra_wf r'"
  using assms(1)
proof (cases rule: rra_upd_ok_cases)
  case (decide p)
  then show ?thesis by (cases p) (simp_all add: rra_wf_def decide_guard_def)
next
  case (finish p)
  then show ?thesis by (cases p) (simp_all add: rra_wf_def)
next
  case (expire now)
  then show ?thesis using assms(2)
    by (simp add: rra_wf_def rra_checks_def expire_upd_def expiry_due_def rra_active_def)
qed

lemma rra_inv_update:
  assumes inv: "rra_inv t" and ok: "\<And>r. r \<in> set t \<Longrightarrow> P r \<Longrightarrow> rra_upd_ok r (f r)"
  shows "rra_inv (update_where P f t)"
proof -
  define g where "g r = (if P r then f r else r)" for r
  have t': "update_where P f t = map g t" by (simp add: update_where_def g_def[abs_def])
  have keep: "ra_authorization_id (g r) = ra_authorization_id r \<and>
      ra_idempotency_key (g r) = ra_idempotency_key r \<and>
      ra_action_type (g r) = ra_action_type r \<and> ra_resource_id (g r) = ra_resource_id r"
    if "r \<in> set t" for r
    using ok[OF that] rra_upd_keys[of r "f r"] by (simp add: g_def)
  have wf: "\<forall>r \<in> set t. rra_wf r" using inv by (simp add: rra_inv_def)
  have wf': "\<forall>r \<in> set t. rra_wf (g r)" using wf ok rra_upd_wf unfolding g_def by metis
  have act: "rra_active r" if "r \<in> set t" "rra_active (g r)" for r
    using that ok rra_upd_active unfolding g_def by metis
  have "map ra_authorization_id (map g t) = map ra_authorization_id t"
    "map ra_idempotency_key (map g t) = map ra_idempotency_key t" using keep by auto
  moreover have "one_active (map g t)"
  proof (rule one_activeI)
    fix x x'
    assume a: "x \<in> set (map g t)" "x' \<in> set (map g t)" "rra_active x" "rra_active x'"
      "ra_action_type x = ra_action_type x'" "ra_resource_id x = ra_resource_id x'"
    then obtain r r' where r: "r \<in> set t" "x = g r" "r' \<in> set t" "x' = g r'" by auto
    have "one_active t" using inv by (simp add: rra_inv_def)
    then have "ra_authorization_id r = ra_authorization_id r'"
      using r a(3-6) act[of r] act[of r'] keep[of r] keep[of r'] one_activeD[of t r r'] by simp
    then show "ra_authorization_id x = ra_authorization_id x'"
      using r keep by simp
  qed
  moreover have "\<forall>x \<in> set (map g t). rra_wf x" using wf' by simp
  ultimately show ?thesis using inv unfolding rra_inv_def t' by metis
qed

lemma rra_inv_insert:
  assumes inv: "rra_inv t" and ins: "create_request aid rid now q t = Inr (row, t')"
  shows "rra_inv t'"
  using ins
proof (rule create_request_Inr)
  fix team project
  assume row: "row = new_auth_row q aid rid now team project" and t': "t' = t @ [row]"
    and chk: "rra_checks row" and fresh: "aid \<notin> ra_authorization_id ` set t"
      "rq_idempotency_key q \<notin> ra_idempotency_key ` set t"
    and excl: "\<forall>r \<in> set t. rra_active r \<longrightarrow>
       \<not> (ra_action_type r = rq_action_type q \<and> ra_resource_id r = rq_resource_id q)"
  have "ra_authorization_id row = aid" "ra_idempotency_key row = rq_idempotency_key q"
    "ra_action_type row = rq_action_type q" "ra_resource_id row = rq_resource_id q"
    "ra_expired_at row = None" by (simp_all add: row new_auth_row_def)
  note row_keys = this
  have "rra_wf row" using chk row_keys by (simp add: rra_wf_def)
  moreover have "one_active (t @ [row])"
  proof (rule one_activeI)
    fix x x'
    assume a: "x \<in> set (t @ [row])" "x' \<in> set (t @ [row])" "rra_active x" "rra_active x'"
      "ra_action_type x = ra_action_type x'" "ra_resource_id x = ra_resource_id x'"
    have "one_active t" using inv by (simp add: rra_inv_def)
    with a excl row_keys show "ra_authorization_id x = ra_authorization_id x'"
      using one_activeD[of t x x'] by (metis Un_iff empty_iff insert_iff list.set(1,2) set_append)
  qed
  ultimately show ?thesis
    using inv fresh row_keys unfolding rra_inv_def t' by simp
qed

lemma rra_step_inv: "rra_step t t' \<Longrightarrow> rra_inv t \<Longrightarrow> rra_inv t'"
proof (erule rra_step_cases)
  show "create_request aid rid now q t = Inr (row, t') \<Longrightarrow> rra_inv t \<Longrightarrow> rra_inv t'"
    for aid rid now q row by (rule rra_inv_insert)
next
  fix P f
  assume "t' = update_where P f t" "rra_inv t" and
    ok: "\<And>r. r \<in> set t \<Longrightarrow> P r \<Longrightarrow>
      (\<exists>p. decide_guard p r \<and> f r = decide_upd p r \<and> rra_checks (f r)) \<or>
      (\<exists>p. final_guard p r \<and> f r = final_upd p r \<and> rra_checks (f r)) \<or>
      (\<exists>now. expiry_due now r \<and> f r = expire_upd now r)"
  then show "rra_inv t'" using rra_inv_update[of t P f] ok by (simp add: rra_upd_ok_def)
qed

interpretation rra: invariant_system "[] :: auth_table" rra_step rra_inv
  by unfold_locales (simp_all add: rra_inv_def[of "[]"] one_active_def[of "[]"] rra_step_inv)

section \<open>Every step follows the life cycle\<close>

text \<open>The columns no statement ever writes after the insert.\<close>

definition rra_identity where
  "rra_identity r =
    ((ra_authorization_id r, ra_action_type r, ra_resource_type r, ra_resource_id r),
     (ra_team_id r, ra_project_id r, ra_request_id r, ra_requested_by r, ra_requested_role r),
     (ra_requested_at r, ra_resource_state_version r, ra_production_effect r),
     (ra_production_approval_reference r, ra_expires_at r, ra_idempotency_key r))"

lemma rra_upd_life:
  assumes "rra_upd_ok r r'" "rra_wf r"
  shows "life_step (life r) (life r') \<and> rra_identity r' = rra_identity r"
  using assms(1)
proof (cases rule: rra_upd_ok_cases)
  case (decide p)
  then show ?thesis using assms(2)
    by (cases p) (auto simp: life_def rra_identity_def decide_guard_def rra_wf_def rra_checks_def
        life_step_simps)
next
  case (finish p)
  then show ?thesis
    by (cases p) (auto simp: life_def rra_identity_def life_step_simps)
next
  case (expire now)
  then show ?thesis
    by (auto simp: life_def rra_identity_def expire_upd_def expiry_due_def rra_active_def
        life_step_simps)
qed

lemma rra_step_rows:
  assumes "rra_inv t" "rra_step t t'"
  obtains (new) row where "t' = t @ [row]" "life row = Pending" "ra_consumed_at row = None"
      "ra_authorization_id row \<notin> ra_authorization_id ` set t"
  | (upd) g where "t' = map g t"
      "\<And>r. r \<in> set t \<Longrightarrow> rra_identity (g r) = rra_identity r"
      "\<And>r. r \<in> set t \<Longrightarrow> g r = r \<or> life_step (life r) (life (g r))"
  using assms(2)
proof (cases rule: rra_step_cases)
  case (new aid rid now q row)
  then show ?thesis
    by (elim create_request_Inr) (intro that(1)[of row], auto simp: life_def new_auth_row_def)
next
  case (upd P f)
  have ok: "rra_upd_ok r (f r)" if "r \<in> set t" "P r" for r
    using upd(2)[OF that] by (simp add: rra_upd_ok_def)
  have wf: "rra_wf r" if "r \<in> set t" for r using assms(1) that by (simp add: rra_inv_def)
  show ?thesis
  proof (rule that(2)[of "\<lambda>r. if P r then f r else r"])
    show "t' = map (\<lambda>r. if P r then f r else r) t" using upd(1) by (simp add: update_where_def)
    show "rra_identity (if P r then f r else r) = rra_identity r" if "r \<in> set t" for r
      using rra_upd_life[OF ok wf] that by simp
    show "(if P r then f r else r) = r \<or> life_step (life r) (life (if P r then f r else r))"
      if "r \<in> set t" for r using rra_upd_life[OF ok wf] that by simp
  qed
qed

lemma rra_identity_id: "rra_identity r' = rra_identity r \<Longrightarrow> ra_authorization_id r' = ra_authorization_id r"
  by (simp add: rra_identity_def)

lemma rra_step_moves:
  assumes "rra_inv t" "rra_step t t'" "r \<in> set t"
  shows "\<exists>r' \<in> set t'. rra_identity r' = rra_identity r \<and> (r' = r \<or> life_step (life r) (life r'))"
  using assms(1,2)
proof (cases rule: rra_step_rows)
  case (new row)
  then show ?thesis using assms(3) by (intro bexI[of _ r]) auto
next
  case (upd g)
  then show ?thesis using assms(3) by (intro bexI[of _ "g r"]) auto
qed

lemma rra_step_frozen:
  assumes "rra_inv t" "rra_step t t'" "r \<in> set t" "terminal (life r)"
  shows "r \<in> set t'"
  using assms(1,2)
proof (cases rule: rra_step_rows)
  case (new row)
  then show ?thesis using assms(3) by simp
next
  case (upd g)
  then have "g r = r" using assms(3) terminal_no_step[OF assms(4)] by blast
  then show ?thesis using upd(1) assms(3) by force
qed

lemma rra_step_new_pending:
  assumes "rra_inv t" "rra_step t t'" "r' \<in> set t'"
    "ra_authorization_id r' \<notin> ra_authorization_id ` set t"
  shows "life r' = Pending"
  using assms(1,2)
proof (cases rule: rra_step_rows)
  case (new row)
  then show ?thesis using assms(3,4) by auto
next
  case (upd g)
  then obtain r where "r \<in> set t" "r' = g r" using assms(3) by auto
  then show ?thesis using upd(2) assms(4) rra_identity_id by (metis imageI)
qed

lemma rra_terminal_frozen:
  assumes "rra_step\<^sup>*\<^sup>* t t'" "rra_inv t" "r \<in> set t" "terminal (life r)"
  shows "r \<in> set t'"
proof -
  from assms(1) have "rra_inv t' \<and> r \<in> set t'"
    by (induction rule: rtranclp_induct) (use assms rra_step_inv rra_step_frozen in blast)+
  then show ?thesis by blast
qed

text \<open>
  C5. Refinement of the abstract life cycle: one statement of the repository, whoever runs it,
  leaves every row of the table as it was or moves it along one transition of \<open>life_step\<close> with all
  identity columns unchanged; a row in a terminal state is never written again; rows are never
  deleted, and a new row starts as pending.
\<close>

theorem rra_step_refines_life_cycle:
  assumes "rra_inv t" "rra_step t t'"
  shows "(\<forall>r \<in> set t. \<exists>r' \<in> set t'. rra_identity r' = rra_identity r \<and>
            (r' = r \<or> life_step (life r) (life r'))) \<and>
    (\<forall>r \<in> set t. terminal (life r) \<longrightarrow> r \<in> set t') \<and>
    (\<forall>r' \<in> set t'. ra_authorization_id r' \<notin> ra_authorization_id ` set t \<longrightarrow> life r' = Pending)"
  using assms rra_step_moves rra_step_frozen rra_step_new_pending by blast

text \<open>A table with one authorized replay, requested by one operator and approved by another.\<close>

definition demo_request :: auth_request where
  "demo_request =
    \<lparr>rq_action_type = ''replay'', rq_resource_type = ''outbox_event'', rq_resource_id = ''ev1'',
     rq_requested_by = ''u1'', rq_requested_role = ''agent_operator'',
     rq_resource_state_version = ''v1'', rq_expires_at = 100, rq_idempotency_key = ''k1'',
     rq_team_id = Some ''t1'', rq_project_id = Some ''p1'', rq_production_effect = False,
     rq_production_approval_reference = None\<rparr>"

definition demo_row :: auth_row where
  "demo_row = new_auth_row demo_request ''a1'' ''q1'' 10 ''t1'' ''p1''"

definition demo_approve :: decide_op where
  "demo_approve = Approve 20 ''u2'' ''reviewer_approver'' (Some ''policy_allow'') ''allow'' ''pv1''
     (Some ''t1'') (Some ''p1'')"

definition demo_authorized :: auth_row where
  "demo_authorized = decide_upd demo_approve demo_row"

lemmas demo_defs =
  demo_request_def demo_row_def demo_approve_def demo_authorized_def new_auth_row_def

lemma demo_checks: "rra_checks demo_row" "rra_checks demo_authorized"
  by (simp_all add: rra_checks_def demo_defs ACTION_TYPES_def RESOURCE_TYPES_def DECISIONS_def
      bounded_def btrim_nonempty_def)

lemma demo_inv: "rra_inv [demo_row]" "rra_inv [demo_authorized]"
  using demo_checks by (simp_all add: rra_inv_def one_active_def rra_wf_def demo_defs)

lemma demo_approved: "decide demo_approve ''a1'' [demo_row] = Inr (Some demo_authorized, [demo_authorized])"
  using demo_checks
  by (simp add: decide_def checked_update_def update_returning_def table_simps decide_guard_def
      in_scope_def demo_defs)

lemma demo_step: "rra_step [demo_row] [demo_authorized]"
  using demo_approved by (rule rra_step.decide)

theorem rra_step_refines_life_cycle_witness:
  "rra_inv [demo_row] \<and> rra_step [demo_row] [demo_authorized] \<and>
   life_step (life demo_row) (life demo_authorized) \<and> demo_row \<noteq> demo_authorized"
proof -
  have "demo_row \<noteq> demo_authorized" by (simp add: demo_defs)
  then show ?thesis
    using rra_step_refines_life_cycle[OF demo_inv(1) demo_step] demo_inv(1) demo_step by simp
qed

text \<open>
  C7. What every reachable table satisfies, under any interleaving of the repository's statements:
  ids and idempotency keys are unique, at most one authorization is active per action and resource,
  an authorization is never both consumed and revoked and only an authorized one is either, and an
  authorized replay was decided by somebody other than its requester.
\<close>

theorem reachable_authorizations_sound:
  assumes "rra_step\<^sup>*\<^sup>* [] t"
  shows "distinct (map ra_authorization_id t) \<and> distinct (map ra_idempotency_key t) \<and>
    (\<forall>r \<in> set t. \<forall>r' \<in> set t. rra_active r \<and> rra_active r' \<and> ra_action_type r = ra_action_type r' \<and>
       ra_resource_id r = ra_resource_id r' \<longrightarrow> r = r') \<and>
    (\<forall>r \<in> set t. \<not> (ra_consumed_at r \<noteq> None \<and> ra_revoked_at r \<noteq> None) \<and>
       (ra_consumed_at r \<noteq> None \<or> ra_revoked_at r \<noteq> None \<longrightarrow>
          ra_decision r = ''authorized'' \<and> ra_expired_at r = None) \<and>
       (ra_action_type r = ''replay'' \<and> ra_decision r = ''authorized'' \<longrightarrow>
          ra_decided_by r \<noteq> Some (ra_requested_by r)))"
proof -
  have inv: "rra_inv t" using assms by (rule rra.inv_reachable)
  then have d: "distinct (map ra_authorization_id t)" "distinct (map ra_idempotency_key t)"
    and wf: "\<forall>r \<in> set t. rra_wf r" and one: "one_active t" by (simp_all add: rra_inv_def)
  have "r = r'" if "r \<in> set t" "r' \<in> set t" "rra_active r" "rra_active r'"
      "ra_action_type r = ra_action_type r'" "ra_resource_id r = ra_resource_id r'" for r r'
    using one_activeD[OF one that] distinct_map_eqD[OF d(1) that(1,2)] by simp
  moreover have "\<forall>r \<in> set t. \<not> (ra_consumed_at r \<noteq> None \<and> ra_revoked_at r \<noteq> None) \<and>
       (ra_consumed_at r \<noteq> None \<or> ra_revoked_at r \<noteq> None \<longrightarrow>
          ra_decision r = ''authorized'' \<and> ra_expired_at r = None) \<and>
       (ra_action_type r = ''replay'' \<and> ra_decision r = ''authorized'' \<longrightarrow>
          ra_decided_by r \<noteq> Some (ra_requested_by r))"
    using wf unfolding rra_wf_def rra_checks_def by (metis option.distinct(1))
  ultimately show ?thesis using d by blast
qed

lemma demo_insert: "create_request ''a1'' ''q1'' 10 demo_request [] = Inr (demo_row, [demo_row])"
  using demo_checks(1)
  by (simp add: create_request_def demo_row_def demo_request_def Let_def)

theorem reachable_authorizations_sound_witness:
  "rra_step\<^sup>*\<^sup>* [] [demo_authorized] \<and> ra_action_type demo_authorized = ''replay'' \<and>
   ra_decided_by demo_authorized \<noteq> Some (ra_requested_by demo_authorized)"
proof -
  have r: "rra_step\<^sup>*\<^sup>* [] [demo_authorized]"
    using rra_step.insert[OF demo_insert] demo_step by (meson converse_rtranclp_into_rtranclp r_into_rtranclp)
  have "ra_action_type demo_authorized = ''replay''" "ra_decision demo_authorized = ''authorized''"
    by (simp_all add: demo_defs)
  then show ?thesis using reachable_authorizations_sound[OF r] r by simp
qed

text \<open>
  C29. Single use: once one consume has won, no later final update of that authorization (a second
  consume with any version and clock, or a revoke) succeeds, whatever statements other callers
  have run in between; the consumed row itself stays as the winner wrote it.
\<close>

theorem consume_wins_once:
  assumes "rra_inv t" "consume now aid by v team project t = Inr (Some r, t1)"
    "rra_step\<^sup>*\<^sup>* t1 t2" "finish p aid t2 = Inr (res, t3)"
  shows "res = None \<and> t3 = t2 \<and> r \<in> set t2 \<and> ra_consumed_by r = Some by \<and> ra_consumed_at r = Some now"
proof -
  from assms(2) have fin: "finish (Consume now by v team project) aid t = Inr (Some r, t1)"
    by (simp add: consume_def)
  then obtain r0 where r0: "ra_authorization_id r0 = aid"
      "r = final_upd (Consume now by v team project) r0" "r \<in> set t1"
    using finals.cas_won finish_cas by metis
  have inv1: "rra_inv t1" using rra_step.finish[OF fin] assms(1) rra_step_inv by blast
  have dead: "terminal (life r)" by (simp add: r0(2) life_def terminal_def)
  have r2: "r \<in> set t2" using rra_terminal_frozen[OF assms(3) inv1 r0(3) dead] .
  have inv2: "rra_inv t2" using rra.inv_rtranclp[OF assms(3) inv1] .
  have rid: "ra_authorization_id r = aid" using r0 by simp
  have "\<not> final_guard p r" by (cases p) (simp_all add: r0(2))
  then have "\<forall>x \<in> set t2. \<not> (ra_authorization_id x = aid \<and> final_guard p x)"
    using inv2 r2 rid distinct_map_eqD[of ra_authorization_id t2] by (auto simp: rra_inv_def)
  then have "update_returning (\<lambda>x. ra_authorization_id x = aid \<and> final_guard p x) (final_upd p) t2
      = (None, t2)"
    by (simp add: update_returning_def fetchrow_None_iff update_where_none)
  then show ?thesis
    using assms(4) r2 r0(2) by (simp add: finish_def checked_update_Inr)
qed

definition demo_consumed :: auth_row where
  "demo_consumed = final_upd (Consume 30 ''svc'' ''v1'' (Some ''t1'') (Some ''p1'')) demo_authorized"

lemma demo_consume:
  "consume 30 ''a1'' ''svc'' ''v1'' (Some ''t1'') (Some ''p1'') [demo_authorized] =
     Inr (Some demo_consumed, [demo_consumed])"
  by (simp add: consume_def finish_def checked_update_def update_returning_def table_simps
      in_scope_def demo_consumed_def demo_defs rra_checks_def ACTION_TYPES_def RESOURCE_TYPES_def
      DECISIONS_def bounded_def btrim_nonempty_def)

theorem consume_wins_once_witness:
  "finish (Consume 40 ''svc2'' ''v1'' (Some ''t1'') (Some ''p1'')) ''a1'' [demo_consumed] =
     Inr (None, [demo_consumed]) \<and> ra_consumed_by demo_consumed = Some ''svc''"
proof -
  have f: "finish (Consume 40 ''svc2'' ''v1'' (Some ''t1'') (Some ''p1'')) ''a1'' [demo_consumed] =
      Inr (None, [demo_consumed])"
    by (simp add: finish_def checked_update_def update_returning_def table_simps demo_consumed_def)
  show ?thesis
    using consume_wins_once[OF demo_inv(2) demo_consume rtranclp.rtrancl_refl f] f by simp
qed

end
