(* ===== verification/Py_Uuid.thy ===== *)
theory Py_Uuid imports Prelude begin

text \<open>
  \<^verbatim>\<open>str(uuid.UUID(reference))\<close> of the Python standard library, as
  \<^verbatim>\<open>shared/sdk/tasks/production_approval_repository.py\<close> uses it to read an approval reference:
  the prefixes, braces and hyphens are dropped, 32 characters must remain, and they are read by
  \<^verbatim>\<open>int(hex, 16)\<close> with the underscores, blanks, sign and \<^verbatim>\<open>0x\<close> prefix that accepts.
\<close>

fun py_remove :: "string \<Rightarrow> nat \<Rightarrow> string \<Rightarrow> string" where
  "py_remove sub n [] = []"
| "py_remove sub (Suc n) (c # cs) = py_remove sub n cs"
| "py_remove sub 0 (c # cs) =
     (if starts_with sub (c # cs) then py_remove sub (length sub - 1) cs
      else c # py_remove sub 0 cs)"

definition strip_braces :: "string \<Rightarrow> string" where
  "strip_braces s =
     (let brace = (\<lambda>c. c = CHR ''{'' \<or> c = CHR ''}'')
      in rev (dropWhile brace (rev (dropWhile brace s))))"

definition is_hex :: "char \<Rightarrow> bool" where
  "is_hex c =
     (let n = (of_char c :: nat)
      in (48 \<le> n \<and> n \<le> 57) \<or> (97 \<le> n \<and> n \<le> 102) \<or> (65 \<le> n \<and> n \<le> 70))"

fun hex_digits :: "bool \<Rightarrow> string \<Rightarrow> string option" where
  "hex_digits after_digit [] = (if after_digit then Some [] else None)"
| "hex_digits after_digit (c # cs) =
     (if c = CHR ''_'' then (if after_digit then hex_digits False cs else None)
      else if is_hex c then map_option ((#) (py_lower_char c)) (hex_digits True cs)
      else None)"

text \<open>The value of \<^verbatim>\<open>int(s, 16)\<close>, kept as its hexadecimal digits.\<close>

definition py_int16 :: "string \<Rightarrow> string option" where
  "py_int16 s =
     (let s1 = py_strip s;
          s2 = (case s1 of c # r \<Rightarrow> if c = CHR ''+'' then r else s1 | [] \<Rightarrow> [])
      in if starts_with ''0x'' s2 \<or> starts_with ''0X'' s2 then
           (case drop 2 s2 of
              c # r \<Rightarrow> if c = CHR ''_'' then hex_digits False r else hex_digits False (c # r)
            | [] \<Rightarrow> None)
         else hex_digits False s2)"

text \<open>\<^verbatim>\<open>'%032x'\<close> of that value with the hyphens of a printed UUID.\<close>

definition uuid_text :: "string \<Rightarrow> string" where
  "uuid_text digits =
     (let h = replicate (32 - length digits) CHR ''0'' @ digits in
      take 8 h @ ''-'' @ take 4 (drop 8 h) @ ''-'' @ take 4 (drop 12 h) @ ''-'' @
      take 4 (drop 16 h) @ ''-'' @ drop 20 h)"

definition parse_uuid :: "string \<Rightarrow> string option" where
  "parse_uuid s =
     (let hex = py_remove ''-'' 0 (strip_braces (py_remove ''uuid:'' 0 (py_remove ''urn:'' 0 s)))
      in if length hex \<noteq> 32 then None else map_option uuid_text (py_int16 hex))"

definition demo_uuid :: string where
  "demo_uuid = ''0a1b2c3d-0000-4000-8000-0000000000ff''"

lemma parse_demo_uuid: "parse_uuid demo_uuid = Some demo_uuid"
  by code_simp

lemma parse_braced_uuid:
  "parse_uuid ''{0A1B2C3D-0000-4000-8000-0000000000FF}'' = Some demo_uuid"
  by code_simp

lemma parse_not_uuid: "parse_uuid ''not-a-uuid'' = None"
  by code_simp

end
