(* ===== verification/Approval.thy ===== *)
theory Approval imports Py_Uuid Authz_Model begin

text \<open>
  Production-action approvals: \<^verbatim>\<open>shared/sdk/tasks/production_approval_model.py\<close>,
  \<^verbatim>\<open>production_approval_repository.py\<close> and \<^verbatim>\<open>production_approval_service.py\<close> over the table
  \<^verbatim>\<open>production_action_approvals\<close> of migration 035. An approval is granted directly by an approver
  and is consumed at most once, by the one authorization it is bound to.
\<close>

section \<open>Model\<close>

definition GRANTER_ROLES :: "string list" where
  "GRANTER_ROLES = [''reviewer_approver'', ''platform_admin'']"

definition APPROVAL_REASON_CODES :: "string list" where
  "APPROVAL_REASON_CODES =
    [''ok'', ''granted'', ''rbac_denied'', ''cross_team_denied'', ''cross_project_denied'',
     ''unknown_action_type'', ''unknown_resource_type'', ''invalid_reference'', ''not_found'',
     ''already_revoked'', ''already_consumed'', ''expired'', ''stale_state'', ''wrong_action'',
     ''wrong_resource'', ''wrong_scope'', ''invalid_transition'', ''operator_revoked'']"

definition APPROVAL_SAFE_AUDIT_KEYS :: "string list" where
  "APPROVAL_SAFE_AUDIT_KEYS =
    [''event'', ''approval_id'', ''action_type'', ''resource_type'', ''resource_id'', ''team_id'',
     ''project_id'', ''actor_id'', ''actor_role'', ''state'', ''reason_code'',
     ''resource_state_version'', ''authorization_id'', ''idempotency_key'', ''occurred_at'']"

definition can_grant :: "string \<Rightarrow> bool" where
  "can_grant r \<longleftrightarrow> r \<in> set TASK_ROLES \<and> r \<in> set GRANTER_ROLES"

definition assert_approval_reason_code :: "string option \<Rightarrow> string option outcome" where
  "assert_approval_reason_code code =
    (case code of None \<Rightarrow> Inr None
     | Some c \<Rightarrow> if c \<in> set APPROVAL_REASON_CODES then Inr (Some c)
         else Inl (ValueError (''unknown production-approval reason_code: '' @ c)))"

record approval_row =
  pa_approval_id :: string
  pa_action_type :: string
  pa_resource_type :: string
  pa_resource_id :: string
  pa_team_id :: string
  pa_project_id :: string
  pa_resource_state_version :: string
  pa_state :: string
  pa_granted_by :: string
  pa_granted_role :: string
  pa_granted_at :: int
  pa_reason_code :: "string option"
  pa_expires_at :: int
  pa_consumed_at :: "int option"
  pa_consumed_by :: "string option"
  pa_consumed_by_authorization_id :: "string option"
  pa_revoked_at :: "int option"
  pa_revoked_by :: "string option"
  pa_revocation_reason_code :: "string option"
  pa_idempotency_key :: string
  pa_updated_at :: int

type_synonym approval_table = "approval_row list"

definition approval_state :: "approval_row \<Rightarrow> int \<Rightarrow> string" where
  "approval_state row now =
    (if pa_consumed_at row \<noteq> None then ''consumed''
     else if pa_revoked_at row \<noteq> None then ''revoked''
     else if pa_expires_at row \<le> now then ''expired''
     else ''granted'')"

text \<open>The audit payload of an approval row, as the service's \<^verbatim>\<open>_audit\<close> calls the builder.\<close>

definition approval_audit_raw ::
    "string \<Rightarrow> approval_row \<Rightarrow> actor \<Rightarrow> string option \<Rightarrow> int \<Rightarrow> (string \<times> pval option) list" where
  "approval_audit_raw event row a reason now =
    [(''event'', Some (PStr event)),
     (''approval_id'', Some (PStr (pa_approval_id row))),
     (''action_type'', Some (PStr (pa_action_type row))),
     (''resource_type'', Some (PStr (pa_resource_type row))),
     (''resource_id'', Some (PStr (pa_resource_id row))),
     (''actor_id'', Some (PStr (principal_id a))),
     (''actor_role'', Some (PStr (role a))),
     (''reason_code'', pstr reason),
     (''state'', Some (PStr (approval_state row now))),
     (''team_id'', if pa_team_id row = [] then None else Some (PStr (pa_team_id row))),
     (''project_id'', if pa_project_id row = [] then None else Some (PStr (pa_project_id row))),
     (''resource_state_version'', Some (PStr (pa_resource_state_version row))),
     (''authorization_id'', pstr (pa_consumed_by_authorization_id row)),
     (''idempotency_key'', Some (PStr (pa_idempotency_key row)))]"

definition approval_audit ::
    "string \<Rightarrow> approval_row \<Rightarrow> actor \<Rightarrow> string \<Rightarrow> int \<Rightarrow> payload outcome" where
  "approval_audit event row a code now =
    try_then (assert_approval_reason_code (Some code)) (\<lambda>reason.
      let payload = some_fields (approval_audit_raw event row a reason now) in
      try_then (scan_payload APPROVAL_SAFE_AUDIT_KEYS ''production-approval audit payload'' payload)
        (\<lambda>_. Inr payload))"

section \<open>Repository\<close>

definition paa_checks :: "approval_row \<Rightarrow> bool" where
  "paa_checks r \<longleftrightarrow>
     pa_action_type r \<in> set ACTION_TYPES \<and> pa_resource_type r \<in> set RESOURCE_TYPES \<and>
     pa_state r \<in> {''granted'', ''revoked'', ''consumed''} \<and>
     pa_granted_at r < pa_expires_at r \<and>
     (pa_consumed_at r = None) = (pa_consumed_by r = None) \<and>
     (pa_revoked_at r = None) = (pa_revoked_by r = None) \<and>
     (pa_consumed_at r = None \<or> pa_state r = ''consumed'') \<and>
     (pa_revoked_at r = None \<or> pa_state r = ''revoked'') \<and>
     (pa_consumed_at r = None \<or> pa_revoked_at r = None) \<and>
     (case pa_reason_code r of None \<Rightarrow> True | Some s \<Rightarrow> length s \<le> 64) \<and>
     (case pa_revocation_reason_code r of None \<Rightarrow> True | Some s \<Rightarrow> length s \<le> 64) \<and>
     btrim_nonempty (pa_resource_state_version r) \<and>
     length (pa_granted_by r) \<le> 128 \<and>
     1 \<le> length (pa_idempotency_key r) \<and> length (pa_idempotency_key r) \<le> 256 \<and>
     btrim_nonempty (pa_idempotency_key r)"

definition pa_in_scope :: "string option \<Rightarrow> string option \<Rightarrow> approval_row \<Rightarrow> bool" where
  "pa_in_scope team project r \<longleftrightarrow> team = Some (pa_team_id r) \<and> project = Some (pa_project_id r)"

text \<open>
  \<open>pid\<close> is the generated id. An empty text is not a UUID, so binding one to a \<^verbatim>\<open>UUID\<close> column is a
  data error.
\<close>

definition new_approval ::
    "string \<Rightarrow> int \<Rightarrow> string \<Rightarrow> string \<Rightarrow> string \<Rightarrow> string \<Rightarrow> string \<Rightarrow> string \<Rightarrow> string \<Rightarrow> string \<Rightarrow> int
     \<Rightarrow> string \<Rightarrow> string option \<Rightarrow> approval_row" where
  "new_approval pid now action_type resource_type resource_id team project version granted_by
      granted_role expires_at idempotency_key reason =
    \<lparr>pa_approval_id = pid, pa_action_type = action_type,
     pa_resource_type = resource_type, pa_resource_id = resource_id, pa_team_id = team,
     pa_project_id = project, pa_resource_state_version = version, pa_state = ''granted'',
     pa_granted_by = granted_by, pa_granted_role = granted_role, pa_granted_at = now,
     pa_reason_code = reason, pa_expires_at = expires_at, pa_consumed_at = None,
     pa_consumed_by = None, pa_consumed_by_authorization_id = None, pa_revoked_at = None,
     pa_revoked_by = None, pa_revocation_reason_code = None,
     pa_idempotency_key = idempotency_key, pa_updated_at = now\<rparr>"

definition insert_approval ::
    "string \<Rightarrow> int \<Rightarrow> string \<Rightarrow> string \<Rightarrow> string \<Rightarrow> string \<Rightarrow> string \<Rightarrow> string \<Rightarrow> string \<Rightarrow> string \<Rightarrow> int
     \<Rightarrow> string \<Rightarrow> string option \<Rightarrow> approval_table \<Rightarrow> (approval_row \<times> approval_table) outcome" where
  "insert_approval pid now action_type resource_type resource_id team project version granted_by
      granted_role expires_at idempotency_key reason t =
    (if team = [] \<or> project = [] then Inl (DataError ''invalid UUID'')
     else
      let row = new_approval pid now action_type resource_type resource_id team project version
        granted_by granted_role expires_at idempotency_key reason
      in if \<not> paa_checks row then Inl (CheckViolation ''production_action_approvals'')
         else if list_ex (\<lambda>r. pa_approval_id r = pid) t
           then Inl (UniqueViolation ''production_action_approvals_pkey'')
         else if list_ex (\<lambda>r. pa_idempotency_key r = idempotency_key) t
           then Inl (UniqueViolation ''uq_paa_idempotency_key'')
         else Inr (row, t @ [row]))"

definition get_approval_by_idempotency_key :: "string \<Rightarrow> approval_table \<Rightarrow> approval_row option" where
  "get_approval_by_idempotency_key k t = fetchrow (\<lambda>r. pa_idempotency_key r = k) t"

definition get_approval ::
    "string \<Rightarrow> string option \<Rightarrow> string option \<Rightarrow> approval_table \<Rightarrow> approval_row option" where
  "get_approval pid team project t =
     fetchrow (\<lambda>r. pa_approval_id r = pid \<and> pa_in_scope team project r) t"

text \<open>The two final updates of an approval row: revoke, and the consume at the end of resolving.\<close>

record binding =
  b_action_type :: string
  b_resource_type :: string
  b_resource_id :: string
  b_team_id :: string
  b_project_id :: string
  b_version :: string

definition bound_to :: "binding \<Rightarrow> approval_row \<Rightarrow> bool" where
  "bound_to b r \<longleftrightarrow> pa_action_type r = b_action_type b \<and> pa_resource_type r = b_resource_type b \<and>
     pa_resource_id r = b_resource_id b \<and> pa_team_id r = b_team_id b \<and>
     pa_project_id r = b_project_id b \<and> pa_resource_state_version r = b_version b"

datatype approval_op =
    RevokeApproval int string "string option" "string option" "string option"
  | ConsumeApproval int string string binding

fun approval_guard :: "approval_op \<Rightarrow> approval_row \<Rightarrow> bool" where
  "approval_guard (RevokeApproval now by reason team project) r \<longleftrightarrow>
     pa_state r = ''granted'' \<and> pa_consumed_at r = None \<and> pa_revoked_at r = None \<and>
     pa_in_scope team project r"
| "approval_guard (ConsumeApproval now by aid b) r \<longleftrightarrow>
     pa_state r = ''granted'' \<and> pa_consumed_at r = None \<and> pa_revoked_at r = None \<and>
     now < pa_expires_at r \<and> bound_to b r"

fun approval_upd :: "approval_op \<Rightarrow> approval_row \<Rightarrow> approval_row" where
  "approval_upd (RevokeApproval now by reason _ _) r =
     r\<lparr>pa_state := ''revoked'', pa_revoked_at := Some now, pa_revoked_by := Some by,
       pa_revocation_reason_code := reason, pa_updated_at := now\<rparr>"
| "approval_upd (ConsumeApproval now by aid _) r =
     r\<lparr>pa_state := ''consumed'', pa_consumed_at := Some now, pa_consumed_by := Some by,
       pa_consumed_by_authorization_id := Some aid, pa_updated_at := now\<rparr>"

definition approval_cas ::
    "approval_op \<Rightarrow> string \<Rightarrow> approval_table \<Rightarrow> (approval_row option \<times> approval_table) outcome" where
  "approval_cas p pid t =
     checked_update ''production_action_approvals'' paa_checks
       (\<lambda>r. pa_approval_id r = pid \<and> approval_guard p r) (approval_upd p) t"

definition revoke_approval ::
    "int \<Rightarrow> string \<Rightarrow> string \<Rightarrow> string option \<Rightarrow> string option \<Rightarrow> string option \<Rightarrow> approval_table
     \<Rightarrow> (approval_row option \<times> approval_table) outcome" where
  "revoke_approval now pid by reason team project =
     approval_cas (RevokeApproval now by reason team project) pid"

text \<open>
  \<open>auths\<close> are the ids of \<^verbatim>\<open>resume_replay_authorizations\<close>, which \<^verbatim>\<open>consumed_by_authorization_id\<close>
  references: consuming a row for another id breaks that foreign key.
\<close>

definition resolve_and_consume_approval ::
    "string list \<Rightarrow> (nat \<Rightarrow> int) \<Rightarrow> string option \<Rightarrow> binding \<Rightarrow> string \<Rightarrow> string \<Rightarrow> approval_table
     \<Rightarrow> ((approval_row option \<times> string) \<times> approval_table) outcome" where
  "resolve_and_consume_approval auths ts reference b consumed_by by_authorization t =
    (if \<not> truthy reference then Inr ((None, ''not_found''), t)
     else case parse_uuid (or_empty reference) of
       None \<Rightarrow> Inr ((None, ''invalid_reference''), t)
     | Some approval_id \<Rightarrow>
       (case fetchrow (\<lambda>r. pa_approval_id r = approval_id) t of
          None \<Rightarrow> Inr ((None, ''not_found''), t)
        | Some row \<Rightarrow>
            if pa_consumed_at row \<noteq> None then Inr ((None, ''already_consumed''), t)
            else if pa_revoked_at row \<noteq> None then Inr ((None, ''already_revoked''), t)
            else if pa_expires_at row \<le> ts 0 then Inr ((None, ''expired''), t)
            else if pa_action_type row \<noteq> b_action_type b then Inr ((None, ''wrong_action''), t)
            else if pa_resource_type row \<noteq> b_resource_type b \<or> pa_resource_id row \<noteq> b_resource_id b
              then Inr ((None, ''wrong_resource''), t)
            else if pa_team_id row \<noteq> b_team_id b \<or> pa_project_id row \<noteq> b_project_id b
              then Inr ((None, ''wrong_scope''), t)
            else if pa_resource_state_version row \<noteq> b_version b
              then Inr ((None, ''stale_state''), t)
            else try_then
              (approval_cas (ConsumeApproval (ts 1) consumed_by by_authorization b) approval_id t)
              (\<lambda>(updated, t'). case updated of
                 None \<Rightarrow> Inr ((None, ''conflict''), t')
               | Some r \<Rightarrow>
                   if by_authorization \<notin> set auths
                   then Inl (ForeignKeyViolation ''production_action_approvals_consumed_by_authorization_id_fkey'')
                   else Inr ((Some r, ''ok''), t'))))"

section \<open>Service\<close>

record approval_result =
  ap_ok :: bool
  ap_result_kind :: string
  ap_reason_code :: string
  ap_approval :: "approval_row option"
  ap_audit :: "payload option"

definition ap_deny :: "string \<Rightarrow> string \<Rightarrow> approval_result" where
  "ap_deny kind reason =
     \<lparr>ap_ok = False, ap_result_kind = kind, ap_reason_code = reason, ap_approval = None, ap_audit = None\<rparr>"

definition ap_accept :: "string \<Rightarrow> approval_row \<Rightarrow> payload option \<Rightarrow> approval_result" where
  "ap_accept reason row audit =
     \<lparr>ap_ok = True, ap_result_kind = ''ok'', ap_reason_code = reason, ap_approval = Some row,
      ap_audit = audit\<rparr>"

text \<open>
  A unique violation inside \<^verbatim>\<open>insert_approval\<close> is answered with a conflict and nothing is
  written; every other exception of the insert propagates.
\<close>

definition grant_production_approval ::
    "(nat \<Rightarrow> int) \<Rightarrow> string \<Rightarrow> actor \<Rightarrow> scope \<Rightarrow> string \<Rightarrow> string \<Rightarrow> string \<Rightarrow> string \<Rightarrow> int \<Rightarrow> string
     \<Rightarrow> string option \<Rightarrow> approval_table \<Rightarrow> (approval_result \<times> approval_table) outcome" where
  "grant_production_approval ts pid a actor_scope action_type resource_type resource_id version
      expires_at idempotency_key reason t =
    (if action_type \<notin> set ACTION_TYPES then Inr (ap_deny ''forbidden'' ''unknown_action_type'', t)
     else if resource_type \<notin> set RESOURCE_TYPES
       then Inr (ap_deny ''forbidden'' ''unknown_resource_type'', t)
     else if \<not> can_grant (role a) then Inr (ap_deny ''forbidden'' ''rbac_denied'', t)
     else case get_approval_by_idempotency_key idempotency_key t of
       Some existing \<Rightarrow>
         if pa_team_id existing \<noteq> or_empty (team_id actor_scope) \<or>
            pa_project_id existing \<noteq> or_empty (project_id actor_scope)
         then Inr (ap_deny ''not_found_masked'' ''not_found'', t)
         else Inr (ap_accept ''granted'' existing None, t)
     | None \<Rightarrow>
        (case insert_approval pid (ts 0) action_type resource_type resource_id
            (or_empty (team_id actor_scope)) (or_empty (project_id actor_scope)) version
            (principal_id a) (role a) expires_at idempotency_key reason t of
           Inl (UniqueViolation _) \<Rightarrow> Inr (ap_deny ''conflict'' ''conflict'', t)
         | Inl e \<Rightarrow> Inl e
         | Inr (row, t') \<Rightarrow>
             try_then (approval_audit ''production_approval.granted'' row a ''granted'' (ts 1))
               (\<lambda>audit. Inr (ap_accept ''granted'' row (Some audit), t'))))"

definition revoke_production_approval ::
    "(nat \<Rightarrow> int) \<Rightarrow> string \<Rightarrow> actor \<Rightarrow> scope \<Rightarrow> string \<Rightarrow> approval_table
     \<Rightarrow> (approval_result \<times> approval_table) outcome" where
  "revoke_production_approval ts pid a actor_scope reason t =
    (if \<not> can_grant (role a) then Inr (ap_deny ''forbidden'' ''rbac_denied'', t)
     else try_then (assert_approval_reason_code (Some reason)) (\<lambda>_.
       case get_approval pid (team_id actor_scope) (project_id actor_scope) t of
         None \<Rightarrow> Inr (ap_deny ''not_found_masked'' ''not_found'', t)
       | Some row \<Rightarrow>
           try_then (revoke_approval (ts 0) pid (principal_id a) (Some reason)
               (team_id actor_scope) (project_id actor_scope) t)
             (\<lambda>(updated, t'). case updated of
                None \<Rightarrow> Inr (ap_deny ''invalid_transition'' ''invalid_transition'', t')
              | Some r \<Rightarrow>
                  try_then (approval_audit ''production_approval.revoked'' r a reason (ts 1))
                    (\<lambda>audit. Inr (ap_accept reason r (Some audit), t')))))"

section \<open>An approval is used at most once\<close>

lemma approval_upd_keys [simp]:
  "pa_approval_id (approval_upd p r) = pa_approval_id r"
  "pa_idempotency_key (approval_upd p r) = pa_idempotency_key r"
  by (cases p; simp)+

lemma approval_guard_open:
  "approval_guard p r \<Longrightarrow> pa_state r = ''granted'' \<and> pa_consumed_at r = None \<and> pa_revoked_at r = None"
  by (cases p) auto

lemma approval_upd_closed: "pa_consumed_at (approval_upd p r) \<noteq> None \<or> pa_revoked_at (approval_upd p r) \<noteq> None"
  by (cases p) auto

interpretation approvals: exclusive_cas pa_approval_id approval_guard approval_upd
proof unfold_locales
  show "approval_guard p r \<Longrightarrow> \<not> approval_guard q (approval_upd p r)" for p q r
    using approval_upd_closed[of p r] approval_guard_open[of q "approval_upd p r"] by fastforce
qed simp

definition paa_inv :: "approval_table \<Rightarrow> bool" where
  "paa_inv t \<longleftrightarrow> distinct (map pa_approval_id t) \<and> distinct (map pa_idempotency_key t) \<and>
     (\<forall>r \<in> set t. paa_checks r)"

lemma consume_keeps_checks:
  "paa_checks r \<Longrightarrow> approval_guard (ConsumeApproval now by aid b) r \<Longrightarrow>
     paa_checks (approval_upd (ConsumeApproval now by aid b) r)"
  by (simp add: paa_checks_def)

lemma approval_cas_Inr:
  "approval_cas p pid t = Inr x \<longleftrightarrow>
     x = cas pa_approval_id approval_guard approval_upd p pid t \<and>
     (\<forall>r \<in> set t. pa_approval_id r = pid \<and> approval_guard p r \<longrightarrow> paa_checks (approval_upd p r))"
  by (simp add: approval_cas_def checked_update_Inr cas_def)

lemma paa_inv_cas:
  assumes "paa_inv t" "approval_cas p pid t = Inr (x, t')"
  shows "paa_inv t'"
proof -
  from assms(2) have t': "t' = update_where (\<lambda>r. pa_approval_id r = pid \<and> approval_guard p r) (approval_upd p) t"
    and chk: "\<forall>r \<in> set t. pa_approval_id r = pid \<and> approval_guard p r \<longrightarrow> paa_checks (approval_upd p r)"
    by (auto simp: approval_cas_Inr cas_def update_returning_def)
  have "\<forall>r \<in> set t'. paa_checks r"
    unfolding t' using assms(1) chk by (intro all_update_where) (auto simp: paa_inv_def)
  then show ?thesis using assms(1) unfolding t' paa_inv_def by (simp add: map_update_where)
qed

lemma paa_inv_insert:
  assumes "paa_inv t"
    "insert_approval pid now ac rt rid team project v by rl ex key reason t = Inr (row, t')"
  shows "paa_inv t' \<and> t' = t @ [row] \<and> paa_checks row"
  using assms unfolding insert_approval_def Let_def paa_inv_def
  by (auto simp: list_ex_iff new_approval_def split: if_split_asm)

text \<open>What an approval must be for a reference to resolve against it.\<close>

definition usable :: "int \<Rightarrow> binding \<Rightarrow> approval_row \<Rightarrow> bool" where
  "usable now b r \<longleftrightarrow> pa_state r = ''granted'' \<and> pa_consumed_at r = None \<and> pa_revoked_at r = None \<and>
     now < pa_expires_at r \<and> bound_to b r"

lemma consume_guard_usable: "approval_guard (ConsumeApproval now by aid b) r \<longleftrightarrow> usable now b r"
  by (auto simp: usable_def)

lemma approval_cas_total:
  assumes "\<forall>r \<in> set t. paa_checks r"
  shows "approval_cas (ConsumeApproval now by aid b) pid t =
    Inr (cas pa_approval_id approval_guard approval_upd (ConsumeApproval now by aid b) pid t)"
  using assms consume_keeps_checks by (simp add: approval_cas_Inr del: approval_guard.simps approval_upd.simps)

text \<open>The first reason the code finds not to consume the row it read.\<close>

definition refusal :: "int \<Rightarrow> binding \<Rightarrow> approval_row \<Rightarrow> string option" where
  "refusal now b row =
    (if pa_consumed_at row \<noteq> None then Some ''already_consumed''
     else if pa_revoked_at row \<noteq> None then Some ''already_revoked''
     else if pa_expires_at row \<le> now then Some ''expired''
     else if pa_action_type row \<noteq> b_action_type b then Some ''wrong_action''
     else if pa_resource_type row \<noteq> b_resource_type b \<or> pa_resource_id row \<noteq> b_resource_id b
       then Some ''wrong_resource''
     else if pa_team_id row \<noteq> b_team_id b \<or> pa_project_id row \<noteq> b_project_id b
       then Some ''wrong_scope''
     else if pa_resource_state_version row \<noteq> b_version b then Some ''stale_state''
     else None)"

lemma refusal_None_iff:
  "refusal now b r = None \<longleftrightarrow> pa_consumed_at r = None \<and> pa_revoked_at r = None \<and>
     now < pa_expires_at r \<and> bound_to b r"
  by (auto simp: refusal_def bound_to_def)

lemma refusal_not_ok: "refusal now b r \<noteq> Some ''ok''"
  by (simp add: refusal_def)

lemma resolve_eq:
  "resolve_and_consume_approval auths ts reference b by au t =
    (if \<not> truthy reference then Inr ((None, ''not_found''), t)
     else case parse_uuid (or_empty reference) of
       None \<Rightarrow> Inr ((None, ''invalid_reference''), t)
     | Some aid \<Rightarrow>
       (case fetchrow (\<lambda>r. pa_approval_id r = aid) t of
          None \<Rightarrow> Inr ((None, ''not_found''), t)
        | Some row \<Rightarrow> (case refusal (ts 0) b row of
            Some rc \<Rightarrow> Inr ((None, rc), t)
          | None \<Rightarrow> try_then (approval_cas (ConsumeApproval (ts 1) by au b) aid t)
              (\<lambda>(updated, t'). case updated of
                 None \<Rightarrow> Inr ((None, ''conflict''), t')
               | Some r \<Rightarrow>
                   if au \<notin> set auths
                   then Inl (ForeignKeyViolation ''production_action_approvals_consumed_by_authorization_id_fkey'')
                   else Inr ((Some r, ''ok''), t')))))"
  unfolding resolve_and_consume_approval_def refusal_def
  by (intro if_cong refl option.case_cong) simp

lemma approval_won:
  assumes "paa_inv t" "r \<in> set t" "usable now b r"
  shows "approval_cas (ConsumeApproval now by au b) (pa_approval_id r) t =
    Inr (Some (approval_upd (ConsumeApproval now by au b) r),
         update_where (\<lambda>x. x = r) (approval_upd (ConsumeApproval now by au b)) t)"
proof -
  let ?P = "\<lambda>x. pa_approval_id x = pa_approval_id r \<and> approval_guard (ConsumeApproval now by au b) x"
  have d: "distinct (map pa_approval_id t)" using assms(1) by (simp add: paa_inv_def)
  have "fetchrow ?P t = Some r"
    using assms(2,3) by (intro fetchrow_distinct[OF d]) (auto simp: consume_guard_usable simp del: approval_guard.simps)
  moreover have "update_where ?P f t = update_where (\<lambda>x. x = r) f t" for f
    unfolding update_where_def using assms(2,3) distinct_map_eqD[OF d]
    by (auto simp: consume_guard_usable simp del: approval_guard.simps)
  ultimately show ?thesis
    using assms(1) by (subst approval_cas_total)
      (auto simp: paa_inv_def cas_def update_returning_def simp del: approval_guard.simps approval_upd.simps)
qed

lemma approval_not_won:
  assumes "paa_inv t" "\<forall>r \<in> set t. pa_approval_id r = aid \<longrightarrow> \<not> usable now b r"
  shows "approval_cas (ConsumeApproval now by au b) aid t = Inr (None, t)"
proof -
  have "\<forall>r \<in> set t. \<not> (pa_approval_id r = aid \<and> approval_guard (ConsumeApproval now by au b) r)"
    using assms(2) consume_guard_usable by blast
  then show ?thesis using assms(1)
    by (subst approval_cas_total)
      (auto simp: paa_inv_def cas_def update_returning_def fetchrow_None_iff update_where_none
         simp del: approval_guard.simps approval_upd.simps)
qed

text \<open>The row a reference names.\<close>

definition names :: "string option \<Rightarrow> approval_row \<Rightarrow> bool" where
  "names ref r \<longleftrightarrow> truthy ref \<and> parse_uuid (or_empty ref) = Some (pa_approval_id r)"

lemma names_fetch:
  assumes "paa_inv t" "r \<in> set t" "names ref r"
  shows "fetchrow (\<lambda>x. pa_approval_id x = pa_approval_id r) t = Some r"
  using assms by (intro fetchrow_distinct[of pa_approval_id]) (auto simp: paa_inv_def)

lemma resolve_wins:
  assumes inv: "paa_inv t" and r: "r \<in> set t" "names ref r"
    and u: "usable (ts 0) b r" "usable (ts 1) b r"
  shows "resolve_and_consume_approval auths ts ref b by au t =
    (if au \<in> set auths
     then Inr ((Some (approval_upd (ConsumeApproval (ts 1) by au b) r), ''ok''),
         update_where (\<lambda>x. x = r) (approval_upd (ConsumeApproval (ts 1) by au b)) t)
     else Inl (ForeignKeyViolation ''production_action_approvals_consumed_by_authorization_id_fkey''))"
proof -
  have "refusal (ts 0) b r = None" using u(1) by (simp add: refusal_None_iff usable_def)
  then show ?thesis
    using r(2) names_fetch[OF inv r] approval_won[OF inv r(1) u(2)]
    by (simp add: resolve_eq names_def del: approval_upd.simps)
qed

lemma resolve_usable:
  assumes "paa_inv t" "r \<in> set t" "names ref r" "usable (ts 0) b r" "usable (ts 1) b r" "au \<in> set auths"
  shows "resolve_and_consume_approval auths ts ref b by au t =
    Inr ((Some (approval_upd (ConsumeApproval (ts 1) by au b) r), ''ok''),
         update_where (\<lambda>x. x = r) (approval_upd (ConsumeApproval (ts 1) by au b)) t)"
  using resolve_wins[OF assms(1-5)] assms(6) by simp

lemma resolve_unusable:
  assumes inv: "paa_inv t"
    and u: "\<not> (\<exists>r \<in> set t. names ref r \<and> usable (ts 0) b r \<and> usable (ts 1) b r)"
  shows "\<exists>rc. rc \<noteq> ''ok'' \<and> resolve_and_consume_approval auths ts ref b by au t = Inr ((None, rc), t)"
proof (cases "truthy ref \<and> (\<exists>r. parse_uuid (or_empty ref) = Some (pa_approval_id r) \<and> r \<in> set t)")
  case False
  then show ?thesis
    by (auto simp: resolve_eq split: option.splits dest!: fetchrow_SomeD)
next
  case True
  then obtain r where r: "r \<in> set t" "names ref r" by (auto simp: names_def)
  note f = names_fetch[OF inv r]
  show ?thesis
  proof (cases "refusal (ts 0) b r")
    case (Some rc)
    then show ?thesis using f r(2) refusal_not_ok[of "ts 0" b r] by (auto simp: resolve_eq names_def)
  next
    case None
    have "\<not> usable (ts 1) b r" using u r None by (auto simp: refusal_None_iff usable_def)
    then have "\<forall>x \<in> set t. pa_approval_id x = pa_approval_id r \<longrightarrow> \<not> usable (ts 1) b x"
      using inv r(1) distinct_map_eqD[of pa_approval_id t] by (metis paa_inv_def)
    from approval_not_won[OF inv this, of "by" au] None f r(2) show ?thesis
      by (simp add: resolve_eq names_def)
  qed
qed

lemma resolve_Some:
  assumes inv: "paa_inv t"
    and res: "resolve_and_consume_approval auths ts ref b by au t = Inr ((Some r', rc), t')"
  obtains r where "r \<in> set t" "names ref r" "usable (ts 0) b r" "usable (ts 1) b r" "rc = ''ok''"
    "r' = approval_upd (ConsumeApproval (ts 1) by au b) r"
    "t' = update_where (\<lambda>x. x = r) (approval_upd (ConsumeApproval (ts 1) by au b)) t" "au \<in> set auths"
proof -
  have "\<exists>r \<in> set t. names ref r \<and> usable (ts 0) b r \<and> usable (ts 1) b r"
    using resolve_unusable[OF inv, of ref ts b auths "by" au] res by fastforce
  then obtain r where r: "r \<in> set t" "names ref r" "usable (ts 0) b r" "usable (ts 1) b r" by blast
  with resolve_wins[OF inv r, of auths "by" au] res that show thesis
    by (auto simp del: approval_upd.simps split: if_splits)
qed

lemma resolve_None:
  assumes "paa_inv t" "resolve_and_consume_approval auths ts ref b by au t = Inr ((None, rc), t')"
  shows "t' = t \<and> rc \<noteq> ''ok''"
proof (cases "\<exists>r \<in> set t. names ref r \<and> usable (ts 0) b r \<and> usable (ts 1) b r")
  case True
  then show ?thesis using resolve_wins[OF assms(1)] assms(2) by (fastforce split: if_splits)
next
  case False
  then show ?thesis using resolve_unusable[OF assms(1) False, of auths "by" au] assms(2) by auto
qed

lemma resolve_total:
  assumes "paa_inv t" "au \<in> set auths"
  obtains res rc t' where "resolve_and_consume_approval auths ts ref b by au t = Inr ((res, rc), t')"
  using resolve_usable[OF assms(1) _ _ _ _ assms(2)] resolve_unusable[OF assms(1)] by metis

lemma resolve_consumed:
  assumes "paa_inv t" "r \<in> set t" "names ref r" "pa_consumed_at r \<noteq> None"
  shows "resolve_and_consume_approval auths ts ref b by au t = Inr ((None, ''already_consumed''), t)"
  using assms(3,4) names_fetch[OF assms(1-3)] by (auto simp: resolve_eq names_def refusal_def)

lemma paa_inv_update:
  assumes "paa_inv t" "r \<in> set t" "usable now b r"
  shows "paa_inv (update_where (\<lambda>x. x = r) (approval_upd (ConsumeApproval now by au b)) t)"
  using paa_inv_cas[OF assms(1) approval_won[OF assms]] .

text \<open>
  C6. Resolving a production approval on a table that satisfies its constraints. When the reference names
  a granted, unused, unexpired row bound to the same action, resource, scope and resource version at both
  readings of the clock, the call succeeds for an authorization that exists, and breaks the foreign key for
  one that does not; otherwise it is refused. A refusal leaves the table unchanged; a success records the
  consuming authorization on that row and changes no other, and from then on the same reference is
  refused as already consumed for every caller, binding and time.
\<close>

theorem resolve_approval_exactly_once:
  assumes "paa_inv t"
  shows "case resolve_and_consume_approval auths ts ref b by au t of
      Inl e \<Rightarrow> e = ForeignKeyViolation ''production_action_approvals_consumed_by_authorization_id_fkey'' \<and>
        au \<notin> set auths \<and> (\<exists>r \<in> set t. names ref r \<and> usable (ts 0) b r \<and> usable (ts 1) b r)
    | Inr ((None, rc), t') \<Rightarrow> t' = t \<and> rc \<noteq> ''ok'' \<and>
        \<not> (\<exists>r \<in> set t. names ref r \<and> usable (ts 0) b r \<and> usable (ts 1) b r)
    | Inr ((Some r', rc), t') \<Rightarrow> rc = ''ok'' \<and> au \<in> set auths \<and>
        (\<exists>r \<in> set t. names ref r \<and> usable (ts 0) b r \<and> usable (ts 1) b r \<and>
           pa_approval_id r' = pa_approval_id r \<and> t' = map (\<lambda>x. if x = r then r' else x) t) \<and>
        pa_state r' = ''consumed'' \<and> pa_consumed_by r' = Some by \<and> pa_consumed_at r' = Some (ts 1) \<and>
        pa_consumed_by_authorization_id r' = Some au \<and>
        (\<forall>auths' ts' b' by' au'. resolve_and_consume_approval auths' ts' ref b' by' au' t' =
           Inr ((None, ''already_consumed''), t'))"
proof (cases "\<exists>r \<in> set t. names ref r \<and> usable (ts 0) b r \<and> usable (ts 1) b r")
  case True
  then obtain r where r: "r \<in> set t" "names ref r" "usable (ts 0) b r" "usable (ts 1) b r" by blast
  let ?f = "approval_upd (ConsumeApproval (ts 1) by au b)" and
    ?t' = "update_where (\<lambda>x. x = r) (approval_upd (ConsumeApproval (ts 1) by au b)) t"
  have "paa_inv ?t'" "?f r \<in> set ?t'" "names ref (?f r)" "pa_consumed_at (?f r) \<noteq> None"
    using paa_inv_update[OF assms r(1,4)] r(1,2) by (auto simp: set_update_where names_def)
  then have again: "resolve_and_consume_approval auths' ts' ref b' by' au' ?t' =
      Inr ((None, ''already_consumed''), ?t')" for auths' ts' b' by' au' by (rule resolve_consumed)
  have m: "?t' = map (\<lambda>x. if x = r then ?f r else x) t" by (auto simp: update_where_def)
  have ex: "\<exists>q \<in> set t. names ref q \<and> usable (ts 0) b q \<and> usable (ts 1) b q \<and>
      pa_approval_id (?f r) = pa_approval_id q \<and> ?t' = map (\<lambda>x. if x = q then ?f r else x) t"
    using r m by (intro bexI[of _ r]) simp_all
  have f: "pa_state (?f r) = ''consumed''" "pa_consumed_by (?f r) = Some by" "pa_consumed_at (?f r) = Some (ts 1)"
    "pa_consumed_by_authorization_id (?f r) = Some au" by simp_all
  show ?thesis
  proof (cases "au \<in> set auths")
    case known: True
    have e: "resolve_and_consume_approval auths ts ref b by au t = Inr ((Some (?f r), ''ok''), ?t')"
      by (rule resolve_usable[OF assms r known])
    show ?thesis unfolding e sum.case prod.case option.case using ex f known again by blast
  next
    case unknown: False
    have e: "resolve_and_consume_approval auths ts ref b by au t =
        Inl (ForeignKeyViolation ''production_action_approvals_consumed_by_authorization_id_fkey'')"
      using resolve_wins[OF assms r, of auths "by" au] unknown by simp
    show ?thesis unfolding e sum.case using True unknown by blast
  qed
next
  case False
  then show ?thesis using resolve_unusable[OF assms False, of auths "by" au] by auto
qed

definition demo_approval :: approval_row where
  "demo_approval = \<lparr>pa_approval_id = demo_uuid, pa_action_type = ''replay'',
    pa_resource_type = ''outbox_event'', pa_resource_id = ''r1'', pa_team_id = ''t1'',
    pa_project_id = ''p1'', pa_resource_state_version = ''v1'', pa_state = ''granted'',
    pa_granted_by = ''u9'', pa_granted_role = ''platform_admin'', pa_granted_at = 1,
    pa_reason_code = None, pa_expires_at = 500, pa_consumed_at = None, pa_consumed_by = None,
    pa_consumed_by_authorization_id = None, pa_revoked_at = None, pa_revoked_by = None,
    pa_revocation_reason_code = None, pa_idempotency_key = ''k9'', pa_updated_at = 1\<rparr>"

definition demo_binding :: binding where
  "demo_binding = \<lparr>b_action_type = ''replay'', b_resource_type = ''outbox_event'',
    b_resource_id = ''r1'', b_team_id = ''t1'', b_project_id = ''p1'', b_version = ''v1''\<rparr>"

lemma demo_approval_inv: "paa_inv [demo_approval]"
  by (simp add: paa_inv_def paa_checks_def demo_approval_def ACTION_TYPES_def RESOURCE_TYPES_def
      btrim_nonempty_def)

lemma demo_approval_usable: "now < 500 \<Longrightarrow> usable now demo_binding demo_approval"
  by (simp add: usable_def bound_to_def demo_approval_def demo_binding_def)

lemma demo_approval_named: "names (Some demo_uuid) demo_approval"
proof -
  have "demo_uuid \<noteq> []" by (simp add: demo_uuid_def)
  then show ?thesis using parse_demo_uuid by (simp add: names_def demo_approval_def or_empty_def)
qed

theorem resolve_approval_exactly_once_witness:
  "(\<exists>r' t'. resolve_and_consume_approval [''a1''] (\<lambda>_. 20) (Some demo_uuid) demo_binding ''svc'' ''a1''
     [demo_approval] = Inr ((Some r', ''ok''), t') \<and> pa_consumed_by_authorization_id r' = Some ''a1'') \<and>
   (\<exists>e. resolve_and_consume_approval [] (\<lambda>_. 20) (Some demo_uuid) demo_binding ''svc'' ''a1'' [demo_approval] = Inl e)"
proof -
  have u: "names (Some demo_uuid) demo_approval" "usable 20 demo_binding demo_approval"
    using demo_approval_named demo_approval_usable[of 20] by simp_all
  note p = resolve_approval_exactly_once[OF demo_approval_inv, of "''a1''" _ "Some demo_uuid" "\<lambda>_. 20" demo_binding "''svc''"]
  show ?thesis using p[of "[''a1'']"] p[of "[]"] u by (auto split: sum.splits prod.splits option.splits)
qed

section \<open>Granting\<close>

lemma paa_checks_expiry: "paa_checks r \<Longrightarrow> pa_granted_at r < pa_expires_at r"
  by (simp add: paa_checks_def)

lemma insert_approval_row:
  assumes "insert_approval pid now action rtype rid team project version by rl ex key reason t = Inr (row, t')"
  shows "t' = t @ [row]" "pa_idempotency_key row = key" "pa_team_id row = team"
    "pa_project_id row = project" "pa_granted_by row = by"
    "usable now \<lparr>b_action_type = action, b_resource_type = rtype, b_resource_id = rid,
      b_team_id = team, b_project_id = project, b_version = version\<rparr> row"
proof -
  have r: "row = new_approval pid now action rtype rid team project version by rl ex key reason"
    "t' = t @ [row]" "paa_checks row"
    using assms unfolding insert_approval_def Let_def by (auto split: if_split_asm)
  then show "t' = t @ [row]" "pa_idempotency_key row = key" "pa_team_id row = team"
    "pa_project_id row = project" "pa_granted_by row = by"
    "usable now \<lparr>b_action_type = action, b_resource_type = rtype, b_resource_id = rid,
      b_team_id = team, b_project_id = project, b_version = version\<rparr> row"
    using paa_checks_expiry[OF r(3)] by (simp_all add: usable_def bound_to_def new_approval_def)
qed

lemma grant_cases:
  assumes "grant_production_approval ts pid a sc action rtype rid version ex key reason t = Inr (res, t')"
  shows "(\<not> ap_ok res \<and> t' = t) \<or>
    (can_grant (role a) \<and> (\<exists>row. get_approval_by_idempotency_key key t = Some row \<and>
       pa_team_id row = or_empty (team_id sc) \<and> pa_project_id row = or_empty (project_id sc) \<and>
       res = ap_accept ''granted'' row None \<and> t' = t)) \<or>
    (can_grant (role a) \<and> get_approval_by_idempotency_key key t = None \<and> (\<exists>row audit.
       insert_approval pid (ts 0) action rtype rid (or_empty (team_id sc)) (or_empty (project_id sc))
         version (principal_id a) (role a) ex key reason t = Inr (row, t') \<and>
       res = ap_accept ''granted'' row (Some audit)))"
proof (cases "action \<in> set ACTION_TYPES \<and> rtype \<in> set RESOURCE_TYPES \<and> can_grant (role a)")
  case False
  then show ?thesis using assms
    by (auto simp: grant_production_approval_def ap_deny_def split: if_split_asm)
next
  case True
  show ?thesis
  proof (cases "get_approval_by_idempotency_key key t")
    case (Some row)
    then show ?thesis using assms True
      by (auto simp: grant_production_approval_def ap_deny_def split: if_split_asm)
  next
    case None
    let ?ins = "insert_approval pid (ts 0) action rtype rid (or_empty (team_id sc))
      (or_empty (project_id sc)) version (principal_id a) (role a) ex key reason t"
    show ?thesis
    proof (cases ?ins)
      case (Inl e)
      then show ?thesis using assms True None
        by (cases e) (auto simp: grant_production_approval_def ap_deny_def)
    next
      case (Inr p)
      then show ?thesis using assms True None
        by (cases p) (auto simp: grant_production_approval_def try_then_Inr_iff)
    qed
  qed
qed

text \<open>
  Granting: a call that does not return ok changes nothing; a call that returns ok was made by a
  grantor's role and returns a row of the table in the caller's scope under the caller's key. When
  the key is new, that row is an unused grant of exactly the request, recorded for the caller.
\<close>

theorem grant_sound:
  assumes "paa_inv t"
    "grant_production_approval ts pid a sc action rtype rid version ex key reason t = Inr (res, t')"
  shows "paa_inv t' \<and> (\<not> ap_ok res \<longrightarrow> t' = t) \<and>
    (ap_ok res \<longrightarrow> can_grant (role a) \<and> (\<exists>row \<in> set t'. ap_approval res = Some row \<and>
       pa_idempotency_key row = key \<and> pa_team_id row = or_empty (team_id sc) \<and>
       pa_project_id row = or_empty (project_id sc) \<and>
       (key \<notin> pa_idempotency_key ` set t \<longrightarrow>
         usable (ts 0) \<lparr>b_action_type = action, b_resource_type = rtype, b_resource_id = rid,
           b_team_id = pa_team_id row, b_project_id = pa_project_id row, b_version = version\<rparr> row \<and>
         pa_granted_by row = principal_id a)))"
  using grant_cases[OF assms(2)]
proof (elim disjE conjE exE)
  assume "\<not> ap_ok res" "t' = t"
  then show ?thesis using assms(1) by simp
next
  fix row
  assume row: "get_approval_by_idempotency_key key t = Some row" "pa_team_id row = or_empty (team_id sc)"
    "pa_project_id row = or_empty (project_id sc)" "res = ap_accept ''granted'' row None" "t' = t"
    "can_grant (role a)"
  then have "row \<in> set t" "pa_idempotency_key row = key"
    by (auto simp: get_approval_by_idempotency_key_def dest: fetchrow_SomeD)
  with row assms(1) show ?thesis by (auto simp: ap_accept_def)
next
  fix row audit
  assume ins: "insert_approval pid (ts 0) action rtype rid (or_empty (team_id sc))
      (or_empty (project_id sc)) version (principal_id a) (role a) ex key reason t = Inr (row, t')"
    and "res = ap_accept ''granted'' row (Some audit)" "can_grant (role a)"
  then show ?thesis
    using insert_approval_row[OF ins] paa_inv_insert[OF assms(1) ins]
    by (auto simp: ap_accept_def)
qed

text \<open>
  An idempotent re-confirmation does not look at the row it finds: a caller in the same scope who
  presents a used key is answered ok and granted with the old row, in whatever state that row is and
  whatever action, resource and version the new request names.
\<close>

theorem grant_reconfirms_any_state:
  assumes "action \<in> set ACTION_TYPES" "rtype \<in> set RESOURCE_TYPES" "can_grant (role a)"
    "paa_inv t" "row \<in> set t" "pa_in_scope (team_id sc) (project_id sc) row"
  shows "grant_production_approval ts pid a sc action rtype rid version ex (pa_idempotency_key row)
    reason t = Inr (ap_accept ''granted'' row None, t)"
proof -
  have "get_approval_by_idempotency_key (pa_idempotency_key row) t = Some row"
    unfolding get_approval_by_idempotency_key_def
    using assms(4,5) by (intro fetchrow_distinct[of pa_idempotency_key]) (auto simp: paa_inv_def)
  then show ?thesis
    using assms by (simp add: grant_production_approval_def pa_in_scope_def or_empty_def)
qed

definition demo_revoked :: approval_row where
  "demo_revoked = approval_upd (RevokeApproval 20 ''u9'' (Some ''operator_revoked'') None None) demo_approval"

lemma demo_revoked_inv: "paa_inv [demo_revoked]"
  by (simp add: paa_inv_def paa_checks_def demo_revoked_def demo_approval_def ACTION_TYPES_def
      RESOURCE_TYPES_def btrim_nonempty_def)

theorem grant_reconfirms_any_state_witness:
  "grant_production_approval (\<lambda>_. 30) demo_uuid (human ''u9'' ''platform_admin'') demo_scope ''resume''
     ''clarification'' ''other'' ''v7'' 900 ''k9'' None [demo_revoked]
     = Inr (ap_accept ''granted'' demo_revoked None, [demo_revoked]) \<and>
   approval_state demo_revoked 30 = ''revoked'' \<and> pa_action_type demo_revoked = ''replay''"
proof -
  have "grant_production_approval (\<lambda>_. 30) demo_uuid (human ''u9'' ''platform_admin'') demo_scope
     ''resume'' ''clarification'' ''other'' ''v7'' 900 (pa_idempotency_key demo_revoked) None [demo_revoked]
     = Inr (ap_accept ''granted'' demo_revoked None, [demo_revoked])"
    by (rule grant_reconfirms_any_state[OF _ _ _ demo_revoked_inv])
      (simp_all add: ACTION_TYPES_def RESOURCE_TYPES_def can_grant_def human_def TASK_ROLES_def
        GRANTER_ROLES_def demo_scope_def pa_in_scope_def demo_revoked_def demo_approval_def)
  then show ?thesis by (simp add: demo_revoked_def demo_approval_def approval_state_def)
qed

lemma demo_grant:
  "insert_approval demo_uuid 1 ''replay'' ''outbox_event'' ''r1'' ''t1'' ''p1'' ''v1'' ''u9''
     ''platform_admin'' 500 ''k9'' None [] = Inr (demo_approval, [demo_approval])"
  using demo_approval_inv by (simp add: insert_approval_def new_approval_def paa_inv_def demo_approval_def Let_def)

theorem grant_sound_witness:
  "\<exists>p. grant_production_approval (\<lambda>_. 1) demo_uuid (human ''u9'' ''platform_admin'') demo_scope
     ''replay'' ''outbox_event'' ''r1'' ''v1'' 500 ''k9'' None []
     = Inr (ap_accept ''granted'' demo_approval (Some p), [demo_approval]) \<and>
     paa_inv [demo_approval]"
proof -
  have nil: "paa_inv []" by (simp add: paa_inv_def)
  have "\<exists>p. approval_audit ''production_approval.granted'' demo_approval (human ''u9'' ''platform_admin'')
      ''granted'' 1 = Inr p"
    by (rule exI) code_simp
  then obtain p where "grant_production_approval (\<lambda>_. 1) demo_uuid (human ''u9'' ''platform_admin'')
     demo_scope ''replay'' ''outbox_event'' ''r1'' ''v1'' 500 ''k9'' None []
     = Inr (ap_accept ''granted'' demo_approval (Some p), [demo_approval])"
    using demo_grant
    by (auto simp: grant_production_approval_def ACTION_TYPES_def RESOURCE_TYPES_def can_grant_def
        human_def TASK_ROLES_def GRANTER_ROLES_def demo_scope_def or_empty_def
        get_approval_by_idempotency_key_def fetchrow_def)
  then show ?thesis using grant_sound[OF nil] by blast
qed

end
