(* ===== verification/Authz_Service.thy ===== *)
theory Authz_Service imports Authz_Lifecycle Approval begin

text \<open>
  The authorization service (\<^verbatim>\<open>shared/sdk/tasks/authorization_service.py\<close>): policy, repository and
  audit payload composed the way each operation composes them. A call runs inside the caller's
  transaction on a database that holds at least the authorizations and the production approvals; it
  returns a result and the new database, or raises, which rolls the transaction back.
\<close>

record authz_db =
  db_auths :: auth_table
  db_approvals :: approval_table

section \<open>Results\<close>

record service_result =
  sr_ok :: bool
  sr_result_kind :: string
  sr_reason_code :: string
  sr_authorization :: "auth_row option"
  sr_audit_payload :: "payload option"

definition ServiceResult ::
    "bool \<Rightarrow> string \<Rightarrow> string \<Rightarrow> auth_row option \<Rightarrow> payload option \<Rightarrow> service_result" where
  "ServiceResult k kind reason authz audit =
     \<lparr>sr_ok = k, sr_result_kind = kind, sr_reason_code = reason, sr_authorization = authz,
      sr_audit_payload = audit\<rparr>"

lemma ServiceResult_sel [simp]:
  "sr_ok (ServiceResult k kind reason authz audit) = k"
  "sr_result_kind (ServiceResult k kind reason authz audit) = kind"
  "sr_reason_code (ServiceResult k kind reason authz audit) = reason"
  "sr_authorization (ServiceResult k kind reason authz audit) = authz"
  "sr_audit_payload (ServiceResult k kind reason authz audit) = audit"
  by (simp_all add: ServiceResult_def)

definition deny_outcome :: "policy_outcome \<Rightarrow> service_result" where
  "deny_outcome out = ServiceResult False (result_kind out) (reason_code out) None None"

definition masked :: service_result where
  "masked = ServiceResult False ''not_found_masked'' ''resource_not_found'' None None"

definition non_empty :: "string \<Rightarrow> string option" where
  "non_empty s = (if s = [] then None else Some s)"

definition row_scope :: "auth_row \<Rightarrow> scope" where
  "row_scope row =
     \<lparr>team_id = non_empty (ra_team_id row), project_id = non_empty (ra_project_id row)\<rparr>"

text \<open>The service's \<^verbatim>\<open>_audit\<close>; \<open>now\<close> is its own clock statement.\<close>

definition audit_args_of :: "string \<Rightarrow> auth_row \<Rightarrow> actor \<Rightarrow> string \<Rightarrow> int \<Rightarrow> audit_args" where
  "audit_args_of event row a code now =
    \<lparr>au_event = event, au_authorization_id = ra_authorization_id row,
     au_action_type = ra_action_type row, au_resource_type = ra_resource_type row,
     au_resource_id = ra_resource_id row, au_actor_id = principal_id a,
     au_reason_code = Some code, au_state = project_state row now,
     au_team_id = non_empty (ra_team_id row), au_project_id = non_empty (ra_project_id row),
     au_request_id = Some (ra_request_id row), au_actor_role = Some (role a),
     au_policy_result = ra_policy_result row, au_policy_version = ra_policy_version row,
     au_resource_state_version = Some (ra_resource_state_version row),
     au_production_effect = Some (ra_production_effect row),
     au_idempotency_key = Some (ra_idempotency_key row), au_occurred_at = None\<rparr>"

definition audit :: "string \<Rightarrow> auth_row \<Rightarrow> actor \<Rightarrow> string \<Rightarrow> int \<Rightarrow> payload outcome" where
  "audit event row a code now = build_audit_payload (audit_args_of event row a code now)"

section \<open>Requesting\<close>

text \<open>
  The insert runs in a savepoint: a unique violation leaves the database as it was, and the service
  reads the row that holds the idempotency key. That read has no scope predicate.
\<close>

definition request_of ::
    "actor \<Rightarrow> scope \<Rightarrow> string \<Rightarrow> string \<Rightarrow> string \<Rightarrow> string \<Rightarrow> int \<Rightarrow> string \<Rightarrow> bool \<Rightarrow> string option
     \<Rightarrow> auth_request" where
  "request_of a resource_scope action_type resource_type resource_id version expires_at
      idempotency_key production_effect reference =
    \<lparr>rq_action_type = action_type, rq_resource_type = resource_type, rq_resource_id = resource_id,
     rq_requested_by = principal_id a, rq_requested_role = role a,
     rq_resource_state_version = version, rq_expires_at = expires_at,
     rq_idempotency_key = idempotency_key, rq_team_id = team_id resource_scope,
     rq_project_id = project_id resource_scope, rq_production_effect = production_effect,
     rq_production_approval_reference = reference\<rparr>"

definition request_authorization ::
    "(nat \<Rightarrow> int) \<Rightarrow> string \<Rightarrow> string \<Rightarrow> actor \<Rightarrow> scope \<Rightarrow> scope \<Rightarrow> string \<Rightarrow> string \<Rightarrow> string \<Rightarrow> string
     \<Rightarrow> int \<Rightarrow> string \<Rightarrow> bool \<Rightarrow> string option \<Rightarrow> 'a authz_db_scheme
     \<Rightarrow> (service_result \<times> 'a authz_db_scheme) outcome" where
  "request_authorization ts aid rid a actor_scope resource_scope action_type resource_type resource_id
      version expires_at idempotency_key production_effect reference s =
    (let out = evaluate (''request_'' @ action_type) a actor_scope resource_scope None False None in
     if \<not> allowed out then Inr (deny_outcome out, s)
     else case create_request aid rid (ts 0)
        (request_of a resource_scope action_type resource_type resource_id version expires_at
           idempotency_key production_effect reference) (db_auths s) of
       Inl (UniqueViolation ix) \<Rightarrow>
         (case fetchrow (\<lambda>r. ra_idempotency_key r = idempotency_key) (db_auths s) of
            Some row \<Rightarrow>
              try_then (audit ''authorization.requested'' row a ''ok'' (ts 1)) (\<lambda>p.
                Inr (ServiceResult True ''ok''
                  (if contains ''uq_rra_active_request'' ix then ''conflict'' else ''ok'')
                  (Some row) (Some p), s))
          | None \<Rightarrow> Inr (ServiceResult False ''conflict'' ''conflict'' None None, s))
     | Inl e \<Rightarrow> Inl e
     | Inr (row, t') \<Rightarrow>
         try_then (audit ''authorization.requested'' row a ''policy_allow'' (ts 1)) (\<lambda>p.
           Inr (ServiceResult True ''ok'' ''policy_allow'' (Some row) (Some p), s\<lparr>db_auths := t'\<rparr>)))"

section \<open>Deciding\<close>

definition load_visible :: "string \<Rightarrow> scope \<Rightarrow> 'a authz_db_scheme \<Rightarrow> auth_row option" where
  "load_visible aid actor_scope s =
     get_authorization aid (team_id actor_scope) (project_id actor_scope) (db_auths s)"

definition authorize ::
    "(nat \<Rightarrow> int) \<Rightarrow> string \<Rightarrow> actor \<Rightarrow> scope \<Rightarrow> string \<Rightarrow> 'a authz_db_scheme
     \<Rightarrow> (service_result \<times> 'a authz_db_scheme) outcome" where
  "authorize ts aid a actor_scope policy_version s =
    (case load_visible aid actor_scope s of
       None \<Rightarrow> Inr (masked, s)
     | Some row \<Rightarrow>
        (let out = evaluate (''authorize_'' @ ra_action_type row) a actor_scope (row_scope row)
               (Some (ra_requested_by row)) False None in
         if \<not> allowed out then Inr (deny_outcome out, s)
         else try_then
           (approve (ts 0) aid (principal_id a) (role a) (Some ''policy_allow'') ''allow''
              policy_version (team_id actor_scope) (project_id actor_scope) (db_auths s))
           (\<lambda>(updated, t'). case updated of
              None \<Rightarrow> Inr (ServiceResult False ''already_decided'' ''already_decided'' None None, s)
            | Some r \<Rightarrow>
                try_then (audit ''authorization.authorized'' r a ''policy_allow'' (ts 1)) (\<lambda>p.
                  Inr (ServiceResult True ''ok'' ''policy_allow'' (Some r) (Some p),
                       s\<lparr>db_auths := t'\<rparr>)))))"

definition decide_simple ::
    "(nat \<Rightarrow> int) \<Rightarrow> string \<Rightarrow> actor \<Rightarrow> scope \<Rightarrow> string \<Rightarrow> string \<Rightarrow> string \<Rightarrow> 'a authz_db_scheme
     \<Rightarrow> (service_result \<times> 'a authz_db_scheme) outcome" where
  "decide_simple ts aid a actor_scope op event code s =
    (case load_visible aid actor_scope s of
       None \<Rightarrow> Inr (masked, s)
     | Some row \<Rightarrow>
        (let out = evaluate
               (if op \<in> {''reject'', ''cancel''} then op @ ''_'' @ ra_action_type row else op)
               a actor_scope (row_scope row) None False None in
         if \<not> allowed out then Inr (deny_outcome out, s)
         else try_then
           (if op = ''reject'' then
              reject (ts 0) aid (principal_id a) (role a) (Some code)
                (team_id actor_scope) (project_id actor_scope) (db_auths s)
            else if op = ''cancel'' then
              cancel (ts 0) aid (principal_id a) (role a) (Some code)
                (team_id actor_scope) (project_id actor_scope) (db_auths s)
            else
              revoke (ts 0) aid (principal_id a) (Some code)
                (team_id actor_scope) (project_id actor_scope) (db_auths s))
           (\<lambda>(updated, t'). case updated of
              None \<Rightarrow> Inr (ServiceResult False ''invalid_transition'' ''invalid_transition'' None None, s)
            | Some r \<Rightarrow>
                try_then (audit event r a code (ts 1)) (\<lambda>p.
                  Inr (ServiceResult True ''ok'' code (Some r) (Some p), s\<lparr>db_auths := t'\<rparr>)))))"

definition reject_authorization where
  "reject_authorization ts aid a actor_scope =
     decide_simple ts aid a actor_scope ''reject'' ''authorization.rejected'' ''policy_deny''"

definition cancel_authorization where
  "cancel_authorization ts aid a actor_scope =
     decide_simple ts aid a actor_scope ''cancel'' ''authorization.canceled'' ''operator_canceled''"

definition revoke_authorization where
  "revoke_authorization ts aid a actor_scope =
     decide_simple ts aid a actor_scope ''revoke'' ''authorization.revoked'' ''operator_revoked''"

section \<open>Consuming\<close>

definition binding_of :: "auth_row \<Rightarrow> string \<Rightarrow> binding" where
  "binding_of row version =
    \<lparr>b_action_type = ra_action_type row, b_resource_type = ra_resource_type row,
     b_resource_id = ra_resource_id row, b_team_id = ra_team_id row,
     b_project_id = ra_project_id row, b_version = version\<rparr>"

text \<open>Why the final update of \<open>consume\<close> matched no row, read from the row as it is now.\<close>

definition classify_consume_failure :: "auth_row \<Rightarrow> int \<Rightarrow> string \<Rightarrow> string" where
  "classify_consume_failure current now version =
    (if ra_consumed_at current \<noteq> None then ''already_consumed''
     else if ra_revoked_at current \<noteq> None then ''revoked''
     else if project_state current now = ''expired'' then ''expired''
     else if ra_decision current \<noteq> ''authorized'' then ''invalid_transition''
     else if ra_resource_state_version current \<noteq> version then ''stale_state''
     else ''conflict'')"

text \<open>
  The clocks of one call: \<open>ts 0\<close> and \<open>ts 1\<close> in resolving the production approval, \<open>ts 2\<close> in the
  final update, \<open>ts 3\<close> in \<open>db_now\<close> or the audit read, \<open>ts 4\<close> in the audit read of a refusal.
\<close>

definition consume_row ::
    "(nat \<Rightarrow> int) \<Rightarrow> string \<Rightarrow> actor \<Rightarrow> scope \<Rightarrow> string \<Rightarrow> auth_row \<Rightarrow> 'a authz_db_scheme
     \<Rightarrow> (service_result \<times> 'a authz_db_scheme) outcome" where
  "consume_row ts aid a actor_scope version row s =
    try_then (consume (ts 2) aid (principal_id a) version (team_id actor_scope)
        (project_id actor_scope) (db_auths s)) (\<lambda>(updated, t').
      case updated of
        Some r \<Rightarrow>
          try_then (audit ''authorization.consumed'' r a ''policy_allow'' (ts 3)) (\<lambda>p.
            Inr (ServiceResult True ''ok'' ''policy_allow'' (Some r) (Some p), s\<lparr>db_auths := t'\<rparr>))
      | None \<Rightarrow>
          if ra_production_effect row
          then Inl (RuntimeError ''authorization consume CAS failed after a successful production-approval consume'')
          else (case load_visible aid actor_scope s of
             None \<Rightarrow> Inr (masked, s)
           | Some current \<Rightarrow>
               let kind = classify_consume_failure current (ts 3) version in
               try_then (audit ''authorization.consume_rejected'' current a kind (ts 4)) (\<lambda>p.
                 Inr (ServiceResult False kind kind None (Some p), s))))"

definition consume_authorization ::
    "(nat \<Rightarrow> int) \<Rightarrow> string \<Rightarrow> actor \<Rightarrow> scope \<Rightarrow> string \<Rightarrow> 'a authz_db_scheme
     \<Rightarrow> (service_result \<times> 'a authz_db_scheme) outcome" where
  "consume_authorization ts aid a actor_scope version s =
    (case load_visible aid actor_scope s of
       None \<Rightarrow> Inr (masked, s)
     | Some row \<Rightarrow>
        (let out = evaluate (''consume_'' @ ra_action_type row) a actor_scope (row_scope row) None
               (ra_production_effect row) (ra_production_approval_reference row) in
         if \<not> allowed out then Inr (deny_outcome out, s)
         else if ra_production_effect row then
           try_then (resolve_and_consume_approval (map ra_authorization_id (db_auths s)) ts (ra_production_approval_reference row)
               (binding_of row version) (principal_id a) aid (db_approvals s))
             (\<lambda>((approval, why), approvals').
                case approval of
                  None \<Rightarrow>
                    (let reason = ''production_approval_'' @ why in
                     try_then (audit ''authorization.consume_rejected'' row a reason (ts 3)) (\<lambda>p.
                       Inr (ServiceResult False ''production_approval_required'' reason None (Some p),
                            s\<lparr>db_approvals := approvals'\<rparr>)))
                | Some _ \<Rightarrow>
                    consume_row ts aid a actor_scope version row (s\<lparr>db_approvals := approvals'\<rparr>))
         else consume_row ts aid a actor_scope version row s))"

end
