(* ===== verification/Authz_Service_Props.thy ===== *)
theory Authz_Service_Props imports Authz_Service begin

text \<open>
  What the authorization service guarantees: the consume operation (its only effect is the guarded
  update, backed by a production approval where one is needed), the explanation a refused consume
  gives, and the invariant of every database reachable by calls of the service.
\<close>

section \<open>Consuming\<close>

lemma consume_row_cases:
  assumes "consume_row ts aid a sc version row s = Inr (res, s')"
  shows "(\<not> sr_ok res \<and> s' = s \<and> \<not> ra_production_effect row) \<or>
    (\<exists>r t' p. sr_ok res \<and> sr_authorization res = Some r \<and> s' = s\<lparr>db_auths := t'\<rparr> \<and>
       consume (ts 2) aid (principal_id a) version (team_id sc) (project_id sc) (db_auths s)
         = Inr (Some r, t'))"
proof -
  from assms obtain updated t' where c: "consume (ts 2) aid (principal_id a) version (team_id sc)
      (project_id sc) (db_auths s) = Inr (updated, t')"
    by (auto simp: consume_row_def try_then_Inr_iff)
  show ?thesis
  proof (cases updated)
    case None
    then show ?thesis using assms c
      by (auto simp: consume_row_def masked_def try_then_Inr_iff Let_def split: if_split_asm option.splits)
  next
    case (Some r)
    then show ?thesis using assms c by (auto simp: consume_row_def try_then_Inr_iff)
  qed
qed

text \<open>An evaluated consume: the visible row and the policy's permission.\<close>

definition may_consume :: "string \<Rightarrow> actor \<Rightarrow> scope \<Rightarrow> auth_row \<Rightarrow> 'a authz_db_scheme \<Rightarrow> bool" where
  "may_consume aid a sc row s \<longleftrightarrow> load_visible aid sc s = Some row \<and>
     allowed (evaluate (''consume_'' @ ra_action_type row) a sc (row_scope row) None
       (ra_production_effect row) (ra_production_approval_reference row))"

lemma may_consume_service:
  assumes "may_consume aid a sc row s"
  shows "is_service_identity a" "row \<in> set (db_auths s)" "ra_authorization_id row = aid"
    "team_id sc = Some (ra_team_id row)" "project_id sc = Some (ra_project_id row)"
proof -
  let ?c = "''consume_'' @ ra_action_type row"
  from assms have al: "allowed (evaluate ?c a sc (row_scope row) None (ra_production_effect row)
      (ra_production_approval_reference row))" and v: "load_visible aid sc s = Some row"
    by (simp_all add: may_consume_def)
  have "?c \<notin> set POLICY_AUTHORITY_ACTIONS" "map_of ACTION_ROLES ?c = None"
    by (simp_all add: POLICY_AUTHORITY_ACTIONS_def ACTION_ROLES_def)
  then show "is_service_identity a"
    using al by (auto simp: evaluate_allowed_iff may_human_def split: if_splits)
  show "row \<in> set (db_auths s)" "ra_authorization_id row = aid"
    "team_id sc = Some (ra_team_id row)" "project_id sc = Some (ra_project_id row)"
    using fetchrow_SomeD[OF v[unfolded load_visible_def get_authorization_def]]
    by (simp_all add: in_scope_def)
qed

definition backed_by :: "string list \<Rightarrow> (nat \<Rightarrow> int) \<Rightarrow> string \<Rightarrow> actor \<Rightarrow> string \<Rightarrow> auth_row \<Rightarrow> approval_table \<Rightarrow> approval_table \<Rightarrow> bool" where
  "backed_by auths ts aid a version row t t' \<longleftrightarrow>
     (if ra_production_effect row then
        (\<exists>ap. resolve_and_consume_approval auths ts (ra_production_approval_reference row)
            (binding_of row version) (principal_id a) aid t = Inr ((Some ap, ''ok''), t'))
      else t' = t)"

lemma consume_authorization_cases:
  assumes inv: "paa_inv (db_approvals s)"
    and c: "consume_authorization ts aid a sc version s = Inr (res, s')"
  shows "(\<not> sr_ok res \<and> s' = s) \<or>
    (\<exists>row r t' ap'. sr_ok res \<and> sr_authorization res = Some r \<and> may_consume aid a sc row s \<and>
       backed_by (map ra_authorization_id (db_auths s)) ts aid a version row (db_approvals s) ap' \<and>
       consume (ts 2) aid (principal_id a) version (team_id sc) (project_id sc) (db_auths s)
         = Inr (Some r, t') \<and>
       s' = s\<lparr>db_approvals := ap', db_auths := t'\<rparr>)"
proof (cases "\<exists>row. may_consume aid a sc row s")
  case False
  then show ?thesis using c
    by (auto simp: consume_authorization_def may_consume_def masked_def deny_outcome_def Let_def
        split: option.splits if_split_asm)
next
  case True
  then obtain row where m: "may_consume aid a sc row s" by blast
  then have v: "load_visible aid sc s = Some row" and
    al: "allowed (evaluate (''consume_'' @ ra_action_type row) a sc (row_scope row) None
       (ra_production_effect row) (ra_production_approval_reference row))"
    by (simp_all add: may_consume_def)
  show ?thesis
  proof (cases "ra_production_effect row")
    case False
    then have "consume_row ts aid a sc version row s = Inr (res, s')"
      using c v al by (simp add: consume_authorization_def)
    from consume_row_cases[OF this] m False show ?thesis by (force simp: backed_by_def)
  next
    case True
    have known: "aid \<in> set (map ra_authorization_id (db_auths s))" using may_consume_service(2,3)[OF m] by auto
    obtain ap why aps where r: "resolve_and_consume_approval (map ra_authorization_id (db_auths s)) ts (ra_production_approval_reference row)
        (binding_of row version) (principal_id a) aid (db_approvals s) = Inr ((ap, why), aps)"
      using resolve_total[OF inv known] by blast
    show ?thesis
    proof (cases ap)
      case None
      with resolve_None[OF inv] r have "aps = db_approvals s" by blast
      then show ?thesis using c v al True r None
        by (auto simp: consume_authorization_def try_then_Inr_iff Let_def)
    next
      case (Some p)
      then have ok: "why = ''ok''" using resolve_Some[OF inv] r by metis
      have "consume_row ts aid a sc version row (s\<lparr>db_approvals := aps\<rparr>) = Inr (res, s')"
        using c v al True r Some by (simp add: consume_authorization_def)
      from consume_row_cases[OF this] m True r Some ok show ?thesis
        by (force simp: backed_by_def)
    qed
  qed
qed

lemma consume_Some:
  assumes "rra_inv t" "consume now aid by v team project t = Inr (Some r, t')"
  obtains r0 where "r0 \<in> set t" "ra_authorization_id r0 = aid" "in_scope team project r0"
    "life r0 = Authorized" "now < ra_expires_at r0" "ra_resource_state_version r0 = v"
    "r = final_upd (Consume now by v team project) r0" "r \<in> set t'"
    "\<And>x. x \<in> set t' \<Longrightarrow> x = r \<or> x \<in> set t"
    "rra_step t t'"
proof -
  have f: "finish (Consume now by v team project) aid t = Inr (Some r, t')"
    using assms(2) by (simp add: consume_def)
  note c = finish_cas[OF f, symmetric]
  from finals.cas_won[OF c] obtain r0 where r0: "r0 \<in> set t" "ra_authorization_id r0 = aid"
      "final_guard (Consume now by v team project) r0"
      "r = final_upd (Consume now by v team project) r0" "r \<in> set t'" .
  have x: "x = r \<or> x \<in> set t" if "x \<in> set t'" for x
  proof -
    have "x \<in> set (snd (cas ra_authorization_id final_guard final_upd
        (Consume now by v team project) aid t))" using that c by simp
    from finals.cas_rows[OF this] show ?thesis
      using r0 assms(1) distinct_map_eqD[of ra_authorization_id t] by (auto simp: rra_inv_def)
  qed
  show thesis
    by (rule that[OF r0(1,2) _ _ _ _ r0(4,5) x rra_step.finish[OF f]])
       (use r0(3) in \<open>auto simp: life_def\<close>)
qed

definition consumed_row :: "int \<Rightarrow> string \<Rightarrow> auth_row \<Rightarrow> auth_row" where
  "consumed_row now by r = r\<lparr>ra_consumed_at := Some now, ra_consumed_by := Some by, ra_updated_at := now\<rparr>"

lemma consume_Some_table:
  assumes "rra_inv t" "consume now aid by v team project t = Inr (Some r, t')"
    "r0 \<in> set t" "ra_authorization_id r0 = aid"
  shows "r = consumed_row now by r0" "t' = update_where (\<lambda>x. x = r0) (consumed_row now by) t"
    "life r0 = Authorized" "now < ra_expires_at r0" "ra_resource_state_version r0 = v"
proof -
  let ?p = "Consume now by v team project"
  obtain r1 where r1: "r1 \<in> set t" "ra_authorization_id r1 = aid" "life r1 = Authorized"
      "now < ra_expires_at r1" "ra_resource_state_version r1 = v" "r = final_upd ?p r1"
    using assms(2) by (rule consume_Some[OF assms(1)])
  have d: "distinct (map ra_authorization_id t)" using assms(1) by (simp add: rra_inv_def)
  have eq: "r1 = r0" using distinct_map_eqD[OF d r1(1) assms(3)] r1(2) assms(4) by simp
  have f: "finish ?p aid t = Inr (Some r, t')" using assms(2) by (simp add: consume_def)
  note c = finish_cas[OF f, symmetric]
  then obtain x where g: "fetchrow (\<lambda>x. ra_authorization_id x = aid \<and> final_guard ?p x) t = Some x"
    and t': "t' = update_where (\<lambda>x. ra_authorization_id x = aid \<and> final_guard ?p x) (final_upd ?p) t"
    unfolding cas_def by (elim update_returning_SomeD)
  from fetchrow_SomeD[OF g] have x: "x = r0" "final_guard ?p r0"
    using distinct_map_eqD[OF d _ assms(3), of x] assms(4) by auto
  have "ra_authorization_id y = aid \<and> final_guard ?p y \<longleftrightarrow> y = r0" if "y \<in> set t" for y
    using x(2) that assms(3,4) distinct_map_eqD[OF d that assms(3)] by auto
  then show "t' = update_where (\<lambda>x. x = r0) (consumed_row now by) t"
    unfolding t' update_where_def by (auto simp: consumed_row_def)
  show "r = consumed_row now by r0" "life r0 = Authorized" "now < ra_expires_at r0"
    "ra_resource_state_version r0 = v"
    using r1(3-6) by (simp_all add: eq consumed_row_def)
qed

lemma backed_by_production:
  assumes "paa_inv t" "backed_by auths ts aid a version row t t'" "ra_production_effect row"
  obtains ap where "ap \<in> set t" "names (ra_production_approval_reference row) ap"
    "usable (ts 0) (binding_of row version) ap" "usable (ts 1) (binding_of row version) ap"
    "t' = update_where (\<lambda>x. x = ap)
       (approval_upd (ConsumeApproval (ts 1) (principal_id a) aid (binding_of row version))) t"
  using assms by (auto simp: backed_by_def elim!: resolve_Some)

text \<open>
  C2. The whole consume: a refused consume leaves the database untouched, the production approval
  included. A successful one was called by the service identity in the scope of an authorization that
  was authorized, unexpired and of the presented version; it marks exactly that row consumed. If the
  authorization has a production effect, the approval its reference names was usable for exactly this
  action, resource, scope and version, and is spent in the same transaction; otherwise no approval is
  touched.
\<close>

theorem consume_authorization_sound:
  assumes "rra_inv (db_auths s)" "paa_inv (db_approvals s)"
    "consume_authorization ts aid a sc version s = Inr (res, s')"
  shows "(\<not> sr_ok res \<longrightarrow> s' = s) \<and>
    (sr_ok res \<longrightarrow> is_service_identity a \<and> (\<exists>r0 \<in> set (db_auths s).
       ra_authorization_id r0 = aid \<and> in_scope (team_id sc) (project_id sc) r0 \<and>
       life r0 = Authorized \<and> ts 2 < ra_expires_at r0 \<and> ra_resource_state_version r0 = version \<and>
       db_auths s' = update_where (\<lambda>x. x = r0) (consumed_row (ts 2) (principal_id a)) (db_auths s) \<and>
       (\<not> ra_production_effect r0 \<longrightarrow> db_approvals s' = db_approvals s) \<and>
       (ra_production_effect r0 \<longrightarrow> (\<exists>ap \<in> set (db_approvals s).
          names (ra_production_approval_reference r0) ap \<and>
          usable (ts 0) (binding_of r0 version) ap \<and> usable (ts 1) (binding_of r0 version) ap \<and>
          db_approvals s' = update_where (\<lambda>x. x = ap) (approval_upd
            (ConsumeApproval (ts 1) (principal_id a) aid (binding_of r0 version))) (db_approvals s)))))"
  using consume_authorization_cases[OF assms(2,3)]
proof (elim disjE exE conjE)
  assume "\<not> sr_ok res" "s' = s"
  then show ?thesis by simp
next
  fix row r t' ap'
  assume m: "may_consume aid a sc row s" and ok: "sr_ok res"
    and b: "backed_by (map ra_authorization_id (db_auths s)) ts aid a version row (db_approvals s) ap'"
    and c: "consume (ts 2) aid (principal_id a) version (team_id sc) (project_id sc) (db_auths s)
       = Inr (Some r, t')"
    and s': "s' = s\<lparr>db_approvals := ap', db_auths := t'\<rparr>"
  note svc = may_consume_service[OF m]
  note tab = consume_Some_table[OF assms(1) c svc(2,3)]
  have sc: "in_scope (team_id sc) (project_id sc) row" using svc(4,5) by (simp add: in_scope_def)
  show ?thesis
  proof (cases "ra_production_effect row")
    case False
    then show ?thesis using svc tab sc ok b s' by (auto simp: backed_by_def)
  next
    case True
    obtain ap where ap: "ap \<in> set (db_approvals s)" "names (ra_production_approval_reference row) ap"
      "usable (ts 0) (binding_of row version) ap" "usable (ts 1) (binding_of row version) ap"
      "ap' = update_where (\<lambda>x. x = ap) (approval_upd
         (ConsumeApproval (ts 1) (principal_id a) aid (binding_of row version))) (db_approvals s)"
      by (rule backed_by_production[OF assms(2) b True])
    have "\<exists>r0 \<in> set (db_auths s). r0 = row" using svc(2) by blast
    then show ?thesis using svc tab sc ok s' True ap
      by (intro conjI impI bexI[of _ row] bexI[of _ ap]) simp_all
  qed
qed

section \<open>Witness data\<close>

definition demo_service :: actor where
  "demo_service = \<lparr>principal_id = ''svc'', role = ''service'', is_service_identity = True,
     is_policy_authority = False\<rparr>"

text \<open>An authorized replay with a production effect, and the approval it refers to.\<close>

definition demo_prod_row :: auth_row where
  "demo_prod_row = demo_authorized\<lparr>ra_resource_id := ''r1'', ra_production_effect := True,
     ra_production_approval_reference := Some demo_uuid\<rparr>"

definition demo_db :: authz_db where
  "demo_db = \<lparr>db_auths = [demo_prod_row], db_approvals = [demo_approval]\<rparr>"

lemma demo_prod_fields [simp]:
  "ra_authorization_id demo_prod_row = ''a1''" "ra_action_type demo_prod_row = ''replay''"
  "ra_resource_type demo_prod_row = ''outbox_event''" "ra_resource_id demo_prod_row = ''r1''"
  "ra_team_id demo_prod_row = ''t1''" "ra_project_id demo_prod_row = ''p1''"
  "ra_production_effect demo_prod_row" "ra_decision demo_prod_row = ''authorized''"
  "ra_production_approval_reference demo_prod_row = Some demo_uuid"
  "ra_resource_state_version demo_prod_row = ''v1''" "ra_expires_at demo_prod_row = 100"
  "ra_consumed_at demo_prod_row = None" "ra_revoked_at demo_prod_row = None"
  "ra_expired_at demo_prod_row = None"
  by (simp_all add: demo_prod_row_def demo_defs)

lemma demo_prod_inv: "rra_inv [demo_prod_row]"
proof -
  have "rra_checks demo_prod_row = rra_checks demo_authorized"
    by (simp add: rra_checks_def demo_prod_row_def)
  then have "rra_checks demo_prod_row" using demo_checks(2) by simp
  then show ?thesis by (simp add: rra_inv_def one_active_def rra_wf_def)
qed

lemma demo_may_consume: "may_consume ''a1'' demo_service demo_scope demo_prod_row demo_db"
proof -
  have "demo_uuid \<noteq> []" by (simp add: demo_uuid_def)
  then show ?thesis
    by (simp add: may_consume_def load_visible_def get_authorization_def demo_db_def table_simps
        in_scope_def demo_scope_def evaluate_allowed_iff isolation_ok_def row_scope_def non_empty_def
        may_service_def CONSUME_ACTIONS_def demo_service_def)
qed

lemma demo_binding_of: "binding_of demo_prod_row ''v1'' = demo_binding"
  by (simp add: binding_of_def demo_binding_def)

lemma demo_resolve:
  "resolve_and_consume_approval [''a1''] (\<lambda>_. 40) (Some demo_uuid) demo_binding ''svc'' ''a1'' [demo_approval] =
    Inr ((Some (approval_upd (ConsumeApproval 40 ''svc'' ''a1'' demo_binding) demo_approval), ''ok''),
      [approval_upd (ConsumeApproval 40 ''svc'' ''a1'' demo_binding) demo_approval])"
  using resolve_usable[OF demo_approval_inv _ demo_approval_named, of "\<lambda>_. 40" demo_binding "''a1''" "[''a1'']" "''svc''"]
    demo_approval_usable[of 40] by (simp add: update_where_simps)

lemma demo_prod_consume:
  "consume 40 ''a1'' ''svc'' ''v1'' (Some ''t1'') (Some ''p1'') [demo_prod_row] =
     Inr (Some (consumed_row 40 ''svc'' demo_prod_row), [consumed_row 40 ''svc'' demo_prod_row])"
proof -
  have "rra_checks (consumed_row 40 ''svc'' demo_prod_row)"
    using demo_prod_inv by (simp add: rra_inv_def rra_wf_def rra_checks_def consumed_row_def)
  then show ?thesis
    by (simp add: consume_def finish_def checked_update_def update_returning_def table_simps
        in_scope_def consumed_row_def)
qed

lemma demo_audit_consumed:
  "\<exists>p. audit ''authorization.consumed'' (consumed_row 40 ''svc'' demo_prod_row) demo_service
     ''policy_allow'' 40 = Inr p"
  by (rule exI) code_simp

lemma demo_consume_ok:
  obtains res where
  "consume_authorization (\<lambda>_. 40) ''a1'' demo_service demo_scope ''v1'' demo_db = Inr (res,
     \<lparr>db_auths = [consumed_row 40 ''svc'' demo_prod_row],
      db_approvals = [approval_upd (ConsumeApproval 40 ''svc'' ''a1'' demo_binding) demo_approval]\<rparr>)"
  "sr_ok res"
proof -
  obtain p where p: "audit ''authorization.consumed'' (consumed_row 40 ''svc'' demo_prod_row) demo_service
     ''policy_allow'' 40 = Inr p" using demo_audit_consumed by blast
  have v: "load_visible ''a1'' demo_scope demo_db = Some demo_prod_row" and
    al: "allowed (evaluate (''consume_'' @ ra_action_type demo_prod_row) demo_service demo_scope
      (row_scope demo_prod_row) None (ra_production_effect demo_prod_row)
      (ra_production_approval_reference demo_prod_row))"
    using demo_may_consume by (auto simp only: may_consume_def)
  have d: "principal_id demo_service = ''svc''" "team_id demo_scope = Some ''t1''"
    "project_id demo_scope = Some ''p1''" "db_auths demo_db = [demo_prod_row]"
    "db_approvals demo_db = [demo_approval]"
    by (simp_all add: demo_service_def demo_scope_def demo_db_def)
  show thesis
    by (rule that[of "ServiceResult True ''ok'' ''policy_allow'' (Some (consumed_row 40 ''svc'' demo_prod_row)) (Some p)"])
      (use v al in \<open>simp_all add: consume_authorization_def consume_row_def d demo_binding_of demo_resolve
         demo_prod_consume p demo_db_def del: approval_upd.simps\<close>)
qed

theorem consume_authorization_sound_witness:
  "\<exists>res s'. consume_authorization (\<lambda>_. 40) ''a1'' demo_service demo_scope ''v1'' demo_db = Inr (res, s') \<and>
     sr_ok res \<and> db_auths s' = [consumed_row 40 ''svc'' demo_prod_row]"
proof -
  obtain res where res: "consume_authorization (\<lambda>_. 40) ''a1'' demo_service demo_scope ''v1'' demo_db = Inr (res,
     \<lparr>db_auths = [consumed_row 40 ''svc'' demo_prod_row],
      db_approvals = [approval_upd (ConsumeApproval 40 ''svc'' ''a1'' demo_binding) demo_approval]\<rparr>)"
    and ok: "sr_ok res" by (rule demo_consume_ok)
  have i: "rra_inv (db_auths demo_db)" "paa_inv (db_approvals demo_db)"
    using demo_prod_inv demo_approval_inv by (simp_all add: demo_db_def)
  show ?thesis using consume_authorization_sound[OF i res] res ok by (auto simp del: approval_upd.simps)
qed

section \<open>The explanation of a refused consume\<close>

definition past_deadline :: "auth_row \<Rightarrow> int \<Rightarrow> bool" where
  "past_deadline r now \<longleftrightarrow> ra_expires_at r \<le> now"

text \<open>The refusal a caller is owed, from the abstract state of the authorization.\<close>

definition owed_refusal :: "auth_row \<Rightarrow> int \<Rightarrow> string \<Rightarrow> string option" where
  "owed_refusal r now version =
    (case life r of
       Consumed \<Rightarrow> Some ''already_consumed''
     | Revoked \<Rightarrow> Some ''revoked''
     | Expired \<Rightarrow> Some ''expired''
     | Rejected \<Rightarrow> Some ''invalid_transition''
     | Canceled \<Rightarrow> Some ''invalid_transition''
     | Pending \<Rightarrow> Some (if past_deadline r now then ''expired'' else ''invalid_transition'')
     | Authorized \<Rightarrow>
         if past_deadline r now then Some ''expired''
         else if ra_resource_state_version r \<noteq> version then Some ''stale_state'' else None)"

lemma decisions_cases:
  "rra_checks r \<Longrightarrow> ra_decision r \<in> {''pending'', ''authorized'', ''rejected'', ''canceled''}"
  by (simp add: rra_checks_def DECISIONS_def)

lemma classify_owed:
  assumes "rra_checks r"
  shows "classify_consume_failure r now version = (case owed_refusal r now version of
    None \<Rightarrow> ''conflict'' | Some k \<Rightarrow> k)"
  using decisions_cases[OF assms]
  by (auto simp: classify_consume_failure_def owed_refusal_def life_def project_state_def
      past_deadline_def)

lemma owed_mono:
  assumes "now \<le> later" "owed_refusal r later version = None"
  shows "owed_refusal r now version = None"
  using assms by (auto simp: owed_refusal_def past_deadline_def split: auth_life.splits if_split_asm)

lemma consumed_keeps_checks:
  "rra_checks r \<Longrightarrow> final_guard (Consume now by v team project) r \<Longrightarrow>
     rra_checks (final_upd (Consume now by v team project) r)"
  by (simp add: rra_checks_def)

lemma consume_None_iff:
  assumes inv: "rra_inv t" and r: "r \<in> set t" "ra_authorization_id r = aid" "in_scope team project r"
  shows "\<exists>x t'. consume now aid by v team project t = Inr (x, t') \<and>
    (x = None \<longleftrightarrow> owed_refusal r now v \<noteq> None)"
proof -
  let ?p = "Consume now by v team project"
  have wf: "rra_wf x" if "x \<in> set t" for x using inv that by (simp add: rra_inv_def)
  have d: "distinct (map ra_authorization_id t)" using inv by (simp add: rra_inv_def)
  have g: "final_guard ?p r \<longleftrightarrow> owed_refusal r now v = None"
    using decisions_cases[of r] wf[OF r(1)] r(3)
    by (auto simp: owed_refusal_def life_def past_deadline_def rra_wf_def)
  have "\<forall>x \<in> set t. ra_authorization_id x = aid \<and> final_guard ?p x \<longrightarrow> rra_checks (final_upd ?p x)"
    using wf consumed_keeps_checks by (simp add: rra_wf_def del: final_guard.simps final_upd.simps)
  then have c: "consume now aid by v team project t = Inr (update_returning
      (\<lambda>x. ra_authorization_id x = aid \<and> final_guard ?p x) (final_upd ?p) t)"
    unfolding consume_def finish_def by (intro iffD2[OF checked_update_Inr] conjI refl)
  have "fetchrow (\<lambda>x. ra_authorization_id x = aid \<and> final_guard ?p x) t = None \<longleftrightarrow> \<not> final_guard ?p r"
    unfolding fetchrow_None_iff using r(1,2) distinct_map_eqD[OF d _ r(1)] by metis
  then show ?thesis unfolding c update_returning_def using g by auto
qed

lemma scan_payload_outcome: "scan_payload keys what p = Inr () \<or> (\<exists>m. scan_payload keys what p = Inl (ValueError m))"
  by (induction keys what p rule: scan_payload.induct) (auto split: pval.split)

lemma audit_outcome:
  obtains (raises) m where "audit ev r a c n = Inl (ValueError m)"
  | (payload) p where "audit ev r a c n = Inr p"
proof -
  let ?x = "audit_args_of ev r a c n"
  have "(\<exists>m. build_audit_payload ?x = Inl (ValueError m)) \<or> (\<exists>p. build_audit_payload ?x = Inr p)"
    using scan_payload_outcome[of SAFE_PAYLOAD_KEYS "''audit payload''" "some_fields (audit_raw ?x (Some c))"]
    by (auto simp: build_audit_payload_def assert_reason_code_def audit_args_of_def Let_def)
  then show thesis using that by (auto simp: audit_def)
qed

lemma load_visible_of:
  assumes "rra_inv (db_auths s)" "row \<in> set (db_auths s)" "ra_authorization_id row = aid"
    "in_scope (team_id sc) (project_id sc) row"
  shows "load_visible aid sc s = Some row"
  unfolding load_visible_def get_authorization_def
  using assms by (intro fetchrow_distinct[of ra_authorization_id]) (auto simp: rra_inv_def)

lemma may_consume_row:
  assumes "rra_inv (db_auths s)" "may_consume aid a sc row s"
  shows "rra_checks row" "in_scope (team_id sc) (project_id sc) row"
  using may_consume_service[OF assms(2)] assms(1) by (auto simp: rra_inv_def rra_wf_def in_scope_def)

text \<open>
  A consume without production effect that passed the policy answers with the truth: it succeeds
  when and only when the authorization is authorized, unexpired and of the presented version at the
  clock of the update; otherwise the database is unchanged and the reason is the one owed for the
  state the row is in (the code's fallback \<^verbatim>\<open>conflict\<close> is never returned, unless another caller wrote
  the row in between). The only exception that can arise is a \<^verbatim>\<open>ValueError\<close> of the audit payload.
\<close>

theorem consume_refusal_is_owed:
  assumes "rra_inv (db_auths s)" "may_consume aid a sc row s" "\<not> ra_production_effect row"
    "ts 2 \<le> ts 3"
  shows "case consume_authorization ts aid a sc version s of
      Inl e \<Rightarrow> \<exists>m. e = ValueError m
    | Inr (res, s') \<Rightarrow>
        (sr_ok res \<longleftrightarrow> owed_refusal row (ts 2) version = None) \<and>
        (\<not> sr_ok res \<longrightarrow> s' = s \<and> owed_refusal row (ts 3) version = Some (sr_reason_code res) \<and>
           sr_result_kind res = sr_reason_code res)"
proof -
  note svc = may_consume_service[OF assms(2)] and row = may_consume_row[OF assms(1,2)]
  have v: "load_visible aid sc s = Some row" using assms(2) by (simp add: may_consume_def)
  have eq: "consume_authorization ts aid a sc version s = consume_row ts aid a sc version row s"
    using assms(2,3) v by (simp add: consume_authorization_def may_consume_def)
  obtain x t' where c: "consume (ts 2) aid (principal_id a) version (team_id sc) (project_id sc)
      (db_auths s) = Inr (x, t')" "x = None \<longleftrightarrow> owed_refusal row (ts 2) version \<noteq> None"
    using consume_None_iff[OF assms(1) svc(2,3) row(2)] by blast
  show ?thesis
  proof (cases x)
    case (Some u)
    have r: "consume_row ts aid a sc version row s =
        try_then (audit ''authorization.consumed'' u a ''policy_allow'' (ts 3)) (\<lambda>p.
          Inr (ServiceResult True ''ok'' ''policy_allow'' (Some u) (Some p), s\<lparr>db_auths := t'\<rparr>))"
      using c(1) Some by (simp add: consume_row_def)
    show ?thesis
    proof (cases rule: audit_outcome[of "''authorization.consumed''" u a "''policy_allow''" "ts 3"])
      case (raises m)
      then show ?thesis unfolding eq r by simp
    next
      case (payload p)
      have "owed_refusal row (ts 2) version = None" using c(2) Some by simp
      then show ?thesis unfolding eq r payload by simp
    qed
  next
    case None
    then have "owed_refusal row (ts 3) version \<noteq> None" using c(2) owed_mono[OF assms(4), of row version] by metis
    then have k: "owed_refusal row (ts 3) version = Some (classify_consume_failure row (ts 3) version)"
      using classify_owed[OF row(1)] by auto
    let ?k = "classify_consume_failure row (ts 3) version"
    have r: "consume_row ts aid a sc version row s =
        try_then (audit ''authorization.consume_rejected'' row a ?k (ts 4)) (\<lambda>p.
          Inr (ServiceResult False ?k ?k None (Some p), s))"
      using c(1) None assms(3) v by (simp add: consume_row_def Let_def)
    show ?thesis
    proof (cases rule: audit_outcome[of "''authorization.consume_rejected''" row a ?k "ts 4"])
      case (raises m)
      then show ?thesis unfolding eq r by simp
    next
      case (payload p)
      have "owed_refusal row (ts 2) version \<noteq> None" using c(2) None by simp
      then show ?thesis unfolding eq r payload
        using k by simp
    qed
  qed
qed

definition demo_plain_db :: authz_db where
  "demo_plain_db = \<lparr>db_auths = [demo_authorized], db_approvals = []\<rparr>"

lemma demo_plain_may_consume: "may_consume ''a1'' demo_service demo_scope demo_authorized demo_plain_db"
  by (simp add: may_consume_def load_visible_def get_authorization_def demo_plain_db_def table_simps
        in_scope_def demo_scope_def evaluate_allowed_iff isolation_ok_def row_scope_def non_empty_def
        may_service_def CONSUME_ACTIONS_def demo_service_def demo_defs)

lemma demo_plain_inv: "rra_inv (db_auths demo_plain_db)"
  using demo_inv(2) by (simp add: demo_plain_db_def)

lemma demo_audit_rejected:
  "\<exists>p. audit ''authorization.consume_rejected'' demo_authorized demo_service ''stale_state'' 40 = Inr p"
  by (rule exI) code_simp

theorem consume_refusal_is_owed_witness:
  "owed_refusal demo_authorized 40 ''v2'' = Some ''stale_state'' \<and>
   (case consume_authorization (\<lambda>_. 40) ''a1'' demo_service demo_scope ''v2'' demo_plain_db of
      Inl e \<Rightarrow> \<exists>m. e = ValueError m
    | Inr (res, s') \<Rightarrow> \<not> sr_ok res \<and> sr_reason_code res = ''stale_state'' \<and> s' = demo_plain_db)"
proof -
  have o: "owed_refusal demo_authorized 40 ''v2'' = Some ''stale_state''"
    by (simp add: owed_refusal_def life_def past_deadline_def demo_defs)
  have np: "\<not> ra_production_effect demo_authorized" by (simp add: demo_defs)
  show ?thesis
    using consume_refusal_is_owed[OF demo_plain_inv demo_plain_may_consume np, of "\<lambda>_. 40" "''v2''"] o
    by (auto split: sum.splits)
qed

text \<open>
  With a production effect the refusals above are lost: when the referenced approval is usable
  but the authorization itself is not (still pending, expired, revoked, stale), the call raises
  \<^verbatim>\<open>RuntimeError\<close>, with no other caller involved, where the same consume without production effect
  answers with the owed refusal.
\<close>

theorem production_consume_raises:
  assumes "rra_inv (db_auths s)" "paa_inv (db_approvals s)" "may_consume aid a sc row s"
    "ra_production_effect row" "owed_refusal row (ts 2) version \<noteq> None"
    "ap \<in> set (db_approvals s)" "names (ra_production_approval_reference row) ap"
    "usable (ts 0) (binding_of row version) ap" "usable (ts 1) (binding_of row version) ap"
  shows "\<exists>m. consume_authorization ts aid a sc version s = Inl (RuntimeError m)"
proof -
  note svc = may_consume_service[OF assms(3)] and row = may_consume_row[OF assms(1,3)]
  obtain x t' where c: "consume (ts 2) aid (principal_id a) version (team_id sc) (project_id sc)
      (db_auths s) = Inr (x, t')" "x = None \<longleftrightarrow> owed_refusal row (ts 2) version \<noteq> None"
    using consume_None_iff[OF assms(1) svc(2,3) row(2)] by blast
  then have "x = None" using assms(5) by simp
  then show ?thesis
    using assms(3,4) c(1) resolve_usable[OF assms(2,6-9), of aid "map ra_authorization_id (db_auths s)"] svc(2,3)
    by (auto simp: consume_authorization_def may_consume_def consume_row_def)
qed

text \<open>The same production replay, still pending.\<close>

definition demo_pending_prod :: auth_row where
  "demo_pending_prod = demo_row\<lparr>ra_resource_id := ''r1'', ra_production_effect := True,
     ra_production_approval_reference := Some demo_uuid\<rparr>"

definition demo_pending_db :: authz_db where
  "demo_pending_db = \<lparr>db_auths = [demo_pending_prod], db_approvals = [demo_approval]\<rparr>"

lemma demo_pending_inv: "rra_inv (db_auths demo_pending_db)"
proof -
  have "rra_checks demo_pending_prod = rra_checks demo_row"
    by (simp add: rra_checks_def demo_pending_prod_def)
  then have "rra_checks demo_pending_prod" using demo_checks(1) by simp
  then show ?thesis
    by (simp add: rra_inv_def one_active_def rra_wf_def demo_pending_db_def demo_pending_prod_def demo_defs)
qed

theorem production_consume_raises_witness:
  "(\<exists>m. consume_authorization (\<lambda>_. 40) ''a1'' demo_service demo_scope ''v1'' demo_pending_db
      = Inl (RuntimeError m)) \<and> life demo_pending_prod = Pending"
proof -
  have "demo_uuid \<noteq> []" by (simp add: demo_uuid_def)
  then have m: "may_consume ''a1'' demo_service demo_scope demo_pending_prod demo_pending_db"
    by (simp add: may_consume_def load_visible_def get_authorization_def demo_pending_db_def table_simps
        in_scope_def demo_scope_def evaluate_allowed_iff isolation_ok_def row_scope_def non_empty_def
        may_service_def CONSUME_ACTIONS_def demo_service_def demo_pending_prod_def demo_defs)
  have l: "life demo_pending_prod = Pending" by (simp add: life_def demo_pending_prod_def demo_defs)
  have f: "ra_production_effect demo_pending_prod"
    "ra_production_approval_reference demo_pending_prod = Some demo_uuid"
    by (simp_all add: demo_pending_prod_def)
  have b: "binding_of demo_pending_prod ''v1'' = demo_binding"
    by (simp add: binding_of_def demo_binding_def demo_pending_prod_def demo_defs)
  have a: "paa_inv (db_approvals demo_pending_db)" "demo_approval \<in> set (db_approvals demo_pending_db)"
    using demo_approval_inv by (simp_all add: demo_pending_db_def)
  have "owed_refusal demo_pending_prod ((\<lambda>_. 40) (2::nat)) ''v1'' \<noteq> None" by (simp add: owed_refusal_def l)
  then show ?thesis
    using production_consume_raises[OF demo_pending_inv a(1) m f(1) _ a(2)] l
      demo_approval_named demo_approval_usable[of 40] by (simp add: f b)
qed

section \<open>Requesting\<close>

text \<open>
  C30. The re-read after a unique violation carries no scope: a caller permitted to request in its own
  scope who presents an idempotency key of another team's authorization is answered ok with that
  team's row, and with an audit payload about it.
\<close>

theorem request_returns_foreign_row:
  assumes "rra_inv (db_auths s)" "row \<in> set (db_auths s)"
    "allowed (evaluate (''request_'' @ act) a sc rs None False None)"
    "rra_checks (new_auth_row (request_of a rs act rt rid ver ex (ra_idempotency_key row) pe ref)
       aid qid (ts 0) (or_empty (team_id rs)) (or_empty (project_id rs)))"
    "aid \<notin> ra_authorization_id ` set (db_auths s)"
    "audit ''authorization.requested'' row a ''ok'' (ts 1) = Inr p"
  shows "request_authorization ts aid qid a sc rs act rt rid ver ex (ra_idempotency_key row) pe ref s =
    Inr (ServiceResult True ''ok'' ''ok'' (Some row) (Some p), s)"
proof -
  let ?q = "request_of a rs act rt rid ver ex (ra_idempotency_key row) pe ref"
  obtain t q where tq: "team_id rs = Some t" "project_id rs = Some q"
    using evaluate_allowed_scope[OF assms(3)] by auto
  have k: "rq_team_id ?q = Some t" "rq_project_id ?q = Some q" "rq_idempotency_key ?q = ra_idempotency_key row"
    using tq by (simp_all add: request_of_def)
  have "create_request aid qid (ts 0) ?q (db_auths s) = Inl (UniqueViolation ''uq_rra_idempotency_key'')"
    using assms(2,4,5) tq unfolding create_request_def k
    by (auto simp: Let_def list_ex_iff or_empty_def)
  moreover have "fetchrow (\<lambda>r. ra_idempotency_key r = ra_idempotency_key row) (db_auths s) = Some row"
    using assms(1,2) by (intro fetchrow_distinct[of ra_idempotency_key]) (auto simp: rra_inv_def)
  moreover have "\<not> contains ''uq_rra_active_request'' ''uq_rra_idempotency_key''" by simp
  ultimately show ?thesis using assms(3,6) by (simp add: request_authorization_def)
qed

definition demo_other_scope :: scope where
  "demo_other_scope = \<lparr>team_id = Some ''t2'', project_id = Some ''p2''\<rparr>"

theorem request_returns_foreign_row_witness:
  "\<exists>p. request_authorization (\<lambda>_. 50) ''a2'' ''q2'' (human ''mallory'' ''agent_operator'')
     demo_other_scope demo_other_scope ''replay'' ''outbox_event'' ''ev9'' ''v1'' 90 ''k1'' False None
     demo_plain_db = Inr (ServiceResult True ''ok'' ''ok'' (Some demo_authorized) (Some p), demo_plain_db) \<and>
   ra_team_id demo_authorized = ''t1''"
proof -
  let ?a = "human ''mallory'' ''agent_operator''"
  have k: "ra_idempotency_key demo_authorized = ''k1''" "ra_team_id demo_authorized = ''t1''"
    "ra_authorization_id demo_authorized = ''a1''" by (simp_all add: demo_defs)
  have al: "allowed (evaluate (''request_'' @ ''replay'') ?a demo_other_scope demo_other_scope None False None)"
    by (simp add: policy_eval human_def demo_other_scope_def)
  have chk: "rra_checks (new_auth_row (request_of ?a demo_other_scope ''replay'' ''outbox_event'' ''ev9'' ''v1''
      90 (ra_idempotency_key demo_authorized) False None) ''a2'' ''q2'' 50 (or_empty (team_id demo_other_scope))
      (or_empty (project_id demo_other_scope)))"
    by (simp add: k rra_checks_def new_auth_row_def request_of_def human_def ACTION_TYPES_def
        RESOURCE_TYPES_def DECISIONS_def bounded_def btrim_nonempty_def)
  have "\<exists>p. audit ''authorization.requested'' demo_authorized ?a ''ok'' 50 = Inr p"
    by (rule exI) code_simp
  then obtain p where p: "audit ''authorization.requested'' demo_authorized ?a ''ok'' ((\<lambda>_. 50) (1::nat)) = Inr p" by blast
  have "demo_authorized \<in> set (db_auths demo_plain_db)" "''a2'' \<notin> ra_authorization_id ` set (db_auths demo_plain_db)"
    by (simp_all add: demo_plain_db_def k)
  from request_returns_foreign_row[OF demo_plain_inv this(1) al chk this(2) p] show ?thesis
    by (simp only: k) blast
qed

end
