(* ===== verification/Authz_History.thy ===== *)
theory Authz_History imports Authz_Service_Props begin

text \<open>
  Histories of the authorization and production-approval services: \<open>svc_step\<close> is one call of any
  operation by any caller (or one run of the expiry scan), \<open>svc_inv\<close> what every database reachable
  from the empty one satisfies. Its heart is that a production-effect authorization is only ever
  consumed together with an approval granted for exactly it.
\<close>

inductive svc_step :: "authz_db \<Rightarrow> authz_db \<Rightarrow> bool" where
  request: "request_authorization ts aid rid a sc rs act rt res ver ex key pe ref s = Inr (out, s') \<Longrightarrow> svc_step s s'"
| authorize: "authorize ts aid a sc pv s = Inr (out, s') \<Longrightarrow> svc_step s s'"
| reject: "reject_authorization ts aid a sc s = Inr (out, s') \<Longrightarrow> svc_step s s'"
| cancel: "cancel_authorization ts aid a sc s = Inr (out, s') \<Longrightarrow> svc_step s s'"
| revoke: "revoke_authorization ts aid a sc s = Inr (out, s') \<Longrightarrow> svc_step s s'"
| consume: "consume_authorization ts aid a sc ver s = Inr (out, s') \<Longrightarrow> svc_step s s'"
| expire: "expire_due_authorizations scan now limit (db_auths s) = (n, t) \<Longrightarrow> svc_step s (s\<lparr>db_auths := t\<rparr>)"
| grant: "grant_production_approval ts pid a sc act rt res ver ex key reason (db_approvals s) = Inr (apr, t) \<Longrightarrow>
    svc_step s (s\<lparr>db_approvals := t\<rparr>)"
| revoke_approval: "revoke_production_approval ts pid a sc reason (db_approvals s) = Inr (apr, t) \<Longrightarrow>
    svc_step s (s\<lparr>db_approvals := t\<rparr>)"

section \<open>Operations that consume nothing\<close>

definition quiet :: "auth_table \<Rightarrow> auth_table \<Rightarrow> bool" where
  "quiet t t' \<longleftrightarrow> rra_inv t' \<and> (\<forall>r \<in> set t'. ra_consumed_at r \<noteq> None \<longrightarrow> r \<in> set t)"

lemma quiet_refl: "rra_inv t \<Longrightarrow> quiet t t"
  by (simp add: quiet_def)

lemma create_quiet:
  assumes "rra_inv t" "create_request aid rid now q t = Inr (row, t')"
  shows "quiet t t'"
proof -
  have "rra_inv t'" using rra_step.insert[OF assms(2)] assms(1) rra_step_inv by blast
  then show ?thesis using assms(2)
    by (auto simp: quiet_def new_auth_row_def elim!: create_request_Inr)
qed

lemma decide_upd_consumed: "ra_consumed_at (decide_upd p r) = ra_consumed_at r"
  by (cases p) auto

lemma pending_unconsumed: "rra_inv t \<Longrightarrow> r \<in> set t \<Longrightarrow> decide_guard p r \<Longrightarrow> ra_consumed_at r = None"
  by (auto simp: rra_inv_def rra_wf_def rra_checks_def decide_guard_def)

lemma decide_quiet:
  assumes "rra_inv t" "decide p aid t = Inr (x, t')"
  shows "quiet t t'"
proof -
  have "rra_inv t'" using rra_step.decide[OF assms(2)] assms(1) rra_step_inv by blast
  moreover have "r \<in> set t" if "r \<in> set t'" "ra_consumed_at r \<noteq> None" for r
  proof -
    have "r \<in> set (snd (cas ra_authorization_id decide_guard decide_upd p aid t))"
      using that(1) decide_cas[OF assms(2)] by (metis snd_conv)
    from decides.cas_rows[OF this] show ?thesis
      using that(2) pending_unconsumed[OF assms(1)] decide_upd_consumed by metis
  qed
  ultimately show ?thesis by (simp add: quiet_def)
qed

lemma revoke_quiet:
  assumes "rra_inv t" "finish (Revoke now by reason team project) aid t = Inr (x, t')"
  shows "quiet t t'"
proof -
  have "rra_inv t'" using rra_step.finish[OF assms(2)] assms(1) rra_step_inv by blast
  moreover have "r \<in> set t" if "r \<in> set t'" "ra_consumed_at r \<noteq> None" for r
  proof -
    have "r \<in> set (snd (cas ra_authorization_id final_guard final_upd (Revoke now by reason team project) aid t))"
      using that(1) finish_cas[OF assms(2)] by (metis snd_conv)
    from finals.cas_rows[OF this] show ?thesis using that(2) by auto
  qed
  ultimately show ?thesis by (simp add: quiet_def)
qed

lemma expire_quiet:
  assumes "rra_inv t" "expire_due_authorizations scan now limit t = (n, t')"
  shows "quiet t t'"
proof -
  have "rra_inv t'" using rra_step.expire[OF assms(2)] assms(1) rra_step_inv by blast
  moreover have "r \<in> set t" if "r \<in> set t'" "ra_consumed_at r \<noteq> None" for r
    using assms(2) that
    by (auto simp: expire_due_authorizations_def Let_def set_update_where expiry_due_def rra_active_def
        split: if_splits)
  ultimately show ?thesis by (simp add: quiet_def)
qed

definition quiet_db :: "authz_db \<Rightarrow> authz_db \<Rightarrow> bool" where
  "quiet_db s s' \<longleftrightarrow> quiet (db_auths s) (db_auths s') \<and> db_approvals s' = db_approvals s"

lemma quiet_db_refl: "rra_inv (db_auths s) \<Longrightarrow> quiet_db s s"
  by (simp add: quiet_db_def quiet_refl)

lemma request_quiet:
  assumes "rra_inv (db_auths s)"
    "request_authorization ts aid rid a sc rs act rt res ver ex key pe ref s = Inr (out, s')"
  shows "quiet_db s s'"
proof (cases "allowed (evaluate (''request_'' @ act) a sc rs None False None)")
  case False
  then show ?thesis using assms quiet_db_refl by (auto simp: request_authorization_def Let_def)
next
  case True
  show ?thesis
  proof (cases "create_request aid rid (ts 0) (request_of a rs act rt res ver ex key pe ref) (db_auths s)")
    case (Inl e)
    then have "s' = s" using assms(2) True
      by (cases e) (auto simp: request_authorization_def try_then_Inr_iff split: option.splits)
    then show ?thesis using assms(1) quiet_db_refl by simp
  next
    case (Inr p)
    obtain row t where p: "p = (row, t)" by (cases p)
    then have "s' = s\<lparr>db_auths := t\<rparr>" using assms(2) True Inr
      by (auto simp: request_authorization_def try_then_Inr_iff)
    then show ?thesis using create_quiet[OF assms(1)] Inr p by (simp add: quiet_db_def)
  qed
qed

lemma authorize_quiet:
  assumes "rra_inv (db_auths s)" "authorize ts aid a sc pv s = Inr (out, s')"
  shows "quiet_db s s'"
proof -
  have "s' = s \<or> (\<exists>p x t. decide p aid (db_auths s) = Inr (x, t) \<and> s' = s\<lparr>db_auths := t\<rparr>)"
    using assms(2) unfolding authorize_def approve_def Let_def
    by (fastforce simp: try_then_Inr_iff split: option.splits if_split_asm)
  then show ?thesis using quiet_db_refl[OF assms(1)] decide_quiet[OF assms(1)]
    by (auto simp: quiet_db_def)
qed

lemma decide_simple_quiet:
  assumes "rra_inv (db_auths s)" "decide_simple ts aid a sc op ev code s = Inr (out, s')"
  shows "quiet_db s s'"
proof -
  have "s' = s \<or> (\<exists>p x t. decide p aid (db_auths s) = Inr (x, t) \<and> s' = s\<lparr>db_auths := t\<rparr>) \<or>
    (\<exists>now by r tm pr x t. finish (Revoke now by r tm pr) aid (db_auths s) = Inr (x, t) \<and> s' = s\<lparr>db_auths := t\<rparr>)"
    using assms(2) unfolding decide_simple_def reject_def cancel_def revoke_def Let_def
    by (fastforce simp: try_then_Inr_iff split: option.splits if_split_asm)
  then show ?thesis
    using quiet_db_refl[OF assms(1)] decide_quiet[OF assms(1)] revoke_quiet[OF assms(1)]
    by (auto simp: quiet_db_def)
qed

section \<open>Approvals that are spent stay spent\<close>

definition keeps_spent :: "approval_table \<Rightarrow> approval_table \<Rightarrow> bool" where
  "keeps_spent t t' \<longleftrightarrow> paa_inv t' \<and> (\<forall>ap \<in> set t. pa_consumed_at ap \<noteq> None \<longrightarrow> ap \<in> set t')"

lemma keeps_spent_refl: "paa_inv t \<Longrightarrow> keeps_spent t t"
  by (simp add: keeps_spent_def)

lemma keeps_spent_cas:
  assumes "paa_inv t" "approval_cas p pid t = Inr (x, t')"
  shows "keeps_spent t t'"
proof -
  have t': "t' = update_where (\<lambda>r. pa_approval_id r = pid \<and> approval_guard p r) (approval_upd p) t"
    using assms(2) by (auto simp: approval_cas_Inr cas_def update_returning_def)
  have "ap \<in> set t'" if "ap \<in> set t" "pa_consumed_at ap \<noteq> None" for ap
  proof -
    have "\<not> approval_guard p ap" using that(2) approval_guard_open[of p ap] by auto
    then show ?thesis using that(1) unfolding t' set_update_where by auto
  qed
  then show ?thesis using paa_inv_cas[OF assms] by (simp add: keeps_spent_def)
qed

lemma keeps_spent_grant:
  assumes "paa_inv t"
    "grant_production_approval ts pid a sc action rtype rid version ex key reason t = Inr (res, t')"
  shows "keeps_spent t t'"
proof -
  have "t' = t \<or> (\<exists>row. paa_inv t' \<and> t' = t @ [row])"
    using grant_cases[OF assms(2)] paa_inv_insert[OF assms(1)] by blast
  then show ?thesis using keeps_spent_refl[OF assms(1)] by (auto simp: keeps_spent_def)
qed

lemma keeps_spent_revoke:
  assumes "paa_inv t" "revoke_production_approval ts pid a sc reason t = Inr (res, t')"
  shows "keeps_spent t t'"
proof -
  have "t' = t \<or> (\<exists>p x. approval_cas p pid t = Inr (x, t'))"
    using assms(2) unfolding revoke_production_approval_def revoke_approval_def
    by (fastforce simp: try_then_Inr_iff split: option.splits if_split_asm)
  then show ?thesis using keeps_spent_refl[OF assms(1)] keeps_spent_cas[OF assms(1)] by blast
qed

section \<open>The invariant of all histories\<close>

definition spent_for :: "auth_row \<Rightarrow> approval_row \<Rightarrow> bool" where
  "spent_for r ap \<longleftrightarrow> pa_consumed_at ap \<noteq> None \<and>
     pa_consumed_by_authorization_id ap = Some (ra_authorization_id r) \<and>
     bound_to (binding_of r (ra_resource_state_version r)) ap \<and>
     names (ra_production_approval_reference r) ap"

definition svc_inv :: "authz_db \<Rightarrow> bool" where
  "svc_inv s \<longleftrightarrow> rra_inv (db_auths s) \<and> paa_inv (db_approvals s) \<and>
     (\<forall>r \<in> set (db_auths s). ra_consumed_at r \<noteq> None \<and> ra_production_effect r \<longrightarrow>
        (\<exists>ap \<in> set (db_approvals s). spent_for r ap))"

lemma svc_inv_quiet: "svc_inv s \<Longrightarrow> quiet_db s s' \<Longrightarrow> svc_inv s'"
  by (auto simp: svc_inv_def quiet_db_def quiet_def)

lemma svc_inv_approvals:
  assumes "svc_inv s" "keeps_spent (db_approvals s) t"
  shows "svc_inv (s\<lparr>db_approvals := t\<rparr>)"
  using assms unfolding svc_inv_def keeps_spent_def by (fastforce simp: spent_for_def)

lemma backed_by_keeps:
  assumes "paa_inv t" "backed_by auths ts aid a version row t t'"
  shows "keeps_spent t t'"
proof (cases "ra_production_effect row")
  case False
  then show ?thesis using assms by (simp add: backed_by_def keeps_spent_refl)
next
  case True
  obtain ap where ap: "ap \<in> set t" "usable (ts 1) (binding_of row version) ap"
    and t': "t' = update_where (\<lambda>x. x = ap)
       (approval_upd (ConsumeApproval (ts 1) (principal_id a) aid (binding_of row version))) t"
    by (rule backed_by_production[OF assms True])
  from keeps_spent_cas[OF assms(1) approval_won[OF assms(1) ap]] show ?thesis unfolding t' .
qed

lemma backed_by_spent:
  assumes "paa_inv t" "backed_by auths ts aid a version row t t'" "ra_production_effect row"
    "ra_authorization_id row = aid" "ra_resource_state_version row = version"
  shows "\<exists>ap \<in> set t'. spent_for (consumed_row now by row) ap"
proof -
  let ?f = "approval_upd (ConsumeApproval (ts 1) (principal_id a) aid (binding_of row version))"
  obtain ap where ap: "ap \<in> set t" "names (ra_production_approval_reference row) ap"
      "usable (ts 1) (binding_of row version) ap" and t': "t' = update_where (\<lambda>x. x = ap) ?f t"
    by (rule backed_by_production[OF assms(1-3)])
  have "?f ap \<in> set t'" unfolding t' set_update_where using ap(1) by auto
  moreover have "spent_for (consumed_row now by row) (?f ap)"
    using ap(2,3) assms(4,5)
    by (simp add: spent_for_def usable_def bound_to_def binding_of_def consumed_row_def names_def)
  ultimately show ?thesis by blast
qed

lemma svc_inv_consume:
  assumes inv: "svc_inv s" and c: "consume_authorization ts aid a sc ver s = Inr (out, s')"
  shows "svc_inv s'"
proof -
  have i: "rra_inv (db_auths s)" "paa_inv (db_approvals s)" using inv by (simp_all add: svc_inv_def)
  show ?thesis using consume_authorization_cases[OF i(2) c]
  proof (elim disjE exE conjE)
    assume "s' = s" then show ?thesis using inv by simp
  next
    fix row r t' ap'
    assume m: "may_consume aid a sc row s"
      and b: "backed_by (map ra_authorization_id (db_auths s)) ts aid a ver row (db_approvals s) ap'"
      and c: "consume (ts 2) aid (principal_id a) ver (team_id sc) (project_id sc) (db_auths s)
         = Inr (Some r, t')"
      and s': "s' = s\<lparr>db_approvals := ap', db_auths := t'\<rparr>"
    note svc = may_consume_service[OF m]
    note tab = consume_Some_table[OF i(1) c svc(2,3)]
    have t': "rra_inv t'"
      using rra_step.finish i(1) rra_step_inv c unfolding consume_def by blast
    have old: "svc_inv (s\<lparr>db_approvals := ap'\<rparr>)"
      using svc_inv_approvals[OF inv] backed_by_keeps[OF i(2) b] by blast
    have new: "ra_production_effect row \<Longrightarrow> \<exists>ap \<in> set ap'. spent_for (consumed_row (ts 2) (principal_id a) row) ap"
      using backed_by_spent[OF i(2) b] svc(3) tab(5) by blast
    have "\<exists>ap \<in> set ap'. spent_for x ap"
      if "x \<in> set t'" "ra_consumed_at x \<noteq> None" "ra_production_effect x" for x
      using that new old unfolding tab(2) set_update_where svc_inv_def
      by (auto simp: consumed_row_def split: if_splits)
    then show ?thesis using t' old unfolding s' svc_inv_def by simp
  qed
qed

lemma svc_step_inv: "svc_step s s' \<Longrightarrow> svc_inv s \<Longrightarrow> svc_inv s'"
proof (induction rule: svc_step.induct)
  case (request ts aid rid a sc rs act rt res ver ex key pe ref s out s')
  then show ?case using request_quiet svc_inv_quiet by (metis svc_inv_def)
next
  case (authorize ts aid a sc pv s out s')
  then show ?case using authorize_quiet svc_inv_quiet by (metis svc_inv_def)
next
  case (reject ts aid a sc s out s')
  then show ?case using decide_simple_quiet svc_inv_quiet unfolding reject_authorization_def by (metis svc_inv_def)
next
  case (cancel ts aid a sc s out s')
  then show ?case using decide_simple_quiet svc_inv_quiet unfolding cancel_authorization_def by (metis svc_inv_def)
next
  case (revoke ts aid a sc s out s')
  then show ?case using decide_simple_quiet svc_inv_quiet unfolding revoke_authorization_def by (metis svc_inv_def)
next
  case (consume ts aid a sc ver s out s')
  then show ?case using svc_inv_consume by blast
next
  case (expire scan now limit s n t)
  have "quiet_db s (s\<lparr>db_auths := t\<rparr>)"
    using expire_quiet[OF _ expire(1)] expire(2) by (simp add: quiet_db_def svc_inv_def)
  then show ?case using svc_inv_quiet expire(2) by blast
next
  case (grant ts pid a sc act rt res ver ex key reason s apr t)
  then show ?case using svc_inv_approvals keeps_spent_grant by (metis svc_inv_def)
next
  case (revoke_approval ts pid a sc reason s apr t)
  then show ?case using svc_inv_approvals keeps_spent_revoke by (metis svc_inv_def)
qed

definition empty_db :: authz_db where
  "empty_db = \<lparr>db_auths = [], db_approvals = []\<rparr>"

lemma svc_inv_empty: "svc_inv empty_db"
  by (simp add: svc_inv_def empty_db_def rra_inv_def one_active_def paa_inv_def)

interpretation svc: invariant_system empty_db svc_step svc_inv
  by unfold_locales (rule svc_inv_empty, rule svc_step_inv)

text \<open>
  C1. No production effect without its approval: in every database that calls of the services can
  reach, each consumed authorization with a production effect has an approval in the registry that is
  spent, was spent by that authorization, is bound to its action, resource, scope and version, and is
  the one its reference names; the table constraints hold throughout, and no approval backs two
  authorizations.
\<close>

theorem production_consumes_are_approved:
  assumes "svc_step\<^sup>*\<^sup>* empty_db s"
  shows "paa_inv (db_approvals s) \<and> rra_inv (db_auths s) \<and>
    (\<forall>r \<in> set (db_auths s). ra_consumed_at r \<noteq> None \<and> ra_production_effect r \<longrightarrow>
       (\<exists>ap \<in> set (db_approvals s). spent_for r ap \<and>
          (\<forall>r' \<in> set (db_auths s). spent_for r' ap \<longrightarrow> r' = r)))"
proof -
  have inv: "svc_inv s" using assms by (rule svc.inv_reachable)
  then have d: "distinct (map ra_authorization_id (db_auths s))" by (simp add: svc_inv_def rra_inv_def)
  have "r' = r" if "r \<in> set (db_auths s)" "r' \<in> set (db_auths s)" "spent_for r ap" "spent_for r' ap" for r r' ap
    using that distinct_map_eqD[OF d] by (auto simp: spent_for_def)
  then show ?thesis using inv unfolding svc_inv_def by blast
qed

definition db_after :: "(service_result \<times> authz_db) outcome \<Rightarrow> authz_db option" where
  "db_after r = (case r of Inl e \<Rightarrow> None | Inr (out, s) \<Rightarrow> if sr_ok out then Some s else None)"

lemma db_after_SomeD: "db_after r = Some s \<Longrightarrow> \<exists>out. r = Inr (out, s)"
  by (auto simp: db_after_def split: sum.splits if_split_asm)

lemma demo_run_request:
  "db_after (request_authorization (\<lambda>_. 10) ''a1'' ''q1'' (human ''u1'' ''agent_operator'') demo_scope
     demo_scope ''replay'' ''outbox_event'' ''r1'' ''v1'' 100 ''k1'' True (Some demo_uuid)
     \<lparr>db_auths = [], db_approvals = [demo_approval]\<rparr>) = Some demo_pending_db"
  by code_simp

lemma demo_run_authorize:
  "db_after (authorize (\<lambda>_. 20) ''a1'' (human ''u2'' ''reviewer_approver'') demo_scope ''pv1''
     demo_pending_db) = Some demo_db"
  by code_simp

lemma demo_run_grant:
  "\<exists>p. grant_production_approval (\<lambda>_. 1) demo_uuid (human ''u9'' ''platform_admin'') demo_scope
     ''replay'' ''outbox_event'' ''r1'' ''v1'' 500 ''k9'' None [] = Inr (p, [demo_approval])"
  by (rule exI) code_simp

lemma demo_history:
  "svc_step\<^sup>*\<^sup>* empty_db \<lparr>db_auths = [consumed_row 40 ''svc'' demo_prod_row],
      db_approvals = [approval_upd (ConsumeApproval 40 ''svc'' ''a1'' demo_binding) demo_approval]\<rparr>"
    (is "svc_step\<^sup>*\<^sup>* _ ?s4")
proof -
  let ?s1 = "\<lparr>db_auths = [], db_approvals = [demo_approval]\<rparr>"
  have s1: "svc_step empty_db ?s1"
    using demo_run_grant svc_step.grant[where s = empty_db and t = "[demo_approval]"]
    unfolding empty_db_def by (metis authz_db.select_convs(2) authz_db.update_convs(2))
  have s2: "svc_step ?s1 demo_pending_db"
    using db_after_SomeD[OF demo_run_request] svc_step.request by blast
  have s3: "svc_step demo_pending_db demo_db"
    using db_after_SomeD[OF demo_run_authorize] svc_step.authorize by blast
  have s4: "svc_step demo_db ?s4" by (rule demo_consume_ok) (rule svc_step.consume)
  from s1 s2 s3 s4 show ?thesis
    by (meson rtranclp.rtrancl_into_rtrancl rtranclp.rtrancl_refl)
qed

theorem production_consumes_are_approved_witness:
  "\<exists>s r ap. svc_step\<^sup>*\<^sup>* empty_db s \<and> r \<in> set (db_auths s) \<and> ra_consumed_at r = Some 40 \<and>
     ra_production_effect r \<and> ap \<in> set (db_approvals s) \<and> spent_for r ap"
proof -
  have c: "ra_consumed_at (consumed_row 40 ''svc'' demo_prod_row) = Some 40"
    "ra_production_effect (consumed_row 40 ''svc'' demo_prod_row)" by (simp_all add: consumed_row_def)
  show ?thesis using production_consumes_are_approved[OF demo_history] demo_history c by fastforce
qed

end
