(* ===== verification/Py_Json.thy ===== *)
theory Py_Json imports Authz_Model begin

text \<open>
  \<^verbatim>\<open>json.dumps\<close> of the Python standard library on a flat object, with its default separators and
  ASCII-only output: every character outside the printable ASCII range is escaped, text and keys are
  quoted, integers are decimal.
\<close>

definition hex_digit :: "nat \<Rightarrow> char" where
  "hex_digit d = (if d < 10 then char_of (48 + d) else char_of (87 + d))"

definition json_char :: "char \<Rightarrow> string" where
  "json_char c =
     (let n = (of_char c :: nat) in
      if c = CHR 0x22 then [CHR 0x5C, CHR 0x22]
      else if c = CHR 0x5C then [CHR 0x5C, CHR 0x5C]
      else if n = 10 then [CHR 0x5C, CHR ''n'']
      else if n = 13 then [CHR 0x5C, CHR ''r'']
      else if n = 9 then [CHR 0x5C, CHR ''t'']
      else if n = 8 then [CHR 0x5C, CHR ''b'']
      else if n = 12 then [CHR 0x5C, CHR ''f'']
      else if n < 32 \<or> 126 < n
        then [CHR 0x5C, CHR ''u'', CHR ''0'', CHR ''0'', hex_digit (n div 16), hex_digit (n mod 16)]
      else [c])"

definition json_string :: "string \<Rightarrow> string" where
  "json_string s = CHR 0x22 # concat (map json_char s) @ [CHR 0x22]"

fun decimal :: "nat \<Rightarrow> string" where
  "decimal n = (if n < 10 then [char_of (48 + n)] else decimal (n div 10) @ [char_of (48 + n mod 10)])"

declare decimal.simps [simp del]

definition int_text :: "int \<Rightarrow> string" where
  "int_text i = (if i < 0 then CHR ''-'' # decimal (nat (- i)) else decimal (nat i))"

fun json_value :: "pval \<Rightarrow> string" where
  "json_value (PStr s) = json_string s"
| "json_value (PBool b) = (if b then ''true'' else ''false'')"
| "json_value (PInt i) = int_text i"
| "json_value PNull = ''null''"
| "json_value (PNested vs) = ''[...]''"

fun join_with :: "string \<Rightarrow> string list \<Rightarrow> string" where
  "join_with sep [] = []"
| "join_with sep [x] = x"
| "join_with sep (x # y # r) = x @ sep @ join_with sep (y # r)"

definition json_dumps :: "payload \<Rightarrow> string" where
  "json_dumps p = ''{'' @ join_with '', '' (map (\<lambda>(k, v). json_string k @ '': '' @ json_value v) p) @ ''}''"

text \<open>Decimal text determines its number.\<close>

definition digits_val :: "string \<Rightarrow> nat" where
  "digits_val = foldl (\<lambda>a c. 10 * a + (of_char c - 48)) 0"

lemma digits_val_decimal: "digits_val (decimal n) = n"
proof (induction n rule: decimal.induct)
  case (1 n)
  show ?case
  proof (cases "n < 10")
    case True
    then show ?thesis by (subst decimal.simps) (simp add: digits_val_def)
  next
    case False
    then have "digits_val (decimal n) = 10 * digits_val (decimal (n div 10)) + n mod 10"
      by (subst decimal.simps) (simp add: digits_val_def)
    then show ?thesis using 1 False by simp
  qed
qed

lemma decimal_inj: "decimal m = decimal n \<Longrightarrow> m = n"
  by (metis digits_val_decimal)

lemma length_json_string: "length s + 2 \<le> length (json_string s)"
proof -
  have "length s \<le> length (concat (map json_char s))"
    by (induction s) (auto simp: json_char_def Let_def)
  then show ?thesis by (simp add: json_string_def)
qed

end
