(* ===== verification/Outbox.thy ===== *)
theory Outbox imports Py_Json "HOL-Library.Product_Lexorder" begin

text \<open>
  The transactional outbox (\<^verbatim>\<open>shared/sdk/tasks/lifecycle_outbox.py\<close>) over the table
  \<^verbatim>\<open>clarification_lifecycle_outbox\<close> of migration 031: the per-event allowlist of payload keys, the
  destination of every event type, the payload guard, the retry and replay plans, and the insert and
  read operations.
\<close>

section \<open>Constants\<close>

definition MAX_PAYLOAD_BYTES :: nat where "MAX_PAYLOAD_BYTES = 2000"
definition MAX_PAYLOAD_VALUE_CHARS :: nat where "MAX_PAYLOAD_VALUE_CHARS = 500"
definition MAX_LAST_ERROR_CHARS :: nat where "MAX_LAST_ERROR_CHARS = 500"

definition COLUMN_OWNED_PAYLOAD_KEYS :: "string list" where
  "COLUMN_OWNED_PAYLOAD_KEYS =
    [''clarification_id'', ''task_id'', ''event_type'', ''idempotency_key'', ''status'', ''attempts'']"

definition COMMON_PAYLOAD_KEYS :: "string list" where
  "COMMON_PAYLOAD_KEYS = [''event_id'', ''occurred_at'', ''reason'']"

definition ALLOWED_PAYLOAD_KEYS_BY_EVENT_TYPE :: "(string \<times> string list) list" where
  "ALLOWED_PAYLOAD_KEYS_BY_EVENT_TYPE =
    [(''clarification.reminder_due'', COMMON_PAYLOAD_KEYS @ [''reminder_at'']),
     (''clarification.reminder_recorded'', COMMON_PAYLOAD_KEYS @ [''reminder_at'', ''reminder_sent_at'']),
     (''clarification.expired'', COMMON_PAYLOAD_KEYS @ [''due_at'', ''expired_at'']),
     (''clarification.resume_eligible'', COMMON_PAYLOAD_KEYS @ [''resume_eligible_at'']),
     (''clarification.resume_requested'',
        COMMON_PAYLOAD_KEYS @ [''resume_requested_at'', ''resume_requested_by'']),
     (''clarification.resume_authorized'', COMMON_PAYLOAD_KEYS @ [''resume_authorized_at'']),
     (''resume.requested'', COMMON_PAYLOAD_KEYS @
        [''resume_request_id'', ''resource_state_version'', ''resume_requested_by'']),
     (''resume.authorized'', COMMON_PAYLOAD_KEYS @ [''resume_request_id'', ''authorization_id'']),
     (''resume.rejected'', COMMON_PAYLOAD_KEYS @ [''resume_request_id'']),
     (''resume.canceled'', COMMON_PAYLOAD_KEYS @ [''resume_request_id'']),
     (''resume.resumed'', COMMON_PAYLOAD_KEYS @ [''resume_request_id'', ''command_id'']),
     (''resume.failed'', COMMON_PAYLOAD_KEYS @ [''resume_request_id'', ''command_id'']),
     (''resume.execution_requested'', COMMON_PAYLOAD_KEYS @
        [''resume_request_id'', ''authorization_id'', ''resource_state_version'']),
     (''replay.requested'', COMMON_PAYLOAD_KEYS @
        [''replay_request_id'', ''outbox_event_id'', ''destination'']),
     (''replay.authorized'', COMMON_PAYLOAD_KEYS @ [''replay_request_id'', ''authorization_id'']),
     (''replay.rejected'', COMMON_PAYLOAD_KEYS @ [''replay_request_id'']),
     (''replay.canceled'', COMMON_PAYLOAD_KEYS @ [''replay_request_id'']),
     (''replay.execution_blocked'', COMMON_PAYLOAD_KEYS @ [''replay_request_id'']),
     (''replay.executed'', COMMON_PAYLOAD_KEYS @ [''replay_request_id'', ''outbox_event_id'']),
     (''replay.failed'', COMMON_PAYLOAD_KEYS @ [''replay_request_id''])]"

definition ALLOWED_EVENT_TYPES :: "string list" where
  "ALLOWED_EVENT_TYPES = map fst ALLOWED_PAYLOAD_KEYS_BY_EVENT_TYPE"

definition DESTINATION_AUDIT :: string where "DESTINATION_AUDIT = ''audit''"
definition DESTINATION_ORCHESTRATOR_COMMAND :: string where
  "DESTINATION_ORCHESTRATOR_COMMAND = ''orchestrator_command''"

definition EVENT_DESTINATIONS :: "(string \<times> string) list" where
  "EVENT_DESTINATIONS =
    [(''clarification.reminder_due'', DESTINATION_AUDIT),
     (''clarification.reminder_recorded'', DESTINATION_AUDIT),
     (''clarification.expired'', DESTINATION_AUDIT),
     (''clarification.resume_eligible'', DESTINATION_AUDIT),
     (''clarification.resume_requested'', DESTINATION_AUDIT),
     (''clarification.resume_authorized'', DESTINATION_AUDIT),
     (''resume.requested'', DESTINATION_AUDIT),
     (''resume.authorized'', DESTINATION_AUDIT),
     (''resume.rejected'', DESTINATION_AUDIT),
     (''resume.canceled'', DESTINATION_AUDIT),
     (''resume.resumed'', DESTINATION_AUDIT),
     (''resume.failed'', DESTINATION_AUDIT),
     (''resume.execution_requested'', DESTINATION_ORCHESTRATOR_COMMAND),
     (''replay.requested'', DESTINATION_AUDIT),
     (''replay.authorized'', DESTINATION_AUDIT),
     (''replay.rejected'', DESTINATION_AUDIT),
     (''replay.canceled'', DESTINATION_AUDIT),
     (''replay.execution_blocked'', DESTINATION_AUDIT),
     (''replay.executed'', DESTINATION_AUDIT),
     (''replay.failed'', DESTINATION_AUDIT)]"

definition destination_for_event_type :: "string \<Rightarrow> string outcome" where
  "destination_for_event_type event_type =
    (case map_of EVENT_DESTINATIONS event_type of
       None \<Rightarrow> Inl (ValueError (''unknown lifecycle outbox event_type: '' @ event_type))
     | Some d \<Rightarrow> Inr d)"

definition audit_relay_claimable_event_types :: "string list" where
  "audit_relay_claimable_event_types =
     map fst (filter (\<lambda>(t, d). d = DESTINATION_AUDIT) EVENT_DESTINATIONS)"

section \<open>Guards\<close>

definition assert_safe_last_error :: "string option \<Rightarrow> string option outcome" where
  "assert_safe_last_error t =
    (case t of None \<Rightarrow> Inr None
     | Some s \<Rightarrow> if length s > MAX_LAST_ERROR_CHARS
         then Inl (ValueError ''outbox last_error exceeds the maximum safe length of 500'')
         else Inr (Some s))"

fun assert_safe_payload_value :: "string \<Rightarrow> pval \<Rightarrow> unit outcome" where
  "assert_safe_payload_value k PNull = Inr ()"
| "assert_safe_payload_value k (PBool b) = Inr ()"
| "assert_safe_payload_value k (PInt i) = Inr ()"
| "assert_safe_payload_value k (PStr s) =
     (if length s > MAX_PAYLOAD_VALUE_CHARS
      then Inl (ValueError (''outbox payload value exceeds the maximum safe length: '' @ k))
      else Inr ())"
| "assert_safe_payload_value k (PNested vs) =
     Inl (ValueError (''outbox payload value must be a bounded scalar: '' @ k))"

fun check_payload_items :: "string \<Rightarrow> string list \<Rightarrow> payload \<Rightarrow> unit outcome" where
  "check_payload_items event_type keys [] = Inr ()"
| "check_payload_items event_type keys ((raw_key, v) # rest) =
     (let key = py_lower (py_strip raw_key) in
      if key \<in> set COLUMN_OWNED_PAYLOAD_KEYS
      then Inl (ValueError (''outbox payload must not duplicate the column-owned key: '' @ raw_key))
      else if key \<notin> set keys
      then Inl (ValueError (''outbox payload key is not allowed for '' @ event_type @ '': '' @ raw_key))
      else try_then (assert_safe_payload_value raw_key v)
        (\<lambda>_. check_payload_items event_type keys rest))"

definition assert_safe_outbox_payload :: "payload option \<Rightarrow> string \<Rightarrow> payload outcome" where
  "assert_safe_outbox_payload payload event_type =
    (case map_of ALLOWED_PAYLOAD_KEYS_BY_EVENT_TYPE event_type of
       None \<Rightarrow> Inl (ValueError (''unknown lifecycle outbox event_type: '' @ event_type))
     | Some keys \<Rightarrow>
        (case payload of
           None \<Rightarrow> Inr []
         | Some p \<Rightarrow> try_then (check_payload_items event_type keys p) (\<lambda>_.
             if length (json_dumps p) > MAX_PAYLOAD_BYTES
             then Inl (ValueError ''outbox payload exceeds the maximum safe size'')
             else Inr p)))"

section \<open>Retry and replay plans\<close>

definition RETRY_BACKOFF_SECONDS :: "int list" where
  "RETRY_BACKOFF_SECONDS = [30, 120, 600, 3600]"

definition MAX_RETRIES :: nat where "MAX_RETRIES = length RETRY_BACKOFF_SECONDS"
definition MAX_PUBLISH_ATTEMPTS :: int where "MAX_PUBLISH_ATTEMPTS = int MAX_RETRIES + 1"

record retry_plan =
  rp_status :: string
  rp_attempts :: int
  rp_backoff_seconds :: "int option"
  rp_last_error :: "string option"
  rp_set_dead_at :: bool

definition plan_retry_state :: "int \<Rightarrow> string option \<Rightarrow> retry_plan outcome" where
  "plan_retry_state attempts error =
    (if attempts < 0 then Inl (ValueError ''attempts must not be negative'')
     else let next_attempts = attempts + 1 in
       try_then (assert_safe_last_error error) (\<lambda>bounded_error.
         if next_attempts \<ge> MAX_PUBLISH_ATTEMPTS
         then Inr \<lparr>rp_status = ''dead'', rp_attempts = next_attempts, rp_backoff_seconds = None,
           rp_last_error = bounded_error, rp_set_dead_at = True\<rparr>
         else Inr \<lparr>rp_status = ''pending'', rp_attempts = next_attempts,
           rp_backoff_seconds = Some (RETRY_BACKOFF_SECONDS ! nat (next_attempts - 1)),
           rp_last_error = bounded_error, rp_set_dead_at = False\<rparr>))"

record replay_plan =
  pp_status :: string
  pp_attempts :: int
  pp_reset_available_at :: bool
  pp_clear_dead_at :: bool
  pp_clear_last_error :: bool

definition plan_replay_state :: "int \<Rightarrow> replay_plan" where
  "plan_replay_state attempts =
    \<lparr>pp_status = ''pending'', pp_attempts = attempts, pp_reset_available_at = True,
     pp_clear_dead_at = True, pp_clear_last_error = True\<rparr>"

section \<open>The table\<close>

record outbox_row =
  ob_id :: string
  ob_clarification_id :: string
  ob_task_id :: string
  ob_event_type :: string
  ob_idempotency_key :: string
  ob_payload :: payload
  ob_status :: string
  ob_attempts :: int
  ob_created_at :: int
  ob_available_at :: int
  ob_published_at :: "int option"
  ob_dead_at :: "int option"
  ob_last_error :: "string option"

type_synonym outbox_table = "outbox_row list"

definition clo_checks :: "outbox_row \<Rightarrow> bool" where
  "clo_checks r \<longleftrightarrow>
     ob_status r \<in> {''pending'', ''published'', ''dead''} \<and> 0 \<le> ob_attempts r \<and>
     btrim_nonempty (ob_event_type r) \<and> btrim_nonempty (ob_idempotency_key r) \<and>
     (case ob_last_error r of None \<Rightarrow> True | Some s \<Rightarrow> length s \<le> 500) \<and>
     (ob_status r = ''pending'' \<and> ob_published_at r = None \<and> ob_dead_at r = None \<or>
      ob_status r = ''published'' \<and> ob_published_at r \<noteq> None \<and> ob_dead_at r = None \<or>
      ob_status r = ''dead'' \<and> ob_dead_at r \<noteq> None \<and> ob_published_at r = None)"

text \<open>
  \<open>eid\<close> is the generated id; \<open>created\<close> is the transaction's \<^verbatim>\<open>now()\<close> and \<open>now\<close> the statement's
  clock. The row is returned with its payload as parsed back from its JSON text.
\<close>

definition insert_lifecycle_outbox_event ::
    "string \<Rightarrow> int \<Rightarrow> int \<Rightarrow> string \<Rightarrow> string \<Rightarrow> string \<Rightarrow> string \<Rightarrow> payload option \<Rightarrow> outbox_table
     \<Rightarrow> (outbox_row \<times> outbox_table) outcome" where
  "insert_lifecycle_outbox_event eid created now clarification_id task_id event_type idempotency_key
      payload t =
    try_then (assert_safe_outbox_payload payload event_type) (\<lambda>safe_payload.
      let row = \<lparr>ob_id = eid, ob_clarification_id = clarification_id, ob_task_id = task_id,
        ob_event_type = event_type, ob_idempotency_key = idempotency_key,
        ob_payload = safe_payload, ob_status = ''pending'', ob_attempts = 0,
        ob_created_at = created, ob_available_at = now, ob_published_at = None,
        ob_dead_at = None, ob_last_error = None\<rparr>
      in if \<not> clo_checks row then Inl (CheckViolation ''clarification_lifecycle_outbox'')
         else if list_ex (\<lambda>r. ob_id r = eid) t
           then Inl (UniqueViolation ''clarification_lifecycle_outbox_pkey'')
         else if list_ex (\<lambda>r. ob_idempotency_key r = idempotency_key) t
           then Inl (UniqueViolation ''uq_clarification_lifecycle_outbox_idempotency_key'')
         else Inr (row, t @ [row]))"

definition get_lifecycle_outbox_event :: "string \<Rightarrow> outbox_table \<Rightarrow> outbox_row option" where
  "get_lifecycle_outbox_event event_id t = fetchrow (\<lambda>r. ob_id r = event_id) t"

definition count_pending_by_destination :: "string \<Rightarrow> outbox_table \<Rightarrow> nat" where
  "count_pending_by_destination destination t =
    (let event_types = map fst (filter (\<lambda>(ev, d). d = destination) EVENT_DESTINATIONS) in
     if event_types = [] then 0
     else length (filter (\<lambda>r. ob_status r = ''pending'' \<and> ob_event_type r \<in> set event_types) t))"

text \<open>Rows with equal sort keys are taken in table order; the database may take any order there.\<close>

definition list_claimable_lifecycle_outbox_events :: "int \<Rightarrow> nat \<Rightarrow> outbox_table \<Rightarrow> outbox_row list" where
  "list_claimable_lifecycle_outbox_events now limit t =
     take limit (sort_key (\<lambda>r. (ob_available_at r, ob_created_at r))
       (filter (\<lambda>r. ob_status r = ''pending'' \<and> ob_available_at r \<le> now) t))"

section \<open>The payload guard\<close>

definition bounded_scalar :: "pval \<Rightarrow> bool" where
  "bounded_scalar v = (case v of PStr s \<Rightarrow> length s \<le> MAX_PAYLOAD_VALUE_CHARS | PNested _ \<Rightarrow> False | _ \<Rightarrow> True)"

lemma safe_value_iff: "assert_safe_payload_value k v = Inr () \<longleftrightarrow> bounded_scalar v"
  by (cases v) (auto simp: bounded_scalar_def)

lemma check_payload_items_iff:
  "check_payload_items ev keys p = Inr () \<longleftrightarrow>
     (\<forall>(k, v) \<in> set p. py_lower (py_strip k) \<in> set keys - set COLUMN_OWNED_PAYLOAD_KEYS \<and> bounded_scalar v)"
  by (induction ev keys p rule: check_payload_items.induct)
    (auto simp: Let_def try_then_Inr_iff safe_value_iff)

lemma payload_guard_iff:
  "assert_safe_outbox_payload (Some p) ev = Inr q \<longleftrightarrow>
     q = p \<and> (\<exists>keys. map_of ALLOWED_PAYLOAD_KEYS_BY_EVENT_TYPE ev = Some keys \<and>
       (\<forall>(k, v) \<in> set p. py_lower (py_strip k) \<in> set keys - set COLUMN_OWNED_PAYLOAD_KEYS \<and> bounded_scalar v)) \<and>
     length (json_dumps p) \<le> MAX_PAYLOAD_BYTES"
proof (cases "map_of ALLOWED_PAYLOAD_KEYS_BY_EVENT_TYPE ev")
  case None
  then show ?thesis by (simp add: assert_safe_outbox_payload_def)
next
  case (Some keys)
  show ?thesis
    unfolding assert_safe_outbox_payload_def Some
    by (auto simp: try_then_Inr_iff not_less check_payload_items_iff[of ev keys])
qed

text \<open>
  C28. The payload guard is exact: an outbox payload is accepted, unchanged, exactly when the event
  type is on the allowlist, every key (trimmed, in lower case) is allowed for that event type and not
  owned by a column, every value is a scalar with at most 500 characters of text, and the JSON text
  has at most 2000 bytes.
\<close>

theorem outbox_payload_guard_exact:
  "assert_safe_outbox_payload (Some p) ev = Inr q \<longleftrightarrow>
     q = p \<and> (\<exists>keys. map_of ALLOWED_PAYLOAD_KEYS_BY_EVENT_TYPE ev = Some keys \<and>
       (\<forall>(k, v) \<in> set p. py_lower (py_strip k) \<in> set keys - set COLUMN_OWNED_PAYLOAD_KEYS \<and>
          (case v of PStr s \<Rightarrow> length s \<le> 500 | PNested _ \<Rightarrow> False | _ \<Rightarrow> True))) \<and>
     length (json_dumps p) \<le> 2000"
  unfolding payload_guard_iff bounded_scalar_def MAX_PAYLOAD_VALUE_CHARS_def MAX_PAYLOAD_BYTES_def ..

theorem outbox_payload_guard_exact_witness:
  "assert_safe_outbox_payload (Some [(''Reason '', PStr ''ok''), (''command_id'', PStr ''c1'')]) ''resume.failed''
     = Inr [(''Reason '', PStr ''ok''), (''command_id'', PStr ''c1'')] \<and>
   py_lower (py_strip ''Reason '') \<in> {''reason''}"
proof -
  have k: "map_of ALLOWED_PAYLOAD_KEYS_BY_EVENT_TYPE ''resume.failed'' =
      Some (COMMON_PAYLOAD_KEYS @ [''resume_request_id'', ''command_id''])"
    by (simp add: ALLOWED_PAYLOAD_KEYS_BY_EVENT_TYPE_def)
  have n: "py_lower (py_strip ''Reason '') = ''reason''" "py_lower (py_strip ''command_id'') = ''command_id''"
    by code_simp+
  have l: "length (json_dumps [(''Reason '', PStr ''ok''), (''command_id'', PStr ''c1'')]) \<le> 2000"
    by code_simp
  show ?thesis
    unfolding outbox_payload_guard_exact using k n l
    by (simp add: COMMON_PAYLOAD_KEYS_def COLUMN_OWNED_PAYLOAD_KEYS_def)
qed

section \<open>Routing\<close>

lemma event_types_classified: "map fst EVENT_DESTINATIONS = ALLOWED_EVENT_TYPES"
  by (simp add: EVENT_DESTINATIONS_def ALLOWED_EVENT_TYPES_def ALLOWED_PAYLOAD_KEYS_BY_EVENT_TYPE_def)

lemma distinct_event_types: "distinct (map fst EVENT_DESTINATIONS)"
  by (simp add: EVENT_DESTINATIONS_def)

lemma destination_Inr_iff: "destination_for_event_type ev = Inr d \<longleftrightarrow> (ev, d) \<in> set EVENT_DESTINATIONS"
  unfolding destination_for_event_type_def map_of_eq_Some_iff[OF distinct_event_types, symmetric]
  by (auto split: option.split)

lemma claimable_iff: "ev \<in> set audit_relay_claimable_event_types \<longleftrightarrow> (ev, DESTINATION_AUDIT) \<in> set EVENT_DESTINATIONS"
  by (force simp: audit_relay_claimable_event_types_def)

lemma command_event_unique: "(ev, DESTINATION_ORCHESTRATOR_COMMAND) \<in> set EVENT_DESTINATIONS \<longleftrightarrow> ev = ''resume.execution_requested''"
  by (simp add: EVENT_DESTINATIONS_def DESTINATION_AUDIT_def DESTINATION_ORCHESTRATOR_COMMAND_def)

text \<open>
  Every event type has exactly one destination and no other text has one; the audit relay may
  claim exactly the event types whose destination is the audit stream; the only command event is
  \<^verbatim>\<open>resume.execution_requested\<close>, which the audit relay may not claim.
\<close>

theorem event_routing_total:
  "((\<exists>d. destination_for_event_type ev = Inr d) \<longleftrightarrow> ev \<in> set ALLOWED_EVENT_TYPES) \<and>
   (ev \<in> set audit_relay_claimable_event_types \<longleftrightarrow> destination_for_event_type ev = Inr DESTINATION_AUDIT) \<and>
   (destination_for_event_type ev = Inr DESTINATION_ORCHESTRATOR_COMMAND \<longleftrightarrow> ev = ''resume.execution_requested'') \<and>
   (assert_safe_outbox_payload None ev = Inr [] \<longleftrightarrow> ev \<in> set ALLOWED_EVENT_TYPES)"
proof -
  have "(\<exists>d. destination_for_event_type ev = Inr d) \<longleftrightarrow> ev \<in> set (map fst EVENT_DESTINATIONS)"
    by (force simp: destination_Inr_iff)
  moreover have "assert_safe_outbox_payload None ev = Inr [] \<longleftrightarrow> ev \<in> set ALLOWED_EVENT_TYPES"
    unfolding ALLOWED_EVENT_TYPES_def assert_safe_outbox_payload_def set_map
    by (auto simp: map_of_eq_None_iff[symmetric] split: option.splits)
      (metis domI domIff map_of_eq_None_iff)
  ultimately show ?thesis
    using event_types_classified by (simp add: destination_Inr_iff claimable_iff command_event_unique)
qed

section \<open>Inserting\<close>

definition clo_inv :: "outbox_table \<Rightarrow> bool" where
  "clo_inv t \<longleftrightarrow> distinct (map ob_id t) \<and> distinct (map ob_idempotency_key t) \<and> (\<forall>r \<in> set t. clo_checks r)"

lemma insert_outbox_Inr:
  assumes "insert_lifecycle_outbox_event eid created now cl tk ev key payload t = Inr (row, t')"
  shows "t' = t @ [row]" "ob_status row = ''pending''" "ob_attempts row = 0" "ob_id row = eid"
    "ob_idempotency_key row = key" "ob_event_type row = ev" "ob_available_at row = now"
    "ob_created_at row = created" "clo_checks row" "eid \<notin> ob_id ` set t"
    "key \<notin> ob_idempotency_key ` set t" "ob_clarification_id row = cl" "ob_task_id row = tk"
    "assert_safe_outbox_payload payload ev = Inr (ob_payload row)"
  using assms unfolding insert_lifecycle_outbox_event_def
  by (auto simp: try_then_Inr_iff Let_def list_ex_iff split: if_split_asm)

lemma clo_inv_insert:
  "clo_inv t \<Longrightarrow> insert_lifecycle_outbox_event eid created now cl tk ev key payload t = Inr (row, t') \<Longrightarrow> clo_inv t'"
  using insert_outbox_Inr[of eid created now cl tk ev key payload t row t'] by (auto simp: clo_inv_def)

end
