(* ===== verification/Resume_Repo.thy ===== *)
theory Resume_Repo imports Authz_History Outbox begin

text \<open>
  Resume requests: \<^verbatim>\<open>shared/sdk/tasks/resume_request_model.py\<close> and
  \<^verbatim>\<open>resume_request_repository.py\<close> over the tables \<^verbatim>\<open>resume_requests\<close> (migration 033),
  \<^verbatim>\<open>operator_clarification_requests\<close> and \<^verbatim>\<open>operator_tasks\<close>. The row locks of the code have no
  effect on one call at a time and are not modelled.
\<close>

section \<open>Model\<close>

definition REQUEST_STATES :: "string list" where
  "REQUEST_STATES =
    [''authorization_pending'', ''authorized'', ''execution_pending'', ''resumed'', ''rejected'',
     ''canceled'', ''failed'', ''expired'']"

definition ACTIVE_STATES :: "string list" where
  "ACTIVE_STATES = [''authorization_pending'', ''authorized'', ''execution_pending'']"

definition TERMINAL_STATES :: "string list" where
  "TERMINAL_STATES = filter (\<lambda>s. s \<notin> set ACTIVE_STATES) REQUEST_STATES"

definition RESUME_TERMINAL_TASK_STATUSES :: "string list" where
  "RESUME_TERMINAL_TASK_STATUSES =
    [''canceled'', ''rejected'', ''archived'', ''failed'', ''accepted'', ''clarification_expired'']"

definition BLOCKING_CLARIFICATION_STATUSES :: "string list" where
  "BLOCKING_CLARIFICATION_STATUSES = [''expired'', ''canceled'']"

definition RESUME_REASON_CODES :: "string list" where
  "RESUME_REASON_CODES =
    [''policy_allow'', ''policy_deny'', ''not_eligible'', ''clarification_not_answered'',
     ''resume_not_eligible'', ''clarification_blocked'', ''resource_terminal'', ''stale_state'',
     ''active_request_exists'', ''already_authorized'', ''already_rejected'', ''already_canceled'',
     ''already_resumed'', ''already_failed'', ''resource_not_found'', ''rbac_denied'',
     ''policy_authority_required'', ''production_approval_required'', ''feature_disabled'',
     ''command_gate_disabled'', ''operator_canceled'', ''operator_requested'',
     ''orchestrator_confirmed_resumed'', ''orchestrator_confirmed_failed'', ''invalid_transition'',
     ''conflict'']"

definition assert_resume_reason_code :: "string option \<Rightarrow> string option outcome" where
  "assert_resume_reason_code code =
    (case code of None \<Rightarrow> Inr None
     | Some c \<Rightarrow> if c \<in> set RESUME_REASON_CODES then Inr (Some c)
         else Inl (ValueError (''unknown resume reason_code: '' @ c)))"

text \<open>The process environment is a partial map; a gate is open only for the text \<^verbatim>\<open>true\<close>.\<close>

type_synonym environment = "string \<Rightarrow> string option"

definition env_flag :: "environment \<Rightarrow> string \<Rightarrow> bool" where
  "env_flag env k =
     (py_lower (py_strip (case env k of None \<Rightarrow> ''false'' | Some v \<Rightarrow> v)) = ''true'')"

definition resume_api_enabled :: "environment \<Rightarrow> bool" where
  "resume_api_enabled env = env_flag env ''BE3_RESUME_API_ENABLED''"

definition resume_command_enabled :: "environment \<Rightarrow> bool" where
  "resume_command_enabled env = env_flag env ''BE3_RESUME_COMMAND_ENABLED''"

record clarification =
  oc_id :: string
  oc_task_id :: string
  oc_status :: string
  oc_answer_message_id :: "string option"
  oc_resume_eligible_at :: "int option"
  oc_resume_requested_at :: "int option"
  oc_resume_requested_by :: "string option"
  oc_resume_authorized_at :: "int option"
  oc_updated_at :: int

text \<open>\<open>production_effect\<close> is a \<^verbatim>\<open>BOOLEAN NOT NULL\<close> column of \<^verbatim>\<open>operator_tasks\<close>.\<close>

record task =
  ot_id :: string
  ot_project_id :: "string option"
  ot_status :: string
  ot_production_effect :: bool

definition authoritative_production_effect :: "task \<Rightarrow> bool" where
  "authoritative_production_effect tk = ot_production_effect tk"

definition resource_state_version :: "clarification \<Rightarrow> task \<Rightarrow> string" where
  "resource_state_version cl tk =
     oc_status cl @ '':'' @ (case oc_answer_message_id cl of Some m \<Rightarrow> m | None \<Rightarrow> ''-'') @ '':'' @
     (if authoritative_production_effect tk then ''True'' else ''False'')"

record resume_row =
  rr_id :: string
  rr_authorization_id :: string
  rr_clarification_id :: string
  rr_task_id :: string
  rr_workflow_id :: "string option"
  rr_team_id :: string
  rr_project_id :: string
  rr_resource_state_version :: string
  rr_state :: string
  rr_requested_by :: string
  rr_requested_at :: int
  rr_authorized_at :: "int option"
  rr_execution_requested_at :: "int option"
  rr_resumed_at :: "int option"
  rr_failed_at :: "int option"
  rr_canceled_at :: "int option"
  rr_expired_at :: "int option"
  rr_command_id :: "string option"
  rr_failure_reason_code :: "string option"
  rr_idempotency_key :: string
  rr_updated_at :: int

type_synonym resume_table = "resume_row list"

definition resume_project_state :: "resume_row \<Rightarrow> string outcome" where
  "resume_project_state row =
    (if rr_state row \<in> set REQUEST_STATES then Inr (rr_state row)
     else Inl (ValueError (''unknown resume request state: '' @ rr_state row)))"

definition SAFE_COMMAND_KEYS :: "string list" where
  "SAFE_COMMAND_KEYS = [''resume_request_id'', ''authorization_id'', ''resource_state_version'']"

fun scan_command :: "(string \<times> string) list \<Rightarrow> unit outcome" where
  "scan_command [] = Inr ()"
| "scan_command ((k, v) # rest) =
     (if k \<notin> set SAFE_COMMAND_KEYS
      then Inl (ValueError (''resume command payload key not allowed: '' @ k))
      else if v = []
      then Inl (ValueError (''resume command payload value must be a non-empty string: '' @ k))
      else if length v > 200 then Inl (ValueError (''resume command payload value too long: '' @ k))
      else if list_ex (\<lambda>m. contains m (py_lower v)) FORBIDDEN_VALUE_MARKERS
      then Inl (ValueError (''resume command payload value looks unsafe: '' @ k))
      else scan_command rest)"

definition build_resume_command_payload :: "string \<Rightarrow> string \<Rightarrow> string \<Rightarrow> payload outcome" where
  "build_resume_command_payload rid aid version =
    (let items = [(''resume_request_id'', rid), (''authorization_id'', aid),
        (''resource_state_version'', version)] in
     try_then (scan_command items) (\<lambda>_. Inr (map (\<lambda>(k, v). (k, PStr v)) items)))"

section \<open>Constraints\<close>

definition rr_checks :: "resume_row \<Rightarrow> bool" where
  "rr_checks r \<longleftrightarrow>
     rr_state r \<in> set REQUEST_STATES \<and>
     (rr_authorized_at r = None \<or>
        rr_state r \<in> {''authorized'', ''execution_pending'', ''resumed'', ''failed''}) \<and>
     (rr_execution_requested_at r = None) = (rr_command_id r = None) \<and>
     (rr_command_id r = None \<or> rr_state r \<in> {''execution_pending'', ''resumed'', ''failed''}) \<and>
     (rr_resumed_at r = None \<or> rr_state r = ''resumed'') \<and>
     (rr_failed_at r = None \<or> rr_state r = ''failed'') \<and>
     (rr_canceled_at r = None \<or> rr_state r = ''canceled'') \<and>
     bounded 64 (rr_failure_reason_code r) \<and> length (rr_requested_by r) \<le> 128 \<and>
     btrim_nonempty (rr_resource_state_version r) \<and>
     1 \<le> length (rr_idempotency_key r) \<and> length (rr_idempotency_key r) \<le> 256 \<and>
     btrim_nonempty (rr_idempotency_key r)"

definition rr_active :: "resume_row \<Rightarrow> bool" where
  "rr_active r \<longleftrightarrow> rr_state r \<in> set ACTIVE_STATES"

definition rr_in_scope :: "string option \<Rightarrow> string option \<Rightarrow> resume_row \<Rightarrow> bool" where
  "rr_in_scope team project r \<longleftrightarrow> team = Some (rr_team_id r) \<and> project = Some (rr_project_id r)"

section \<open>Clarification markers\<close>

definition oc_checks :: "clarification \<Rightarrow> bool" where
  "oc_checks c \<longleftrightarrow> oc_resume_authorized_at c = None \<or> oc_resume_eligible_at c \<noteq> None"

definition claim_clarification_resume_requested ::
    "int \<Rightarrow> string \<Rightarrow> string \<Rightarrow> clarification list \<Rightarrow> clarification option \<times> clarification list" where
  "claim_clarification_resume_requested now cid requested_by t =
     update_returning (\<lambda>c. oc_id c = cid \<and> oc_resume_requested_at c = None)
       (\<lambda>c. c\<lparr>oc_resume_requested_at := Some now, oc_resume_requested_by := Some requested_by,
          oc_updated_at := now\<rparr>) t"

definition mark_clarification_resume_authorized ::
    "int \<Rightarrow> string \<Rightarrow> clarification list \<Rightarrow> clarification option \<times> clarification list" where
  "mark_clarification_resume_authorized now cid t =
     update_returning (\<lambda>c. oc_id c = cid \<and> oc_resume_authorized_at c = None \<and> oc_resume_eligible_at c \<noteq> None)
       (\<lambda>c. c\<lparr>oc_resume_authorized_at := Some now, oc_updated_at := now\<rparr>) t"

definition release_clarification_resume_markers ::
    "int \<Rightarrow> string \<Rightarrow> clarification list \<Rightarrow> clarification list" where
  "release_clarification_resume_markers now cid t =
     update_where (\<lambda>c. oc_id c = cid)
       (\<lambda>c. c\<lparr>oc_resume_requested_at := None, oc_resume_requested_by := None,
          oc_resume_authorized_at := None, oc_updated_at := now\<rparr>) t"

section \<open>Resume requests\<close>

definition insert_resume_request ::
    "string \<Rightarrow> int \<Rightarrow> string \<Rightarrow> string \<Rightarrow> string \<Rightarrow> string \<Rightarrow> string \<Rightarrow> string \<Rightarrow> string \<Rightarrow> string
     \<Rightarrow> string option \<Rightarrow> resume_table \<Rightarrow> (resume_row \<times> resume_table) outcome" where
  "insert_resume_request rid now authorization_id clarification_id task_id team project version
      requested_by idempotency_key workflow t =
    (if team = [] \<or> project = [] then Inl (DataError ''invalid UUID'')
     else
      let row = \<lparr>rr_id = rid, rr_authorization_id = authorization_id,
        rr_clarification_id = clarification_id, rr_task_id = task_id, rr_workflow_id = workflow,
        rr_team_id = team, rr_project_id = project, rr_resource_state_version = version,
        rr_state = ''authorization_pending'', rr_requested_by = requested_by,
        rr_requested_at = now, rr_authorized_at = None, rr_execution_requested_at = None,
        rr_resumed_at = None, rr_failed_at = None, rr_canceled_at = None, rr_expired_at = None,
        rr_command_id = None, rr_failure_reason_code = None,
        rr_idempotency_key = idempotency_key, rr_updated_at = now\<rparr>
      in if \<not> rr_checks row then Inl (CheckViolation ''resume_requests'')
         else if list_ex (\<lambda>r. rr_id r = rid) t then Inl (UniqueViolation ''resume_requests_pkey'')
         else if list_ex (\<lambda>r. rr_idempotency_key r = idempotency_key) t
           then Inl (UniqueViolation ''uq_rr_idempotency_key'')
         else if list_ex (\<lambda>r. rr_active r \<and> rr_clarification_id r = clarification_id) t
           then Inl (UniqueViolation ''uq_rr_active_per_clarification'')
         else Inr (row, t @ [row]))"

definition lock_resume_request ::
    "string \<Rightarrow> string option \<Rightarrow> string option \<Rightarrow> resume_table \<Rightarrow> resume_row option" where
  "lock_resume_request rid team project t =
     fetchrow (\<lambda>r. rr_id r = rid \<and> rr_in_scope team project r) t"

definition get_request_by_idempotency_key :: "string \<Rightarrow> resume_table \<Rightarrow> resume_row option" where
  "get_request_by_idempotency_key k t = fetchrow (\<lambda>r. rr_idempotency_key r = k) t"

definition get_resume_request_internal :: "string \<Rightarrow> resume_table \<Rightarrow> resume_row option" where
  "get_resume_request_internal rid t = fetchrow (\<lambda>r. rr_id r = rid) t"

datatype resume_op =
    ToAuthorized int "string option" "string option"
  | ToRejected int string "string option" "string option"
  | ToCanceled int "string option" "string option"
  | ToExecutionPending int string "string option" "string option"
  | ConfirmResumed int string
  | ConfirmFailed int string string

fun resume_guard :: "resume_op \<Rightarrow> resume_row \<Rightarrow> bool" where
  "resume_guard (ToAuthorized now team project) r \<longleftrightarrow>
     rr_state r = ''authorization_pending'' \<and> rr_in_scope team project r"
| "resume_guard (ToRejected now reason team project) r \<longleftrightarrow>
     rr_state r = ''authorization_pending'' \<and> rr_in_scope team project r"
| "resume_guard (ToCanceled now team project) r \<longleftrightarrow>
     rr_state r = ''authorization_pending'' \<and> rr_in_scope team project r"
| "resume_guard (ToExecutionPending now cmd team project) r \<longleftrightarrow>
     rr_state r = ''authorized'' \<and> rr_in_scope team project r"
| "resume_guard (ConfirmResumed now cmd) r \<longleftrightarrow>
     rr_state r = ''execution_pending'' \<and> rr_command_id r = Some cmd"
| "resume_guard (ConfirmFailed now cmd reason) r \<longleftrightarrow>
     rr_state r = ''execution_pending'' \<and> rr_command_id r = Some cmd"

fun resume_upd :: "resume_op \<Rightarrow> resume_row \<Rightarrow> resume_row" where
  "resume_upd (ToAuthorized now _ _) r =
     r\<lparr>rr_state := ''authorized'', rr_authorized_at := Some now, rr_updated_at := now\<rparr>"
| "resume_upd (ToRejected now reason _ _) r =
     r\<lparr>rr_state := ''rejected'', rr_failure_reason_code := Some reason, rr_updated_at := now\<rparr>"
| "resume_upd (ToCanceled now _ _) r =
     r\<lparr>rr_state := ''canceled'', rr_canceled_at := Some now, rr_updated_at := now\<rparr>"
| "resume_upd (ToExecutionPending now cmd _ _) r =
     r\<lparr>rr_state := ''execution_pending'', rr_execution_requested_at := Some now,
       rr_command_id := Some cmd, rr_updated_at := now\<rparr>"
| "resume_upd (ConfirmResumed now cmd) r =
     r\<lparr>rr_state := ''resumed'', rr_resumed_at := Some now, rr_updated_at := now\<rparr>"
| "resume_upd (ConfirmFailed now cmd reason) r =
     r\<lparr>rr_state := ''failed'', rr_failed_at := Some now, rr_failure_reason_code := Some reason,
       rr_updated_at := now\<rparr>"

definition resume_transition ::
    "resume_op \<Rightarrow> string \<Rightarrow> resume_table \<Rightarrow> (resume_row option \<times> resume_table) outcome" where
  "resume_transition p rid t =
     checked_update ''resume_requests'' rr_checks (\<lambda>r. rr_id r = rid \<and> resume_guard p r) (resume_upd p) t"

definition transition_to_authorized where
  "transition_to_authorized now rid team project = resume_transition (ToAuthorized now team project) rid"

definition transition_to_rejected where
  "transition_to_rejected now rid reason team project =
     resume_transition (ToRejected now reason team project) rid"

definition transition_to_canceled where
  "transition_to_canceled now rid team project = resume_transition (ToCanceled now team project) rid"

definition transition_to_execution_pending where
  "transition_to_execution_pending now rid cmd team project =
     resume_transition (ToExecutionPending now cmd team project) rid"

definition repo_confirm_resumed where
  "repo_confirm_resumed now rid cmd = resume_transition (ConfirmResumed now cmd) rid"

definition repo_confirm_failed where
  "repo_confirm_failed now rid cmd reason = resume_transition (ConfirmFailed now cmd reason) rid"

section \<open>The expiry scan\<close>

definition expirable :: "resume_row \<Rightarrow> bool" where
  "expirable r \<longleftrightarrow> rr_state r \<in> {''authorization_pending'', ''authorized''}"

definition resume_expiry_due :: "auth_table \<Rightarrow> int \<Rightarrow> resume_row \<Rightarrow> bool" where
  "resume_expiry_due auths before r \<longleftrightarrow> expirable r \<and>
     list_ex (\<lambda>a. ra_authorization_id a = rr_authorization_id r \<and> ra_expires_at a \<le> before) auths"

definition expire_resume_upd :: "int \<Rightarrow> resume_row \<Rightarrow> resume_row" where
  "expire_resume_upd now r = r\<lparr>rr_state := ''expired'', rr_expired_at := Some now, rr_updated_at := now\<rparr>"

text \<open>
  \<open>scan\<close> is the order in which the database visits the inner query's rows: it has a \<^verbatim>\<open>LIMIT\<close>, no
  \<^verbatim>\<open>ORDER BY\<close>, and no deadline condition.
\<close>

definition expire_due_requests ::
    "(resume_table \<Rightarrow> resume_table) \<Rightarrow> int \<Rightarrow> int \<Rightarrow> nat \<Rightarrow> auth_table \<Rightarrow> resume_table
     \<Rightarrow> (nat \<times> resume_table) outcome" where
  "expire_due_requests scan now before limit auths t =
    (let picked = map rr_id (take limit (filter expirable (scan t)));
         p = (\<lambda>r. resume_expiry_due auths before r \<and> rr_id r \<in> set picked)
     in try_then (checked_update ''resume_requests'' rr_checks p (expire_resume_upd now) t)
          (\<lambda>(_, t'). Inr (length (filter p t), t')))"

end
