(* ===== verification/Resume.thy ===== *)
theory Resume imports Resume_Repo begin

text \<open>
  The resume service (\<^verbatim>\<open>shared/sdk/tasks/resume_service.py\<close>): an operator requests to resume a task
  whose clarification was answered, the policy authority decides, the service identity consumes the
  authorization and writes the durable command, and a reconciliation confirms the outcome. A call
  takes the environment, the generated ids, the clock of its statements and the database; it returns
  a result and the new database, or raises and leaves the database as it was.
\<close>

record resume_db = authz_db +
  db_clarifications :: "clarification list"
  db_tasks :: "task list"
  db_resumes :: resume_table
  db_outbox :: outbox_table

record resume_result =
  rs_ok :: bool
  rs_result_kind :: string
  rs_reason_code :: string
  rs_resume_request :: "resume_row option"
  rs_command_id :: "string option"

definition ResumeResult :: "bool \<Rightarrow> string \<Rightarrow> string \<Rightarrow> resume_row option \<Rightarrow> string option \<Rightarrow> resume_result" where
  "ResumeResult k kind reason rr cmd =
     \<lparr>rs_ok = k, rs_result_kind = kind, rs_reason_code = reason, rs_resume_request = rr,
      rs_command_id = cmd\<rparr>"

lemma ResumeResult_sel [simp]:
  "rs_ok (ResumeResult k kind reason rr cmd) = k"
  "rs_result_kind (ResumeResult k kind reason rr cmd) = kind"
  "rs_reason_code (ResumeResult k kind reason rr cmd) = reason"
  "rs_resume_request (ResumeResult k kind reason rr cmd) = rr"
  "rs_command_id (ResumeResult k kind reason rr cmd) = cmd"
  by (simp_all add: ResumeResult_def)

definition rs_deny :: "string \<Rightarrow> string \<Rightarrow> resume_result" where
  "rs_deny kind reason = ResumeResult False kind reason None None"

lemma rs_deny_not_ok [simp]: "\<not> rs_ok (rs_deny kind reason)"
  by (simp add: rs_deny_def)

text \<open>The ids a call generates, where it inserts rows.\<close>

record new_ids =
  ni_authorization :: string
  ni_auth_request :: string
  ni_resume :: string
  ni_event :: string

text \<open>\<open>ts 0\<close> is the start of the transaction, and the clock of \<^verbatim>\<open>now()\<close> in it.\<close>

definition emit ::
    "string \<Rightarrow> int \<Rightarrow> int \<Rightarrow> string \<Rightarrow> string \<Rightarrow> string \<Rightarrow> string \<Rightarrow> payload \<Rightarrow> resume_db
     \<Rightarrow> (outbox_row \<times> resume_db) outcome" where
  "emit eid started now clarification_id task_id event_type idempotency_key payload s =
    try_then (insert_lifecycle_outbox_event eid started now clarification_id task_id event_type
        idempotency_key (Some payload) (db_outbox s))
      (\<lambda>(row, t'). Inr (row, s\<lparr>db_outbox := t'\<rparr>))"

definition lock_clarification :: "string \<Rightarrow> resume_db \<Rightarrow> clarification option" where
  "lock_clarification cid s = fetchrow (\<lambda>c. oc_id c = cid) (db_clarifications s)"

definition lock_task :: "string \<Rightarrow> resume_db \<Rightarrow> task option" where
  "lock_task tid s = fetchrow (\<lambda>k. ot_id k = tid) (db_tasks s)"

definition eligibility_denial :: "clarification \<Rightarrow> task \<Rightarrow> resume_result option" where
  "eligibility_denial cl tk =
    (if oc_status cl \<in> set BLOCKING_CLARIFICATION_STATUSES
     then Some (rs_deny ''not_eligible'' ''clarification_blocked'')
     else if oc_status cl \<noteq> ''answered''
     then Some (rs_deny ''not_eligible'' ''clarification_not_answered'')
     else if oc_resume_eligible_at cl = None
     then Some (rs_deny ''not_eligible'' ''resume_not_eligible'')
     else if ot_status tk \<in> set RESUME_TERMINAL_TASK_STATUSES
     then Some (rs_deny ''not_eligible'' ''resource_terminal'')
     else None)"

section \<open>Requesting\<close>

definition create_resume ::
    "new_ids \<Rightarrow> (nat \<Rightarrow> int) \<Rightarrow> actor \<Rightarrow> scope \<Rightarrow> clarification \<Rightarrow> task \<Rightarrow> string \<Rightarrow> int
     \<Rightarrow> string option \<Rightarrow> resume_db \<Rightarrow> (resume_result \<times> resume_db) outcome" where
  "create_resume ids ts a sc cl tk idempotency_key expires_at reference s =
    (let cid = oc_id cl; version = resource_state_version cl tk in
     case claim_clarification_resume_requested (ts 1) cid (principal_id a) (db_clarifications s) of
       (None, _) \<Rightarrow> Inr (rs_deny ''conflict'' ''active_request_exists'', s)
     | (Some _, cls) \<Rightarrow>
        try_then (request_authorization (\<lambda>k. ts (k + 2)) (ni_authorization ids) (ni_auth_request ids)
            a sc sc ''resume'' ''clarification'' cid version expires_at
            (''resume-auth:'' @ cid @ '':'' @ idempotency_key) (authoritative_production_effect tk)
            reference (s\<lparr>db_clarifications := cls\<rparr>)) (\<lambda>(auth, s1).
          case sr_authorization auth of
            None \<Rightarrow> Inr (if sr_result_kind auth = ''conflict''
                then rs_deny ''conflict'' ''active_request_exists''
                else rs_deny (sr_result_kind auth) (sr_reason_code auth), s1)
          | Some authz \<Rightarrow>
            if \<not> sr_ok auth then
              Inr (if sr_result_kind auth = ''conflict''
                then rs_deny ''conflict'' ''active_request_exists''
                else rs_deny (sr_result_kind auth) (sr_reason_code auth), s1)
            else
            try_then (insert_resume_request (ni_resume ids) (ts 4) (ra_authorization_id authz) cid
                (oc_task_id cl) (or_empty (team_id sc)) (or_empty (project_id sc)) version
                (principal_id a) idempotency_key None (db_resumes s1)) (\<lambda>(rr, rrs).
            try_then (emit (ni_event ids) (ts 0) (ts 5) cid (oc_task_id cl) ''resume.requested''
                (cid @ '':resume_requested:'' @ rr_id rr)
                [(''resume_request_id'', PStr (rr_id rr)), (''resource_state_version'', PStr version),
                 (''resume_requested_by'', PStr (principal_id a)), (''reason'', PStr ''operator_requested'')]
                (s1\<lparr>db_resumes := rrs\<rparr>)) (\<lambda>(_, s2).
              Inr (ResumeResult True ''ok'' ''operator_requested'' (Some rr) None, s2)))))"

definition request_resume ::
    "environment \<Rightarrow> new_ids \<Rightarrow> (nat \<Rightarrow> int) \<Rightarrow> actor \<Rightarrow> scope \<Rightarrow> string \<Rightarrow> string \<Rightarrow> int
     \<Rightarrow> string option \<Rightarrow> resume_db \<Rightarrow> (resume_result \<times> resume_db) outcome" where
  "request_resume env ids ts a sc clarification_id idempotency_key expires_at reference s =
    (if \<not> resume_api_enabled env then Inr (rs_deny ''feature_disabled'' ''feature_disabled'', s)
     else case get_request_by_idempotency_key idempotency_key (db_resumes s) of
       Some existing \<Rightarrow>
         if rr_team_id existing \<noteq> or_empty (team_id sc) \<or> rr_project_id existing \<noteq> or_empty (project_id sc)
         then Inr (rs_deny ''not_found_masked'' ''resource_not_found'', s)
         else Inr (ResumeResult True ''ok'' ''operator_requested'' (Some existing) None, s)
     | None \<Rightarrow>
        (let pre = evaluate ''request_resume'' a sc sc None False None in
         if \<not> allowed pre then Inr (rs_deny (result_kind pre) (reason_code pre), s)
         else case lock_clarification clarification_id s of
           None \<Rightarrow> Inr (rs_deny ''not_found_masked'' ''resource_not_found'', s)
         | Some cl \<Rightarrow>
           (case lock_task (oc_task_id cl) s of
              None \<Rightarrow> Inr (rs_deny ''not_found_masked'' ''resource_not_found'', s)
            | Some tk \<Rightarrow>
                if ot_project_id tk \<noteq> None \<and> ot_project_id tk \<noteq> project_id sc
                then Inr (rs_deny ''not_found_masked'' ''resource_not_found'', s)
                else (case eligibility_denial cl tk of
                  Some d \<Rightarrow> Inr (d, s)
                | None \<Rightarrow> create_resume ids ts a sc cl tk idempotency_key expires_at reference s))))"

section \<open>Deciding\<close>

definition load_resume :: "string \<Rightarrow> scope \<Rightarrow> resume_db \<Rightarrow> resume_row option" where
  "load_resume rid sc s = lock_resume_request rid (team_id sc) (project_id sc) (db_resumes s)"

definition resume_masked :: resume_result where
  "resume_masked = rs_deny ''not_found_masked'' ''resource_not_found''"

definition get_resume :: "string \<Rightarrow> scope \<Rightarrow> resume_db \<Rightarrow> resume_result" where
  "get_resume rid sc s =
    (case load_resume rid sc s of None \<Rightarrow> resume_masked
     | Some rr \<Rightarrow> ResumeResult True ''ok'' ''ok'' (Some rr) None)"

text \<open>The re-validation of the locked clarification and task before a decision or an execution.\<close>

definition revalidate :: "resume_row \<Rightarrow> resume_db \<Rightarrow> resume_result option" where
  "revalidate rr s =
    (case (lock_clarification (rr_clarification_id rr) s, lock_task (rr_task_id rr) s) of
       (Some cl, Some tk) \<Rightarrow>
         if ot_status tk \<in> set RESUME_TERMINAL_TASK_STATUSES
         then Some (rs_deny ''conflict'' ''resource_terminal'')
         else if resource_state_version cl tk \<noteq> rr_resource_state_version rr
         then Some (rs_deny ''stale_state'' ''stale_state'')
         else None
     | _ \<Rightarrow> Some resume_masked)"

definition authorize_resume ::
    "environment \<Rightarrow> string \<Rightarrow> (nat \<Rightarrow> int) \<Rightarrow> string \<Rightarrow> actor \<Rightarrow> scope \<Rightarrow> string \<Rightarrow> resume_db
     \<Rightarrow> (resume_result \<times> resume_db) outcome" where
  "authorize_resume env eid ts rid a sc policy_version s =
    (if \<not> resume_api_enabled env then Inr (rs_deny ''feature_disabled'' ''feature_disabled'', s)
     else case load_resume rid sc s of
       None \<Rightarrow> Inr (resume_masked, s)
     | Some rr \<Rightarrow>
        if rr_state rr \<noteq> ''authorization_pending''
        then Inr (rs_deny ''invalid_transition'' (take 64 (''already_'' @ rr_state rr)), s)
        else (case revalidate rr s of
          Some d \<Rightarrow> Inr (d, s)
        | None \<Rightarrow>
          try_then (authorize (\<lambda>k. ts (k + 1)) (rr_authorization_id rr) a sc policy_version s) (\<lambda>(out, s1).
            if \<not> sr_ok out then Inr (rs_deny (sr_result_kind out) (sr_reason_code out), s1)
            else let s2 = s1\<lparr>db_clarifications := snd (mark_clarification_resume_authorized (ts 3)
                      (rr_clarification_id rr) (db_clarifications s1))\<rparr> in
              try_then (transition_to_authorized (ts 4) rid (team_id sc) (project_id sc) (db_resumes s2))
                (\<lambda>(updated, rrs). case updated of
                   None \<Rightarrow> Inr (rs_deny ''conflict'' ''conflict'', s2\<lparr>db_resumes := rrs\<rparr>)
                 | Some r \<Rightarrow>
                    try_then (emit eid (ts 0) (ts 5) (rr_clarification_id rr) (rr_task_id rr)
                        ''resume.authorized'' (rr_clarification_id rr @ '':resume_authorized:'' @ rid)
                        [(''resume_request_id'', PStr rid),
                         (''authorization_id'', PStr (rr_authorization_id rr)),
                         (''reason'', PStr ''policy_allow'')] (s2\<lparr>db_resumes := rrs\<rparr>)) (\<lambda>(_, s3).
                      Inr (ResumeResult True ''ok'' ''policy_allow'' (Some r) None, s3))))))"

text \<open>The common tail of reject and cancel: transition, release of the markers, evidence.\<close>

definition release_and_emit ::
    "string \<Rightarrow> (nat \<Rightarrow> int) \<Rightarrow> string \<Rightarrow> resume_row \<Rightarrow> string \<Rightarrow> string \<Rightarrow> string
     \<Rightarrow> (resume_row option \<times> resume_table) outcome \<Rightarrow> resume_db \<Rightarrow> (resume_result \<times> resume_db) outcome" where
  "release_and_emit eid ts rid rr event_type suffix reason transition s =
    try_then transition (\<lambda>(updated, rrs). case updated of
       None \<Rightarrow> Inr (rs_deny ''conflict'' ''conflict'', s\<lparr>db_resumes := rrs\<rparr>)
     | Some r \<Rightarrow>
        try_then (emit eid (ts 0) (ts 5) (rr_clarification_id rr) (rr_task_id rr) event_type
            (rr_clarification_id rr @ suffix @ rid)
            [(''resume_request_id'', PStr rid), (''reason'', PStr reason)]
            (s\<lparr>db_resumes := rrs, db_clarifications := release_clarification_resume_markers (ts 4)
                 (rr_clarification_id rr) (db_clarifications s)\<rparr>)) (\<lambda>(_, s2).
          Inr (ResumeResult True ''ok'' reason (Some r) None, s2)))"

definition reject_resume ::
    "environment \<Rightarrow> string \<Rightarrow> (nat \<Rightarrow> int) \<Rightarrow> string \<Rightarrow> actor \<Rightarrow> scope \<Rightarrow> string \<Rightarrow> resume_db
     \<Rightarrow> (resume_result \<times> resume_db) outcome" where
  "reject_resume env eid ts rid a sc reason s =
    (if \<not> resume_api_enabled env then Inr (rs_deny ''feature_disabled'' ''feature_disabled'', s)
     else try_then (assert_resume_reason_code (Some reason)) (\<lambda>_.
       case load_resume rid sc s of
         None \<Rightarrow> Inr (resume_masked, s)
       | Some rr \<Rightarrow>
          if rr_state rr \<noteq> ''authorization_pending''
          then Inr (rs_deny ''invalid_transition'' (take 64 (''already_'' @ rr_state rr)), s)
          else try_then (reject_authorization (\<lambda>k. ts (k + 1)) (rr_authorization_id rr) a sc s) (\<lambda>(out, s1).
            if \<not> sr_ok out then Inr (rs_deny (sr_result_kind out) (sr_reason_code out), s1)
            else release_and_emit eid ts rid rr ''resume.rejected'' '':resume_rejected:'' reason
              (transition_to_rejected (ts 3) rid reason (team_id sc) (project_id sc) (db_resumes s1)) s1)))"

definition cancel_resume ::
    "environment \<Rightarrow> string \<Rightarrow> (nat \<Rightarrow> int) \<Rightarrow> string \<Rightarrow> actor \<Rightarrow> scope \<Rightarrow> resume_db
     \<Rightarrow> (resume_result \<times> resume_db) outcome" where
  "cancel_resume env eid ts rid a sc s =
    (if \<not> resume_api_enabled env then Inr (rs_deny ''feature_disabled'' ''feature_disabled'', s)
     else case load_resume rid sc s of
       None \<Rightarrow> Inr (resume_masked, s)
     | Some rr \<Rightarrow>
        if role a \<noteq> ''platform_admin'' \<and> rr_requested_by rr \<noteq> principal_id a
        then Inr (rs_deny ''forbidden'' ''rbac_denied'', s)
        else if rr_state rr \<noteq> ''authorization_pending''
        then Inr (rs_deny ''invalid_transition'' (take 64 (''already_'' @ rr_state rr)), s)
        else try_then (cancel_authorization (\<lambda>k. ts (k + 1)) (rr_authorization_id rr) a sc s) (\<lambda>(out, s1).
          if \<not> sr_ok out then Inr (rs_deny (sr_result_kind out) (sr_reason_code out), s1)
          else release_and_emit eid ts rid rr ''resume.canceled'' '':resume_canceled:'' ''operator_canceled''
            (transition_to_canceled (ts 3) rid (team_id sc) (project_id sc) (db_resumes s1)) s1))"

section \<open>Preparing the execution\<close>

definition prepare_execution ::
    "environment \<Rightarrow> string \<Rightarrow> (nat \<Rightarrow> int) \<Rightarrow> string \<Rightarrow> actor \<Rightarrow> scope \<Rightarrow> resume_db
     \<Rightarrow> (resume_result \<times> resume_db) outcome" where
  "prepare_execution env eid ts rid a sc s =
    (if \<not> resume_command_enabled env
     then Inr (rs_deny ''command_gate_disabled'' ''command_gate_disabled'', s)
     else case load_resume rid sc s of
       None \<Rightarrow> Inr (resume_masked, s)
     | Some rr \<Rightarrow>
        if rr_state rr \<noteq> ''authorized''
        then Inr (rs_deny ''invalid_transition'' (take 64 (''invalid_transition:'' @ rr_state rr)), s)
        else (case revalidate rr s of
          Some d \<Rightarrow> Inr (d, s)
        | None \<Rightarrow>
          try_then (consume_authorization (\<lambda>k. ts (k + 1)) (rr_authorization_id rr) a sc
              (rr_resource_state_version rr) s) (\<lambda>(out, s1).
            if \<not> sr_ok out then Inr (rs_deny (sr_result_kind out) (sr_reason_code out), s1)
            else try_then (build_resume_command_payload rid (rr_authorization_id rr)
                (rr_resource_state_version rr)) (\<lambda>payload.
              try_then (emit eid (ts 0) (ts 6) (rr_clarification_id rr) (rr_task_id rr)
                  ''resume.execution_requested'' (rr_clarification_id rr @ '':resume_dispatched:'' @ rid)
                  payload s1) (\<lambda>(command, s2).
                try_then (transition_to_execution_pending (ts 7) rid (ob_id command) (team_id sc)
                    (project_id sc) (db_resumes s2)) (\<lambda>(updated, rrs).
                  case updated of
                    None \<Rightarrow> Inr (rs_deny ''conflict'' ''conflict'', s2\<lparr>db_resumes := rrs\<rparr>)
                  | Some r \<Rightarrow> Inr (ResumeResult True ''ok'' ''policy_allow'' (Some r)
                        (Some (ob_id command)), s2\<lparr>db_resumes := rrs\<rparr>)))))))"

section \<open>Confirming\<close>

definition classify_confirm_failure ::
    "string \<Rightarrow> string \<Rightarrow> string \<Rightarrow> string \<Rightarrow> resume_table \<Rightarrow> resume_result" where
  "classify_confirm_failure rid cmd target ok_reason t =
    (case get_resume_request_internal rid t of
       None \<Rightarrow> resume_masked
     | Some current \<Rightarrow>
        if rr_command_id current \<noteq> None \<and> rr_command_id current \<noteq> Some cmd
        then rs_deny ''conflict'' ''conflict''
        else if rr_state current = target then ResumeResult True ''ok'' ok_reason (Some current) None
        else if rr_state current \<in> {''resumed'', ''failed''} then rs_deny ''conflict'' ''conflict''
        else rs_deny ''invalid_transition'' ''invalid_transition'')"

definition confirm_resumed ::
    "string \<Rightarrow> (nat \<Rightarrow> int) \<Rightarrow> string \<Rightarrow> string \<Rightarrow> resume_db \<Rightarrow> (resume_result \<times> resume_db) outcome" where
  "confirm_resumed eid ts rid cmd s =
    try_then (repo_confirm_resumed (ts 1) rid cmd (db_resumes s)) (\<lambda>(updated, rrs).
      case updated of
        None \<Rightarrow> Inr (classify_confirm_failure rid cmd ''resumed'' ''orchestrator_confirmed_resumed''
            (db_resumes s), s)
      | Some r \<Rightarrow>
         try_then (emit eid (ts 0) (ts 2) (rr_clarification_id r) (rr_task_id r) ''resume.resumed''
             (rr_clarification_id r @ '':resume_resumed:'' @ rid)
             [(''resume_request_id'', PStr rid), (''command_id'', PStr cmd)] (s\<lparr>db_resumes := rrs\<rparr>))
           (\<lambda>(_, s2). Inr (ResumeResult True ''ok'' ''orchestrator_confirmed_resumed'' (Some r) None, s2)))"

definition confirm_failed ::
    "string \<Rightarrow> (nat \<Rightarrow> int) \<Rightarrow> string \<Rightarrow> string \<Rightarrow> string \<Rightarrow> resume_db
     \<Rightarrow> (resume_result \<times> resume_db) outcome" where
  "confirm_failed eid ts rid cmd reason s =
    try_then (assert_resume_reason_code (Some reason)) (\<lambda>_.
    try_then (repo_confirm_failed (ts 1) rid cmd reason (db_resumes s)) (\<lambda>(updated, rrs).
      case updated of
        None \<Rightarrow> Inr (classify_confirm_failure rid cmd ''failed'' ''orchestrator_confirmed_failed''
            (db_resumes s), s)
      | Some r \<Rightarrow>
         try_then (emit eid (ts 0) (ts 2) (rr_clarification_id r) (rr_task_id r) ''resume.failed''
             (rr_clarification_id r @ '':resume_failed:'' @ rid)
             [(''resume_request_id'', PStr rid), (''command_id'', PStr cmd)] (s\<lparr>db_resumes := rrs\<rparr>))
           (\<lambda>(_, s2). Inr (ResumeResult True ''ok'' ''orchestrator_confirmed_failed'' (Some r) None, s2))))"

end
