(* ===== verification/Request_Table.thy ===== *)
theory Request_Table imports Prelude begin

text \<open>
  What resume requests and replay requests have in common: a table whose rows have a key, an
  idempotency key and a resource, at most one active row per resource, and rows that only move by
  sound moves, which keep those three columns and never make a row active again. The first locale
  says what such a table keeps, the second what every history of its statements keeps.
\<close>

locale request_table =
  fixes key :: "'r \<Rightarrow> 'k" and ikey :: "'r \<Rightarrow> 'i" and resource :: "'r \<Rightarrow> 'c"
    and active :: "'r \<Rightarrow> bool" and sound :: "'r \<Rightarrow> bool" and moves :: "'r \<Rightarrow> 'r \<Rightarrow> bool"
  assumes moves_keys: "moves r r' \<Longrightarrow> key r' = key r \<and> ikey r' = ikey r \<and> resource r' = resource r"
    and moves_sound: "moves r r' \<Longrightarrow> sound r'"
    and moves_active: "moves r r' \<Longrightarrow> active r' \<Longrightarrow> active r"
begin

definition one_active :: "'r list \<Rightarrow> bool" where
  "one_active t \<longleftrightarrow> (\<forall>r \<in> set t. \<forall>r' \<in> set t. active r \<and> active r' \<and> resource r = resource r' \<longrightarrow> key r = key r')"

definition table_inv :: "'r list \<Rightarrow> bool" where
  "table_inv t \<longleftrightarrow> distinct (map key t) \<and> distinct (map ikey t) \<and> (\<forall>r \<in> set t. sound r) \<and> one_active t"

definition fresh_for :: "'r list \<Rightarrow> 'r \<Rightarrow> bool" where
  "fresh_for t row \<longleftrightarrow> sound row \<and> key row \<notin> key ` set t \<and> ikey row \<notin> ikey ` set t \<and>
     (\<forall>r \<in> set t. active r \<longrightarrow> resource r \<noteq> resource row)"

lemma table_inv_empty: "table_inv []"
  by (simp add: table_inv_def one_active_def)

lemma table_inv_sound: "table_inv t \<Longrightarrow> r \<in> set t \<Longrightarrow> sound r"
  by (simp add: table_inv_def)

lemma table_inv_row: "table_inv t \<Longrightarrow> r \<in> set t \<Longrightarrow> r' \<in> set t \<Longrightarrow> key r = key r' \<Longrightarrow> r = r'"
  unfolding table_inv_def by (blast dest: distinct_map_eqD)

lemma table_inv_snoc:
  assumes "table_inv t" "fresh_for t row"
  shows "table_inv (t @ [row])"
proof -
  have "one_active (t @ [row])"
    using assms unfolding table_inv_def fresh_for_def one_active_def by fastforce
  then show ?thesis using assms by (simp add: table_inv_def fresh_for_def)
qed

lemma table_inv_map:
  assumes inv: "table_inv t" and g: "\<And>r. r \<in> set t \<Longrightarrow> moves r (g r)"
  shows "table_inv (map g t)"
proof -
  have k: "map key (map g t) = map key t" "map ikey (map g t) = map ikey t"
    using g moves_keys by auto
  have "one_active (map g t)"
    unfolding one_active_def
  proof (intro ballI impI, elim conjE)
    fix y y' assume y: "y \<in> set (map g t)" "y' \<in> set (map g t)" "active y" "active y'" "resource y = resource y'"
    then obtain r r' where r: "y = g r" "r \<in> set t" "y' = g r'" "r' \<in> set t" by auto
    have "active r" "active r'" "resource r = resource r'"
      using y(3-5) r g moves_active moves_keys by metis+
    then have "key r = key r'" using inv r(2,4) unfolding table_inv_def one_active_def by blast
    then show "key y = key y'" using r g moves_keys by metis
  qed
  then show ?thesis using inv g moves_sound unfolding table_inv_def k by auto
qed

end

locale request_history = request_table key ikey resource active sound moves
  for key :: "'r \<Rightarrow> 'k" and ikey :: "'r \<Rightarrow> 'i" and resource :: "'r \<Rightarrow> 'c"
    and active :: "'r \<Rightarrow> bool" and sound :: "'r \<Rightarrow> bool" and moves :: "'r \<Rightarrow> 'r \<Rightarrow> bool" +
  fixes initial :: "'r \<Rightarrow> bool" and step :: "'r list \<Rightarrow> 'r list \<Rightarrow> bool"
  assumes moves_refl: "sound r \<Longrightarrow> moves r r"
    and step_rows: "step t t' \<Longrightarrow> table_inv t \<Longrightarrow>
      (\<exists>row. t' = t @ [row] \<and> fresh_for t row \<and> initial row) \<or>
      (\<exists>g. t' = map g t \<and> (\<forall>r \<in> set t. moves r (g r)))"
begin

lemma step_inv: "step t t' \<Longrightarrow> table_inv t \<Longrightarrow> table_inv t'"
  using step_rows[of t t'] table_inv_snoc[of t] table_inv_map[of t] by blast

lemma step_moves:
  assumes "table_inv t" "step t t'" "r \<in> set t"
  obtains r' where "r' \<in> set t'" "moves r r'"
  using step_rows[OF assms(2,1)]
proof (elim disjE exE conjE)
  fix row assume "t' = t @ [row]"
  then show thesis using that[of r] assms(3) moves_refl[OF table_inv_sound[OF assms(1,3)]] by simp
next
  fix g assume "t' = map g t" "\<forall>r \<in> set t. moves r (g r)"
  then show thesis using that[of "g r"] assms(3) by simp
qed

lemma step_fresh:
  assumes "table_inv t" "step t t'" "r' \<in> set t'" "key r' \<notin> key ` set t"
  shows "initial r'"
  using step_rows[OF assms(2,1)]
proof (elim disjE exE conjE)
  fix row assume "t' = t @ [row]" "initial row"
  then show ?thesis using assms(3,4) by auto
next
  fix g assume "t' = map g t" "\<forall>r \<in> set t. moves r (g r)"
  then show ?thesis using assms(3,4) moves_keys by fastforce
qed

lemma history_inv: "step\<^sup>*\<^sup>* t t' \<Longrightarrow> table_inv t \<Longrightarrow> table_inv t'"
  by (induction rule: rtranclp_induct) (auto intro: step_inv)

lemma reachable_inv: "step\<^sup>*\<^sup>* [] t \<Longrightarrow> table_inv t"
  using history_inv table_inv_empty by blast

end

end
