(* ===== verification/Resume_Lifecycle.thy ===== *)
theory Resume_Lifecycle imports Resume Request_Table begin

text \<open>
  The life cycle of resume requests under any interleaving of repository statements: \<open>resume_life\<close>
  is the abstract state machine, \<open>resume_step\<close> one statement. The last section shows what the table
  constraints make of the expiry scan.
\<close>

section \<open>Statements as compare-and-set\<close>

lemma resume_upd_keys [simp]:
  "rr_id (resume_upd p r) = rr_id r" "rr_idempotency_key (resume_upd p r) = rr_idempotency_key r"
  "rr_clarification_id (resume_upd p r) = rr_clarification_id r"
  "rr_task_id (resume_upd p r) = rr_task_id r" "rr_authorization_id (resume_upd p r) = rr_authorization_id r"
  "rr_team_id (resume_upd p r) = rr_team_id r" "rr_project_id (resume_upd p r) = rr_project_id r"
  "rr_resource_state_version (resume_upd p r) = rr_resource_state_version r"
  "rr_requested_by (resume_upd p r) = rr_requested_by r"
  by (cases p; simp)+

interpretation resumes: keyed_cas rr_id resume_guard resume_upd
  by unfold_locales simp

fun confirming :: "resume_op \<Rightarrow> bool" where
  "confirming (ConfirmResumed now cmd) = True"
| "confirming (ConfirmFailed now cmd reason) = True"
| "confirming _ = False"

interpretation confirmations: exclusive_cas rr_id "\<lambda>p r. confirming p \<and> resume_guard p r" resume_upd
proof unfold_locales
  show "confirming p \<and> resume_guard p r \<Longrightarrow> \<not> (confirming q \<and> resume_guard q (resume_upd p r))" for p q r
    by (cases p; cases q) simp_all
qed

lemma resume_transition_Inr:
  "resume_transition p rid t = Inr x \<longleftrightarrow> x = cas rr_id resume_guard resume_upd p rid t \<and>
     (\<forall>r \<in> set t. rr_id r = rid \<and> resume_guard p r \<longrightarrow> rr_checks (resume_upd p r))"
  by (simp add: resume_transition_def checked_update_Inr cas_def)

section \<open>The state machine\<close>

inductive resume_life :: "string \<Rightarrow> string \<Rightarrow> bool" where
  authorize: "resume_life ''authorization_pending'' ''authorized''"
| reject: "resume_life ''authorization_pending'' ''rejected''"
| cancel: "resume_life ''authorization_pending'' ''canceled''"
| expire: "resume_life ''authorization_pending'' ''expired''"
| dispatch: "resume_life ''authorized'' ''execution_pending''"
| resumed: "resume_life ''execution_pending'' ''resumed''"
| failed: "resume_life ''execution_pending'' ''failed''"

inductive_cases resume_lifeE: "resume_life a b"
inductive_simps resume_life_simps: "resume_life a b"

lemma resume_life_terminal: "resume_life a b \<Longrightarrow> a \<notin> set TERMINAL_STATES"
  by (auto simp: TERMINAL_STATES_def REQUEST_STATES_def ACTIVE_STATES_def elim: resume_lifeE)

inductive resume_step :: "resume_table \<Rightarrow> resume_table \<Rightarrow> bool" where
  create: "insert_resume_request rid now aid cid tid team project ver by key wfl t = Inr (row, t') \<Longrightarrow> resume_step t t'"
| move: "resume_transition p rid t = Inr (x, t') \<Longrightarrow> resume_step t t'"
| expire: "expire_due_requests scan now before limit auths t = Inr (n, t') \<Longrightarrow> resume_step t t'"

definition rr_wf :: "resume_row \<Rightarrow> bool" where
  "rr_wf r \<longleftrightarrow> rr_checks r \<and>
     (rr_state r \<in> {''authorized'', ''execution_pending'', ''resumed'', ''failed''} \<longrightarrow> rr_authorized_at r \<noteq> None) \<and>
     (rr_state r \<in> {''execution_pending'', ''resumed'', ''failed''} \<longrightarrow> rr_command_id r \<noteq> None) \<and>
     (rr_state r = ''resumed'' \<longrightarrow> rr_resumed_at r \<noteq> None) \<and>
     (rr_state r = ''failed'' \<longrightarrow> rr_failed_at r \<noteq> None) \<and>
     (rr_state r = ''canceled'' \<longrightarrow> rr_canceled_at r \<noteq> None) \<and>
     (rr_state r = ''expired'' \<longrightarrow> rr_expired_at r \<noteq> None)"

definition rr_one_active :: "resume_table \<Rightarrow> bool" where
  "rr_one_active t \<longleftrightarrow> (\<forall>r \<in> set t. \<forall>r' \<in> set t. rr_active r \<and> rr_active r' \<and>
     rr_clarification_id r = rr_clarification_id r' \<longrightarrow> rr_id r = rr_id r')"

definition rr_inv :: "resume_table \<Rightarrow> bool" where
  "rr_inv t \<longleftrightarrow> distinct (map rr_id t) \<and> distinct (map rr_idempotency_key t) \<and>
     (\<forall>r \<in> set t. rr_wf r) \<and> rr_one_active t"

definition rr_identity where
  "rr_identity r = ((rr_id r, rr_authorization_id r, rr_clarification_id r, rr_task_id r),
     (rr_team_id r, rr_project_id r, rr_resource_state_version r, rr_requested_by r, rr_idempotency_key r))"

lemma rr_identityD:
  "rr_identity r' = rr_identity r \<Longrightarrow> rr_id r' = rr_id r \<and> rr_clarification_id r' = rr_clarification_id r \<and>
     rr_idempotency_key r' = rr_idempotency_key r"
  by (simp add: rr_identity_def)

lemma rr_one_activeI:
  "(\<And>r r'. r \<in> set t \<Longrightarrow> r' \<in> set t \<Longrightarrow> rr_active r \<Longrightarrow> rr_active r' \<Longrightarrow>
     rr_clarification_id r = rr_clarification_id r' \<Longrightarrow> rr_id r = rr_id r') \<Longrightarrow> rr_one_active t"
  unfolding rr_one_active_def by blast

lemma rr_one_activeD:
  "rr_one_active t \<Longrightarrow> r \<in> set t \<Longrightarrow> r' \<in> set t \<Longrightarrow> rr_active r \<Longrightarrow> rr_active r' \<Longrightarrow>
     rr_clarification_id r = rr_clarification_id r' \<Longrightarrow> rr_id r = rr_id r'"
  unfolding rr_one_active_def by blast

lemma rr_active_iff:
  "rr_active r \<longleftrightarrow> rr_state r = ''authorization_pending'' \<or> rr_state r = ''authorized'' \<or> rr_state r = ''execution_pending''"
  by (simp add: rr_active_def ACTIVE_STATES_def)

lemma rr_wf_authorized_at: "rr_wf r \<Longrightarrow> rr_state r = ''authorized'' \<Longrightarrow> rr_authorized_at r \<noteq> None"
  by (simp add: rr_wf_def)

lemma rr_wf_checks: "rr_wf r \<Longrightarrow> rr_checks r"
  by (simp add: rr_wf_def)

lemma pending_stamps:
  "rr_checks r \<Longrightarrow> rr_state r = ''authorization_pending'' \<Longrightarrow>
     rr_authorized_at r = None \<and> rr_command_id r = None \<and> rr_resumed_at r = None \<and>
     rr_failed_at r = None \<and> rr_canceled_at r = None \<and> rr_execution_requested_at r = None"
  by (auto simp: rr_checks_def)

lemma authorized_stamps:
  "rr_checks r \<Longrightarrow> rr_state r = ''authorized'' \<Longrightarrow>
     rr_command_id r = None \<and> rr_resumed_at r = None \<and> rr_failed_at r = None \<and>
     rr_canceled_at r = None \<and> rr_execution_requested_at r = None"
  by (auto simp: rr_checks_def)

lemma execution_stamps:
  "rr_checks r \<Longrightarrow> rr_state r = ''execution_pending'' \<Longrightarrow>
     rr_resumed_at r = None \<and> rr_failed_at r = None \<and> rr_canceled_at r = None"
  by (auto simp: rr_checks_def)

text \<open>A statement that passes its guard moves a sound row along the machine to a sound row.\<close>

lemma resume_upd_moves:
  assumes "rr_wf r" "resume_guard p r" "rr_checks (resume_upd p r)"
  shows "resume_life (rr_state r) (rr_state (resume_upd p r)) \<and> rr_wf (resume_upd p r) \<and>
    rr_identity (resume_upd p r) = rr_identity r"
proof (cases p)
  case (ToAuthorized now team project)
  then show ?thesis using assms by (simp add: rr_wf_def rr_identity_def resume_life.intros)
next
  case (ToRejected now reason team project)
  then show ?thesis using assms by (simp add: rr_wf_def rr_identity_def resume_life.intros)
next
  case (ToCanceled now team project)
  then show ?thesis using assms by (simp add: rr_wf_def rr_identity_def resume_life.intros)
next
  case (ToExecutionPending now cmd team project)
  then show ?thesis using assms by (simp add: rr_wf_def rr_identity_def resume_life.intros)
next
  case (ConfirmResumed now cmd)
  then show ?thesis using assms by (simp add: rr_wf_def rr_identity_def resume_life.intros)
next
  case (ConfirmFailed now cmd reason)
  then show ?thesis using assms by (simp add: rr_wf_def rr_identity_def resume_life.intros)
qed

lemma expired_checks: "rr_checks (expire_resume_upd now r) \<Longrightarrow> rr_authorized_at r = None"
  by (auto simp: rr_checks_def expire_resume_upd_def)

lemma expire_upd_moves:
  assumes "rr_wf r" "expirable r" "rr_checks (expire_resume_upd now r)"
  shows "resume_life (rr_state r) (rr_state (expire_resume_upd now r)) \<and> rr_wf (expire_resume_upd now r) \<and>
    rr_identity (expire_resume_upd now r) = rr_identity r"
proof -
  have "rr_state r \<noteq> ''authorized''"
    using expired_checks[OF assms(3)] rr_wf_authorized_at[OF assms(1)] by auto
  then have "rr_state r = ''authorization_pending''" using assms(2) by (simp add: expirable_def)
  then show ?thesis using assms(3)
    by (simp add: rr_wf_def rr_identity_def expire_resume_upd_def resume_life.intros)
qed

lemma resume_life_active: "resume_life (rr_state r) (rr_state r') \<Longrightarrow> rr_active r' \<Longrightarrow> rr_active r"
  by (auto simp: rr_active_iff elim: resume_lifeE)

lemma insert_resume_Inr:
  assumes "insert_resume_request rid now aid cid tid team project ver by key wfl t = Inr (row, t')"
  shows "t' = t @ [row]" "rr_checks row" "rr_state row = ''authorization_pending''" "rr_id row = rid"
    "rr_idempotency_key row = key" "rr_clarification_id row = cid" "rr_authorization_id row = aid"
    "rr_task_id row = tid" "rr_team_id row = team" "rr_project_id row = project"
    "rr_resource_state_version row = ver" "rr_requested_by row = by"
    "rid \<notin> rr_id ` set t" "key \<notin> rr_idempotency_key ` set t"
    "\<forall>r \<in> set t. rr_active r \<longrightarrow> rr_clarification_id r \<noteq> cid"
  using assms unfolding insert_resume_request_def
  by (auto simp: Let_def list_ex_iff split: if_split_asm)

definition expiry_picks :: "(resume_table \<Rightarrow> resume_table) \<Rightarrow> int \<Rightarrow> nat \<Rightarrow> auth_table \<Rightarrow> resume_table \<Rightarrow> resume_row \<Rightarrow> bool" where
  "expiry_picks scan before limit auths t r \<longleftrightarrow> resume_expiry_due auths before r \<and>
     rr_id r \<in> set (map rr_id (take limit (filter expirable (scan t))))"

lemma expire_due_eq:
  "expire_due_requests scan now before limit auths t =
    (if list_ex (\<lambda>r. expiry_picks scan before limit auths t r \<and> \<not> rr_checks (expire_resume_upd now r)) t
     then Inl (CheckViolation ''resume_requests'')
     else Inr (length (filter (expiry_picks scan before limit auths t) t),
       update_where (expiry_picks scan before limit auths t) (expire_resume_upd now) t))"
  unfolding expire_due_requests_def checked_update_def expiry_picks_def[abs_def] Let_def
  by (simp add: update_returning_def)

text \<open>Every step appends one pending row or rewrites rows in place by sound moves.\<close>

lemma resume_step_rows:
  assumes "rr_inv t" "resume_step t t'"
  obtains (new) row where "t' = t @ [row]" "rr_wf row" "rr_state row = ''authorization_pending''"
      "rr_id row \<notin> rr_id ` set t" "rr_idempotency_key row \<notin> rr_idempotency_key ` set t"
      "\<forall>r \<in> set t. rr_active r \<longrightarrow> rr_clarification_id r \<noteq> rr_clarification_id row"
  | (upd) g where "t' = map g t"
      "\<And>r. r \<in> set t \<Longrightarrow> rr_identity (g r) = rr_identity r \<and> rr_wf (g r) \<and>
         (g r = r \<or> resume_life (rr_state r) (rr_state (g r)))"
proof -
  have wf: "rr_wf r" if "r \<in> set t" for r using assms(1) that by (simp add: rr_inv_def)
  have upd': thesis if "t' = update_where P f t"
    "\<And>r. r \<in> set t \<Longrightarrow> P r \<Longrightarrow> resume_life (rr_state r) (rr_state (f r)) \<and> rr_wf (f r) \<and> rr_identity (f r) = rr_identity r"
    for P f
  proof (rule upd[of "\<lambda>r. if P r then f r else r"])
    show "t' = map (\<lambda>r. if P r then f r else r) t" using that(1) by (simp add: update_where_def)
  qed (use that(2) wf in auto)
  from assms(2) show thesis
  proof cases
    case (create rid now aid cid tid team project ver "by" key w row)
    note ins = insert_resume_Inr[OF create]
    have "rr_wf row" using ins(2,3) by (simp add: rr_wf_def)
    then show thesis using new ins by metis
  next
    case (move p rid x)
    then have "t' = update_where (\<lambda>r. rr_id r = rid \<and> resume_guard p r) (resume_upd p) t"
      and chk: "\<forall>r \<in> set t. rr_id r = rid \<and> resume_guard p r \<longrightarrow> rr_checks (resume_upd p r)"
      by (auto simp: resume_transition_Inr cas_def update_returning_def)
    from this(1) show thesis by (rule upd') (use chk wf resume_upd_moves in blast)
  next
    case (expire scan now before limit auths n)
    then have t': "t' = update_where (expiry_picks scan before limit auths t) (expire_resume_upd now) t"
      and chk: "\<forall>r \<in> set t. expiry_picks scan before limit auths t r \<longrightarrow> rr_checks (expire_resume_upd now r)"
      by (auto simp: expire_due_eq list_ex_iff split: if_split_asm)
    from t' show thesis
      by (rule upd') (use chk wf expire_upd_moves in \<open>auto simp: expiry_picks_def resume_expiry_due_def\<close>)
  qed
qed

definition rr_moves :: "resume_row \<Rightarrow> resume_row \<Rightarrow> bool" where
  "rr_moves r r' \<longleftrightarrow> rr_identity r' = rr_identity r \<and> rr_wf r' \<and>
     (r' = r \<or> resume_life (rr_state r) (rr_state r'))"

interpretation resume_table: request_table rr_id rr_idempotency_key rr_clarification_id rr_active rr_wf rr_moves
  by unfold_locales (auto simp: rr_moves_def dest: rr_identityD resume_life_active)

lemma rr_inv_eq: "rr_inv t = resume_table.table_inv t"
  by (simp add: rr_inv_def resume_table.table_inv_def rr_one_active_def resume_table.one_active_def)

interpretation resume_history: request_history rr_id rr_idempotency_key rr_clarification_id rr_active rr_wf
    rr_moves "\<lambda>r. rr_state r = ''authorization_pending''" resume_step
proof unfold_locales
  show "rr_wf r \<Longrightarrow> rr_moves r r" for r by (simp add: rr_moves_def)
  fix t t' assume st: "resume_step t t'" and inv: "resume_table.table_inv t"
  from inv[folded rr_inv_eq] st
  show "(\<exists>row. t' = t @ [row] \<and> resume_table.fresh_for t row \<and> rr_state row = ''authorization_pending'') \<or>
      (\<exists>g. t' = map g t \<and> (\<forall>r \<in> set t. rr_moves r (g r)))"
  proof (cases rule: resume_step_rows)
    case (new row)
    then show ?thesis by (auto simp: resume_table.fresh_for_def)
  next
    case (upd g)
    then show ?thesis by (auto simp: rr_moves_def)
  qed
qed

lemma resume_step_inv: "resume_step t t' \<Longrightarrow> rr_inv t \<Longrightarrow> rr_inv t'"
  unfolding rr_inv_eq by (rule resume_history.step_inv)

section \<open>Properties\<close>

lemma resume_step_moves:
  assumes "rr_inv t" "resume_step t t'" "r \<in> set t"
  obtains r' where "r' \<in> set t'" "rr_identity r' = rr_identity r"
    "r' = r \<or> resume_life (rr_state r) (rr_state r')"
  by (rule resume_history.step_moves[OF assms(1)[unfolded rr_inv_eq] assms(2,3)]) (auto simp: rr_moves_def intro: that)

lemmas resume_step_fresh = resume_history.step_fresh[folded rr_inv_eq]

text \<open>
  C9. Resume requests follow their state machine: whatever statement of the repository runs, each
  request keeps its identity columns and stays or moves along one edge of \<open>resume_life\<close>; a request in
  a terminal state is never written again; none is ever deleted, and a new one is pending. In
  particular a request that is authorized can only be dispatched: no statement expires it.
\<close>

theorem resume_step_refines_life_cycle:
  assumes "rr_inv t" "resume_step t t'"
  shows "rr_inv t' \<and> (\<forall>r \<in> set t. \<exists>r' \<in> set t'. rr_identity r' = rr_identity r \<and>
      (r' = r \<or> resume_life (rr_state r) (rr_state r')) \<and>
      (rr_state r \<in> set TERMINAL_STATES \<longrightarrow> r' = r) \<and>
      (rr_state r = ''authorized'' \<longrightarrow> r' = r \<or> rr_state r' = ''execution_pending'')) \<and>
    (\<forall>r' \<in> set t'. rr_id r' \<notin> rr_id ` set t \<longrightarrow> rr_state r' = ''authorization_pending'')"
proof -
  have "\<exists>r' \<in> set t'. rr_identity r' = rr_identity r \<and>
      (r' = r \<or> resume_life (rr_state r) (rr_state r')) \<and>
      (rr_state r \<in> set TERMINAL_STATES \<longrightarrow> r' = r) \<and>
      (rr_state r = ''authorized'' \<longrightarrow> r' = r \<or> rr_state r' = ''execution_pending'')" if r: "r \<in> set t" for r
  proof -
    obtain r' where m: "r' \<in> set t'" "rr_identity r' = rr_identity r"
      "r' = r \<or> resume_life (rr_state r) (rr_state r')" by (rule resume_step_moves[OF assms r])
    have "rr_state r \<in> set TERMINAL_STATES \<longrightarrow> r' = r" using m(3) resume_life_terminal by blast
    moreover have "rr_state r = ''authorized'' \<longrightarrow> r' = r \<or> rr_state r' = ''execution_pending''"
      using m(3) by (auto elim: resume_lifeE)
    ultimately show ?thesis using m by blast
  qed
  then show ?thesis using resume_step_inv[OF assms(2,1)] resume_step_fresh[OF assms] by blast
qed

definition demo_resume :: resume_row where
  "demo_resume = \<lparr>rr_id = ''rr1'', rr_authorization_id = ''a1'', rr_clarification_id = ''c1'',
    rr_task_id = ''k1'', rr_workflow_id = None, rr_team_id = ''t1'', rr_project_id = ''p1'',
    rr_resource_state_version = ''answered:m1:False'', rr_state = ''authorization_pending'',
    rr_requested_by = ''u1'', rr_requested_at = 5, rr_authorized_at = None,
    rr_execution_requested_at = None, rr_resumed_at = None, rr_failed_at = None,
    rr_canceled_at = None, rr_expired_at = None, rr_command_id = None,
    rr_failure_reason_code = None, rr_idempotency_key = ''rk1'', rr_updated_at = 5\<rparr>"

definition demo_resume_authorized :: resume_row where
  "demo_resume_authorized = resume_upd (ToAuthorized 6 (Some ''t1'') (Some ''p1'')) demo_resume"

lemma demo_resume_checks: "rr_checks demo_resume" "rr_checks demo_resume_authorized"
  by (simp_all add: rr_checks_def demo_resume_def demo_resume_authorized_def REQUEST_STATES_def
      bounded_def btrim_nonempty_def)

lemma demo_resume_inv: "rr_inv [demo_resume]" "rr_inv [demo_resume_authorized]"
  using demo_resume_checks
  by (simp_all add: rr_inv_def rr_one_active_def rr_wf_def demo_resume_authorized_def)
    (simp_all add: demo_resume_def)

lemma demo_resume_step: "resume_step [demo_resume] [demo_resume_authorized]"
proof -
  let ?p = "ToAuthorized 6 (Some ''t1'') (Some ''p1'')"
  have "resume_guard ?p demo_resume" "rr_id demo_resume = ''rr1''"
    by (simp_all add: demo_resume_def rr_in_scope_def)
  then have "resume_transition ?p ''rr1'' [demo_resume] =
      Inr (Some demo_resume_authorized, [demo_resume_authorized])"
    using demo_resume_checks(2)
    by (simp add: resume_transition_def checked_update_def update_returning_def table_simps
        demo_resume_authorized_def[symmetric] del: resume_upd.simps resume_guard.simps)
  then show ?thesis by (rule resume_step.move)
qed

theorem resume_step_refines_life_cycle_witness:
  "rr_inv [demo_resume] \<and> resume_step [demo_resume] [demo_resume_authorized] \<and>
   resume_life (rr_state demo_resume) (rr_state demo_resume_authorized)"
proof -
  have "demo_resume_authorized \<noteq> demo_resume" by (simp add: demo_resume_authorized_def demo_resume_def)
  then show ?thesis
    using resume_step_refines_life_cycle[OF demo_resume_inv(1) demo_resume_step] demo_resume_inv(1) demo_resume_step
    by auto
qed

text \<open>
  C14. The expiry scan cannot expire an authorized request: when it picks one whose authorization is
  past its deadline, the update would keep \<^verbatim>\<open>authorized_at\<close> next to the state \<^verbatim>\<open>expired\<close>, the table's
  \<^verbatim>\<open>chk_rr_authorized_coherent\<close> rejects it, and the whole statement fails: not one of the due
  requests, pending ones included, is expired.
\<close>

theorem expiry_scan_fails_on_authorized:
  assumes "rr_inv t" "r \<in> set t" "rr_state r = ''authorized''" "a \<in> set auths"
    "ra_authorization_id a = rr_authorization_id r" "ra_expires_at a \<le> before"
    "rr_id r \<in> set (map rr_id (take limit (filter expirable (scan t))))"
  shows "expire_due_requests scan now before limit auths t = Inl (CheckViolation ''resume_requests'')"
proof -
  have "rr_wf r" using assms(1,2) by (simp add: rr_inv_def)
  then have "\<not> rr_checks (expire_resume_upd now r)"
    using expired_checks[of now r] rr_wf_authorized_at[OF _ assms(3)] by auto
  moreover have "expiry_picks scan before limit auths t r"
    using assms by (auto simp: expiry_picks_def resume_expiry_due_def expirable_def list_ex_iff)
  ultimately show ?thesis using assms(2) by (auto simp: expire_due_eq list_ex_iff)
qed

definition demo_resume_auth :: auth_row where
  "demo_resume_auth = demo_authorized\<lparr>ra_action_type := ''resume'', ra_resource_type := ''clarification'',
     ra_resource_id := ''c1''\<rparr>"

theorem expiry_scan_fails_on_authorized_witness:
  "expire_due_requests (\<lambda>t. t) 200 150 500 [demo_resume_auth] [demo_resume_authorized] =
     Inl (CheckViolation ''resume_requests'')"
proof -
  have s: "rr_state demo_resume_authorized = ''authorized''" "rr_authorization_id demo_resume_authorized = ''a1''"
    "rr_id demo_resume_authorized = ''rr1''"
    by (simp_all add: demo_resume_authorized_def demo_resume_def)
  then have e: "expirable demo_resume_authorized" by (simp add: expirable_def)
  have a: "ra_authorization_id demo_resume_auth = ''a1''" "ra_expires_at demo_resume_auth = 100"
    by (simp_all add: demo_resume_auth_def demo_defs)
  show ?thesis
    by (rule expiry_scan_fails_on_authorized[OF demo_resume_inv(2), of demo_resume_authorized demo_resume_auth])
      (simp_all add: s a e)
qed

end
