(* ===== verification/Relay.thy ===== *)
theory Relay imports Outbox begin

text \<open>
  The outbox relay (\<^verbatim>\<open>shared/sdk/tasks/outbox_relay.py\<close>): claim one due row, publish it on the
  audit stream, and persist the outcome; one batch; and the operator replay of a dead row. The stream
  is a parameter: for every message it says whether the publication was acknowledged, dropped, timed
  out, raised, or was cancelled. Metrics, logging and the polling loop are not modelled.
\<close>

section \<open>Publishing\<close>

datatype publish_event = Acknowledged | Dropped | TimedOut | Raised string | Cancelled

record audit_message =
  am_task_id :: string
  am_workflow_id :: string
  am_agent :: string
  am_decision_type :: string
  am_summary :: string
  am_result :: string
  am_event_id :: string
  am_clarification_id :: string
  am_idempotency_key :: string

record publish_result =
  pr_ok :: bool
  pr_reason :: "string option"

definition PUBLISH_TIMEOUT_REASON :: string where
  "PUBLISH_TIMEOUT_REASON = ''redis_publish_timeout''"

definition EVENT_RESULT :: "(string \<times> string) list" where
  "EVENT_RESULT = [(''clarification.reminder_recorded'', ''recorded''), (''clarification.expired'', ''expired'')]"

definition event_result :: "string \<Rightarrow> string \<Rightarrow> string" where
  "event_result event_type fallback =
     (case map_of EVENT_RESULT event_type of None \<Rightarrow> fallback | Some r \<Rightarrow> r)"

definition bounded_error :: "string \<Rightarrow> string" where
  "bounded_error class_name = take MAX_LAST_ERROR_CHARS class_name"

definition message_of :: "outbox_row \<Rightarrow> audit_message" where
  "message_of row =
    \<lparr>am_task_id = ob_task_id row, am_workflow_id = [], am_agent = ''clarification-outbox-relay'',
     am_decision_type = ob_event_type row,
     am_summary = ''clarification lifecycle '' @ event_result (ob_event_type row) ''event'',
     am_result = event_result (ob_event_type row) ''recorded'', am_event_id = ob_id row,
     am_clarification_id = ob_clarification_id row, am_idempotency_key = ob_idempotency_key row\<rparr>"

type_synonym bus = "audit_message \<Rightarrow> publish_event"

definition publish :: "bus \<Rightarrow> outbox_row \<Rightarrow> publish_result outcome" where
  "publish bus row =
    (case bus (message_of row) of
       TimedOut \<Rightarrow> Inr \<lparr>pr_ok = False, pr_reason = Some PUBLISH_TIMEOUT_REASON\<rparr>
     | Cancelled \<Rightarrow> Inl CancelledError
     | Raised class_name \<Rightarrow> Inr \<lparr>pr_ok = False, pr_reason = Some (bounded_error class_name)\<rparr>
     | Dropped \<Rightarrow> Inr \<lparr>pr_ok = False, pr_reason = Some ''publish_dropped''\<rparr>
     | Acknowledged \<Rightarrow> Inr \<lparr>pr_ok = True, pr_reason = None\<rparr>)"

section \<open>One row\<close>

definition published_upd :: "int \<Rightarrow> outbox_row \<Rightarrow> outbox_row" where
  "published_upd now r = r\<lparr>ob_status := ''published'', ob_published_at := Some now, ob_last_error := None\<rparr>"

definition dead_upd :: "int \<Rightarrow> retry_plan \<Rightarrow> outbox_row \<Rightarrow> outbox_row" where
  "dead_upd now plan r = r\<lparr>ob_status := ''dead'', ob_attempts := rp_attempts plan,
     ob_dead_at := Some now, ob_last_error := rp_last_error plan, ob_published_at := None\<rparr>"

definition retry_upd :: "int \<Rightarrow> retry_plan \<Rightarrow> outbox_row \<Rightarrow> outbox_row" where
  "retry_upd now plan r = r\<lparr>ob_attempts := rp_attempts plan,
     ob_available_at := now + (case rp_backoff_seconds plan of Some b \<Rightarrow> seconds b | None \<Rightarrow> 0),
     ob_last_error := rp_last_error plan\<rparr>"

definition update_row ::
    "string \<Rightarrow> (outbox_row \<Rightarrow> outbox_row) \<Rightarrow> outbox_table \<Rightarrow> outbox_table outcome" where
  "update_row eid f t =
     try_then (checked_update ''clarification_lifecycle_outbox'' clo_checks (\<lambda>r. ob_id r = eid) f t)
       (\<lambda>(_, t'). Inr t')"

definition process_claimed :: "int \<Rightarrow> bus \<Rightarrow> outbox_row \<Rightarrow> outbox_table \<Rightarrow> (string \<times> outbox_table) outcome" where
  "process_claimed now bus row t =
    try_then (publish bus row) (\<lambda>res.
      if pr_ok res then
        try_then (update_row (ob_id row) (published_upd now) t) (\<lambda>t'. Inr (''published'', t'))
      else try_then (plan_retry_state (ob_attempts row) (pr_reason res)) (\<lambda>plan.
        if rp_set_dead_at plan then
          try_then (update_row (ob_id row) (dead_upd now plan) t) (\<lambda>t'. Inr (''dead'', t'))
        else
          try_then (update_row (ob_id row) (retry_upd now plan) t) (\<lambda>t'. Inr (''retry'', t'))))"

definition relay_eligible :: "int \<Rightarrow> outbox_row \<Rightarrow> bool" where
  "relay_eligible now r \<longleftrightarrow> ob_status r = ''pending'' \<and> ob_available_at r \<le> now \<and>
     ob_event_type r \<in> set audit_relay_claimable_event_types"

text \<open>
  \<open>locked\<close> are the ids of the rows other transactions hold locked, which \<^verbatim>\<open>SKIP LOCKED\<close> passes over.
  \<open>ts 0\<close> is the clock of the claim, \<open>ts 1\<close> that of the update. An exception rolls the claim back.
\<close>

definition claim :: "string list \<Rightarrow> int \<Rightarrow> outbox_table \<Rightarrow> outbox_row option" where
  "claim locked now t =
    (case sort_key (\<lambda>r. (ob_available_at r, ob_created_at r))
        (filter (\<lambda>r. relay_eligible now r \<and> ob_id r \<notin> set locked) t) of
       [] \<Rightarrow> None | r # _ \<Rightarrow> Some r)"

definition publish_one ::
    "string list \<Rightarrow> (nat \<Rightarrow> int) \<Rightarrow> bus \<Rightarrow> outbox_table \<Rightarrow> (string option \<times> outbox_table) outcome" where
  "publish_one locked ts bus t =
    (case claim locked (ts 0) t of
       None \<Rightarrow> Inr (None, t)
     | Some row \<Rightarrow> try_then (process_claimed (ts 1) bus row t) (\<lambda>(outcome, t'). Inr (Some outcome, t')))"

section \<open>One batch\<close>

record relay_counts =
  rc_published :: nat
  rc_retry :: nat
  rc_dead :: nat

definition no_counts :: relay_counts where
  "no_counts = \<lparr>rc_published = 0, rc_retry = 0, rc_dead = 0\<rparr>"

definition bump :: "string \<Rightarrow> relay_counts \<Rightarrow> relay_counts" where
  "bump outcome c =
    (if outcome = ''published'' then c\<lparr>rc_published := rc_published c + 1\<rparr>
     else if outcome = ''retry'' then c\<lparr>rc_retry := rc_retry c + 1\<rparr>
     else c\<lparr>rc_dead := rc_dead c + 1\<rparr>)"

text \<open>
  Every row is its own transaction: an exception in the k-th one keeps the effects of the earlier
  ones. \<open>ts k\<close> are the clocks and \<open>bus k\<close> the stream of the k-th call; \<open>n\<close> counts the calls left.
\<close>

fun run_batch ::
    "nat \<Rightarrow> nat \<Rightarrow> string list \<Rightarrow> (nat \<Rightarrow> nat \<Rightarrow> int) \<Rightarrow> (nat \<Rightarrow> bus) \<Rightarrow> relay_counts \<Rightarrow> outbox_table
     \<Rightarrow> relay_counts outcome \<times> outbox_table" where
  "run_batch 0 k locked ts bus c t = (Inr c, t)"
| "run_batch (Suc n) k locked ts bus c t =
    (case publish_one locked (ts k) (bus k) t of
       Inl e \<Rightarrow> (Inl e, t)
     | Inr (None, t') \<Rightarrow> (Inr c, t')
     | Inr (Some outcome, t') \<Rightarrow> run_batch n (Suc k) locked ts bus (bump outcome c) t')"

definition run_once ::
    "nat \<Rightarrow> string list \<Rightarrow> (nat \<Rightarrow> nat \<Rightarrow> int) \<Rightarrow> (nat \<Rightarrow> bus) \<Rightarrow> outbox_table
     \<Rightarrow> relay_counts outcome \<times> outbox_table" where
  "run_once batch_size locked ts bus t = run_batch batch_size 0 locked ts bus no_counts t"

text \<open>
  What a batch hands to the stream, in order: every claimed row is passed to \<^verbatim>\<open>publish_audit_event\<close> once,
  before its outcome is known.
\<close>

fun batch_messages ::
    "nat \<Rightarrow> nat \<Rightarrow> string list \<Rightarrow> (nat \<Rightarrow> nat \<Rightarrow> int) \<Rightarrow> (nat \<Rightarrow> bus) \<Rightarrow> outbox_table \<Rightarrow> audit_message list" where
  "batch_messages 0 k locked ts bus t = []"
| "batch_messages (Suc n) k locked ts bus t =
    (case claim locked (ts k 0) t of
       None \<Rightarrow> []
     | Some row \<Rightarrow> message_of row #
        (case publish_one locked (ts k) (bus k) t of
           Inr (Some outcome, t') \<Rightarrow> batch_messages n (Suc k) locked ts bus t'
         | _ \<Rightarrow> []))"

section \<open>Operator replay of a dead row\<close>

definition replay_upd :: "int \<Rightarrow> replay_plan \<Rightarrow> outbox_row \<Rightarrow> outbox_row" where
  "replay_upd now plan r = r\<lparr>ob_status := ''pending'', ob_attempts := pp_attempts plan,
     ob_available_at := now, ob_dead_at := None, ob_last_error := None\<rparr>"

definition replay_dead :: "int \<Rightarrow> string \<Rightarrow> outbox_table \<Rightarrow> (bool \<times> outbox_table) outcome" where
  "replay_dead now event_id t =
    (case fetchrow (\<lambda>r. ob_id r = event_id \<and> ob_status r = ''dead'') t of
       None \<Rightarrow> Inr (False, t)
     | Some row \<Rightarrow>
         try_then (update_row event_id (replay_upd now (plan_replay_state (ob_attempts row))) t)
           (\<lambda>t'. Inr (True, t')))"

section \<open>The life of an outbox row\<close>

text \<open>What one relay step may do to the row it claimed.\<close>

definition backoff :: "int \<Rightarrow> int" where
  "backoff attempts = RETRY_BACKOFF_SECONDS ! nat attempts"

lemmas outbox_consts = MAX_PUBLISH_ATTEMPTS_def MAX_RETRIES_def RETRY_BACKOFF_SECONDS_def MAX_LAST_ERROR_CHARS_def

lemma plan_retry_cases:
  assumes "0 \<le> attempts" "case error of None \<Rightarrow> True | Some s \<Rightarrow> length s \<le> 500"
  shows "plan_retry_state attempts error = Inr (if attempts \<ge> 4
     then \<lparr>rp_status = ''dead'', rp_attempts = attempts + 1, rp_backoff_seconds = None,
       rp_last_error = error, rp_set_dead_at = True\<rparr>
     else \<lparr>rp_status = ''pending'', rp_attempts = attempts + 1,
       rp_backoff_seconds = Some (backoff attempts), rp_last_error = error, rp_set_dead_at = False\<rparr>)"
  using assms
  by (auto simp: plan_retry_state_def assert_safe_last_error_def outbox_consts backoff_def Let_def
      split: option.splits)

lemma backoff_pos: "0 \<le> a \<Longrightarrow> a < 4 \<Longrightarrow> 30 \<le> backoff a"
proof -
  assume "0 \<le> a" "a < 4"
  then have "a = 0 \<or> a = 1 \<or> a = 2 \<or> a = 3" by auto
  then show ?thesis by (auto simp: backoff_def RETRY_BACKOFF_SECONDS_def)
qed

definition ok_row :: "int \<Rightarrow> outbox_row \<Rightarrow> outbox_row \<Rightarrow> bool" where
  "ok_row now r r' \<longleftrightarrow> r' = published_upd now r"

text \<open>The row after an attempt that failed with \<open>why\<close> at time \<open>now\<close>.\<close>

definition failed_row :: "int \<Rightarrow> string \<Rightarrow> outbox_row \<Rightarrow> outbox_row" where
  "failed_row now why r =
    (if ob_attempts r \<ge> 4
     then r\<lparr>ob_status := ''dead'', ob_attempts := ob_attempts r + 1, ob_dead_at := Some now,
        ob_last_error := Some why, ob_published_at := None\<rparr>
     else r\<lparr>ob_attempts := ob_attempts r + 1, ob_available_at := now + seconds (backoff (ob_attempts r)),
        ob_last_error := Some why\<rparr>)"

definition failure_reason :: "publish_event \<Rightarrow> string option" where
  "failure_reason e = (case e of Acknowledged \<Rightarrow> None | Cancelled \<Rightarrow> None
     | Dropped \<Rightarrow> Some ''publish_dropped'' | TimedOut \<Rightarrow> Some PUBLISH_TIMEOUT_REASON
     | Raised c \<Rightarrow> Some (bounded_error c))"

lemma failure_reason_bounded: "failure_reason e = Some s \<Longrightarrow> length s \<le> 500"
  by (auto simp: failure_reason_def bounded_error_def PUBLISH_TIMEOUT_REASON_def MAX_LAST_ERROR_CHARS_def
      split: publish_event.splits)

definition outcome_row :: "int \<Rightarrow> publish_event \<Rightarrow> outbox_row \<Rightarrow> outbox_row" where
  "outcome_row now e r = (case failure_reason e of None \<Rightarrow> published_upd now r | Some why \<Rightarrow> failed_row now why r)"

definition outcome_name :: "publish_event \<Rightarrow> outbox_row \<Rightarrow> string" where
  "outcome_name e r = (if failure_reason e = None then ''published''
     else if ob_attempts r \<ge> 4 then ''dead'' else ''retry'')"

lemma claim_SomeD:
  assumes "claim locked now t = Some r"
  shows "r \<in> set t" "relay_eligible now r" "ob_id r \<notin> set locked"
    "\<forall>x \<in> set t. relay_eligible now x \<and> ob_id x \<notin> set locked \<longrightarrow>
       (ob_available_at r, ob_created_at r) \<le> (ob_available_at x, ob_created_at x)"
proof -
  let ?k = "\<lambda>r. (ob_available_at r, ob_created_at r)"
  let ?l = "filter (\<lambda>r. relay_eligible now r \<and> ob_id r \<notin> set locked) t"
  obtain rest where e: "sort_key ?k ?l = r # rest"
    using assms by (auto simp: claim_def split: list.splits)
  then have "r \<in> set (sort_key ?k ?l)" by simp
  then have m: "r \<in> set ?l" by (simp only: set_sort)
  then show "r \<in> set t" "relay_eligible now r" "ob_id r \<notin> set locked" by auto
  have "sorted (map ?k (r # rest))" using sorted_sort_key[of ?k ?l] e by simp
  then have "\<forall>x \<in> set (r # rest). ?k r \<le> ?k x" by auto
  then have "\<forall>x \<in> set (sort_key ?k ?l). ?k r \<le> ?k x" unfolding e .
  then have "\<forall>x \<in> set ?l. ?k r \<le> ?k x" by (simp only: set_sort)
  then show "\<forall>x \<in> set t. relay_eligible now x \<and> ob_id x \<notin> set locked \<longrightarrow> ?k r \<le> ?k x" by simp
qed

lemma claim_None_iff: "claim locked now t = None \<longleftrightarrow> (\<forall>x \<in> set t. relay_eligible now x \<longrightarrow> ob_id x \<in> set locked)"
proof -
  let ?l = "filter (\<lambda>r. relay_eligible now r \<and> ob_id r \<notin> set locked) t"
  have "claim locked now t = None \<longleftrightarrow> sort_key (\<lambda>r. (ob_available_at r, ob_created_at r)) ?l = []"
    by (auto simp: claim_def split: list.splits)
  also have "\<dots> \<longleftrightarrow> ?l = []"
    unfolding length_0_conv[symmetric] by (simp only: length_sort)
  also have "\<dots> \<longleftrightarrow> (\<forall>x \<in> set t. relay_eligible now x \<longrightarrow> ob_id x \<in> set locked)"
    unfolding filter_empty_conv by blast
  finally show ?thesis .
qed

lemma update_row_claimed:
  assumes "clo_inv t" "r \<in> set t" "clo_checks (f r)"
  shows "update_row (ob_id r) f t = Inr (update_where (\<lambda>x. x = r) f t)"
proof -
  have d: "distinct (map ob_id t)" using assms(1) by (simp add: clo_inv_def)
  have e: "ob_id x = ob_id r \<longleftrightarrow> x = r" if "x \<in> set t" for x using distinct_map_eqD[OF d that assms(2)] by auto
  then have "update_where (\<lambda>x. ob_id x = ob_id r) f t = update_where (\<lambda>x. x = r) f t"
    by (auto simp: update_where_def)
  moreover have "\<forall>x \<in> set t. ob_id x = ob_id r \<longrightarrow> clo_checks (f x)" using e assms(3) by auto
  ultimately show ?thesis
    by (simp add: update_row_def checked_update_def list_ex_iff update_returning_def)
qed

lemma outcome_row_checks:
  assumes "clo_checks r" "ob_status r = ''pending''"
  shows "clo_checks (outcome_row now e r)"
  using assms failure_reason_bounded[of e]
  by (auto simp: outcome_row_def failed_row_def published_upd_def clo_checks_def split: option.split)

lemma process_claimed_eq:
  assumes inv: "clo_inv t" and r: "r \<in> set t" "ob_status r = ''pending''"
  shows "process_claimed now bus r t =
    (if bus (message_of r) = Cancelled then Inl CancelledError
     else Inr (outcome_name (bus (message_of r)) r,
       update_where (\<lambda>x. x = r) (outcome_row now (bus (message_of r))) t))"
proof -
  define e where "e = bus (message_of r)"
  have chk: "clo_checks r" using inv r(1) by (simp add: clo_inv_def)
  then have a: "0 \<le> ob_attempts r" by (simp add: clo_checks_def)
  have u: "update_row (ob_id r) f t = Inr (update_where (\<lambda>x. x = r) (outcome_row now e) t)"
    if "f r = outcome_row now e r" for f
  proof -
    have "update_where (\<lambda>x. x = r) f t = update_where (\<lambda>x. x = r) (outcome_row now e) t"
      using that by (auto simp: update_where_def)
    then show ?thesis using update_row_claimed[OF inv r(1), of f] outcome_row_checks[OF chk r(2)] that by simp
  qed
  show ?thesis
  proof (cases "failure_reason e")
    case None
    then have e': "e = Acknowledged \<or> e = Cancelled" by (auto simp: failure_reason_def split: publish_event.splits)
    have "update_row (ob_id r) (published_upd now) t = Inr (update_where (\<lambda>x. x = r) (outcome_row now e) t)"
      by (rule u) (simp add: outcome_row_def None)
    then show ?thesis using e' None
      by (auto simp: process_claimed_def publish_def e_def[symmetric] outcome_name_def)
  next
    case (Some why)
    then have p: "publish bus r = Inr \<lparr>pr_ok = False, pr_reason = Some why\<rparr>" "e \<noteq> Cancelled"
      by (auto simp: publish_def e_def[symmetric] failure_reason_def split: publish_event.splits)
    have plan: "plan_retry_state (ob_attempts r) (Some why) = Inr (if ob_attempts r \<ge> 4
     then \<lparr>rp_status = ''dead'', rp_attempts = ob_attempts r + 1, rp_backoff_seconds = None,
       rp_last_error = Some why, rp_set_dead_at = True\<rparr>
     else \<lparr>rp_status = ''pending'', rp_attempts = ob_attempts r + 1,
       rp_backoff_seconds = Some (backoff (ob_attempts r)), rp_last_error = Some why, rp_set_dead_at = False\<rparr>)"
      (is "_ = Inr ?plan") using plan_retry_cases[OF a] failure_reason_bounded[OF Some] by simp
    show ?thesis
    proof (cases "ob_attempts r \<ge> 4")
      case True
      have "update_row (ob_id r) (dead_upd now ?plan) t = Inr (update_where (\<lambda>x. x = r) (outcome_row now e) t)"
        by (rule u) (simp add: True outcome_row_def Some failed_row_def dead_upd_def)
      then show ?thesis using True p plan Some
        by (simp add: process_claimed_def e_def[symmetric] outcome_name_def)
    next
      case False
      have "update_row (ob_id r) (retry_upd now ?plan) t = Inr (update_where (\<lambda>x. x = r) (outcome_row now e) t)"
        by (rule u) (simp add: False outcome_row_def Some failed_row_def retry_upd_def)
      then show ?thesis using False p plan Some
        by (simp add: process_claimed_def e_def[symmetric] outcome_name_def)
    qed
  qed
qed

lemma outcome_row_keys [simp]:
  "ob_id (outcome_row now e r) = ob_id r" "ob_idempotency_key (outcome_row now e r) = ob_idempotency_key r"
  "ob_event_type (outcome_row now e r) = ob_event_type r" "ob_payload (outcome_row now e r) = ob_payload r"
  "ob_created_at (outcome_row now e r) = ob_created_at r"
  "message_of (outcome_row now e r) = message_of r"
  by (simp_all add: outcome_row_def failed_row_def published_upd_def message_of_def split: option.split)

lemma relay_eligible_pending: "relay_eligible now r \<Longrightarrow> ob_status r = ''pending''"
  by (simp add: relay_eligible_def)

lemma publish_one_eq:
  assumes "clo_inv t"
  shows "publish_one locked ts bus t = (case claim locked (ts 0) t of
       None \<Rightarrow> Inr (None, t)
     | Some r \<Rightarrow> if bus (message_of r) = Cancelled then Inl CancelledError
         else Inr (Some (outcome_name (bus (message_of r)) r),
           update_where (\<lambda>x. x = r) (outcome_row (ts 1) (bus (message_of r))) t))"
proof (cases "claim locked (ts 0) t")
  case (Some r)
  from claim_SomeD[OF Some] have "r \<in> set t" "ob_status r = ''pending''"
    using relay_eligible_pending by blast+
  from process_claimed_eq[OF assms this] Some show ?thesis by (simp add: publish_one_def)
qed (simp add: publish_one_def)

lemma clo_inv_outcome:
  assumes "clo_inv t" "r \<in> set t" "ob_status r = ''pending''"
  shows "clo_inv (update_where (\<lambda>x. x = r) (outcome_row now e) t)"
proof -
  have "\<forall>x \<in> set (update_where (\<lambda>x. x = r) (outcome_row now e) t). clo_checks x"
    using assms outcome_row_checks by (intro all_update_where) (auto simp: clo_inv_def)
  then show ?thesis using assms(1) by (simp add: clo_inv_def map_update_where)
qed

lemma publish_one_cases:
  assumes inv: "clo_inv t" and p: "publish_one locked ts bus t = Inr (res, t')"
  obtains (idle) "res = None" "t' = t" "\<forall>x \<in> set t. relay_eligible (ts 0) x \<longrightarrow> ob_id x \<in> set locked"
  | (one) r where "claim locked (ts 0) t = Some r" "r \<in> set t" "relay_eligible (ts 0) r"
      "bus (message_of r) \<noteq> Cancelled" "res = Some (outcome_name (bus (message_of r)) r)"
      "t' = update_where (\<lambda>x. x = r) (outcome_row (ts 1) (bus (message_of r))) t" "clo_inv t'"
proof (cases "claim locked (ts 0) t")
  case None
  moreover from this have "res = None" "t' = t" using p publish_one_eq[OF inv, of locked ts bus] by simp_all
  ultimately show ?thesis using idle claim_None_iff[of locked "ts 0" t] by blast
next
  case (Some r)
  note c = claim_SomeD[OF Some]
  from p publish_one_eq[OF inv, of locked ts bus] Some
  have "bus (message_of r) \<noteq> Cancelled" "res = Some (outcome_name (bus (message_of r)) r)"
    "t' = update_where (\<lambda>x. x = r) (outcome_row (ts 1) (bus (message_of r))) t"
    by (auto split: if_split_asm)
  then show ?thesis using one Some c clo_inv_outcome[OF inv c(1) relay_eligible_pending[OF c(2)]] by simp
qed

text \<open>
  C22. One relay step: either nothing is due, and nothing changes, or exactly one due audit row, the
  one that has waited longest among those nobody holds, is published once and moves on: to published
  when the stream acknowledged it, and otherwise to a retry at a later time, or to dead when it was
  the fifth attempt; the identity the consumers deduplicate by never changes. Only a cancellation
  raises, and it leaves the row as it was.
\<close>

theorem publish_one_sound:
  assumes "clo_inv t"
  shows "case publish_one locked ts bus t of
      Inl e \<Rightarrow> e = CancelledError
    | Inr (None, t') \<Rightarrow> t' = t \<and> (\<forall>x \<in> set t. relay_eligible (ts 0) x \<longrightarrow> ob_id x \<in> set locked)
    | Inr (Some what, t') \<Rightarrow> clo_inv t' \<and> (\<exists>r \<in> set t. relay_eligible (ts 0) r \<and> ob_id r \<notin> set locked \<and>
        (\<forall>x \<in> set t. relay_eligible (ts 0) x \<and> ob_id x \<notin> set locked \<longrightarrow>
           (ob_available_at r, ob_created_at r) \<le> (ob_available_at x, ob_created_at x)) \<and>
        (\<exists>r'. t' = update_where (\<lambda>x. x = r) (\<lambda>_. r') t \<and> message_of r' = message_of r \<and>
          ob_payload r' = ob_payload r \<and> what = (if ob_status r' = ''pending'' then ''retry'' else ob_status r') \<and>
          (if bus (message_of r) = Acknowledged then ob_status r' = ''published'' \<and> ob_attempts r' = ob_attempts r
           else ob_attempts r' = ob_attempts r + 1 \<and>
             (if ob_attempts r' < 5 then ob_status r' = ''pending'' \<and> ts 1 + 30 \<le> ob_available_at r'
              else ob_status r' = ''dead'' \<and> ob_dead_at r' = Some (ts 1)))))"
proof (cases "publish_one locked ts bus t")
  case (Inl e)
  then show ?thesis using publish_one_eq[OF assms, of locked ts bus]
    by (auto split: option.splits if_split_asm)
next
  case (Inr p)
  obtain res t' where p: "publish_one locked ts bus t = Inr (res, t')" using Inr by (cases p) auto
  from assms p show ?thesis
  proof (cases rule: publish_one_cases)
    case idle
    then show ?thesis using p by simp
  next
    case (one r)
    let ?e = "bus (message_of r)"
    let ?r' = "outcome_row (ts 1) ?e r"
    have st: "ob_status r = ''pending''" "0 \<le> ob_attempts r"
      using one(2,3) assms by (auto simp: relay_eligible_def clo_inv_def clo_checks_def)
    have t': "t' = update_where (\<lambda>x. x = r) (\<lambda>_. ?r') t"
      unfolding one(6) by (auto simp: update_where_def)
    have f: "failure_reason ?e = None \<longleftrightarrow> ?e = Acknowledged"
      using one(4) by (auto simp: failure_reason_def split: publish_event.splits)
    have what: "outcome_name ?e r = (if ob_status ?r' = ''pending'' then ''retry'' else ob_status ?r')"
      using st(1) by (auto simp: outcome_name_def outcome_row_def failed_row_def published_upd_def split: option.split)
    have new: "if ?e = Acknowledged then ob_status ?r' = ''published'' \<and> ob_attempts ?r' = ob_attempts r
           else ob_attempts ?r' = ob_attempts r + 1 \<and>
             (if ob_attempts ?r' < 5 then ob_status ?r' = ''pending'' \<and> ts 1 + 30 \<le> ob_available_at ?r'
              else ob_status ?r' = ''dead'' \<and> ob_dead_at ?r' = Some (ts 1))"
      using st f[symmetric] backoff_pos[of "ob_attempts r"]
      by (auto simp: outcome_row_def failed_row_def published_upd_def split: option.split)
    show ?thesis
      unfolding p sum.case prod.case one(5) option.case
      using one(2,3,7) claim_SomeD(3,4)[OF one(1)] t' what new
      by (intro conjI bexI[of _ r] exI[of _ ?r']) simp_all
  qed
qed

definition demo_event :: outbox_row where
  "demo_event = \<lparr>ob_id = ''e1'', ob_clarification_id = ''c1'', ob_task_id = ''t1'',
    ob_event_type = ''clarification.expired'', ob_idempotency_key = ''c1:expired'',
    ob_payload = [(''reason'', PStr ''due'')], ob_status = ''pending'', ob_attempts = 0,
    ob_created_at = 10, ob_available_at = 10, ob_published_at = None, ob_dead_at = None,
    ob_last_error = None\<rparr>"

lemma demo_event_inv: "clo_inv [demo_event]"
  by (simp add: clo_inv_def clo_checks_def demo_event_def btrim_nonempty_def)

lemma demo_event_claim: "10 \<le> now \<Longrightarrow> claim [] now [demo_event] = Some demo_event"
proof -
  assume "10 \<le> now"
  then have "relay_eligible now demo_event"
    by (simp add: relay_eligible_def demo_event_def claimable_iff EVENT_DESTINATIONS_def)
  then show ?thesis by (simp add: claim_def)
qed

lemma demo_event_attempts: "ob_attempts demo_event = 0"
  by (simp add: demo_event_def)

theorem publish_one_sound_witness:
  "\<exists>t'. publish_one [] (\<lambda>_. 20) (\<lambda>_. Dropped) [demo_event] = Inr (Some ''retry'', t') \<and> clo_inv t'"
proof -
  have "publish_one [] (\<lambda>_. 20) (\<lambda>_. Dropped) [demo_event] = Inr (Some ''retry'',
      update_where (\<lambda>x. x = demo_event) (outcome_row 20 Dropped) [demo_event])"
    unfolding publish_one_eq[OF demo_event_inv]
    using demo_event_claim[of 20] by (simp add: outcome_name_def failure_reason_def demo_event_attempts)
  then show ?thesis
    using publish_one_sound[OF demo_event_inv, where locked = "[]" and ts = "\<lambda>_. 20" and bus = "\<lambda>_. Dropped"]
    by simp
qed

section \<open>One batch\<close>

lemma run_batch_frame:
  assumes "clo_inv t" "run_batch n k locked ts bus c t = (out, t')"
  shows "clo_inv t' \<and> map ob_id t' = map ob_id t \<and> map ob_idempotency_key t' = map ob_idempotency_key t \<and>
    (\<forall>r \<in> set t. ob_status r \<noteq> ''pending'' \<or> ob_event_type r \<notin> set audit_relay_claimable_event_types \<longrightarrow> r \<in> set t') \<and>
    (\<forall>c'. out = Inr c' \<longrightarrow> rc_published c' + rc_retry c' + rc_dead c' \<le> rc_published c + rc_retry c + rc_dead c + n)"
  using assms
proof (induction n arbitrary: k c t)
  case (Suc n)
  show ?case
  proof (cases "publish_one locked (ts k) (bus k) t")
    case (Inl e)
    then show ?thesis using Suc.prems by auto
  next
    case (Inr p)
    then obtain res t1 where p: "publish_one locked (ts k) (bus k) t = Inr (res, t1)" by (cases p) auto
    from Suc.prems(1) p show ?thesis
    proof (cases rule: publish_one_cases)
      case idle
      then show ?thesis using Suc.prems p by auto
    next
      case (one r)
      let ?f = "outcome_row (ts k 1) (bus k (message_of r))"
      have run: "run_batch n (Suc k) locked ts bus (bump (outcome_name (bus k (message_of r)) r) c) t1 = (out, t')"
        using Suc.prems(2) p one(5) by simp
      have keys: "map ob_id t1 = map ob_id t" "map ob_idempotency_key t1 = map ob_idempotency_key t"
        unfolding one(6) by (simp_all add: map_update_where)
      have keep: "x \<in> set t1" if "x \<in> set t" "ob_status x \<noteq> ''pending'' \<or> ob_event_type x \<notin> set audit_relay_claimable_event_types" for x
        using that one(3) unfolding one(6) set_update_where by (auto simp: relay_eligible_def)
      have b: "rc_published (bump w c) + rc_retry (bump w c) + rc_dead (bump w c) =
          Suc (rc_published c + rc_retry c + rc_dead c)" for w by (simp add: bump_def)
      show ?thesis using Suc.IH[OF one(7) run] keys keep b by fastforce
    qed
  qed
qed auto

text \<open>
  A batch of the relay, whatever the stream does: it makes at most \<^verbatim>\<open>batch_size\<close> publications,
  keeps the table's constraints, ids and idempotency keys, and leaves every row alone that is already
  published or dead or whose event type is not routed to the audit stream, so a
  \<^verbatim>\<open>resume.execution_requested\<close> command can never be published by it.
\<close>

theorem run_once_frame:
  assumes "clo_inv t" "run_once batch_size locked ts bus t = (out, t')"
  shows "clo_inv t' \<and> map ob_id t' = map ob_id t \<and> map ob_idempotency_key t' = map ob_idempotency_key t \<and>
    (\<forall>r \<in> set t. ob_status r \<noteq> ''pending'' \<or> destination_for_event_type (ob_event_type r) \<noteq> Inr DESTINATION_AUDIT \<longrightarrow>
       r \<in> set t') \<and>
    (\<forall>c. out = Inr c \<longrightarrow> rc_published c + rc_retry c + rc_dead c \<le> batch_size)"
  using run_batch_frame[OF assms[unfolded run_once_def]]
  by (simp add: no_counts_def destination_Inr_iff claimable_iff)

definition demo_command :: outbox_row where
  "demo_command = demo_event\<lparr>ob_id := ''e2'', ob_idempotency_key := ''c1:cmd'',
     ob_event_type := ''resume.execution_requested''\<rparr>"

lemma demo_command_inv: "clo_inv [demo_command]"
  by (simp add: clo_inv_def clo_checks_def demo_command_def demo_event_def btrim_nonempty_def)

theorem run_once_frame_witness:
  "\<exists>out t'. run_once 50 [] (\<lambda>_ _. 20) (\<lambda>_ _. Acknowledged) [demo_command] = (out, t') \<and> demo_command \<in> set t'"
proof -
  obtain out t' where r: "run_once 50 [] (\<lambda>_ _. 20) (\<lambda>_ _. Acknowledged) [demo_command] = (out, t')"
    by (cases "run_once 50 [] (\<lambda>_ _. 20) (\<lambda>_ _. Acknowledged) [demo_command]")
  have "destination_for_event_type (ob_event_type demo_command) \<noteq> Inr DESTINATION_AUDIT"
    by (simp add: demo_command_def destination_Inr_iff EVENT_DESTINATIONS_def DESTINATION_AUDIT_def
        DESTINATION_ORCHESTRATOR_COMMAND_def)
  then show ?thesis using run_once_frame[OF demo_command_inv r] r by auto
qed

text \<open>Whatever the stream answers, a row that was attempted is not due again at the same time.\<close>

lemma outcome_not_eligible:
  assumes "clo_checks r" shows "\<not> relay_eligible now (outcome_row now e r)"
proof -
  have "0 \<le> ob_attempts r" using assms by (simp add: clo_checks_def)
  then show ?thesis using backoff_pos[of "ob_attempts r"]
    by (auto simp: relay_eligible_def outcome_row_def failed_row_def published_upd_def split: option.split)
qed

definition due_queue :: "int \<Rightarrow> string list \<Rightarrow> outbox_table \<Rightarrow> outbox_row list" where
  "due_queue now locked t = sort_key (\<lambda>r. (ob_available_at r, ob_created_at r))
     (filter (\<lambda>r. relay_eligible now r \<and> ob_id r \<notin> set locked) t)"

lemma claim_due: "claim locked now t = (case due_queue now locked t of [] \<Rightarrow> None | r # _ \<Rightarrow> Some r)"
  by (simp add: claim_def due_queue_def)

lemma set_due: "set (due_queue now locked t) = {r \<in> set t. relay_eligible now r \<and> ob_id r \<notin> set locked}"
  unfolding due_queue_def set_sort by simp

lemma due_step:
  assumes "distinct (map ob_id t)" "due_queue now locked t = r # rest" "\<not> relay_eligible now (f r)"
  shows "due_queue now locked (update_where (\<lambda>x. x = r) f t) = rest"
proof -
  let ?P = "\<lambda>r. relay_eligible now r \<and> ob_id r \<notin> set locked"
  let ?k = "\<lambda>r. (ob_available_at r, ob_created_at r)"
  have "distinct t" using assms(1) by (simp add: distinct_map)
  then have "distinct (r # rest)" unfolding assms(2)[symmetric] due_queue_def distinct_sort by simp
  have "filter ?P (update_where (\<lambda>x. x = r) f t) = filter (\<lambda>x. x \<noteq> r) (filter ?P t)"
    using assms(3) by (induction t) (auto simp: update_where_simps)
  then have "due_queue now locked (update_where (\<lambda>x. x = r) f t) = filter (\<lambda>x. x \<noteq> r) (due_queue now locked t)"
    unfolding due_queue_def filter_sort by simp
  also have "\<dots> = rest" using \<open>distinct (r # rest)\<close> unfolding assms(2) by (auto simp: filter_id_conv)
  finally show ?thesis .
qed

lemma update_where_once:
  assumes "r \<in> set t" "P r" "\<not> P (f r)"
  shows "update_where P f (update_where (\<lambda>x. x = r) f t) = update_where P f t"
  using assms(2,3) by (auto simp: update_where_def)

lemma run_batch_drains:
  assumes "clo_inv t" "length (due_queue now locked t) \<le> n" "\<forall>r \<in> set (due_queue now locked t). bus (message_of r) \<noteq> Cancelled"
  shows "run_batch n k locked (\<lambda>_ _. now) (\<lambda>_. bus) c t =
      (Inr (fold (\<lambda>r. bump (outcome_name (bus (message_of r)) r)) (due_queue now locked t) c),
       update_where (\<lambda>r. relay_eligible now r \<and> ob_id r \<notin> set locked) (\<lambda>r. outcome_row now (bus (message_of r)) r) t) \<and>
    batch_messages n k locked (\<lambda>_ _. now) (\<lambda>_. bus) t = map message_of (due_queue now locked t)"
    (is "?run n k c t \<and> ?sent n k t")
  using assms
proof (induction n arbitrary: k c t)
  case 0
  then have "due_queue now locked t = []" by simp
  moreover from this have "\<forall>r \<in> set t. \<not> (relay_eligible now r \<and> ob_id r \<notin> set locked)" using set_due[of now locked t] by simp
  ultimately show ?case by (simp add: update_where_none)
next
  case (Suc n)
  note one = publish_one_eq[OF Suc.prems(1), of locked "\<lambda>_. now" bus, unfolded claim_due]
  show ?case
  proof (cases "due_queue now locked t")
    case Nil
    then have "\<forall>r \<in> set t. \<not> (relay_eligible now r \<and> ob_id r \<notin> set locked)" using set_due[of now locked t] by simp
    then show ?thesis using one Nil by (simp add: update_where_none claim_due)
  next
    case (Cons r rest)
    let ?f = "\<lambda>r. outcome_row now (bus (message_of r)) r"
    let ?t = "update_where (\<lambda>x. x = r) ?f t"
    have r: "r \<in> set t" "relay_eligible now r" "ob_id r \<notin> set locked" using set_due[of now locked t] Cons by auto
    have "update_where (\<lambda>x. x = r) (outcome_row now (bus (message_of r))) t = ?t" by (auto simp: update_where_def)
    then have p: "publish_one locked (\<lambda>_. now) bus t = Inr (Some (outcome_name (bus (message_of r)) r), ?t)"
      using one Cons Suc.prems(3) by simp
    have n: "\<not> relay_eligible now (?f r)" using Suc.prems(1) r(1) by (simp add: clo_inv_def outcome_not_eligible)
    have q: "due_queue now locked ?t = rest" using due_step[where f = ?f, OF _ Cons n] Suc.prems(1) by (simp add: clo_inv_def)
    have inv: "clo_inv ?t"
      using clo_inv_outcome[OF Suc.prems(1) r(1) relay_eligible_pending[OF r(2)], of now "bus (message_of r)"]
      by (simp add: update_where_def if_distrib cong: if_cong)
    have "update_where (\<lambda>r. relay_eligible now r \<and> ob_id r \<notin> set locked) ?f ?t =
        update_where (\<lambda>r. relay_eligible now r \<and> ob_id r \<notin> set locked) ?f t"
      by (rule update_where_once) (use r n in auto)
    then show ?thesis
      using Suc.IH[OF inv, of "Suc k" "bump (outcome_name (bus (message_of r)) r) c"] Suc.prems(2,3) p
      by (simp add: q Cons claim_due)
  qed
qed

lemma fold_bump:
  "fold (\<lambda>r. bump (outcome_name (e r) r)) rs c = \<lparr>
     rc_published = rc_published c + length (filter (\<lambda>r. failure_reason (e r) = None) rs),
     rc_retry = rc_retry c + length (filter (\<lambda>r. failure_reason (e r) \<noteq> None \<and> ob_attempts r < 4) rs),
     rc_dead = rc_dead c + length (filter (\<lambda>r. failure_reason (e r) \<noteq> None \<and> 4 \<le> ob_attempts r) rs)\<rparr>"
  by (induction rs arbitrary: c) (auto simp: bump_def outcome_name_def)

text \<open>
  C27. One batch that is large enough for what is due, with every statement at the same clock reading, no
  cancellation, and any rows locked by others: it hands each due row that nobody holds to the stream, once
  in this batch, in the order of the queue, whatever the answers; each of these rows then moves on by its
  own answer and no other row changes; and the counts are those of the answers. Nothing is promised beyond
  the batch: delivery is at least once, since a row whose outcome is not committed is published again.
\<close>

theorem run_once_drains:
  assumes "clo_inv t" "length (due_queue now locked t) \<le> batch_size"
    "\<forall>r \<in> set (due_queue now locked t). bus (message_of r) \<noteq> Cancelled"
  shows "batch_messages batch_size 0 locked (\<lambda>_ _. now) (\<lambda>_. bus) t = map message_of (due_queue now locked t) \<and>
    run_once batch_size locked (\<lambda>_ _. now) (\<lambda>_. bus) t =
      (Inr \<lparr>rc_published = length (filter (\<lambda>r. bus (message_of r) = Acknowledged) (due_queue now locked t)),
         rc_retry = length (filter (\<lambda>r. bus (message_of r) \<noteq> Acknowledged \<and> ob_attempts r < 4) (due_queue now locked t)),
         rc_dead = length (filter (\<lambda>r. bus (message_of r) \<noteq> Acknowledged \<and> 4 \<le> ob_attempts r) (due_queue now locked t))\<rparr>,
       map (\<lambda>r. if relay_eligible now r \<and> ob_id r \<notin> set locked
         then (if bus (message_of r) = Acknowledged then published_upd now r
               else failed_row now (the (failure_reason (bus (message_of r)))) r) else r) t)"
proof -
  have f: "failure_reason (bus (message_of r)) = None \<longleftrightarrow> bus (message_of r) = Acknowledged"
    if "r \<in> set (due_queue now locked t)" for r
    using assms(3) that by (auto simp: failure_reason_def split: publish_event.splits)
  have u: "update_where (\<lambda>r. relay_eligible now r \<and> ob_id r \<notin> set locked) (\<lambda>r. outcome_row now (bus (message_of r)) r) t =
      map (\<lambda>r. if relay_eligible now r \<and> ob_id r \<notin> set locked
         then (if bus (message_of r) = Acknowledged then published_upd now r
               else failed_row now (the (failure_reason (bus (message_of r)))) r) else r) t"
    unfolding update_where_def using f set_due[of now locked t]
    by (intro map_cong[OF refl]) (auto simp: outcome_row_def failure_reason_def split: option.split)
  have "filter (\<lambda>r. failure_reason (bus (message_of r)) = None \<and> Q r) (due_queue now locked t) =
      filter (\<lambda>r. bus (message_of r) = Acknowledged \<and> Q r) (due_queue now locked t)"
    "filter (\<lambda>r. failure_reason (bus (message_of r)) \<noteq> None \<and> Q r) (due_queue now locked t) =
      filter (\<lambda>r. bus (message_of r) \<noteq> Acknowledged \<and> Q r) (due_queue now locked t)" for Q
    using f by (auto intro!: filter_cong[OF refl] simp: failure_reason_def)
  note c = this(1)[of "\<lambda>_. True", simplified] this(2)
  show ?thesis using run_batch_drains[OF assms, of 0 no_counts]
    unfolding run_once_def fold_bump[where e = "\<lambda>r. bus (message_of r)"] c u by (simp add: no_counts_def)
qed

theorem run_once_drains_witness:
  "batch_messages 50 0 [] (\<lambda>_ _. 20) (\<lambda>_ _. Dropped) [demo_event, demo_command] = [message_of demo_event] \<and>
   run_once 50 [] (\<lambda>_ _. 20) (\<lambda>_ _. Dropped) [demo_event, demo_command] =
    (Inr \<lparr>rc_published = 0, rc_retry = 1, rc_dead = 0\<rparr>, [failed_row 20 ''publish_dropped'' demo_event, demo_command])"
proof -
  have inv: "clo_inv [demo_event, demo_command]"
    by (simp add: clo_inv_def clo_checks_def demo_event_def demo_command_def btrim_nonempty_def)
  have e: "relay_eligible 20 demo_event" "\<not> relay_eligible 20 demo_command"
    by (simp_all add: relay_eligible_def demo_event_def demo_command_def claimable_iff EVENT_DESTINATIONS_def
        DESTINATION_AUDIT_def DESTINATION_ORCHESTRATOR_COMMAND_def)
  then have q: "due_queue 20 [] [demo_event, demo_command] = [demo_event]" by (simp add: due_queue_def)
  have f: "failure_reason Dropped = Some ''publish_dropped''" by (simp add: failure_reason_def)
  show ?thesis using run_once_drains[OF inv, of 20 "[]" 50 "\<lambda>_. Dropped"]
    by (simp add: q e f demo_event_attempts)
qed

section \<open>The retry schedule over a whole history\<close>

text \<open>
  The outbox without operator replays: producers insert rows (a transaction starts before its
  statements) and relays make attempts (the clock does not run backwards inside one call), with any
  number of relays, streams that fail in any way, and any interleaving.
\<close>

inductive outbox_step :: "outbox_table \<Rightarrow> outbox_table \<Rightarrow> bool" where
  enqueue: "insert_lifecycle_outbox_event eid created now cl tk ev key payload t = Inr (row, t') \<Longrightarrow>
    created \<le> now \<Longrightarrow> outbox_step t t'"
| attempt: "publish_one locked ts bus t = Inr (res, t') \<Longrightarrow> ts 0 \<le> ts 1 \<Longrightarrow> outbox_step t t'"

definition waited :: "int \<Rightarrow> int" where
  "waited attempts = seconds (sum_list (take (nat attempts) RETRY_BACKOFF_SECONDS))"

lemma waited_step: "0 \<le> a \<Longrightarrow> a < 4 \<Longrightarrow> waited (a + 1) = waited a + seconds (backoff a)"
proof -
  assume "0 \<le> a" "a < 4"
  then have "a = 0 \<or> a = 1 \<or> a = 2 \<or> a = 3" by auto
  then show ?thesis by (auto simp: backoff_def waited_def RETRY_BACKOFF_SECONDS_def)
qed

lemma waited_all: "waited 4 = seconds 4350"
  by (simp add: waited_def RETRY_BACKOFF_SECONDS_def)

definition on_schedule :: "outbox_row \<Rightarrow> bool" where
  "on_schedule r \<longleftrightarrow> 0 \<le> ob_attempts r \<and>
     (if ob_status r = ''pending'' then ob_attempts r \<le> 4 \<and> ob_created_at r + waited (ob_attempts r) \<le> ob_available_at r
      else if ob_status r = ''dead'' then ob_attempts r = 5 \<and> (\<exists>d. ob_dead_at r = Some d \<and> ob_created_at r + seconds 4350 \<le> d)
      else ob_attempts r \<le> 4)"

lemma on_schedule_outcome:
  assumes "on_schedule r" "relay_eligible t0 r" "t0 \<le> now"
  shows "on_schedule (outcome_row now e r)"
proof (cases "failure_reason e")
  case None
  then show ?thesis using assms(1,2)
    by (simp add: outcome_row_def published_upd_def on_schedule_def relay_eligible_def)
next
  case (Some why)
  have a: "ob_status r = ''pending''" "ob_available_at r \<le> now" "0 \<le> ob_attempts r" "ob_attempts r \<le> 4"
    "ob_created_at r + waited (ob_attempts r) \<le> ob_available_at r"
    using assms by (auto simp: relay_eligible_def on_schedule_def)
  show ?thesis
  proof (cases "ob_attempts r \<ge> 4")
    case True
    then have "ob_attempts r = 4" using a(4) by simp
    then show ?thesis using a(2,5) waited_all
      by (simp add: outcome_row_def Some failed_row_def on_schedule_def)
  next
    case False
    then show ?thesis using a waited_step[of "ob_attempts r"]
      by (simp add: outcome_row_def Some failed_row_def on_schedule_def)
  qed
qed

definition outbox_inv :: "outbox_table \<Rightarrow> bool" where
  "outbox_inv t \<longleftrightarrow> clo_inv t \<and> (\<forall>r \<in> set t. on_schedule r)"

lemma outbox_step_inv: "outbox_step t t' \<Longrightarrow> outbox_inv t \<Longrightarrow> outbox_inv t'"
proof (induction rule: outbox_step.induct)
  case (enqueue eid created now cl tk ev key payload t row t')
  note ins = insert_outbox_Inr[OF enqueue(1)]
  have "on_schedule row" using ins(2,3,7,8) enqueue(2) by (simp add: on_schedule_def waited_def)
  then show ?case using clo_inv_insert[OF _ enqueue(1)] enqueue(3) ins(1) by (simp add: outbox_inv_def)
next
  case (attempt locked ts bus t res t')
  then have inv: "clo_inv t" by (simp add: outbox_inv_def)
  from inv attempt(1) show ?case
  proof (cases rule: publish_one_cases)
    case idle
    then show ?thesis using attempt(3) by simp
  next
    case (one r)
    have "\<forall>x \<in> set t'. on_schedule x"
      unfolding one(6) using attempt(3) on_schedule_outcome[OF _ one(3) attempt(2)]
      by (intro all_update_where) (auto simp: outbox_inv_def)
    then show ?thesis using one(7) by (simp add: outbox_inv_def)
  qed
qed

lemma outbox_inv_empty: "outbox_inv []"
  by (simp add: outbox_inv_def clo_inv_def)

interpretation outbox: invariant_system "[] :: outbox_table" outbox_step outbox_inv
  by unfold_locales (rule outbox_inv_empty, rule outbox_step_inv)

text \<open>
  C13. No loss during an outage: in every history without operator replays a row is dead only after
  exactly five failed attempts, and never earlier than 4350 seconds (30 + 120 + 600 + 3600) after it
  was created; a row with fewer failures is still pending or published, so a shorter outage of the
  stream kills nothing.
\<close>

theorem no_dead_letter_before_schedule:
  assumes "outbox_step\<^sup>*\<^sup>* [] t"
  shows "clo_inv t \<and> (\<forall>r \<in> set t.
    (ob_status r = ''dead'' \<longleftrightarrow> ob_attempts r = 5) \<and> 0 \<le> ob_attempts r \<and> ob_attempts r \<le> 5 \<and>
    (ob_status r = ''dead'' \<longrightarrow> (\<exists>d. ob_dead_at r = Some d \<and> ob_created_at r + seconds 4350 \<le> d)) \<and>
    (ob_status r = ''pending'' \<longrightarrow> ob_created_at r + waited (ob_attempts r) \<le> ob_available_at r))"
proof -
  have "outbox_inv t" using assms by (rule outbox.inv_reachable)
  then show ?thesis by (auto simp: outbox_inv_def on_schedule_def split: if_split_asm)
qed

lemma demo_event_enqueued:
  "insert_lifecycle_outbox_event ''e1'' 10 10 ''c1'' ''t1'' ''clarification.expired'' ''c1:expired''
     (Some [(''reason'', PStr ''due'')]) [] = Inr (demo_event, [demo_event])"
proof -
  have "assert_safe_outbox_payload (Some [(''reason'', PStr ''due'')]) ''clarification.expired'' =
      Inr [(''reason'', PStr ''due'')]" by code_simp
  then show ?thesis using demo_event_inv
    by (simp add: insert_lifecycle_outbox_event_def demo_event_def Let_def clo_inv_def)
qed

theorem no_dead_letter_before_schedule_witness:
  "\<exists>t r. outbox_step\<^sup>*\<^sup>* [] t \<and> r \<in> set t \<and> ob_attempts r = 1 \<and> ob_created_at r + seconds 30 \<le> ob_available_at r"
proof -
  let ?r = "outcome_row 20 Dropped demo_event"
  have s1: "outbox_step [] [demo_event]" using demo_event_enqueued outbox_step.enqueue by blast
  have "publish_one [] (\<lambda>_. 20) (\<lambda>_. Dropped) [demo_event] = Inr (Some ''retry'', [?r])"
    unfolding publish_one_eq[OF demo_event_inv]
    using demo_event_claim[of 20]
    by (simp add: outcome_name_def failure_reason_def demo_event_attempts update_where_simps)
  then have s2: "outbox_step [demo_event] [?r]" using outbox_step.attempt[of "[]" "\<lambda>_. 20"] by simp
  have h: "outbox_step\<^sup>*\<^sup>* [] [?r]" using s1 s2 by (meson rtranclp.rtrancl_into_rtrancl rtranclp.rtrancl_refl)
  have "ob_attempts ?r = 1" "ob_status ?r = ''pending''"
    by (simp_all add: outcome_row_def failure_reason_def failed_row_def demo_event_def)
  moreover have "waited 1 = seconds 30" by (simp add: waited_def RETRY_BACKOFF_SECONDS_def)
  ultimately show ?thesis using no_dead_letter_before_schedule[OF h] h
    by (intro exI[of _ "[?r]"] exI[of _ ?r]) simp
qed

section \<open>Operator replay\<close>

lemma replay_dead_found:
  assumes "clo_inv t" "r \<in> set t" "ob_status r = ''dead''"
  shows "replay_dead now (ob_id r) t =
    Inr (True, update_where (\<lambda>x. x = r) (replay_upd now (plan_replay_state (ob_attempts r))) t)"
proof -
  have d: "distinct (map ob_id t)" using assms(1) by (simp add: clo_inv_def)
  have f: "fetchrow (\<lambda>x. ob_id x = ob_id r \<and> ob_status x = ''dead'') t = Some r"
    using assms(2,3) by (intro fetchrow_distinct[OF d]) auto
  have "clo_checks r" using assms(1,2) by (simp add: clo_inv_def)
  then have "clo_checks (replay_upd now (plan_replay_state (ob_attempts r)) r)"
    using assms(3) by (simp add: clo_checks_def replay_upd_def plan_replay_state_def)
  from update_row_claimed[OF assms(1,2), of "replay_upd now (plan_replay_state (ob_attempts r))", OF this] f
  show ?thesis by (simp add: replay_dead_def)
qed

text \<open>
  The operator replay returns exactly the dead row to pending, due at once, with its id, its
  idempotency key, its payload and its count of attempts; because the count is kept, a single failed
  attempt after it makes the row dead again, whatever the failure is. A row that is not dead is not
  replayed and nothing changes.
\<close>

theorem replay_grants_one_attempt:
  assumes "clo_inv t" "r \<in> set t" "ob_status r = ''dead''" "5 \<le> ob_attempts r"
  shows "\<exists>r'. replay_dead now (ob_id r) t = Inr (True, update_where (\<lambda>x. x = r) (\<lambda>_. r') t) \<and>
    ob_status r' = ''pending'' \<and> ob_available_at r' = now \<and> ob_attempts r' = ob_attempts r \<and>
    message_of r' = message_of r \<and> ob_payload r' = ob_payload r \<and>
    (\<forall>later e. e \<notin> {Acknowledged, Cancelled} \<longrightarrow> ob_status (outcome_row later e r') = ''dead'') \<and>
    (\<forall>eid. (\<forall>x \<in> set t. ob_id x = eid \<longrightarrow> ob_status x \<noteq> ''dead'') \<longrightarrow> replay_dead now eid t = Inr (False, t))"
proof -
  let ?f = "replay_upd now (plan_replay_state (ob_attempts r))"
  have "update_where (\<lambda>x. x = r) ?f t = update_where (\<lambda>x. x = r) (\<lambda>_. ?f r) t"
    by (auto simp: update_where_def)
  moreover have "ob_status (outcome_row later e (?f r)) = ''dead''" if "e \<notin> {Acknowledged, Cancelled}" for later e
    using that assms(4)
    by (cases e) (auto simp: outcome_row_def failure_reason_def failed_row_def replay_upd_def plan_replay_state_def)
  moreover have "replay_dead now eid t = Inr (False, t)"
    if "\<forall>x \<in> set t. ob_id x = eid \<longrightarrow> ob_status x \<noteq> ''dead''" for eid
  proof -
    have "fetchrow (\<lambda>x. ob_id x = eid \<and> ob_status x = ''dead'') t = None"
      using that by (auto simp: fetchrow_None_iff)
    then show ?thesis by (simp add: replay_dead_def)
  qed
  ultimately show ?thesis using replay_dead_found[OF assms(1-3)]
    by (intro exI[of _ "?f r"]) (simp add: replay_upd_def plan_replay_state_def message_of_def)
qed

definition demo_dead :: outbox_row where
  "demo_dead = demo_event\<lparr>ob_status := ''dead'', ob_attempts := 5, ob_dead_at := Some 5000\<rparr>"

theorem replay_grants_one_attempt_witness:
  "\<exists>r'. replay_dead 6000 ''e1'' [demo_dead] = Inr (True, [r']) \<and>
     ob_status (outcome_row 6001 TimedOut r') = ''dead''"
proof -
  have inv: "clo_inv [demo_dead]"
    by (simp add: clo_inv_def clo_checks_def demo_dead_def demo_event_def btrim_nonempty_def)
  have d: "demo_dead \<in> set [demo_dead]" "ob_status demo_dead = ''dead''" "5 \<le> ob_attempts demo_dead"
    "ob_id demo_dead = ''e1''" by (simp_all add: demo_dead_def demo_event_def)
  from replay_grants_one_attempt[OF inv d(1-3), of 6000] d(4) show ?thesis
    by (auto simp: update_where_simps)
qed

end
