(* ===== verification/Resume_Props.thy ===== *)
theory Resume_Props imports Resume_Lifecycle Relay begin

text \<open>
  What the calls of the resume service guarantee: the command row and the consumed authorization
  exist together or not at all, confirmations are final and idempotent, and a request that failed
  leaves its clarification claimed.
\<close>

section \<open>Building blocks\<close>

lemma emit_Inr:
  assumes "emit eid started now cl tk ev key payload s = Inr (row, s')"
  shows "s' = s\<lparr>db_outbox := db_outbox s @ [row]\<rparr>" "ob_id row = eid" "ob_event_type row = ev"
    "ob_status row = ''pending''" "ob_payload row = payload" "ob_clarification_id row = cl"
    "ob_idempotency_key row = key" "eid \<notin> ob_id ` set (db_outbox s)"
proof -
  obtain t' where i: "insert_lifecycle_outbox_event eid started now cl tk ev key (Some payload) (db_outbox s)
      = Inr (row, t')" and s': "s' = s\<lparr>db_outbox := t'\<rparr>"
    using assms by (auto simp: emit_def try_then_Inr_iff)
  note ins = insert_outbox_Inr[OF i]
  show "s' = s\<lparr>db_outbox := db_outbox s @ [row]\<rparr>" using s' ins(1) by simp
  have "assert_safe_outbox_payload (Some payload) ev = Inr (ob_payload row)" by (rule ins(14))
  then show "ob_payload row = payload" by (simp only: payload_guard_iff)
qed (use assms in \<open>auto simp: emit_def try_then_Inr_iff dest: insert_outbox_Inr\<close>)

lemma resume_move_found:
  assumes inv: "rr_inv t" and r: "r \<in> set t" "resume_guard p r" "rr_checks (resume_upd p r)"
  shows "resume_transition p (rr_id r) t =
    Inr (Some (resume_upd p r), update_where (\<lambda>x. x = r) (resume_upd p) t)"
proof -
  have d: "distinct (map rr_id t)" using inv by (simp add: rr_inv_def)
  have e: "rr_id x = rr_id r \<longleftrightarrow> x = r" if "x \<in> set t" for x
    using distinct_map_eqD[OF d that r(1)] by auto
  have f: "fetchrow (\<lambda>x. rr_id x = rr_id r \<and> resume_guard p x) t = Some r"
    using r(1,2) by (intro fetchrow_distinct[OF d]) auto
  have u: "update_where (\<lambda>x. rr_id x = rr_id r \<and> resume_guard p x) (resume_upd p) t =
      update_where (\<lambda>x. x = r) (resume_upd p) t"
    using e r(2) by (auto simp: update_where_def)
  have "\<forall>x \<in> set t. rr_id x = rr_id r \<and> resume_guard p x \<longrightarrow> rr_checks (resume_upd p x)"
    using e r(3) by auto
  then show ?thesis unfolding resume_transition_Inr cas_def update_returning_def f u by simp
qed

lemma resume_move_missing:
  assumes "\<forall>r \<in> set t. rr_id r = rid \<longrightarrow> \<not> resume_guard p r"
  shows "resume_transition p rid t = Inr (None, t)"
proof -
  have n: "\<forall>r \<in> set t. \<not> (rr_id r = rid \<and> resume_guard p r)" using assms by blast
  then show ?thesis
    unfolding resume_transition_Inr cas_def update_returning_def
    by (auto simp: fetchrow_None_iff update_where_none)
qed

lemma load_resume_SomeD:
  assumes "load_resume rid sc s = Some rr"
  shows "rr \<in> set (db_resumes s)" "rr_id rr = rid" "rr_in_scope (team_id sc) (project_id sc) rr"
  using fetchrow_SomeD[OF assms[unfolded load_resume_def lock_resume_request_def]] by simp_all

lemma execution_pending_ok:
  assumes "rr_checks r" "rr_state r = ''authorized''"
  shows "rr_checks (resume_upd (ToExecutionPending now cmd team project) r)"
  using assms authorized_stamps[OF assms] by (simp add: rr_checks_def REQUEST_STATES_def)

lemma consume_keeps_tables:
  assumes "consume_authorization ts aid a sc ver s = Inr (out, s')" "paa_inv (db_approvals s)"
  shows "db_resumes s' = db_resumes s" "db_outbox s' = db_outbox s"
    "db_clarifications s' = db_clarifications s" "db_tasks s' = db_tasks (s::resume_db)"
  using consume_authorization_cases[OF assms(2,1)] by auto

section \<open>Preparing the execution\<close>

text \<open>What a successful preparation did, in the order the code does it.\<close>

lemma prepare_execution_cases:
  assumes inv: "rra_inv (db_auths s)" "paa_inv (db_approvals s)" "rr_inv (db_resumes s)"
    and p: "prepare_execution env eid ts rid a sc s = Inr (res, s')"
  shows "(\<not> rs_ok res \<and> s' = s) \<or>
    (\<exists>rr out s1 command. rs_ok res \<and> resume_command_enabled env \<and> load_resume rid sc s = Some rr \<and>
       rr_state rr = ''authorized'' \<and> revalidate rr s = None \<and>
       consume_authorization (\<lambda>k. ts (k + 1)) (rr_authorization_id rr) a sc (rr_resource_state_version rr) s
         = Inr (out, s1) \<and> sr_ok out \<and>
       ob_event_type command = ''resume.execution_requested'' \<and> ob_id command = eid \<and>
       rs_command_id res = Some eid \<and>
       s' = s1\<lparr>db_outbox := db_outbox s @ [command],
         db_resumes := update_where (\<lambda>x. x = rr)
           (resume_upd (ToExecutionPending (ts 7) eid (team_id sc) (project_id sc))) (db_resumes s)\<rparr>)"
proof (cases "resume_command_enabled env")
  case False
  then show ?thesis using p by (auto simp: prepare_execution_def)
next
  case en: True
  show ?thesis
  proof (cases "load_resume rid sc s")
    case None
    then show ?thesis using p en by (auto simp: prepare_execution_def resume_masked_def)
  next
    case (Some rr)
    note ld = load_resume_SomeD[OF Some]
    show ?thesis
    proof (cases "rr_state rr = ''authorized'' \<and> revalidate rr s = None")
      case False
      have den: "\<not> rs_ok d" if "revalidate rr s = Some d" for d
        using that by (auto simp: revalidate_def resume_masked_def split: option.splits if_split_asm)
      show ?thesis using p en Some False den
        by (auto simp: prepare_execution_def split: if_split_asm option.splits)
    next
      case True
      then obtain out s1 where c: "consume_authorization (\<lambda>k. ts (k + 1)) (rr_authorization_id rr) a sc
          (rr_resource_state_version rr) s = Inr (out, s1)"
        using p en Some by (auto simp: prepare_execution_def try_then_Inr_iff)
      note kt = consume_keeps_tables[OF c inv(2)]
      show ?thesis
      proof (cases "sr_ok out")
        case False
        then have "s1 = s" using consume_authorization_cases[OF inv(2) c] by auto
        then show ?thesis using p en Some True c False by (auto simp: prepare_execution_def)
      next
        case ok: True
        let ?op = "ToExecutionPending (ts 7) eid (team_id sc) (project_id sc)"
        obtain payload command s2 where e: "emit eid (ts 0) (ts 6) (rr_clarification_id rr) (rr_task_id rr)
            ''resume.execution_requested'' (rr_clarification_id rr @ '':resume_dispatched:'' @ rid) payload s1
            = Inr (command, s2)"
          and rest: "try_then (transition_to_execution_pending (ts 7) rid (ob_id command) (team_id sc)
                (project_id sc) (db_resumes s2)) (\<lambda>(updated, rrs). case updated of
                    None \<Rightarrow> Inr (rs_deny ''conflict'' ''conflict'', s2\<lparr>db_resumes := rrs\<rparr>)
                  | Some r \<Rightarrow> Inr (ResumeResult True ''ok'' ''policy_allow'' (Some r)
                        (Some (ob_id command)), s2\<lparr>db_resumes := rrs\<rparr>)) = Inr (res, s')"
          using p en Some True c ok by (auto simp: prepare_execution_def try_then_Inr_iff)
        note em = emit_Inr[OF e]
        have g: "resume_guard ?op rr" using True ld(3) by simp
        have chk: "rr_checks (resume_upd ?op rr)"
          using execution_pending_ok inv(3) ld(1) True by (simp add: rr_inv_def rr_wf_def)
        have "db_resumes s2 = db_resumes s" using em(1) kt by simp
        then have "transition_to_execution_pending (ts 7) rid (ob_id command) (team_id sc) (project_id sc)
            (db_resumes s2) = Inr (Some (resume_upd ?op rr), update_where (\<lambda>x. x = rr) (resume_upd ?op) (db_resumes s))"
          using resume_move_found[OF inv(3) ld(1) g chk] ld(2) em(2)
          by (simp add: transition_to_execution_pending_def)
        then have "res = ResumeResult True ''ok'' ''policy_allow'' (Some (resume_upd ?op rr)) (Some eid)"
          "s' = s2\<lparr>db_resumes := update_where (\<lambda>x. x = rr) (resume_upd ?op) (db_resumes s)\<rparr>"
          using rest em(2) by auto
        then show ?thesis using en Some True c ok em kt by auto
      qed
    qed
  qed
qed

text \<open>
  C8. The command and the consumed authorization exist together or not at all: a preparation that
  does not succeed leaves the whole database as it was. One that succeeds was called by the service
  identity with the command gate open, on an authorized request in its scope whose clarification and
  task still have the recorded version; it consumes the request's own authorization, which was
  authorized and unexpired, writes exactly one \<^verbatim>\<open>resume.execution_requested\<close> row, whose id is the
  command id of the request, and moves exactly that request to execution pending.
\<close>

theorem prepare_execution_atomic:
  assumes "rra_inv (db_auths s)" "paa_inv (db_approvals s)" "rr_inv (db_resumes s)"
    "prepare_execution env eid ts rid a sc s = Inr (res, s')"
  shows "(\<not> rs_ok res \<longrightarrow> s' = s) \<and>
    (rs_ok res \<longrightarrow> is_service_identity a \<and> resume_command_enabled env \<and>
      (\<exists>rr \<in> set (db_resumes s). \<exists>authz \<in> set (db_auths s). \<exists>command.
         rr_id rr = rid \<and> rr_in_scope (team_id sc) (project_id sc) rr \<and> rr_state rr = ''authorized'' \<and>
         revalidate rr s = None \<and>
         ra_authorization_id authz = rr_authorization_id rr \<and> life authz = Authorized \<and>
         ts 3 < ra_expires_at authz \<and> ra_resource_state_version authz = rr_resource_state_version rr \<and>
         db_auths s' = update_where (\<lambda>x. x = authz) (consumed_row (ts 3) (principal_id a)) (db_auths s) \<and>
         db_outbox s' = db_outbox s @ [command] \<and> ob_id command = eid \<and>
         ob_event_type command = ''resume.execution_requested'' \<and>
         destination_for_event_type (ob_event_type command) = Inr DESTINATION_ORCHESTRATOR_COMMAND \<and>
         db_resumes s' = update_where (\<lambda>x. x = rr)
           (\<lambda>x. x\<lparr>rr_state := ''execution_pending'', rr_execution_requested_at := Some (ts 7),
                 rr_command_id := Some eid, rr_updated_at := ts 7\<rparr>) (db_resumes s)))"
  using prepare_execution_cases[OF assms]
proof (elim disjE exE conjE)
  assume "\<not> rs_ok res" "s' = s" then show ?thesis by simp
next
  fix rr out s1 command
  assume ok: "rs_ok res" and en: "resume_command_enabled env" and ld: "load_resume rid sc s = Some rr"
    and st: "rr_state rr = ''authorized''" "revalidate rr s = None"
    and c: "consume_authorization (\<lambda>k. ts (k + 1)) (rr_authorization_id rr) a sc (rr_resource_state_version rr) s
         = Inr (out, s1)" "sr_ok out"
    and cmd: "ob_event_type command = ''resume.execution_requested''" "ob_id command = eid"
    and s': "s' = s1\<lparr>db_outbox := db_outbox s @ [command],
         db_resumes := update_where (\<lambda>x. x = rr)
           (resume_upd (ToExecutionPending (ts 7) eid (team_id sc) (project_id sc))) (db_resumes s)\<rparr>"
  obtain row r t' ap' where m: "may_consume (rr_authorization_id rr) a sc row s"
    and con: "consume (ts 3) (rr_authorization_id rr) (principal_id a) (rr_resource_state_version rr)
        (team_id sc) (project_id sc) (db_auths s) = Inr (Some r, t')"
    and s1: "s1 = s\<lparr>db_approvals := ap', db_auths := t'\<rparr>"
    using consume_authorization_cases[OF assms(2) c(1)] c(2) by (auto simp: numeral_3_eq_3)
  note svc = may_consume_service[OF m]
  note tab = consume_Some_table[OF assms(1) con svc(2,3)]
  have f: "resume_upd (ToExecutionPending (ts 7) eid (team_id sc) (project_id sc)) =
      (\<lambda>x. x\<lparr>rr_state := ''execution_pending'', rr_execution_requested_at := Some (ts 7),
                 rr_command_id := Some eid, rr_updated_at := ts 7\<rparr>)" by (rule ext) simp
  have "destination_for_event_type (ob_event_type command) = Inr DESTINATION_ORCHESTRATOR_COMMAND"
    unfolding destination_Inr_iff command_event_unique by (rule cmd(1))
  then show ?thesis
    using ok en st cmd svc(1,2,3) tab(2-5) load_resume_SomeD[OF ld]
    unfolding s' s1 f by (intro conjI impI bexI[of _ rr] bexI[of _ row] exI[of _ command]) simp_all
qed

section \<open>Confirming the outcome\<close>

lemma confirm_resumed_row:
  assumes inv: "rr_inv (db_resumes s)" and c: "confirm_resumed eid ts rid cmd s = Inr (res, s')" "rs_ok res"
  obtains r where "r \<in> set (db_resumes s')" "rr_id r = rid" "rr_state r = ''resumed''"
    "rr_command_id r = Some cmd" "rr_inv (db_resumes s')"
proof -
  obtain x rrs where t: "resume_transition (ConfirmResumed (ts 1) cmd) rid (db_resumes s) = Inr (x, rrs)"
    using c(1) by (auto simp: confirm_resumed_def repo_confirm_resumed_def try_then_Inr_iff)
  have inv': "rr_inv rrs" using resume_step.move[OF t] inv resume_step_inv by blast
  show thesis
  proof (cases x)
    case None
    then have r: "res = classify_confirm_failure rid cmd ''resumed'' ''orchestrator_confirmed_resumed'' (db_resumes s)"
      "s' = s" using c(1) t by (auto simp: confirm_resumed_def repo_confirm_resumed_def)
    then obtain q where q: "fetchrow (\<lambda>r. rr_id r = rid) (db_resumes s) = Some q" "rr_state q = ''resumed''"
      "rr_command_id q = None \<or> rr_command_id q = Some cmd"
      using c(2) by (auto simp: classify_confirm_failure_def get_resume_request_internal_def resume_masked_def
          split: option.splits if_split_asm)
    have m: "q \<in> set (db_resumes s)" "rr_id q = rid" using fetchrow_SomeD[OF q(1)] by simp_all
    then have "rr_wf q" using inv by (simp add: rr_inv_def)
    then have "rr_command_id q = Some cmd" using q(2,3) by (auto simp: rr_wf_def)
    then show thesis using that m q(2) inv r(2) by simp
  next
    case (Some r)
    from t Some obtain r0 where r0: "r = resume_upd (ConfirmResumed (ts 1) cmd) r0"
        "resume_guard (ConfirmResumed (ts 1) cmd) r0" "rr_id r0 = rid" "r \<in> set rrs"
      unfolding resume_transition_Inr by (metis resumes.cas_won)
    have "db_resumes s' = rrs" using c(1) t Some
      by (auto simp: confirm_resumed_def repo_confirm_resumed_def try_then_Inr_iff dest: emit_Inr(1))
    then show thesis using that[of r] r0 inv' by simp
  qed
qed

lemma row_by_id: "rr_inv t \<Longrightarrow> r \<in> set t \<Longrightarrow> fetchrow (\<lambda>x. rr_id x = rr_id r) t = Some r"
  by (rule fetchrow_distinct[of rr_id]) (simp_all add: rr_inv_def)

lemma settled_not_moved:
  assumes "rr_inv t" "r \<in> set t" "rr_state r \<noteq> ''execution_pending''" "confirming p"
  shows "resume_transition p (rr_id r) t = Inr (None, t)"
proof (rule resume_move_missing, intro ballI impI)
  fix x assume "x \<in> set t" "rr_id x = rr_id r"
  then have "x = r" using assms(1,2) distinct_map_eqD[of rr_id t] by (auto simp: rr_inv_def)
  then show "\<not> resume_guard p x" using assms(3,4) by (cases p) auto
qed

text \<open>
  A confirmation is final and idempotent: once a request has been confirmed resumed under a
  command id, confirming it again with that id answers ok and writes nothing, and confirming it as
  failed, or with any other command id, is a conflict and writes nothing.
\<close>

theorem confirmation_final:
  assumes "rr_inv (db_resumes s)" "confirm_resumed eid ts rid cmd s = Inr (res, s')" "rs_ok res"
    "reason \<in> set RESUME_REASON_CODES" "other \<noteq> cmd"
  shows "(\<exists>r. confirm_resumed eid' ts' rid cmd s' =
        Inr (ResumeResult True ''ok'' ''orchestrator_confirmed_resumed'' (Some r) None, s') \<and>
        rr_state r = ''resumed'') \<and>
    confirm_failed eid' ts' rid cmd reason s' = Inr (rs_deny ''conflict'' ''conflict'', s') \<and>
    confirm_resumed eid' ts' rid other s' = Inr (rs_deny ''conflict'' ''conflict'', s') \<and>
    confirm_failed eid' ts' rid other reason s' = Inr (rs_deny ''conflict'' ''conflict'', s')"
proof -
  obtain r where r: "r \<in> set (db_resumes s')" "rr_id r = rid" "rr_state r = ''resumed''"
    "rr_command_id r = Some cmd" "rr_inv (db_resumes s')" by (rule confirm_resumed_row[OF assms(1-3)])
  have n: "resume_transition p rid (db_resumes s') = Inr (None, db_resumes s')" if "confirming p" for p
    using settled_not_moved[OF r(5,1) _ that] r(2,3) by simp
  have f: "get_resume_request_internal rid (db_resumes s') = Some r"
    using row_by_id[OF r(5,1)] r(2) by (simp add: get_resume_request_internal_def)
  have a: "assert_resume_reason_code (Some reason) = Inr (Some reason)"
    using assms(4) by (simp add: assert_resume_reason_code_def)
  show ?thesis
    using f r(3,4) assms(5)
    by (intro conjI exI[of _ r]) (simp_all add: confirm_resumed_def confirm_failed_def
        repo_confirm_resumed_def repo_confirm_failed_def n a classify_confirm_failure_def)
qed

section \<open>A failed request keeps its clarification claimed\<close>

lemma claim_taken:
  assumes "distinct (map oc_id t)" "cl \<in> set t" "oc_resume_requested_at cl \<noteq> None"
  shows "claim_clarification_resume_requested now (oc_id cl) who t = (None, t)"
proof -
  have n: "\<forall>c \<in> set t. \<not> (oc_id c = oc_id cl \<and> oc_resume_requested_at c = None)"
    using assms distinct_map_eqD[OF assms(1) _ assms(2)] by auto
  then show ?thesis
    by (simp add: claim_clarification_resume_requested_def update_returning_def fetchrow_None_iff
        update_where_none)
qed

lemma request_blocked:
  assumes "distinct (map oc_id (db_clarifications s))" "cl \<in> set (db_clarifications s)"
    "oc_resume_requested_at cl \<noteq> None" "key \<notin> rr_idempotency_key ` set (db_resumes s)"
  shows "\<exists>out. request_resume env ids ts a sc (oc_id cl) key ex ref s = Inr (out, s) \<and> \<not> rs_ok out"
proof -
  have g: "get_request_by_idempotency_key key (db_resumes s) = None"
    using assms(4) by (auto simp: get_request_by_idempotency_key_def fetchrow_None_iff)
  have l: "lock_clarification (oc_id cl) s = Some cl"
    unfolding lock_clarification_def using assms(1,2) by (intro fetchrow_distinct[of oc_id]) auto
  have d: "\<not> rs_ok x" if "eligibility_denial cl tk = Some x" for x tk
    using that by (auto simp: eligibility_denial_def split: if_split_asm)
  show ?thesis
    using d claim_taken[OF assms(1-3)] g l
    by (auto simp: request_resume_def create_resume_def Let_def split: option.split)
qed

lemma confirm_failed_moves:
  assumes inv: "rr_inv (db_resumes s)" and rr: "rr \<in> set (db_resumes s)" "rr_state rr = ''execution_pending''"
    and c: "confirm_failed eid ts (rr_id rr) cmd reason s = Inr (res, s')" "rs_ok res"
  shows "db_clarifications s' = db_clarifications s \<and>
    db_resumes s' = update_where (\<lambda>x. x = rr) (resume_upd (ConfirmFailed (ts 1) cmd reason)) (db_resumes s)"
proof -
  let ?p = "ConfirmFailed (ts 1) cmd reason"
  have chk: "rr_checks rr" using inv rr(1) by (simp add: rr_inv_def rr_wf_def)
  obtain x rrs where t: "resume_transition ?p (rr_id rr) (db_resumes s) = Inr (x, rrs)"
    using c(1) by (auto simp: confirm_failed_def repo_confirm_failed_def try_then_Inr_iff)
  have "rr_command_id rr = Some cmd"
  proof (rule ccontr)
    assume n: "rr_command_id rr \<noteq> Some cmd"
    have "resume_transition ?p (rr_id rr) (db_resumes s) = Inr (None, db_resumes s)"
    proof (rule resume_move_missing, intro ballI impI)
      fix y assume "y \<in> set (db_resumes s)" "rr_id y = rr_id rr"
      then have "y = rr" using inv rr(1) distinct_map_eqD[of rr_id "db_resumes s"] by (auto simp: rr_inv_def)
      then show "\<not> resume_guard ?p y" using n by simp
    qed
    then have "res = classify_confirm_failure (rr_id rr) cmd ''failed'' ''orchestrator_confirmed_failed'' (db_resumes s)"
      using c(1) by (auto simp: confirm_failed_def repo_confirm_failed_def try_then_Inr_iff)
    then have "\<not> rs_ok res"
      using row_by_id[OF inv rr(1)] rr(2)
      by (auto simp: classify_confirm_failure_def get_resume_request_internal_def)
    then show False using c(2) by simp
  qed
  then have g: "resume_guard ?p rr" using rr(2) by simp
  have len: "length reason \<le> 64" if "r \<in> set (db_resumes s)" "rr_id r = rr_id rr" "resume_guard ?p r" for r
    using that t unfolding resume_transition_Inr by (auto simp: rr_checks_def bounded_def)
  have "rr_checks (resume_upd ?p rr)" using t rr(1) g unfolding resume_transition_Inr by blast
  from resume_move_found[OF inv rr(1) g this]
  have "resume_transition ?p (rr_id rr) (db_resumes s) =
      Inr (Some (resume_upd ?p rr), update_where (\<lambda>x. x = rr) (resume_upd ?p) (db_resumes s))" .
  then show ?thesis using c(1)
    by (auto simp: confirm_failed_def repo_confirm_failed_def try_then_Inr_iff simp del: resume_upd.simps
        dest!: emit_Inr(1))
qed

text \<open>
  C15. After a dispatched request is confirmed failed, its clarification has no active request and yet
  stays claimed: every later request for it, by anybody, with any new key, in any environment, is
  refused and changes nothing. No call of the service clears the claim after a failure.
\<close>

theorem failed_request_blocks_clarification:
  assumes "rr_inv (db_resumes s)" "rr \<in> set (db_resumes s)" "rr_state rr = ''execution_pending''"
    "confirm_failed eid ts (rr_id rr) cmd reason s = Inr (res, s')" "rs_ok res"
    "distinct (map oc_id (db_clarifications s))" "cl \<in> set (db_clarifications s)"
    "oc_id cl = rr_clarification_id rr" "oc_resume_requested_at cl \<noteq> None"
    "key \<notin> rr_idempotency_key ` set (db_resumes s)"
  shows "(\<forall>r \<in> set (db_resumes s'). rr_clarification_id r = oc_id cl \<longrightarrow> \<not> rr_active r) \<and>
    (\<exists>out. request_resume env ids ts' a sc (oc_id cl) key ex ref s' = Inr (out, s') \<and> \<not> rs_ok out)"
proof -
  let ?f = "resume_upd (ConfirmFailed (ts 1) cmd reason)"
  note m = confirm_failed_moves[OF assms(1-5)]
  then have t: "db_resumes s' = update_where (\<lambda>x. x = rr) ?f (db_resumes s)"
    and c: "db_clarifications s' = db_clarifications s" by blast+
  have "\<not> rr_active r" if r: "r \<in> set (db_resumes s')" "rr_clarification_id r = oc_id cl" for r
  proof
    assume act: "rr_active r"
    obtain x where x: "x \<in> set (db_resumes s)" "r = (if x = rr then ?f x else x)"
      using r(1) unfolding t set_update_where by blast
    have "x \<noteq> rr" using act x(2) by (auto simp: rr_active_iff)
    then have "r = x" using x(2) by simp
    moreover have "rr_active rr" using assms(3) by (simp add: rr_active_iff)
    moreover have "rr_one_active (db_resumes s)" using assms(1) by (simp add: rr_inv_def)
    ultimately have "rr_id x = rr_id rr"
      using rr_one_activeD[of "db_resumes s" x rr] x(1) assms(2,8) r(2) act by simp
    then have "x = rr" using assms(1,2) x(1) distinct_map_eqD[of rr_id "db_resumes s"] by (auto simp: rr_inv_def)
    then show False using \<open>x \<noteq> rr\<close> by simp
  qed
  moreover have "key \<notin> rr_idempotency_key ` set (db_resumes s')"
    using assms(10) unfolding t set_map[symmetric] by (simp add: map_update_where)
  ultimately show ?thesis using request_blocked[of s' cl key] assms(6,7,9) c by auto
qed

section \<open>Witness data\<close>

definition demo_clarification :: clarification where
  "demo_clarification = \<lparr>oc_id = ''c1'', oc_task_id = ''k1'', oc_status = ''answered'',
    oc_answer_message_id = Some ''m1'', oc_resume_eligible_at = Some 3, oc_resume_requested_at = None,
    oc_resume_requested_by = None, oc_resume_authorized_at = None, oc_updated_at = 3\<rparr>"

definition demo_task :: task where
  "demo_task = \<lparr>ot_id = ''k1'', ot_project_id = Some ''p1'', ot_status = ''blocked'',
    ot_production_effect = False\<rparr>"

definition demo_rdb0 :: resume_db where
  "demo_rdb0 = \<lparr>db_auths = [], db_approvals = [], db_clarifications = [demo_clarification],
    db_tasks = [demo_task], db_resumes = [], db_outbox = []\<rparr>"

definition demo_env :: environment where
  "demo_env k = Some ''true''"

definition demo_ids :: new_ids where
  "demo_ids = \<lparr>ni_authorization = ''a1'', ni_auth_request = ''q1'', ni_resume = ''rr1'', ni_event = ''e1''\<rparr>"

definition demo_authority :: actor where
  "demo_authority = \<lparr>principal_id = ''policy'', role = ''policy'', is_service_identity = False,
     is_policy_authority = True\<rparr>"

definition rdb_after :: "(resume_result \<times> resume_db) outcome \<Rightarrow> resume_db option" where
  "rdb_after r = (case r of Inl e \<Rightarrow> None | Inr (out, s) \<Rightarrow> if rs_ok out then Some s else None)"

text \<open>The database after the request, the authorization and the preparation.\<close>

definition demo_rauth :: auth_row where
  "demo_rauth = \<lparr>ra_authorization_id = ''a1'', ra_action_type = ''resume'',
     ra_resource_type = ''clarification'', ra_resource_id = ''c1'', ra_team_id = ''t1'',
     ra_project_id = ''p1'', ra_request_id = ''q1'', ra_requested_by = ''u1'',
     ra_requested_role = ''agent_operator'', ra_requested_at = 10, ra_decision = ''pending'',
     ra_decided_by = None, ra_decided_role = None, ra_decided_at = None,
     ra_decision_reason_code = None, ra_policy_result = None, ra_policy_version = None,
     ra_resource_state_version = ''answered:m1:False'', ra_production_effect = False,
     ra_production_approval_reference = None, ra_expires_at = 100, ra_consumed_at = None,
     ra_consumed_by = None, ra_revoked_at = None, ra_revoked_by = None,
     ra_revocation_reason_code = None, ra_expired_at = None,
     ra_idempotency_key = ''resume-auth:c1:rk1'', ra_updated_at = 10\<rparr>"

definition demo_rauth2 :: auth_row where
  "demo_rauth2 = demo_rauth\<lparr>ra_decision := ''authorized'', ra_decided_by := Some ''policy'',
     ra_decided_role := Some ''policy'', ra_decided_at := Some 20,
     ra_decision_reason_code := Some ''policy_allow'', ra_policy_result := Some ''allow'',
     ra_policy_version := Some ''pv1'', ra_updated_at := 20\<rparr>"

definition demo_rr1 :: resume_row where
  "demo_rr1 = \<lparr>rr_id = ''rr1'', rr_authorization_id = ''a1'', rr_clarification_id = ''c1'',
    rr_task_id = ''k1'', rr_workflow_id = None, rr_team_id = ''t1'', rr_project_id = ''p1'',
    rr_resource_state_version = ''answered:m1:False'', rr_state = ''authorization_pending'',
    rr_requested_by = ''u1'', rr_requested_at = 10, rr_authorized_at = None,
    rr_execution_requested_at = None, rr_resumed_at = None, rr_failed_at = None,
    rr_canceled_at = None, rr_expired_at = None, rr_command_id = None,
    rr_failure_reason_code = None, rr_idempotency_key = ''rk1'', rr_updated_at = 10\<rparr>"

definition demo_rr2 :: resume_row where
  "demo_rr2 = demo_rr1\<lparr>rr_state := ''authorized'', rr_authorized_at := Some 20, rr_updated_at := 20\<rparr>"

definition demo_dispatched :: resume_row where
  "demo_dispatched = demo_rr2\<lparr>rr_state := ''execution_pending'', rr_execution_requested_at := Some 30,
     rr_command_id := Some ''e3'', rr_updated_at := 30\<rparr>"

definition demo_claim1 :: clarification where
  "demo_claim1 = demo_clarification\<lparr>oc_resume_requested_at := Some 10,
     oc_resume_requested_by := Some ''u1'', oc_updated_at := 10\<rparr>"

definition demo_claimed :: clarification where
  "demo_claimed = demo_claim1\<lparr>oc_resume_authorized_at := Some 20, oc_updated_at := 20\<rparr>"

definition demo_out :: "string \<Rightarrow> string \<Rightarrow> string \<Rightarrow> payload \<Rightarrow> int \<Rightarrow> outbox_row" where
  "demo_out eid ev key p now = \<lparr>ob_id = eid, ob_clarification_id = ''c1'', ob_task_id = ''k1'',
     ob_event_type = ev, ob_idempotency_key = key, ob_payload = p, ob_status = ''pending'',
     ob_attempts = 0, ob_created_at = now, ob_available_at = now, ob_published_at = None,
     ob_dead_at = None, ob_last_error = None\<rparr>"

definition demo_rdb1 :: resume_db where
  "demo_rdb1 = \<lparr>db_auths = [demo_rauth], db_approvals = [], db_clarifications = [demo_claim1],
    db_tasks = [demo_task], db_resumes = [demo_rr1],
    db_outbox = [demo_out ''e1'' ''resume.requested'' ''c1:resume_requested:rr1''
      [(''resume_request_id'', PStr ''rr1''), (''resource_state_version'', PStr ''answered:m1:False''),
       (''resume_requested_by'', PStr ''u1''), (''reason'', PStr ''operator_requested'')] 10]\<rparr>"

definition demo_rdb2 :: resume_db where
  "demo_rdb2 = demo_rdb1\<lparr>db_auths := [demo_rauth2], db_clarifications := [demo_claimed],
    db_resumes := [demo_rr2], db_outbox := db_outbox demo_rdb1 @
      [demo_out ''e2'' ''resume.authorized'' ''c1:resume_authorized:rr1''
        [(''resume_request_id'', PStr ''rr1''), (''authorization_id'', PStr ''a1''),
         (''reason'', PStr ''policy_allow'')] 20]\<rparr>"

definition demo_rdb3 :: resume_db where
  "demo_rdb3 = demo_rdb2\<lparr>db_auths := [consumed_row 30 ''svc'' demo_rauth2],
    db_resumes := [demo_dispatched], db_outbox := db_outbox demo_rdb2 @
      [demo_out ''e3'' ''resume.execution_requested'' ''c1:resume_dispatched:rr1''
        [(''resume_request_id'', PStr ''rr1''), (''authorization_id'', PStr ''a1''),
         (''resource_state_version'', PStr ''answered:m1:False'')] 30]\<rparr>"

lemma demo_request_runs:
  "rdb_after (request_resume demo_env demo_ids (\<lambda>_. 10) (human ''u1'' ''agent_operator'')
     demo_scope ''c1'' ''rk1'' 100 None demo_rdb0) = Some demo_rdb1"
  by code_simp

lemma demo_authorize_runs:
  "rdb_after (authorize_resume demo_env ''e2'' (\<lambda>_. 20) ''rr1'' demo_authority demo_scope ''pv1'' demo_rdb1)
     = Some demo_rdb2"
  by code_simp

lemma demo_prepare_runs:
  "rdb_after (prepare_execution demo_env ''e3'' (\<lambda>_. 30) ''rr1'' demo_service demo_scope demo_rdb2)
     = Some demo_rdb3"
  by code_simp

lemma demo_rdb2_inv:
  "rra_inv (db_auths demo_rdb2)" "paa_inv (db_approvals demo_rdb2)" "rr_inv (db_resumes demo_rdb2)"
  by code_simp+

lemma demo_rdb3_inv: "rr_inv (db_resumes demo_rdb3)"
  by code_simp

lemma rdb_after_SomeD: "rdb_after r = Some s \<Longrightarrow> \<exists>out. r = Inr (out, s) \<and> rs_ok out"
  by (auto simp: rdb_after_def split: sum.splits if_split_asm)

lemma rdb_after_the: "rdb_after r \<noteq> None \<Longrightarrow> \<exists>out. r = Inr (out, the (rdb_after r)) \<and> rs_ok out"
  using rdb_after_SomeD[of r] by auto

theorem prepare_execution_atomic_witness:
  "\<exists>res. prepare_execution demo_env ''e3'' (\<lambda>_. 30) ''rr1'' demo_service demo_scope demo_rdb2 = Inr (res, demo_rdb3) \<and>
     rs_ok res \<and> (\<exists>command. db_outbox demo_rdb3 = db_outbox demo_rdb2 @ [command] \<and>
       ob_event_type command = ''resume.execution_requested'')"
proof -
  obtain res where r: "prepare_execution demo_env ''e3'' (\<lambda>_. 30) ''rr1'' demo_service demo_scope demo_rdb2 = Inr (res, demo_rdb3)"
    "rs_ok res" using rdb_after_SomeD[OF demo_prepare_runs] by blast
  show ?thesis using prepare_execution_atomic[OF demo_rdb2_inv r(1)] r by blast
qed

lemma demo_confirm_runs:
  "rdb_after (confirm_resumed ''e4'' (\<lambda>_. 40) ''rr1'' ''e3'' demo_rdb3) \<noteq> None"
  by code_simp

theorem confirmation_final_witness:
  "\<exists>s'. rdb_after (confirm_resumed ''e4'' (\<lambda>_. 40) ''rr1'' ''e3'' demo_rdb3) = Some s' \<and>
     confirm_failed ''e5'' (\<lambda>_. 50) ''rr1'' ''e3'' ''policy_deny'' s' = Inr (rs_deny ''conflict'' ''conflict'', s')"
proof -
  obtain res where r: "confirm_resumed ''e4'' (\<lambda>_. 40) ''rr1'' ''e3'' demo_rdb3 =
      Inr (res, the (rdb_after (confirm_resumed ''e4'' (\<lambda>_. 40) ''rr1'' ''e3'' demo_rdb3)))" "rs_ok res"
    using rdb_after_the[OF demo_confirm_runs] by blast
  have "''policy_deny'' \<in> set RESUME_REASON_CODES" "''other'' \<noteq> ''e3''"
    by (simp_all add: RESUME_REASON_CODES_def)
  from confirmation_final[OF demo_rdb3_inv r this] demo_confirm_runs show ?thesis by auto
qed

lemma demo_fail_runs:
  "rdb_after (confirm_failed ''e4'' (\<lambda>_. 40) ''rr1'' ''e3'' ''policy_deny'' demo_rdb3) \<noteq> None"
  by code_simp

lemma demo_rdb3_facts:
  "db_resumes demo_rdb3 = [demo_dispatched]" "rr_state demo_dispatched = ''execution_pending''"
  "rr_id demo_dispatched = ''rr1''" "db_clarifications demo_rdb3 = [demo_claimed]"
  "oc_id demo_claimed = ''c1''" "rr_clarification_id demo_dispatched = ''c1''"
  "oc_resume_requested_at demo_claimed = Some 10" "rr_idempotency_key demo_dispatched = ''rk1''"
  by (simp_all add: demo_rdb3_def demo_rdb2_def demo_rdb1_def demo_dispatched_def demo_rr2_def
      demo_rr1_def demo_claimed_def demo_claim1_def demo_clarification_def)

theorem failed_request_blocks_clarification_witness:
  "\<exists>s' out. rdb_after (confirm_failed ''e4'' (\<lambda>_. 40) ''rr1'' ''e3'' ''policy_deny'' demo_rdb3) = Some s' \<and>
     request_resume demo_env demo_ids (\<lambda>_. 60) (human ''u1'' ''platform_admin'') demo_scope ''c1'' ''rk2'' 900 None s'
       = Inr (out, s') \<and> \<not> rs_ok out"
proof -
  let ?s = "the (rdb_after (confirm_failed ''e4'' (\<lambda>_. 40) ''rr1'' ''e3'' ''policy_deny'' demo_rdb3))"
  obtain res where r: "confirm_failed ''e4'' (\<lambda>_. 40) (rr_id demo_dispatched) ''e3'' ''policy_deny'' demo_rdb3 = Inr (res, ?s)"
    "rs_ok res" using rdb_after_the[OF demo_fail_runs] by (auto simp: demo_rdb3_facts)
  note h = failed_request_blocks_clarification[OF demo_rdb3_inv _ demo_rdb3_facts(2) r, of demo_claimed "''rk2''"
      demo_env demo_ids "\<lambda>_. 60" "human ''u1'' ''platform_admin''" demo_scope 900 None]
  have "\<exists>out. request_resume demo_env demo_ids (\<lambda>_. 60) (human ''u1'' ''platform_admin'') demo_scope (oc_id demo_claimed)
      ''rk2'' 900 None ?s = Inr (out, ?s) \<and> \<not> rs_ok out"
    using h by (simp add: demo_rdb3_facts)
  then show ?thesis using demo_fail_runs by (auto simp: demo_rdb3_facts)
qed

end
