(* ===== verification/Resume_Request.thy ===== *)
theory Resume_Request imports Resume_Props begin

text \<open>
  What a call of \<open>request_resume\<close> does to the database: eligibility, the server-side classification of
  the production effect, and the four rows a successful request writes together.
\<close>

text \<open>An insert refused for a unique index other than the key met a taken id or an active authorization.\<close>

definition auth_clash :: "string \<Rightarrow> string \<Rightarrow> string \<Rightarrow> auth_table \<Rightarrow> bool" where
  "auth_clash aid act res t \<longleftrightarrow>
     (\<exists>r \<in> set t. ra_authorization_id r = aid \<or> rra_active r \<and> ra_action_type r = act \<and> ra_resource_id r = res)"

lemma create_request_clash:
  assumes "create_request aid rid now (request_of a rs act rt res ver ex key pe ref) t = Inl (UniqueViolation ix)"
    "key \<notin> ra_idempotency_key ` set t"
  shows "auth_clash aid act res t"
  using assms unfolding create_request_def auth_clash_def Let_def
  by (auto simp: request_of_def list_ex_iff split: option.splits if_split_asm)

lemma request_authorization_cases:
  assumes "request_authorization ts aid rid a sc rs act rt res ver ex key pe ref s = Inr (out, s')"
    "key \<notin> ra_idempotency_key ` set (db_auths s)"
  shows "(\<not> (sr_ok out \<and> sr_authorization out \<noteq> None) \<and> s' = s \<and>
      (allowed (evaluate (''request_'' @ act) a sc rs None False None) \<longrightarrow>
         sr_result_kind out = ''conflict'' \<and> auth_clash aid act res (db_auths s))) \<or>
    (\<exists>row. sr_ok out \<and> sr_authorization out = Some row \<and>
       create_request aid rid (ts 0) (request_of a rs act rt res ver ex key pe ref) (db_auths s)
         = Inr (row, db_auths s @ [row]) \<and> s' = s\<lparr>db_auths := db_auths s @ [row]\<rparr>)"
proof (cases "allowed (evaluate (''request_'' @ act) a sc rs None False None)")
  case False
  then show ?thesis using assms(1) by (auto simp: request_authorization_def Let_def deny_outcome_def)
next
  case True
  have f: "fetchrow (\<lambda>r. ra_idempotency_key r = key) (db_auths s) = None"
    using assms(2) by (auto simp: fetchrow_None_iff)
  show ?thesis
  proof (cases "create_request aid rid (ts 0) (request_of a rs act rt res ver ex key pe ref) (db_auths s)")
    case (Inl e)
    obtain ix where e: "e = UniqueViolation ix"
      using assms(1) True f Inl by (cases e) (auto simp: request_authorization_def)
    then show ?thesis using assms(1) True f Inl create_request_clash[OF Inl[unfolded e] assms(2)]
      by (auto simp: request_authorization_def)
  next
    case (Inr p)
    obtain row t where p: "p = (row, t)" by (cases p)
    have t: "t = db_auths s @ [row]" using Inr unfolding p by (rule create_request_Inr)
    show ?thesis using assms(1) True Inr p t
      by (auto simp: request_authorization_def try_then_Inr_iff)
  qed
qed

lemma claim_Some:
  assumes "claim_clarification_resume_requested now cid who t = (Some c, t')"
  obtains c0 where "c0 \<in> set t" "oc_id c0 = cid" "oc_resume_requested_at c0 = None"
    "t' = update_where (\<lambda>c. oc_id c = cid \<and> oc_resume_requested_at c = None)
       (\<lambda>c. c\<lparr>oc_resume_requested_at := Some now, oc_resume_requested_by := Some who, oc_updated_at := now\<rparr>) t"
  using assms unfolding claim_clarification_resume_requested_def
  by (auto elim: update_returning_SomeD)

text \<open>What a successful creation wrote.\<close>

lemma create_resume_cases:
  assumes c: "create_resume ids ts a sc cl tk key ex ref s = Inr (res, s')"
    and al: "allowed (evaluate ''request_resume'' a sc sc None False None)"
    and fresh: "''resume-auth:'' @ oc_id cl @ '':'' @ key \<notin> ra_idempotency_key ` set (db_auths s)"
  shows "(\<not> rs_ok res \<and> res = rs_deny ''conflict'' ''active_request_exists'' \<and> (s' = s \<or>
       (\<exists>c cls. claim_clarification_resume_requested (ts 1) (oc_id cl) (principal_id a) (db_clarifications s) = (Some c, cls) \<and>
          s' = s\<lparr>db_clarifications := cls\<rparr> \<and> auth_clash (ni_authorization ids) ''resume'' (oc_id cl) (db_auths s)))) \<or>
    (\<exists>cls authz rr ev. rs_ok res \<and> rs_resume_request res = Some rr \<and>
       (\<exists>c. claim_clarification_resume_requested (ts 1) (oc_id cl) (principal_id a) (db_clarifications s) = (Some c, cls)) \<and>
       create_request (ni_authorization ids) (ni_auth_request ids) (ts 2)
         (request_of a sc ''resume'' ''clarification'' (oc_id cl) (resource_state_version cl tk) ex
            (''resume-auth:'' @ oc_id cl @ '':'' @ key) (authoritative_production_effect tk) ref) (db_auths s)
         = Inr (authz, db_auths s @ [authz]) \<and>
       insert_resume_request (ni_resume ids) (ts 4) (ra_authorization_id authz) (oc_id cl) (oc_task_id cl)
         (or_empty (team_id sc)) (or_empty (project_id sc)) (resource_state_version cl tk) (principal_id a)
         key None (db_resumes s) = Inr (rr, db_resumes s @ [rr]) \<and>
       ob_event_type ev = ''resume.requested'' \<and> ob_id ev = ni_event ids \<and>
       s' = s\<lparr>db_clarifications := cls, db_auths := db_auths s @ [authz],
         db_resumes := db_resumes s @ [rr], db_outbox := db_outbox s @ [ev]\<rparr>)"
proof -
  let ?ver = "resource_state_version cl tk"
  obtain oc cls where cl: "claim_clarification_resume_requested (ts 1) (oc_id cl) (principal_id a) (db_clarifications s) = (oc, cls)"
    by (cases "claim_clarification_resume_requested (ts 1) (oc_id cl) (principal_id a) (db_clarifications s)")
  show ?thesis
  proof (cases oc)
    case None
    then show ?thesis using c cl by (auto simp: create_resume_def Let_def rs_deny_def)
  next
    case (Some c0)
    let ?s0 = "s\<lparr>db_clarifications := cls\<rparr>"
    obtain auth s1 where ra: "request_authorization (\<lambda>k. ts (k + 2)) (ni_authorization ids) (ni_auth_request ids)
        a sc sc ''resume'' ''clarification'' (oc_id cl) ?ver ex (''resume-auth:'' @ oc_id cl @ '':'' @ key)
        (authoritative_production_effect tk) ref ?s0 = Inr (auth, s1)"
      using c cl Some by (auto simp: create_resume_def Let_def try_then_Inr_iff)
    have fr: "''resume-auth:'' @ oc_id cl @ '':'' @ key \<notin> ra_idempotency_key ` set (db_auths ?s0)"
      using fresh by simp
    show ?thesis
    proof (cases "sr_ok auth \<and> sr_authorization auth \<noteq> None")
      case False
      then have d: "s1 = ?s0" "sr_result_kind auth = ''conflict''" "auth_clash (ni_authorization ids) ''resume'' (oc_id cl) (db_auths s)"
        using request_authorization_cases[OF ra fr] al by auto
      have "res = rs_deny ''conflict'' ''active_request_exists''" "s' = s1"
        using c cl Some ra False d(2) by (auto simp: create_resume_def Let_def split: option.splits if_split_asm)
      then show ?thesis using cl Some d(1,3) by (auto simp: rs_deny_def)
    next
      case True
      then obtain authz where az: "sr_ok auth" "sr_authorization auth = Some authz"
        "create_request (ni_authorization ids) (ni_auth_request ids) (ts 2)
         (request_of a sc ''resume'' ''clarification'' (oc_id cl) ?ver ex
            (''resume-auth:'' @ oc_id cl @ '':'' @ key) (authoritative_production_effect tk) ref) (db_auths s)
         = Inr (authz, db_auths s @ [authz])" "s1 = ?s0\<lparr>db_auths := db_auths s @ [authz]\<rparr>"
        using request_authorization_cases[OF ra fr] by (auto simp: numeral_2_eq_2)
      obtain rr rrs ev s2 where
        i: "insert_resume_request (ni_resume ids) (ts 4) (ra_authorization_id authz) (oc_id cl) (oc_task_id cl)
          (or_empty (team_id sc)) (or_empty (project_id sc)) ?ver (principal_id a) key None (db_resumes s) = Inr (rr, rrs)"
        and e: "emit (ni_event ids) (ts 0) (ts 5) (oc_id cl) (oc_task_id cl) ''resume.requested''
              (oc_id cl @ '':resume_requested:'' @ rr_id rr)
              [(''resume_request_id'', PStr (rr_id rr)), (''resource_state_version'', PStr ?ver),
               (''resume_requested_by'', PStr (principal_id a)), (''reason'', PStr ''operator_requested'')]
              (s1\<lparr>db_resumes := rrs\<rparr>) = Inr (ev, s2)"
        and r: "res = ResumeResult True ''ok'' ''operator_requested'' (Some rr) None" "s' = s2"
        using c cl Some ra az by (auto simp: create_resume_def Let_def try_then_Inr_iff)
      have rrs: "rrs = db_resumes s @ [rr]" by (rule insert_resume_Inr(1)[OF i])
      note em = emit_Inr(1-3)[OF e]
      have s2: "s' = s\<lparr>db_clarifications := cls, db_auths := db_auths s @ [authz],
         db_resumes := db_resumes s @ [rr], db_outbox := db_outbox s @ [ev]\<rparr>"
        using em(1) r(2) az(4) rrs by simp
      show ?thesis using cl Some az(3) i[unfolded rrs] em(2,3) r(1) s2 by auto
    qed
  qed
qed

lemma eligibility_None_iff:
  "eligibility_denial cl tk = None \<longleftrightarrow> oc_status cl = ''answered'' \<and> oc_resume_eligible_at cl \<noteq> None \<and>
     ot_status tk \<notin> set RESUME_TERMINAL_TASK_STATUSES"
  by (auto simp: eligibility_denial_def BLOCKING_CLARIFICATION_STATUSES_def)

lemma eligibility_not_ok: "eligibility_denial cl tk = Some d \<Longrightarrow> \<not> rs_ok d"
  by (auto simp: eligibility_denial_def split: if_split_asm)

text \<open>A new key: the call either refuses before any write, or reaches the creation on eligible rows.\<close>

lemma request_resume_cases:
  assumes r: "request_resume env ids ts a sc cid key ex ref s = Inr (res, s')"
    and new: "key \<notin> rr_idempotency_key ` set (db_resumes s)"
  shows "(\<not> rs_ok res \<and> s' = s) \<or>
    (\<exists>cl tk. resume_api_enabled env \<and> allowed (evaluate ''request_resume'' a sc sc None False None) \<and>
       cl \<in> set (db_clarifications s) \<and> oc_id cl = cid \<and> tk \<in> set (db_tasks s) \<and> ot_id tk = oc_task_id cl \<and>
       ot_project_id tk \<in> {None, project_id sc} \<and> eligibility_denial cl tk = None \<and>
       create_resume ids ts a sc cl tk key ex ref s = Inr (res, s'))"
proof (cases "resume_api_enabled env \<and> allowed (evaluate ''request_resume'' a sc sc None False None)")
  case False
  have g: "get_request_by_idempotency_key key (db_resumes s) = None"
    using new by (auto simp: get_request_by_idempotency_key_def fetchrow_None_iff)
  show ?thesis using r False g by (auto simp: request_resume_def Let_def split: if_split_asm)
next
  case en: True
  have g: "get_request_by_idempotency_key key (db_resumes s) = None"
    using new by (auto simp: get_request_by_idempotency_key_def fetchrow_None_iff)
  show ?thesis
  proof (cases "lock_clarification cid s")
    case None
    then show ?thesis using r en g by (auto simp: request_resume_def)
  next
    case (Some cl)
    then have cl: "cl \<in> set (db_clarifications s)" "oc_id cl = cid"
      unfolding lock_clarification_def by (auto dest: fetchrow_SomeD)
    show ?thesis
    proof (cases "lock_task (oc_task_id cl) s")
      case None
      then show ?thesis using r en g Some by (auto simp: request_resume_def)
    next
      case (Some tk)
      then have tk: "tk \<in> set (db_tasks s)" "ot_id tk = oc_task_id cl"
        unfolding lock_task_def by (auto dest: fetchrow_SomeD)
      show ?thesis
      proof (cases "eligibility_denial cl tk")
        case None
        then show ?thesis using r en g Some \<open>lock_clarification cid s = Some cl\<close> cl tk
          by (auto simp: request_resume_def split: if_split_asm)
      next
        case (Some d)
        then show ?thesis using r en g \<open>lock_task (oc_task_id cl) s = Some tk\<close>
            \<open>lock_clarification cid s = Some cl\<close> eligibility_not_ok[OF Some]
          by (auto simp: request_resume_def split: if_split_asm)
      qed
    qed
  qed
qed

lemma create_request_fields:
  assumes "create_request aid rid now (request_of a rs act rt res ver ex key pe ref) t = Inr (row, t')"
  shows "ra_authorization_id row = aid" "ra_decision row = ''pending''" "life row = Pending"
    "ra_action_type row = act" "ra_resource_id row = res" "ra_resource_state_version row = ver"
    "ra_production_effect row = pe" "ra_requested_by row = principal_id a"
    "Some (ra_team_id row) = team_id rs" "Some (ra_project_id row) = project_id rs"
  using assms by (auto simp: request_of_def new_auth_row_def life_def elim!: create_request_Inr)

text \<open>A claim that won: the clarification was unclaimed, and carries the marks now.\<close>

lemma claim_marks:
  assumes "claim_clarification_resume_requested now cid who t = (Some c1, cls)"
  shows "\<exists>c \<in> set t. oc_id c = cid \<and> oc_resume_requested_at c = None"
    "\<exists>c \<in> set cls. oc_id c = cid \<and> oc_resume_requested_at c = Some now \<and> oc_resume_requested_by c = Some who"
    "cls = map (\<lambda>c. if oc_id c = cid \<and> oc_resume_requested_at c = None
       then c\<lparr>oc_resume_requested_at := Some now, oc_resume_requested_by := Some who, oc_updated_at := now\<rparr> else c) t"
proof -
  let ?mark = "\<lambda>c. c\<lparr>oc_resume_requested_at := Some now, oc_resume_requested_by := Some who, oc_updated_at := now\<rparr>"
  obtain c0 where c0: "c0 \<in> set t" "oc_id c0 = cid" "oc_resume_requested_at c0 = None"
    and cls: "cls = update_where (\<lambda>c. oc_id c = cid \<and> oc_resume_requested_at c = None) ?mark t"
    using assms by (rule claim_Some)
  show "\<exists>c \<in> set t. oc_id c = cid \<and> oc_resume_requested_at c = None" using c0 by blast
  have "?mark c0 \<in> set cls" unfolding cls using c0 by (auto simp: set_update_where intro!: bexI[of _ c0])
  then show "\<exists>c \<in> set cls. oc_id c = cid \<and> oc_resume_requested_at c = Some now \<and> oc_resume_requested_by c = Some who"
    using c0(2) by (intro bexI[of _ "?mark c0"]) simp_all
  show "cls = map (\<lambda>c. if oc_id c = cid \<and> oc_resume_requested_at c = None then ?mark c else c) t"
    by (simp add: cls update_where_def)
qed

text \<open>
  C17. A resume request with a new key (no request and no authorization carries it) is created whole, or
  refused. A refusal changes nothing, except one that comes after the claim: when the clarification is
  unclaimed but an active authorization for it exists already (or the generated id is taken), the function
  returns with the claim in place although no request exists; the endpoint that calls it raises inside its
  transaction then, which takes the claim back. A success was allowed to the caller, for an answered, eligible and
  unclaimed clarification of a task that can still run; it claims the clarification and appends one pending
  authorization, one pending request and one \<^verbatim>\<open>resume.requested\<close> event. Authorization and request carry the
  same version of clarification and task, and the production effect is the task's own column, never the
  caller's word.
\<close>

theorem request_resume_sound:
  assumes "request_resume env ids ts a sc cid key ex ref s = Inr (res, s')"
    "key \<notin> rr_idempotency_key ` set (db_resumes s)"
    "''resume-auth:'' @ cid @ '':'' @ key \<notin> ra_idempotency_key ` set (db_auths s)"
  shows "(\<not> rs_ok res \<longrightarrow> s' = s \<or>
      res = rs_deny ''conflict'' ''active_request_exists'' \<and>
      (\<exists>c \<in> set (db_clarifications s). oc_id c = cid \<and> oc_resume_requested_at c = None) \<and>
      s' = s\<lparr>db_clarifications := map (\<lambda>c. if oc_id c = cid \<and> oc_resume_requested_at c = None
        then c\<lparr>oc_resume_requested_at := Some (ts 1), oc_resume_requested_by := Some (principal_id a), oc_updated_at := ts 1\<rparr>
        else c) (db_clarifications s)\<rparr> \<and>
      (\<exists>r \<in> set (db_auths s). ra_authorization_id r = ni_authorization ids \<or>
         rra_active r \<and> ra_action_type r = ''resume'' \<and> ra_resource_id r = cid)) \<and>
    (rs_ok res \<longrightarrow> resume_api_enabled env \<and> allowed (evaluate ''request_resume'' a sc sc None False None) \<and>
      (\<exists>cl \<in> set (db_clarifications s). \<exists>tk \<in> set (db_tasks s). \<exists>authz rr ev.
         oc_id cl = cid \<and> ot_id tk = oc_task_id cl \<and> ot_project_id tk \<in> {None, project_id sc} \<and>
         oc_status cl = ''answered'' \<and> oc_resume_eligible_at cl \<noteq> None \<and> ot_status tk \<notin> set RESUME_TERMINAL_TASK_STATUSES \<and>
         (\<exists>c \<in> set (db_clarifications s). oc_id c = cid \<and> oc_resume_requested_at c = None) \<and>
         (\<exists>c \<in> set (db_clarifications s'). oc_id c = cid \<and> oc_resume_requested_at c = Some (ts 1) \<and>
            oc_resume_requested_by c = Some (principal_id a)) \<and>
         db_auths s' = db_auths s @ [authz] \<and> life authz = Pending \<and> ra_action_type authz = ''resume'' \<and>
         ra_resource_id authz = cid \<and> ra_production_effect authz = ot_production_effect tk \<and>
         ra_resource_state_version authz = resource_state_version cl tk \<and>
         db_resumes s' = db_resumes s @ [rr] \<and> rr_state rr = ''authorization_pending'' \<and>
         rr_authorization_id rr = ra_authorization_id authz \<and> rr_clarification_id rr = cid \<and>
         rr_resource_state_version rr = ra_resource_state_version authz \<and>
         db_outbox s' = db_outbox s @ [ev] \<and> ob_event_type ev = ''resume.requested''))"
  using request_resume_cases[OF assms(1,2)]
proof (elim disjE exE conjE)
  assume "\<not> rs_ok res" "s' = s" then show ?thesis by simp
next
  fix cl tk
  assume en: "resume_api_enabled env" "allowed (evaluate ''request_resume'' a sc sc None False None)"
    and cl: "cl \<in> set (db_clarifications s)" "oc_id cl = cid" and tk: "tk \<in> set (db_tasks s)" "ot_id tk = oc_task_id cl"
      "ot_project_id tk \<in> {None, project_id sc}"
    and el: "eligibility_denial cl tk = None"
    and c: "create_resume ids ts a sc cl tk key ex ref s = Inr (res, s')"
  have fresh: "''resume-auth:'' @ oc_id cl @ '':'' @ key \<notin> ra_idempotency_key ` set (db_auths s)"
    using assms(3) cl(2) by simp
  from create_resume_cases[OF c en(2) fresh] show ?thesis
  proof (elim disjE exE conjE)
    assume "\<not> rs_ok res" "s' = s"
    then show ?thesis by simp
  next
    fix c1 cls
    assume d: "\<not> rs_ok res" "res = rs_deny ''conflict'' ''active_request_exists''"
        "claim_clarification_resume_requested (ts 1) (oc_id cl) (principal_id a) (db_clarifications s) = (Some c1, cls)"
        "s' = s\<lparr>db_clarifications := cls\<rparr>" "auth_clash (ni_authorization ids) ''resume'' (oc_id cl) (db_auths s)"
    note m = claim_marks[OF d(3)[unfolded cl(2)]]
    show ?thesis unfolding d(4) m(3) using d(1,2) m(1) d(5)[unfolded auth_clash_def cl(2)] by simp
  next
    fix cls authz rr ev c1
    assume ok: "rs_ok res"
      and claim: "claim_clarification_resume_requested (ts 1) (oc_id cl) (principal_id a) (db_clarifications s) = (Some c1, cls)"
      and az: "create_request (ni_authorization ids) (ni_auth_request ids) (ts 2)
         (request_of a sc ''resume'' ''clarification'' (oc_id cl) (resource_state_version cl tk) ex
            (''resume-auth:'' @ oc_id cl @ '':'' @ key) (authoritative_production_effect tk) ref) (db_auths s)
         = Inr (authz, db_auths s @ [authz])"
      and i: "insert_resume_request (ni_resume ids) (ts 4) (ra_authorization_id authz) (oc_id cl) (oc_task_id cl)
         (or_empty (team_id sc)) (or_empty (project_id sc)) (resource_state_version cl tk) (principal_id a)
         key None (db_resumes s) = Inr (rr, db_resumes s @ [rr])"
      and ev: "ob_event_type ev = ''resume.requested''"
      and s': "s' = s\<lparr>db_clarifications := cls, db_auths := db_auths s @ [authz],
         db_resumes := db_resumes s @ [rr], db_outbox := db_outbox s @ [ev]\<rparr>"
    note m = claim_marks[OF claim[unfolded cl(2)]]
    note azf = create_request_fields[OF az] and ins = insert_resume_Inr[OF i]
    have tabs: "db_auths s' = db_auths s @ [authz]" "db_resumes s' = db_resumes s @ [rr]" "db_outbox s' = db_outbox s @ [ev]"
      "db_clarifications s' = cls" unfolding s' by simp_all
    note facts = cl tk el[unfolded eligibility_None_iff] m(1,2) azf ins ev
    show ?thesis
      unfolding tabs
      by (rule conjI, use ok in simp, intro impI conjI en, rule bexI[of _ cl], rule bexI[of _ tk],
          rule exI[of _ authz], rule exI[of _ rr], rule exI[of _ ev])
        (use facts in \<open>simp_all add: authoritative_production_effect_def\<close>)
  qed
qed

theorem request_resume_sound_witness:
  "\<exists>res. request_resume demo_env demo_ids (\<lambda>_. 10) (human ''u1'' ''agent_operator'') demo_scope ''c1'' ''rk1'' 100
     None demo_rdb0 = Inr (res, demo_rdb1) \<and> rs_ok res \<and> length (db_auths demo_rdb1) = 1"
proof -
  obtain res where r: "request_resume demo_env demo_ids (\<lambda>_. 10) (human ''u1'' ''agent_operator'') demo_scope ''c1'' ''rk1'' 100
     None demo_rdb0 = Inr (res, demo_rdb1)" "rs_ok res"
    using rdb_after_SomeD[OF demo_request_runs] by blast
  have n: "''rk1'' \<notin> rr_idempotency_key ` set (db_resumes demo_rdb0)"
    "''resume-auth:'' @ ''c1'' @ '':'' @ ''rk1'' \<notin> ra_idempotency_key ` set (db_auths demo_rdb0)"
    "db_auths demo_rdb0 = []" by (simp_all add: demo_rdb0_def)
  show ?thesis using request_resume_sound[OF r(1) n(1,2)] r n(3) by auto
qed

end
