(* ===== verification/Py_Time.thy ===== *)
theory Py_Time imports Py_Json begin

text \<open>
  \<^verbatim>\<open>datetime.isoformat()\<close> of the Python standard library on a UTC timestamp, as
  \<^verbatim>\<open>shared/sdk/tasks/replay_request_model.py\<close> uses it. The clock of the development counts microseconds
  since 1 January 1970, the resolution of \<^verbatim>\<open>timestamptz\<close> and of \<^verbatim>\<open>datetime\<close>; the library leaves the
  fraction out when it is zero. The text determines the timestamp for the years 1 to 9999 that \<^verbatim>\<open>datetime\<close> has.
\<close>

section \<open>Calendar\<close>

text \<open>The year of a day counted from 1 January of the year 1, and the day within the year, from 0.\<close>

definition civil_year :: "int \<Rightarrow> int \<times> int" where
  "civil_year n =
    (let a = n div 146097; n1 = n mod 146097;
         b = min 3 (n1 div 36524); n2 = n1 - b * 36524;
         c = n2 div 1461; n3 = n2 mod 1461;
         d = min 3 (n3 div 365)
     in (400 * a + 100 * b + 4 * c + d + 1, n3 - d * 365))"

definition leap :: "int \<Rightarrow> bool" where
  "leap y \<longleftrightarrow> y mod 4 = 0 \<and> (y mod 100 \<noteq> 0 \<or> y mod 400 = 0)"

definition month_lengths :: "int \<Rightarrow> int list" where
  "month_lengths y = [31, if leap y then 29 else 28, 31, 30, 31, 30, 31, 31, 30, 31, 30, 31]"

fun month_of :: "int list \<Rightarrow> int \<Rightarrow> int \<Rightarrow> int \<times> int" where
  "month_of [] m d = (m, d)"
| "month_of (l # ls) m d = (if d < l then (m, d) else month_of ls (m + 1) (d - l))"

text \<open>\<^verbatim>\<open>'%0wd'\<close> of a number below \<^verbatim>\<open>10 ** w\<close>.\<close>

fun pad :: "nat \<Rightarrow> int \<Rightarrow> string" where
  "pad 0 n = []"
| "pad (Suc w) n = pad w (n div 10) @ [char_of (nat (48 + n mod 10))]"

definition EPOCH_DAY :: int where "EPOCH_DAY = 719162"

definition iso_seconds :: "int \<Rightarrow> string" where
  "iso_seconds t =
    (let s = t mod 86400; (y, k) = civil_year (t div 86400 + EPOCH_DAY);
         (m, d) = month_of (month_lengths y) 1 k
     in pad 4 y @ ''-'' @ pad 2 m @ ''-'' @ pad 2 (d + 1) @ ''T'' @
        pad 2 (s div 3600) @ '':'' @ pad 2 (s mod 3600 div 60) @ '':'' @ pad 2 (s mod 60))"

definition iso_fraction :: "int \<Rightarrow> string" where
  "iso_fraction us = (if us = 0 then [] else ''.'' @ pad 6 us)"

definition isoformat :: "int \<Rightarrow> string" where
  "isoformat t = iso_seconds (t div 1000000) @ iso_fraction (t mod 1000000) @ ''+00:00''"

text \<open>The timestamps \<^verbatim>\<open>datetime\<close> can hold.\<close>

definition seconds_range :: "int \<Rightarrow> bool" where
  "seconds_range t \<longleftrightarrow> - 62135596800 \<le> t \<and> t < 253402300800"

definition datetime_range :: "int \<Rightarrow> bool" where
  "datetime_range t \<longleftrightarrow> - 62135596800 * 1000000 \<le> t \<and> t < 253402300800 * 1000000"

lemma isoformat_sample:
  "isoformat 1709251199000000 = ''2024-02-29T23:59:59+00:00''"
  "isoformat 1709251199000120 = ''2024-02-29T23:59:59.000120+00:00''"
  by code_simp+

section \<open>Padded numbers\<close>

lemma length_pad: "length (pad w n) = w"
  by (induction w n rule: pad.induct) simp_all

lemma digit_inj:
  fixes m n :: int
  assumes "char_of (nat (48 + m mod 10)) = (char_of (nat (48 + n mod 10)) :: char)"
  shows "m mod 10 = n mod 10"
proof -
  have "(of_char (char_of (nat (48 + k mod 10)) :: char) :: nat) = nat (48 + k mod 10)" for k :: int
  proof -
    have "k mod 10 < 10" "0 \<le> k mod 10" by simp_all
    then have "nat (48 + k mod 10) < 256" by linarith
    then show ?thesis by simp
  qed
  then have "nat (48 + m mod 10) = nat (48 + n mod 10)" using assms by metis
  moreover have "0 \<le> m mod 10" "0 \<le> n mod 10" by simp_all
  ultimately show ?thesis by linarith
qed

lemma pad_inj: "pad w m = pad w n \<Longrightarrow> 0 \<le> m \<Longrightarrow> 0 \<le> n \<Longrightarrow> m < 10 ^ w \<Longrightarrow> n < 10 ^ w \<Longrightarrow> m = n"
proof (induction w arbitrary: m n)
  case (Suc w)
  have d: "m mod 10 = n mod 10" and e: "pad w (m div 10) = pad w (n div 10)"
    using Suc(2) digit_inj[of m n] by simp_all
  have "m div 10 < 10 ^ w" "n div 10 < 10 ^ w" using Suc(5,6) by (simp_all add: div_less_iff_less_mult mult.commute)
  then have "m div 10 = n div 10" using Suc(1)[OF e] Suc(3,4) by (simp add: pos_imp_zdiv_nonneg_iff)
  then show ?case using d by (metis div_mult_mod_eq)
qed simp

lemma pad_append:
  assumes "pad w m @ r = pad w n @ s" "0 \<le> m" "0 \<le> n" "m < 10 ^ w" "n < 10 ^ w"
  shows "m = n \<and> r = s"
proof -
  have "pad w m = pad w n \<and> r = s" using assms(1) length_pad by (metis append_eq_append_conv)
  then show ?thesis using pad_inj[of w m n] assms(2-5) by blast
qed

section \<open>The text determines the timestamp\<close>

lemma capped_quotient:
  fixes x m w :: int
  assumes "0 \<le> x" "x < 3 * m + w" "m \<le> w" "0 < m"
  shows "0 \<le> x - min 3 (x div m) * m \<and> x - min 3 (x div m) * m < w"
proof (cases "x div m \<le> 3")
  case True
  then have "x - min 3 (x div m) * m = x mod m" by (simp add: minus_div_mult_eq_mod)
  then show ?thesis using pos_mod_bound[OF assms(4), of x] pos_mod_sign[OF assms(4), of x] assms(3) by simp
next
  case False
  then have "3 * m \<le> x div m * m" using assms(4) by (intro mult_right_mono) simp_all
  moreover have "x div m * m \<le> x" using pos_mod_sign[OF assms(4), of x] by (simp add: minus_mod_eq_div_mult[symmetric])
  ultimately show ?thesis using False assms(2) by simp
qed

lemma civil_year_bounds:
  assumes "civil_year n = (y, k)"
  shows "0 \<le> k" "k \<le> 365"
    "n = 146097 * ((y - 1) div 400) + 36524 * ((y - 1) mod 400 div 100) + 1461 * ((y - 1) mod 100 div 4)
       + 365 * ((y - 1) mod 4) + k"
proof -
  define a n1 where "a = n div 146097" and "n1 = n mod 146097"
  define b where "b = min 3 (n1 div 36524)"
  define n2 where "n2 = n1 - b * 36524"
  define c n3 where "c = n2 div 1461" and "n3 = n2 mod 1461"
  define d where "d = min 3 (n3 div 365)"
  have "civil_year n = (400 * a + 100 * b + 4 * c + d + 1, n3 - d * 365)"
    unfolding civil_year_def Let_def a_def n1_def b_def n2_def c_def n3_def d_def ..
  then have y: "y = 400 * a + 100 * b + 4 * c + d + 1" and k: "k = n3 - d * 365"
    using assms by (simp_all only: prod.inject)
  have n1: "0 \<le> n1" "n1 < 146097" "n = 146097 * a + n1" by (simp_all add: n1_def a_def)
  have b: "0 \<le> b" "b \<le> 3" using n1(1) by (simp_all add: b_def pos_imp_zdiv_nonneg_iff)
  have n2: "0 \<le> n2" "n2 < 36525"
    using capped_quotient[of n1 36524 36525] n1(1,2) by (simp_all add: n2_def b_def)
  have c: "0 \<le> c" "c \<le> 24"
    using n2 mult_div_mod_eq[of 1461 n2] pos_mod_bound[of 1461 n2] pos_mod_sign[of 1461 n2]
    unfolding c_def by linarith+
  have n3: "0 \<le> n3" "n3 < 1461" "n2 = 1461 * c + n3" by (simp_all add: n3_def c_def)
  have d: "0 \<le> d" "d \<le> 3" using n3(1) by (simp_all add: d_def pos_imp_zdiv_nonneg_iff)
  show "0 \<le> k" "k \<le> 365"
    using capped_quotient[of n3 365 366] n3(1,2) by (simp_all add: k d_def)
  have r: "0 \<le> 100 * b + 4 * c + d" "100 * b + 4 * c + d < 400" "0 \<le> 4 * c + d" "4 * c + d < 100"
    using b c d by linarith+
  have "(y - 1) mod 400 = 100 * b + 4 * c + d"
    by (rule int_mod_pos_eq[of _ _ a]) (use r y in linarith)+
  moreover have "(y - 1) mod 100 = 4 * c + d"
    by (rule int_mod_pos_eq[of _ _ "4 * a + b"]) (use r in \<open>simp_all add: y\<close>)
  moreover have "(y - 1) mod 4 = d"
    by (rule int_mod_pos_eq[of _ _ "100 * a + 25 * b + c"]) (use d in \<open>simp_all add: y\<close>)
  moreover have "(y - 1) div 400 = a"
    by (rule int_div_pos_eq[of _ _ _ "100 * b + 4 * c + d"]) (use r in \<open>simp_all add: y\<close>)
  moreover have "(100 * b + 4 * c + d) div 100 = b"
    by (rule int_div_pos_eq[of _ _ _ "4 * c + d"]) (use r in simp_all)
  moreover have "(4 * c + d) div 4 = c"
    by (rule int_div_pos_eq[of _ _ _ d]) (use d in simp_all)
  moreover have "n = 146097 * a + 36524 * b + 1461 * c + 365 * d + k"
    using n1(3) n2_def n3(3) k by linarith
  ultimately show "n = 146097 * ((y - 1) div 400) + 36524 * ((y - 1) mod 400 div 100) + 1461 * ((y - 1) mod 100 div 4)
       + 365 * ((y - 1) mod 4) + k"
    by (simp only:)
qed

lemma clock_parts: "s = 3600 * (s div 3600) + 60 * (s mod 3600 div 60) + s mod 60" for s :: int
proof -
  have "s mod 3600 mod 60 = s mod 60" by (simp add: mod_mod_cancel)
  then have "s mod 3600 = 60 * (s mod 3600 div 60) + s mod 60" using mult_div_mod_eq[of 60 "s mod 3600"] by simp
  then show ?thesis using mult_div_mod_eq[of 3600 s] by linarith
qed

lemma civil_year_inj: "civil_year n = (y, k) \<Longrightarrow> civil_year n' = (y, k) \<Longrightarrow> n = n'"
  using civil_year_bounds(3) by metis

lemma month_of_sum:
  assumes "month_of ls m d = (m', d')" "0 \<le> d" "d \<le> sum_list ls"
  shows "m \<le> m' \<and> m' \<le> m + int (length ls) \<and> 0 \<le> d' \<and> (d' = 0 \<or> (\<exists>l \<in> set ls. d' < l)) \<and>
    d = sum_list (take (nat (m' - m)) ls) + d'"
  using assms
proof (induction ls m d rule: month_of.induct)
  case (2 l ls m d)
  show ?case
  proof (cases "d < l")
    case False
    have h: "m + 1 \<le> m'" "m' \<le> m + 1 + int (length ls)" "0 \<le> d'" "d' = 0 \<or> (\<exists>l \<in> set ls. d' < l)"
      "d - l = sum_list (take (nat (m' - (m + 1))) ls) + d'"
      using 2 False by auto
    moreover have "nat (m' - m) = Suc (nat (m' - (m + 1)))" using h(1) by linarith
    ultimately show ?thesis by auto
  qed (use 2 in auto)
qed simp

lemma month_lengths_facts:
  "365 \<le> sum_list (month_lengths y)" "length (month_lengths y) = 12" "\<forall>l \<in> set (month_lengths y). l \<le> 31"
  by (simp_all add: month_lengths_def)

lemma civil_year_range:
  assumes "civil_year n = (y, k)" "0 \<le> n" "n < 3652059"
  shows "0 < y" "y < 10000"
proof -
  define q r where "q = (y - 1) div 400" and "r = (y - 1) mod 400"
  have y: "y = 400 * q + r + 1" "0 \<le> r" "r < 400" by (simp_all add: q_def r_def)
  have m: "(y - 1) mod 100 = r mod 100" "(y - 1) mod 4 = r mod 4" by (simp_all add: r_def mod_mod_cancel)
  note n = civil_year_bounds[OF assms(1), folded q_def r_def, unfolded m]
  have b: "0 \<le> r div 100" "r div 100 \<le> 3" "0 \<le> r mod 100 div 4" "r mod 100 div 4 \<le> 24"
    "0 \<le> r mod 4" "r mod 4 \<le> 3" using y(2,3) by linarith+
  have "0 \<le> q" using n b assms(2) by linarith
  then show "0 < y" using y by linarith
  have "q \<le> 24" using n b assms(3) by linarith
  moreover have "r \<noteq> 399" if "q = 24"
  proof
    assume "r = 399"
    then have "n = 3652059 + k" using n(3) that by simp
    then show False using n(1) assms(3) by linarith
  qed
  ultimately show "y < 10000" using y by (cases "q = 24") linarith+
qed

definition iso_fields where
  "iso_fields t y k m d h i s \<longleftrightarrow> civil_year (t div 86400 + EPOCH_DAY) = (y, k) \<and>
    (0 \<le> y \<and> y < 10 ^ 4 \<and> 0 \<le> m \<and> m < 10 ^ 2 \<and> 0 \<le> d + 1 \<and> d + 1 < 10 ^ 2) \<and>
    (0 \<le> h \<and> h < 10 ^ 2 \<and> 0 \<le> i \<and> i < 10 ^ 2 \<and> 0 \<le> s \<and> s < 10 ^ 2) \<and>
    k = sum_list (take (nat (m - 1)) (month_lengths y)) + d \<and> t mod 86400 = 3600 * h + 60 * i + s \<and>
    iso_seconds t = pad 4 y @ ''-'' @ pad 2 m @ ''-'' @ pad 2 (d + 1) @ ''T'' @ pad 2 h @
       '':'' @ pad 2 i @ '':'' @ pad 2 s"

lemma iso_fieldsD:
  assumes "iso_fields t y k m d h i s"
  shows "civil_year (t div 86400 + EPOCH_DAY) = (y, k)" "k = sum_list (take (nat (m - 1)) (month_lengths y)) + d"
    "t mod 86400 = 3600 * h + 60 * i + s"
    "iso_seconds t = pad 4 y @ ''-'' @ pad 2 m @ ''-'' @ pad 2 (d + 1) @ ''T'' @ pad 2 h @
       '':'' @ pad 2 i @ '':'' @ pad 2 s"
    "0 \<le> y" "y < 10 ^ 4" "0 \<le> m" "m < 10 ^ 2" "0 \<le> d + 1" "d + 1 < 10 ^ 2"
    "0 \<le> h" "h < 10 ^ 2" "0 \<le> i" "i < 10 ^ 2" "0 \<le> s" "s < 10 ^ 2"
proof -
  note f = assms[unfolded iso_fields_def]
  note f1 = conjunct2[OF f] note f2 = conjunct2[OF f1] note f3 = conjunct2[OF f2] note f4 = conjunct2[OF f3]
  show "civil_year (t div 86400 + EPOCH_DAY) = (y, k)" by (rule conjunct1[OF f])
  show "k = sum_list (take (nat (m - 1)) (month_lengths y)) + d" by (rule conjunct1[OF f3])
  show "t mod 86400 = 3600 * h + 60 * i + s" by (rule conjunct1[OF f4])
  show "iso_seconds t = pad 4 y @ ''-'' @ pad 2 m @ ''-'' @ pad 2 (d + 1) @ ''T'' @ pad 2 h @
       '':'' @ pad 2 i @ '':'' @ pad 2 s" by (rule conjunct2[OF f4])
qed (use assms in \<open>simp_all add: iso_fields_def\<close>)

lemma iso_parts:
  assumes "seconds_range t"
  shows "\<exists>y k m d h i s. iso_fields t y k m d h i s"
proof -
  obtain y k where y: "civil_year (t div 86400 + EPOCH_DAY) = (y, k)"
    by (cases "civil_year (t div 86400 + EPOCH_DAY)")
  obtain m d where m: "month_of (month_lengths y) 1 k = (m, d)" by (cases "month_of (month_lengths y) 1 k")
  have "0 \<le> t div 86400 + EPOCH_DAY" "t div 86400 + EPOCH_DAY < 3652059"
    using assms zdiv_mono1[of t 253402300799 86400] zdiv_mono1[of "- 62135596800" t 86400]
    unfolding seconds_range_def EPOCH_DAY_def by simp_all
  note yr = civil_year_range[OF y this]
  note b = civil_year_bounds(1,2)[OF y]
  have "k \<le> sum_list (month_lengths y)" using b(2) month_lengths_facts(1)[of y] by linarith
  note mo = month_of_sum[OF m b(1) this]
  have m1: "1 \<le> m" "m \<le> 1 + int (length (month_lengths y))" "0 \<le> d"
    "k = sum_list (take (nat (m - 1)) (month_lengths y)) + d" "d = 0 \<or> (\<exists>l \<in> set (month_lengths y). d < l)"
    using mo by blast+
  have d: "d < 31" using m1(5) month_lengths_facts(3)[of y] by (elim disjE bexE) (simp, fastforce)
  have "m \<le> 13" using m1(2) by (simp only: month_lengths_facts(2))
  then have ymd: "0 \<le> y \<and> y < 10 ^ 4 \<and> 0 \<le> m \<and> m < 10 ^ 2 \<and> 0 \<le> d + 1 \<and> d + 1 < 10 ^ 2"
    using yr d m1(1,3) by simp
  have hundred: "(10::int) ^ 2 = 100" by simp
  define x where "x = t mod 86400"
  have x: "0 \<le> x" "x < 86400" by (simp_all add: x_def)
  have "0 \<le> x div 3600" "x div 3600 < 100" "0 \<le> x mod 3600 div 60" "x mod 3600 div 60 < 100"
    "0 \<le> x mod 60" "x mod 60 < 100"
    using x zdiv_mono1[of x 86399 3600] zdiv_mono1[of "x mod 3600" 3599 60]
      pos_mod_bound[of 3600 x] pos_mod_bound[of 60 x]
    by (simp_all add: pos_imp_zdiv_nonneg_iff del: pos_mod_bound)
  then have hms: "0 \<le> x div 3600 \<and> x div 3600 < 10 ^ 2 \<and> 0 \<le> x mod 3600 div 60 \<and> x mod 3600 div 60 < 10 ^ 2 \<and>
      0 \<le> x mod 60 \<and> x mod 60 < 10 ^ 2" unfolding hundred by blast
  have "iso_seconds t = pad 4 y @ ''-'' @ pad 2 m @ ''-'' @ pad 2 (d + 1) @ ''T'' @ pad 2 (x div 3600) @
       '':'' @ pad 2 (x mod 3600 div 60) @ '':'' @ pad 2 (x mod 60)"
    unfolding iso_seconds_def Let_def y prod.case m x_def ..
  then have "iso_fields t y k m d (x div 3600) (x mod 3600 div 60) (x mod 60)"
    unfolding iso_fields_def using y ymd hms m1(4) clock_parts[of x] by (simp only: x_def[symmetric])
  then show ?thesis by (intro exI)
qed

lemma iso_seconds_prefix:
  assumes "iso_seconds t @ r = iso_seconds u @ z" "seconds_range t" "seconds_range u"
  shows "t = u \<and> r = z"
proof -
  obtain y k m d h i s where "iso_fields t y k m d h i s" using iso_parts[OF assms(2)] by blast
  note t = iso_fieldsD[OF this]
  obtain y' k' m' d' h' i' s' where "iso_fields u y' k' m' d' h' i' s'" using iso_parts[OF assms(3)] by blast
  note u = iso_fieldsD[OF this]
  note e0 = assms(1)[unfolded t(4) u(4) append_assoc]
  note e1 = pad_append[OF e0 t(5) u(5) t(6) u(6)]
  note e2 = pad_append[OF conjunct2[OF e1, unfolded same_append_eq] t(7) u(7) t(8) u(8)]
  note e3 = pad_append[OF conjunct2[OF e2, unfolded same_append_eq] t(9) u(9) t(10) u(10)]
  note e4 = pad_append[OF conjunct2[OF e3, unfolded same_append_eq] t(11) u(11) t(12) u(12)]
  note e5 = pad_append[OF conjunct2[OF e4, unfolded same_append_eq] t(13) u(13) t(14) u(14)]
  note e6 = pad_append[OF conjunct2[OF e5, unfolded same_append_eq] t(15) u(15) t(16) u(16)]
  have secs: "t mod 86400 = u mod 86400"
    unfolding t(3) u(3) conjunct1[OF e4] conjunct1[OF e5] conjunct1[OF e6] ..
  have "d = d'" using conjunct1[OF e3] by linarith
  then have "k = k'" unfolding t(2) u(2) conjunct1[OF e1] conjunct1[OF e2] by simp
  then have "t div 86400 + EPOCH_DAY = u div 86400 + EPOCH_DAY"
    by (intro civil_year_inj[OF t(1)]) (simp add: u(1) conjunct1[OF e1])
  then have "t = u" using secs mult_div_mod_eq[of 86400 t] mult_div_mod_eq[of 86400 u] by linarith
  moreover have "r = z" by (rule conjunct2[OF e6])
  ultimately show ?thesis by blast
qed

lemma datetime_seconds: "datetime_range t \<Longrightarrow> seconds_range (t div 1000000)"
  using zdiv_mono1[of "- 62135596800 * 1000000" t 1000000] zdiv_mono1[of t 253402300799999999 1000000]
  unfolding datetime_range_def seconds_range_def by simp

lemma iso_fraction_prefix:
  assumes "iso_fraction a @ ''+00:00'' @ r = iso_fraction b @ ''+00:00'' @ z"
    "0 \<le> a" "a < 1000000" "0 \<le> b" "b < 1000000"
  shows "a = b \<and> r = z"
proof (cases "a = 0")
  case True
  then show ?thesis using assms(1) by (auto simp: iso_fraction_def split: if_splits)
next
  case a: False
  then have b: "b \<noteq> 0" using assms(1) by (auto simp: iso_fraction_def split: if_splits)
  have "pad 6 a @ ''+00:00'' @ r = pad 6 b @ ''+00:00'' @ z" using assms(1) a b by (simp add: iso_fraction_def del: pad.simps)
  from pad_append[OF this assms(2,4)] assms(3,5) show ?thesis by simp
qed

lemma isoformat_prefix:
  assumes "isoformat t @ r = isoformat u @ z" "datetime_range t" "datetime_range u"
  shows "t = u \<and> r = z"
proof -
  have "iso_seconds (t div 1000000) @ iso_fraction (t mod 1000000) @ ''+00:00'' @ r =
      iso_seconds (u div 1000000) @ iso_fraction (u mod 1000000) @ ''+00:00'' @ z"
    using assms(1) by (simp add: isoformat_def)
  note s = iso_seconds_prefix[OF this datetime_seconds[OF assms(2)] datetime_seconds[OF assms(3)]]
  have "t mod 1000000 = u mod 1000000 \<and> r = z" by (rule iso_fraction_prefix[OF conjunct2[OF s]]) simp_all
  moreover have "t div 1000000 = u div 1000000" by (rule conjunct1[OF s])
  ultimately have "t = u" using mult_div_mod_eq[of 1000000 t] mult_div_mod_eq[of 1000000 u] by metis
  then show ?thesis using \<open>t mod 1000000 = u mod 1000000 \<and> r = z\<close> by blast
qed

lemma isoformat_inj: "datetime_range t \<Longrightarrow> datetime_range u \<Longrightarrow> isoformat t = isoformat u \<longleftrightarrow> t = u"
  using isoformat_prefix[of t "[]" u "[]"] by auto

end
