(* ===== verification/Replay_Repo.thy ===== *)
theory Replay_Repo imports Resume_Lifecycle Relay Py_Time begin

text \<open>
  Replay requests: \<^verbatim>\<open>shared/sdk/tasks/replay_request_model.py\<close> and
  \<^verbatim>\<open>replay_request_repository.py\<close> over the table \<^verbatim>\<open>replay_requests\<close> (migration 034) and the
  dead rows of the outbox. Row and advisory locks have no effect on one call at a time and are not
  modelled.
\<close>

section \<open>Model\<close>

definition REPLAY_STATES :: "string list" where
  "REPLAY_STATES = [''authorization_pending'', ''authorized'', ''executed'', ''rejected'', ''canceled'',
     ''expired'', ''failed'']"

definition REPLAY_ACTIVE_STATES :: "string list" where
  "REPLAY_ACTIVE_STATES = [''authorization_pending'', ''authorized'']"

definition REPLAY_TERMINAL_STATES :: "string list" where
  "REPLAY_TERMINAL_STATES = filter (\<lambda>s. s \<notin> set REPLAY_ACTIVE_STATES) REPLAY_STATES"

definition READINESS_READY :: string where "READINESS_READY = ''ready''"
definition READINESS_NOT_CONFIGURED :: string where "READINESS_NOT_CONFIGURED = ''not_configured''"
definition READINESS_UNHEALTHY :: string where "READINESS_UNHEALTHY = ''unhealthy''"
definition READINESS_DISABLED :: string where "READINESS_DISABLED = ''disabled''"
definition READINESS_UNKNOWN_DESTINATION :: string where
  "READINESS_UNKNOWN_DESTINATION = ''unknown_destination''"

definition READINESS_KINDS :: "string list" where
  "READINESS_KINDS = [READINESS_READY, READINESS_NOT_CONFIGURED, READINESS_UNHEALTHY,
     READINESS_DISABLED, READINESS_UNKNOWN_DESTINATION]"

definition REPLAY_REASON_CODES :: "string list" where
  "REPLAY_REASON_CODES =
    [''policy_allow'', ''policy_deny'', ''not_eligible'', ''not_dead'', ''already_published'',
     ''unknown_destination'', ''unknown_event_type'', ''active_request_exists'', ''already_authorized'',
     ''already_rejected'', ''already_canceled'', ''already_executed'', ''resource_not_found'',
     ''rbac_denied'', ''requester_cannot_approve'', ''two_person_required'', ''destination_unavailable'',
     ''production_approval_required'', ''rate_limited'', ''feature_disabled'',
     ''execution_gate_disabled'', ''stale_state'', ''invalid_transition'', ''conflict'',
     ''operator_requested'', ''operator_canceled'']"

definition MAX_RATE_LIMIT_WINDOW_HOURS :: int where "MAX_RATE_LIMIT_WINDOW_HOURS = 24 * 7"

definition assert_replay_reason_code :: "string option \<Rightarrow> string option outcome" where
  "assert_replay_reason_code code =
    (case code of None \<Rightarrow> Inr None
     | Some c \<Rightarrow> if c \<in> set REPLAY_REASON_CODES then Inr (Some c)
         else Inl (ValueError (''unknown replay reason_code: '' @ c)))"

definition replay_api_enabled :: "environment \<Rightarrow> bool" where
  "replay_api_enabled env = env_flag env ''BE3_REPLAY_API_ENABLED''"

definition replay_execution_enabled :: "environment \<Rightarrow> bool" where
  "replay_execution_enabled env = env_flag env ''BE3_REPLAY_EXECUTION_ENABLED''"

text \<open>
  Python's \<^verbatim>\<open>int(s)\<close> on stripped ASCII text: an optional sign, then digits with single underscores
  between them.
\<close>

fun int_digits :: "bool \<Rightarrow> int \<Rightarrow> string \<Rightarrow> int option" where
  "int_digits after_digit acc [] = (if after_digit then Some acc else None)"
| "int_digits after_digit acc (c # cs) =
     (if c = CHR ''_'' then (if after_digit then int_digits False acc cs else None)
      else if 48 \<le> (of_char c :: nat) \<and> (of_char c :: nat) \<le> 57
        then int_digits True (10 * acc + (of_char c - 48)) cs
      else None)"

definition py_int :: "string \<Rightarrow> int option" where
  "py_int s =
    (case s of [] \<Rightarrow> None
     | c # r \<Rightarrow> if c = CHR ''-'' then map_option uminus (int_digits False 0 r)
         else if c = CHR ''+'' then int_digits False 0 r
         else int_digits False 0 s)"

definition bounded_int_env :: "environment \<Rightarrow> string \<Rightarrow> int \<Rightarrow> int \<Rightarrow> int \<Rightarrow> int outcome" where
  "bounded_int_env env name fallback minimum maximum =
    (case env name of None \<Rightarrow> Inr fallback
     | Some raw \<Rightarrow>
        if py_strip raw = [] then Inr fallback
        else (case py_int (py_strip raw) of
            None \<Rightarrow> Inl (ValueError (name @ '' must be an integer''))
          | Some v \<Rightarrow> if minimum \<le> v \<and> v \<le> maximum then Inr v
              else Inl (ValueError (name @ '' must be within its bounds''))))"

definition max_successful_replays_per_event :: "environment \<Rightarrow> int outcome" where
  "max_successful_replays_per_event env = bounded_int_env env ''BE3_REPLAY_MAX_SUCCESSFUL_PER_EVENT'' 3 1 100"

definition rate_limit_window_hours :: "environment \<Rightarrow> int outcome" where
  "rate_limit_window_hours env =
     bounded_int_env env ''BE3_REPLAY_RATE_LIMIT_WINDOW_HOURS'' 24 1 MAX_RATE_LIMIT_WINDOW_HOURS"

definition max_requests_per_actor_per_window :: "environment \<Rightarrow> int outcome" where
  "max_requests_per_actor_per_window env = bounded_int_env env ''BE3_REPLAY_MAX_REQUESTS_PER_ACTOR'' 10 1 1000"

definition default_destination_readiness :: "string \<Rightarrow> string" where
  "default_destination_readiness destination =
    (if destination = DESTINATION_AUDIT then READINESS_NOT_CONFIGURED
     else if destination = DESTINATION_ORCHESTRATOR_COMMAND then READINESS_NOT_CONFIGURED
     else READINESS_UNKNOWN_DESTINATION)"

definition dead_episode_state_version :: "int option \<Rightarrow> int \<Rightarrow> string outcome" where
  "dead_episode_state_version dead_at attempts =
    (case dead_at of
       None \<Rightarrow> Inl (ValueError ''dead_episode_state_version requires a non-null dead_at'')
     | Some d \<Rightarrow> Inr (isoformat d @ '':'' @ int_text attempts))"

record replay_row =
  rpr_id :: string
  rpr_authorization_id :: string
  rpr_outbox_event_id :: string
  rpr_event_type :: string
  rpr_destination :: string
  rpr_team_id :: string
  rpr_project_id :: string
  rpr_resource_state_version :: string
  rpr_state :: string
  rpr_requested_by :: string
  rpr_requested_at :: int
  rpr_authorized_at :: "int option"
  rpr_executed_at :: "int option"
  rpr_rejected_at :: "int option"
  rpr_canceled_at :: "int option"
  rpr_expired_at :: "int option"
  rpr_failure_reason_code :: "string option"
  rpr_idempotency_key :: string
  rpr_created_at :: int
  rpr_updated_at :: int

type_synonym replay_table = "replay_row list"

definition replay_project_state :: "replay_row \<Rightarrow> string outcome" where
  "replay_project_state row =
    (if rpr_state row \<in> set REPLAY_STATES then Inr (rpr_state row)
     else Inl (ValueError (''unknown replay request state: '' @ rpr_state row)))"

definition REPLAY_SAFE_AUDIT_KEYS :: "string list" where
  "REPLAY_SAFE_AUDIT_KEYS =
    [''event'', ''replay_request_id'', ''authorization_id'', ''outbox_event_id'', ''event_type'',
     ''destination'', ''team_id'', ''project_id'', ''actor_id'', ''actor_role'', ''reason_code'',
     ''state'', ''resource_state_version'', ''attempts'', ''idempotency_key'', ''occurred_at'']"

definition build_replay_audit_payload :: "(string \<times> pval option) list \<Rightarrow> payload outcome" where
  "build_replay_audit_payload kwargs =
    (let p = some_fields kwargs in
     try_then (scan_payload REPLAY_SAFE_AUDIT_KEYS ''replay audit payload'' p) (\<lambda>_. Inr p))"

section \<open>Constraints\<close>

definition rpr_checks :: "replay_row \<Rightarrow> bool" where
  "rpr_checks r \<longleftrightarrow>
     rpr_state r \<in> set REPLAY_STATES \<and>
     btrim_nonempty (rpr_event_type r) \<and> btrim_nonempty (rpr_destination r) \<and>
     (rpr_authorized_at r = None \<or> rpr_state r \<in> {''authorized'', ''executed'', ''failed''}) \<and>
     (rpr_executed_at r = None \<or> rpr_state r = ''executed'') \<and>
     (rpr_rejected_at r = None \<or> rpr_state r = ''rejected'') \<and>
     (rpr_canceled_at r = None \<or> rpr_state r = ''canceled'') \<and>
     (rpr_expired_at r = None \<or> rpr_state r = ''expired'') \<and>
     bounded 64 (rpr_failure_reason_code r) \<and> length (rpr_requested_by r) \<le> 128 \<and>
     btrim_nonempty (rpr_resource_state_version r) \<and>
     1 \<le> length (rpr_idempotency_key r) \<and> length (rpr_idempotency_key r) \<le> 256 \<and>
     btrim_nonempty (rpr_idempotency_key r)"

definition rpr_active :: "replay_row \<Rightarrow> bool" where
  "rpr_active r \<longleftrightarrow> rpr_state r \<in> set REPLAY_ACTIVE_STATES"

definition rpr_in_scope :: "string option \<Rightarrow> string option \<Rightarrow> replay_row \<Rightarrow> bool" where
  "rpr_in_scope team project r \<longleftrightarrow> team = Some (rpr_team_id r) \<and> project = Some (rpr_project_id r)"

section \<open>The dead row\<close>

definition lock_outbox_event :: "string \<Rightarrow> outbox_table \<Rightarrow> outbox_row option" where
  "lock_outbox_event event_id t = fetchrow (\<lambda>r. ob_id r = event_id) t"

text \<open>The join of event, clarification and task, read as the task it finds.\<close>

definition resolve_event_scope ::
    "string \<Rightarrow> outbox_table \<Rightarrow> clarification list \<Rightarrow> task list \<Rightarrow> task option" where
  "resolve_event_scope event_id events cls tasks =
     fetchrow (\<lambda>k. list_ex (\<lambda>e. ob_id e = event_id \<and>
       list_ex (\<lambda>c. oc_id c = ob_clarification_id e \<and> ot_id k = oc_task_id c) cls) events) tasks"

text \<open>
  The adapter that requeues the dead row, guarded by its status and by the version of the episode.
  The update reads the clock \<open>now\<close>.
\<close>

definition replay_dead_row ::
    "int \<Rightarrow> string \<Rightarrow> string \<Rightarrow> outbox_table \<Rightarrow> (outbox_row option \<times> outbox_table) outcome" where
  "replay_dead_row now event_id expected t =
    (case fetchrow (\<lambda>r. ob_id r = event_id \<and> ob_status r = ''dead'') t of
       None \<Rightarrow> Inr (None, t)
     | Some row \<Rightarrow>
         try_then (dead_episode_state_version (ob_dead_at row) (ob_attempts row)) (\<lambda>current.
           if current \<noteq> expected then Inr (None, t)
           else checked_update ''clarification_lifecycle_outbox'' clo_checks (\<lambda>r. ob_id r = event_id)
             (replay_upd now (plan_replay_state (ob_attempts row))) t))"

section \<open>Replay requests\<close>

definition new_replay ::
    "uuid \<Rightarrow> int \<Rightarrow> uuid \<Rightarrow> uuid \<Rightarrow> string \<Rightarrow> string \<Rightarrow> uuid \<Rightarrow> uuid \<Rightarrow> string \<Rightarrow> string
     \<Rightarrow> string \<Rightarrow> replay_row" where
  "new_replay rid now authorization_id event_id event_type destination team project version
      requested_by idempotency_key =
    \<lparr>rpr_id = rid, rpr_authorization_id = authorization_id, rpr_outbox_event_id = event_id,
     rpr_event_type = event_type, rpr_destination = destination, rpr_team_id = team,
     rpr_project_id = project, rpr_resource_state_version = version,
     rpr_state = ''authorization_pending'', rpr_requested_by = requested_by, rpr_requested_at = now,
     rpr_authorized_at = None, rpr_executed_at = None, rpr_rejected_at = None,
     rpr_canceled_at = None, rpr_expired_at = None, rpr_failure_reason_code = None,
     rpr_idempotency_key = idempotency_key, rpr_created_at = now, rpr_updated_at = now\<rparr>"

definition insert_replay_request ::
    "uuid \<Rightarrow> int \<Rightarrow> uuid \<Rightarrow> uuid \<Rightarrow> string \<Rightarrow> string \<Rightarrow> uuid \<Rightarrow> uuid \<Rightarrow> string \<Rightarrow> string
     \<Rightarrow> string \<Rightarrow> replay_table \<Rightarrow> (replay_row \<times> replay_table) outcome" where
  "insert_replay_request rid now authorization_id event_id event_type destination team project version
      requested_by idempotency_key t =
    (if team = [] \<or> project = [] then Inl (DataError ''invalid UUID'')
     else
      let row = new_replay rid now authorization_id event_id event_type destination team project
          version requested_by idempotency_key
      in if \<not> rpr_checks row then Inl (CheckViolation ''replay_requests'')
         else if list_ex (\<lambda>r. rpr_id r = rid) t then Inl (UniqueViolation ''replay_requests_pkey'')
         else if list_ex (\<lambda>r. rpr_idempotency_key r = idempotency_key) t
           then Inl (UniqueViolation ''uq_rpr_idempotency_key'')
         else if list_ex (\<lambda>r. rpr_active r \<and> rpr_outbox_event_id r = event_id) t
           then Inl (UniqueViolation ''uq_rpr_active_per_event'')
         else Inr (row, t @ [row]))"

definition get_replay_request_by_idempotency_key :: "string \<Rightarrow> replay_table \<Rightarrow> replay_row option" where
  "get_replay_request_by_idempotency_key k t = fetchrow (\<lambda>r. rpr_idempotency_key r = k) t"

definition repo_get_replay_request ::
    "string \<Rightarrow> string option \<Rightarrow> string option \<Rightarrow> replay_table \<Rightarrow> replay_row option" where
  "repo_get_replay_request rid team project t =
     fetchrow (\<lambda>r. rpr_id r = rid \<and> rpr_in_scope team project r) t"

definition lock_replay_request ::
    "string \<Rightarrow> string option \<Rightarrow> string option \<Rightarrow> replay_table \<Rightarrow> replay_row option" where
  "lock_replay_request rid team project t =
     fetchrow (\<lambda>r. rpr_id r = rid \<and> rpr_in_scope team project r) t"

definition get_replay_request_internal :: "string \<Rightarrow> replay_table \<Rightarrow> replay_row option" where
  "get_replay_request_internal rid t = fetchrow (\<lambda>r. rpr_id r = rid) t"

datatype replay_op = ReplayAuthorize | ReplayReject string | ReplayCancel | ReplayExecute

fun replay_from :: "replay_op \<Rightarrow> string" where
  "replay_from ReplayExecute = ''authorized''"
| "replay_from _ = ''authorization_pending''"

fun replay_set :: "replay_op \<Rightarrow> int \<Rightarrow> replay_row \<Rightarrow> replay_row" where
  "replay_set ReplayAuthorize now r =
     r\<lparr>rpr_state := ''authorized'', rpr_authorized_at := Some now, rpr_updated_at := now\<rparr>"
| "replay_set (ReplayReject reason) now r =
     r\<lparr>rpr_state := ''rejected'', rpr_rejected_at := Some now, rpr_failure_reason_code := Some reason,
       rpr_updated_at := now\<rparr>"
| "replay_set ReplayCancel now r =
     r\<lparr>rpr_state := ''canceled'', rpr_canceled_at := Some now, rpr_updated_at := now\<rparr>"
| "replay_set ReplayExecute now r =
     r\<lparr>rpr_state := ''executed'', rpr_executed_at := Some now, rpr_updated_at := now\<rparr>"

text \<open>A transition is the operation, its clock, and the scope of the caller.\<close>

type_synonym replay_call = "replay_op \<times> int \<times> string option \<times> string option"

fun replay_guard :: "replay_call \<Rightarrow> replay_row \<Rightarrow> bool" where
  "replay_guard (p, now, team, project) r \<longleftrightarrow> rpr_state r = replay_from p \<and> rpr_in_scope team project r"

fun replay_move :: "replay_call \<Rightarrow> replay_row \<Rightarrow> replay_row" where
  "replay_move (p, now, team, project) r = replay_set p now r"

definition replay_transition ::
    "replay_call \<Rightarrow> string \<Rightarrow> replay_table \<Rightarrow> (replay_row option \<times> replay_table) outcome" where
  "replay_transition c rid t =
     checked_update ''replay_requests'' rpr_checks (\<lambda>r. rpr_id r = rid \<and> replay_guard c r) (replay_move c) t"

definition replay_to_authorized where
  "replay_to_authorized now rid team project = replay_transition (ReplayAuthorize, now, team, project) rid"

definition replay_to_rejected where
  "replay_to_rejected now rid reason team project =
     replay_transition (ReplayReject reason, now, team, project) rid"

definition replay_to_canceled where
  "replay_to_canceled now rid team project = replay_transition (ReplayCancel, now, team, project) rid"

definition replay_to_executed where
  "replay_to_executed now rid team project = replay_transition (ReplayExecute, now, team, project) rid"

section \<open>The expiry scan\<close>

definition replay_expirable :: "replay_row \<Rightarrow> bool" where
  "replay_expirable r \<longleftrightarrow> rpr_state r \<in> {''authorization_pending'', ''authorized''}"

definition replay_expiry_due :: "auth_table \<Rightarrow> int \<Rightarrow> replay_row \<Rightarrow> bool" where
  "replay_expiry_due auths before r \<longleftrightarrow> replay_expirable r \<and>
     list_ex (\<lambda>a. ra_authorization_id a = rpr_authorization_id r \<and> ra_expires_at a \<le> before) auths"

definition expire_replay_upd :: "int \<Rightarrow> replay_row \<Rightarrow> replay_row" where
  "expire_replay_upd now r = r\<lparr>rpr_state := ''expired'', rpr_expired_at := Some now, rpr_updated_at := now\<rparr>"

text \<open>\<open>visit\<close> is the order in which the database visits the rows of the inner query, as for resumes.\<close>

definition expire_due_replay_requests ::
    "(replay_table \<Rightarrow> replay_table) \<Rightarrow> int \<Rightarrow> int \<Rightarrow> nat \<Rightarrow> auth_table \<Rightarrow> replay_table
     \<Rightarrow> (nat \<times> replay_table) outcome" where
  "expire_due_replay_requests visit now before limit auths t =
    (let picked = map rpr_id (take limit (filter replay_expirable (visit t)));
         p = (\<lambda>r. replay_expiry_due auths before r \<and> rpr_id r \<in> set picked)
     in try_then (checked_update ''replay_requests'' rpr_checks p (expire_replay_upd now) t)
          (\<lambda>(_, t'). Inr (length (filter p t), t')))"

section \<open>Rate limits\<close>

definition requests_in_window :: "string \<Rightarrow> string \<Rightarrow> string \<Rightarrow> int \<Rightarrow> replay_table \<Rightarrow> nat" where
  "requests_in_window actor_id team project since t =
     length (filter (\<lambda>r. rpr_requested_by r = actor_id \<and> rpr_team_id r = team \<and>
       rpr_project_id r = project \<and> since \<le> rpr_requested_at r) t)"

definition count_recent_requests_by_actor ::
    "int \<Rightarrow> string \<Rightarrow> string \<Rightarrow> string \<Rightarrow> int \<Rightarrow> replay_table \<Rightarrow> int outcome" where
  "count_recent_requests_by_actor now actor_id team project window_hours t =
    (if team = [] \<or> project = [] then Inl (DataError ''invalid UUID'')
     else Inr (int (requests_in_window actor_id team project (now - seconds (3600 * window_hours)) t)))"

definition count_successful_replays_for_event :: "int \<Rightarrow> string \<Rightarrow> int \<Rightarrow> replay_table \<Rightarrow> int" where
  "count_successful_replays_for_event now event_id window_hours t =
     int (length (filter (\<lambda>r. rpr_outbox_event_id r = event_id \<and> rpr_state r = ''executed'' \<and>
       (case rpr_executed_at r of None \<Rightarrow> False | Some x \<Rightarrow> now - seconds (3600 * window_hours) \<le> x)) t))"

end
