(* ===== verification/Replay_Lifecycle.thy ===== *)
theory Replay_Lifecycle imports Replay_Repo begin

text \<open>
  The life cycle of replay requests under any interleaving of repository statements, on the locales
  of \<^verbatim>\<open>Request_Table\<close>; and the version text of a dead episode, which determines the episode.
\<close>

section \<open>Statements as compare-and-set\<close>

lemma replay_move_keys [simp]:
  "rpr_id (replay_move c r) = rpr_id r" "rpr_idempotency_key (replay_move c r) = rpr_idempotency_key r"
  "rpr_outbox_event_id (replay_move c r) = rpr_outbox_event_id r"
  by (cases c; cases "fst c"; simp)+

interpretation replays: exclusive_cas rpr_id "\<lambda>c r. fst c = ReplayExecute \<and> replay_guard c r" replay_move
  by unfold_locales (auto simp: replay_move_keys)

interpretation replay_moves: keyed_cas rpr_id replay_guard replay_move
  by unfold_locales simp

lemma replay_transition_Inr:
  "replay_transition c rid t = Inr x \<longleftrightarrow> x = cas rpr_id replay_guard replay_move c rid t \<and>
     (\<forall>r \<in> set t. rpr_id r = rid \<and> replay_guard c r \<longrightarrow> rpr_checks (replay_move c r))"
  by (simp add: replay_transition_def checked_update_Inr cas_def)

section \<open>The state machine\<close>

inductive replay_life :: "string \<Rightarrow> string \<Rightarrow> bool" where
  authorize: "replay_life ''authorization_pending'' ''authorized''"
| reject: "replay_life ''authorization_pending'' ''rejected''"
| cancel: "replay_life ''authorization_pending'' ''canceled''"
| expire: "replay_life ''authorization_pending'' ''expired''"
| execute: "replay_life ''authorized'' ''executed''"

inductive_cases replay_lifeE: "replay_life a b"

lemma replay_life_terminal: "replay_life a b \<Longrightarrow> a \<notin> set REPLAY_TERMINAL_STATES"
  by (auto simp: REPLAY_TERMINAL_STATES_def REPLAY_STATES_def REPLAY_ACTIVE_STATES_def elim: replay_lifeE)

inductive replay_step :: "replay_table \<Rightarrow> replay_table \<Rightarrow> bool" where
  create: "insert_replay_request rid now aid ev ty dest team project ver who key t = Inr (row, t') \<Longrightarrow> replay_step t t'"
| move: "replay_transition c rid t = Inr (x, t') \<Longrightarrow> replay_step t t'"
| expire: "expire_due_replay_requests visit now before limit auths t = Inr (n, t') \<Longrightarrow> replay_step t t'"

definition rpr_wf :: "replay_row \<Rightarrow> bool" where
  "rpr_wf r \<longleftrightarrow> rpr_checks r \<and>
     (rpr_state r \<in> {''authorized'', ''executed''} \<longrightarrow> rpr_authorized_at r \<noteq> None) \<and>
     (rpr_state r = ''executed'' \<longrightarrow> rpr_executed_at r \<noteq> None) \<and>
     (rpr_state r = ''rejected'' \<longrightarrow> rpr_rejected_at r \<noteq> None) \<and>
     (rpr_state r = ''canceled'' \<longrightarrow> rpr_canceled_at r \<noteq> None) \<and>
     (rpr_state r = ''expired'' \<longrightarrow> rpr_expired_at r \<noteq> None)"

definition rpr_identity where
  "rpr_identity r = ((rpr_id r, rpr_authorization_id r, rpr_outbox_event_id r, rpr_event_type r),
     (rpr_destination r, rpr_team_id r, rpr_project_id r, rpr_resource_state_version r),
     (rpr_requested_by r, rpr_requested_at r, rpr_idempotency_key r))"

lemma rpr_active_iff:
  "rpr_active r \<longleftrightarrow> rpr_state r = ''authorization_pending'' \<or> rpr_state r = ''authorized''"
  by (simp add: rpr_active_def REPLAY_ACTIVE_STATES_def)

lemma rpr_wf_checks: "rpr_wf r \<Longrightarrow> rpr_checks r"
  by (simp add: rpr_wf_def)

lemma rpr_wf_authorized_at: "rpr_wf r \<Longrightarrow> rpr_state r = ''authorized'' \<Longrightarrow> rpr_authorized_at r \<noteq> None"
  by (simp add: rpr_wf_def)

definition rpr_moves :: "replay_row \<Rightarrow> replay_row \<Rightarrow> bool" where
  "rpr_moves r r' \<longleftrightarrow> rpr_identity r' = rpr_identity r \<and> rpr_wf r' \<and>
     (r' = r \<or> replay_life (rpr_state r) (rpr_state r'))"

text \<open>A statement that passes its guard moves a sound row along the machine to a sound row.\<close>

lemma replay_set_moves:
  assumes "rpr_wf r" "rpr_state r = replay_from p" "rpr_checks (replay_set p now r)"
  shows "rpr_moves r (replay_set p now r)"
  using assms by (cases p) (simp_all add: rpr_moves_def rpr_wf_def rpr_identity_def replay_life.intros)

lemma expired_replay_checks: "rpr_checks (expire_replay_upd now r) \<Longrightarrow> rpr_authorized_at r = None"
  by (auto simp: rpr_checks_def expire_replay_upd_def)

lemma expire_replay_moves:
  assumes "rpr_wf r" "replay_expirable r" "rpr_checks (expire_replay_upd now r)"
  shows "rpr_moves r (expire_replay_upd now r)"
proof -
  have "rpr_state r \<noteq> ''authorized''"
    using expired_replay_checks[OF assms(3)] rpr_wf_authorized_at[OF assms(1)] by auto
  then have "rpr_state r = ''authorization_pending''" using assms(2) by (simp add: replay_expirable_def)
  then show ?thesis using assms(3)
    by (simp add: rpr_moves_def rpr_wf_def rpr_identity_def expire_replay_upd_def replay_life.intros)
qed

definition replay_picks ::
    "(replay_table \<Rightarrow> replay_table) \<Rightarrow> int \<Rightarrow> nat \<Rightarrow> auth_table \<Rightarrow> replay_table \<Rightarrow> replay_row \<Rightarrow> bool" where
  "replay_picks visit before limit auths t r \<longleftrightarrow> replay_expiry_due auths before r \<and>
     rpr_id r \<in> set (map rpr_id (take limit (filter replay_expirable (visit t))))"

lemma expire_replay_eq:
  "expire_due_replay_requests visit now before limit auths t =
    (if list_ex (\<lambda>r. replay_picks visit before limit auths t r \<and> \<not> rpr_checks (expire_replay_upd now r)) t
     then Inl (CheckViolation ''replay_requests'')
     else Inr (length (filter (replay_picks visit before limit auths t) t),
       update_where (replay_picks visit before limit auths t) (expire_replay_upd now) t))"
  unfolding expire_due_replay_requests_def checked_update_def replay_picks_def[abs_def] Let_def
  by (simp add: update_returning_def)

lemma insert_replay_Inr:
  assumes "insert_replay_request rid now aid ev ty dest team project ver who key t = Inr (row, t')"
  shows "t' = t @ [row]" "rpr_checks row" "row = new_replay rid now aid ev ty dest team project ver who key"
    "rid \<notin> rpr_id ` set t" "key \<notin> rpr_idempotency_key ` set t"
    "\<forall>r \<in> set t. rpr_active r \<longrightarrow> rpr_outbox_event_id r \<noteq> ev" "team \<noteq> []" "project \<noteq> []"
  using assms unfolding insert_replay_request_def
  by (auto simp: Let_def list_ex_iff split: if_split_asm)

section \<open>Interpretation of the shared table\<close>

lemma rpr_identityD:
  "rpr_identity r' = rpr_identity r \<Longrightarrow> rpr_id r' = rpr_id r \<and>
     rpr_idempotency_key r' = rpr_idempotency_key r \<and> rpr_outbox_event_id r' = rpr_outbox_event_id r"
  by (simp add: rpr_identity_def)

lemma replay_life_active: "replay_life (rpr_state r) (rpr_state r') \<Longrightarrow> rpr_active r' \<Longrightarrow> rpr_active r"
  by (auto simp: rpr_active_iff elim: replay_lifeE)

interpretation replay_table: request_table rpr_id rpr_idempotency_key rpr_outbox_event_id rpr_active rpr_wf rpr_moves
  by unfold_locales (auto simp: rpr_moves_def dest: rpr_identityD replay_life_active)

definition rpr_inv :: "replay_table \<Rightarrow> bool" where
  "rpr_inv t \<longleftrightarrow> distinct (map rpr_id t) \<and> distinct (map rpr_idempotency_key t) \<and> (\<forall>r \<in> set t. rpr_wf r) \<and>
     (\<forall>r \<in> set t. \<forall>r' \<in> set t. rpr_active r \<and> rpr_active r' \<and>
        rpr_outbox_event_id r = rpr_outbox_event_id r' \<longrightarrow> rpr_id r = rpr_id r')"

lemma rpr_inv_eq: "rpr_inv t = replay_table.table_inv t"
  by (simp add: rpr_inv_def replay_table.table_inv_def replay_table.one_active_def)

lemma rpr_inv_wf: "rpr_inv t \<Longrightarrow> r \<in> set t \<Longrightarrow> rpr_wf r"
  by (simp add: rpr_inv_def)

lemma update_where_moves:
  assumes "\<And>r. r \<in> set t \<Longrightarrow> rpr_wf r" "\<And>r. r \<in> set t \<Longrightarrow> p r \<Longrightarrow> rpr_moves r (f r)"
  shows "\<exists>g. update_where p f t = map g t \<and> (\<forall>r \<in> set t. rpr_moves r (g r))"
proof (intro exI conjI ballI)
  show "update_where p f t = map (\<lambda>r. if p r then f r else r) t" by (simp add: update_where_def)
  show "rpr_moves r (if p r then f r else r)" if "r \<in> set t" for r
    using assms that by (auto simp: rpr_moves_def)
qed

interpretation replay_history: request_history rpr_id rpr_idempotency_key rpr_outbox_event_id rpr_active rpr_wf
    rpr_moves "\<lambda>r. rpr_state r = ''authorization_pending''" replay_step
proof unfold_locales
  show "rpr_wf r \<Longrightarrow> rpr_moves r r" for r by (simp add: rpr_moves_def)
  fix t t' assume st: "replay_step t t'" and inv: "replay_table.table_inv t"
  have wf: "rpr_wf r" if "r \<in> set t" for r using inv that by (rule replay_table.table_inv_sound)
  from st show "(\<exists>row. t' = t @ [row] \<and> replay_table.fresh_for t row \<and> rpr_state row = ''authorization_pending'') \<or>
      (\<exists>g. t' = map g t \<and> (\<forall>r \<in> set t. rpr_moves r (g r)))"
  proof cases
    case (create rid now aid ev ty dest team project ver who key row)
    note ins = insert_replay_Inr[OF create]
    have "rpr_wf row" using ins(2) unfolding rpr_wf_def ins(3) by (simp add: new_replay_def)
    then have "replay_table.fresh_for t row"
      using ins(4-6) unfolding replay_table.fresh_for_def ins(3) by (simp add: new_replay_def)
    then show ?thesis using ins(1,3) by (auto simp: new_replay_def)
  next
    case (move c rid x)
    obtain p now team project where c: "c = (p, now, team, project)" by (cases c)
    have t': "t' = update_where (\<lambda>r. rpr_id r = rid \<and> replay_guard c r) (replay_move c) t"
      and chk: "\<forall>r \<in> set t. rpr_id r = rid \<and> replay_guard c r \<longrightarrow> rpr_checks (replay_move c r)"
      using move by (auto simp: replay_transition_Inr cas_def update_returning_def)
    have "rpr_moves r (replay_move c r)" if "r \<in> set t" "rpr_id r = rid \<and> replay_guard c r" for r
      using chk that replay_set_moves[OF wf[OF that(1)]] by (simp add: c)
    then show ?thesis unfolding t' by (intro disjI2 update_where_moves wf)
  next
    case (expire visit now before limit auths n)
    then have t': "t' = update_where (replay_picks visit before limit auths t) (expire_replay_upd now) t"
      and chk: "\<forall>r \<in> set t. replay_picks visit before limit auths t r \<longrightarrow> rpr_checks (expire_replay_upd now r)"
      by (auto simp: expire_replay_eq list_ex_iff split: if_split_asm)
    have "rpr_moves r (expire_replay_upd now r)" if "r \<in> set t" "replay_picks visit before limit auths t r" for r
      using chk that expire_replay_moves[OF wf[OF that(1)]] by (auto simp: replay_picks_def replay_expiry_due_def)
    then show ?thesis unfolding t' by (intro disjI2 update_where_moves wf)
  qed
qed

lemma replay_step_inv: "replay_step t t' \<Longrightarrow> rpr_inv t \<Longrightarrow> rpr_inv t'"
  unfolding rpr_inv_eq by (rule replay_history.step_inv)

lemma rpr_inv_row: "rpr_inv t \<Longrightarrow> r \<in> set t \<Longrightarrow> r' \<in> set t \<Longrightarrow> rpr_id r = rpr_id r' \<Longrightarrow> r = r'"
  unfolding rpr_inv_eq by (rule replay_table.table_inv_row)

end
