(* ===== verification/Replay.thy ===== *)
theory Replay imports Replay_Lifecycle begin

text \<open>
  The replay service (\<^verbatim>\<open>shared/sdk/tasks/replay_service.py\<close>): an operator requests to requeue a
  dead outbox event, a second person decides, and the service identity executes it once the event's
  destination is ready. The authorization service is the one of the resumes, with the action
  \<^verbatim>\<open>replay\<close>. A call returns a result and the new database, or raises, which rolls the caller's
  transaction back.
\<close>

record replay_db = resume_db +
  db_replays :: replay_table

record replay_result =
  yr_ok :: bool
  yr_result_kind :: string
  yr_reason_code :: string
  yr_replay_request :: "replay_row option"

definition ReplayResult :: "bool \<Rightarrow> string \<Rightarrow> string \<Rightarrow> replay_row option \<Rightarrow> replay_result" where
  "ReplayResult k kind reason rr =
     \<lparr>yr_ok = k, yr_result_kind = kind, yr_reason_code = reason, yr_replay_request = rr\<rparr>"

lemma ReplayResult_sel [simp]:
  "yr_ok (ReplayResult k kind reason rr) = k"
  "yr_result_kind (ReplayResult k kind reason rr) = kind"
  "yr_reason_code (ReplayResult k kind reason rr) = reason"
  "yr_replay_request (ReplayResult k kind reason rr) = rr"
  by (simp_all add: ReplayResult_def)

definition yr_deny :: "string \<Rightarrow> string \<Rightarrow> replay_result" where
  "yr_deny kind reason = ReplayResult False kind reason None"

lemma yr_deny_sel [simp]:
  "\<not> yr_ok (yr_deny kind reason)" "yr_result_kind (yr_deny kind reason) = kind"
  "yr_reason_code (yr_deny kind reason) = reason"
  by (simp_all add: yr_deny_def)

definition replay_masked :: replay_result where
  "replay_masked = yr_deny ''not_found_masked'' ''resource_not_found''"

lemma replay_masked_not_ok [simp]: "\<not> yr_ok replay_masked"
  by (simp add: replay_masked_def)

definition result_state :: "replay_result \<Rightarrow> string option outcome" where
  "result_state res =
    (case yr_replay_request res of None \<Rightarrow> Inr None
     | Some rr \<Rightarrow> try_then (replay_project_state rr) (\<lambda>s. Inr (Some s)))"

text \<open>The ids a request generates.\<close>

record replay_ids =
  yi_authorization :: string
  yi_auth_request :: string
  yi_replay :: string
  yi_event :: string

definition replay_emit ::
    "string \<Rightarrow> int \<Rightarrow> int \<Rightarrow> string \<Rightarrow> string \<Rightarrow> string \<Rightarrow> string \<Rightarrow> payload \<Rightarrow> replay_db
     \<Rightarrow> (outbox_row \<times> replay_db) outcome" where
  "replay_emit eid started now clarification_id task_id event_type idempotency_key payload s =
    try_then (insert_lifecycle_outbox_event eid started now clarification_id task_id event_type
        idempotency_key (Some payload) (db_outbox s))
      (\<lambda>(row, t'). Inr (row, s\<lparr>db_outbox := t'\<rparr>))"

definition dead_eligibility_denial :: "outbox_row \<Rightarrow> replay_result option" where
  "dead_eligibility_denial ev =
    (if ob_status ev = ''published'' then Some (yr_deny ''not_eligible'' ''already_published'')
     else if ob_status ev \<noteq> ''dead'' then Some (yr_deny ''not_eligible'' ''not_dead'')
     else if ob_event_type ev \<notin> set ALLOWED_EVENT_TYPES
     then Some (yr_deny ''not_eligible'' ''unknown_event_type'')
     else case destination_for_event_type (ob_event_type ev) of
       Inl (ValueError _) \<Rightarrow> Some (yr_deny ''not_eligible'' ''unknown_destination'')
     | _ \<Rightarrow> None)"

section \<open>Requesting\<close>

text \<open>
  \<open>ts 0\<close> is the start of the transaction, \<open>ts 1\<close> and \<open>ts 2\<close> the clocks of the two counts, \<open>ts 3\<close> and
  \<open>ts 4\<close> those of the authorization, \<open>ts 5\<close> that of the request row, \<open>ts 6\<close> that of the event.
\<close>

definition replay_rate_limited ::
    "environment \<Rightarrow> (nat \<Rightarrow> int) \<Rightarrow> actor \<Rightarrow> scope \<Rightarrow> string \<Rightarrow> replay_table \<Rightarrow> bool outcome" where
  "replay_rate_limited env ts a sc event_id t =
    try_then (rate_limit_window_hours env) (\<lambda>window.
    try_then (count_recent_requests_by_actor (ts 1) (principal_id a) (or_empty (team_id sc))
        (or_empty (project_id sc)) window t) (\<lambda>actor_count.
    try_then (max_requests_per_actor_per_window env) (\<lambda>actor_max.
      if actor_count \<ge> actor_max then Inr True
      else let success_count = count_successful_replays_for_event (ts 2) event_id window t in
        try_then (max_successful_replays_per_event env) (\<lambda>success_max.
          Inr (success_count \<ge> success_max)))))"

text \<open>The body of the savepoint: the two-person authorization, and the request bound to it.\<close>

definition create_replay ::
    "replay_ids \<Rightarrow> (nat \<Rightarrow> int) \<Rightarrow> actor \<Rightarrow> scope \<Rightarrow> outbox_row \<Rightarrow> string \<Rightarrow> string \<Rightarrow> bool \<Rightarrow> string
     \<Rightarrow> int \<Rightarrow> string option \<Rightarrow> replay_db
     \<Rightarrow> ((service_result \<times> replay_row option) \<times> replay_db) outcome" where
  "create_replay ids ts a sc ev version destination production_effect idempotency_key expires_at
      reference s =
    try_then (request_authorization (\<lambda>k. ts (k + 3)) (yi_authorization ids) (yi_auth_request ids)
        a sc sc ''replay'' ''outbox_event'' (ob_id ev) version expires_at
        (''replay-auth:'' @ ob_id ev @ '':'' @ idempotency_key) production_effect reference s)
      (\<lambda>(auth, s1).
        case (sr_ok auth, sr_authorization auth) of
          (True, Some authz) \<Rightarrow>
            try_then (insert_replay_request (yi_replay ids) (ts 5) (ra_authorization_id authz) (ob_id ev)
                (ob_event_type ev) destination (or_empty (team_id sc)) (or_empty (project_id sc)) version
                (principal_id a) idempotency_key (db_replays s1))
              (\<lambda>(rr, rrs). Inr ((auth, Some rr), s1\<lparr>db_replays := rrs\<rparr>))
        | _ \<Rightarrow> Inr ((auth, None), s1))"

definition submit_replay ::
    "replay_ids \<Rightarrow> (nat \<Rightarrow> int) \<Rightarrow> actor \<Rightarrow> scope \<Rightarrow> outbox_row \<Rightarrow> task \<Rightarrow> string \<Rightarrow> int
     \<Rightarrow> string option \<Rightarrow> replay_db \<Rightarrow> (replay_result \<times> replay_db) outcome" where
  "submit_replay ids ts a sc ev tk idempotency_key expires_at reference s =
    try_then (dead_episode_state_version (ob_dead_at ev) (ob_attempts ev)) (\<lambda>version.
    try_then (destination_for_event_type (ob_event_type ev)) (\<lambda>destination.
      case create_replay ids ts a sc ev version destination (ot_production_effect tk) idempotency_key
          expires_at reference s of
        Inl (UniqueViolation _) \<Rightarrow> Inr (yr_deny ''conflict'' ''active_request_exists'', s)
      | Inl e \<Rightarrow> Inl e
      | Inr ((auth, None), s1) \<Rightarrow>
          Inr (if sr_result_kind auth = ''conflict''
            then yr_deny ''conflict'' ''active_request_exists''
            else yr_deny (sr_result_kind auth) (sr_reason_code auth), s1)
      | Inr ((auth, Some rr), s1) \<Rightarrow>
          try_then (replay_emit (yi_event ids) (ts 0) (ts 6) (ob_clarification_id ev) (ob_task_id ev)
              ''replay.requested'' (''replay-requested:'' @ ob_id ev @ '':'' @ rpr_id rr)
              [(''replay_request_id'', PStr (rpr_id rr)), (''outbox_event_id'', PStr (ob_id ev)),
               (''destination'', PStr destination), (''reason'', PStr ''operator_requested'')] s1)
            (\<lambda>(_, s2). Inr (ReplayResult True ''ok'' ''operator_requested'' (Some rr), s2))))"

definition request_replay ::
    "environment \<Rightarrow> replay_ids \<Rightarrow> (nat \<Rightarrow> int) \<Rightarrow> actor \<Rightarrow> scope \<Rightarrow> string \<Rightarrow> string \<Rightarrow> int
     \<Rightarrow> string option \<Rightarrow> replay_db \<Rightarrow> (replay_result \<times> replay_db) outcome" where
  "request_replay env ids ts a sc event_id idempotency_key expires_at reference s =
    (if \<not> replay_api_enabled env then Inr (yr_deny ''feature_disabled'' ''feature_disabled'', s)
     else case get_replay_request_by_idempotency_key idempotency_key (db_replays s) of
       Some existing \<Rightarrow>
         if rpr_team_id existing \<noteq> or_empty (team_id sc) \<or> rpr_project_id existing \<noteq> or_empty (project_id sc)
         then Inr (replay_masked, s)
         else Inr (ReplayResult True ''ok'' ''operator_requested'' (Some existing), s)
     | None \<Rightarrow>
        (let pre = evaluate ''request_replay'' a sc sc None False None in
         if \<not> allowed pre then Inr (yr_deny (result_kind pre) (reason_code pre), s)
         else case lock_outbox_event event_id (db_outbox s) of
           None \<Rightarrow> Inr (replay_masked, s)
         | Some ev \<Rightarrow>
           (case resolve_event_scope event_id (db_outbox s) (db_clarifications s) (db_tasks s) of
              None \<Rightarrow> Inr (replay_masked, s)
            | Some tk \<Rightarrow>
                if ot_project_id tk \<noteq> None \<and> ot_project_id tk \<noteq> Some (or_empty (project_id sc))
                then Inr (replay_masked, s)
                else (case dead_eligibility_denial ev of
                  Some d \<Rightarrow> Inr (d, s)
                | None \<Rightarrow>
                    try_then (replay_rate_limited env ts a sc event_id (db_replays s)) (\<lambda>limited.
                      if limited then Inr (yr_deny ''rate_limited'' ''rate_limited'', s)
                      else submit_replay ids ts a sc ev tk idempotency_key expires_at reference s)))))"

section \<open>Deciding\<close>

definition load_replay :: "string \<Rightarrow> scope \<Rightarrow> replay_db \<Rightarrow> replay_row option" where
  "load_replay rid sc s = lock_replay_request rid (team_id sc) (project_id sc) (db_replays s)"

definition get_replay :: "string \<Rightarrow> scope \<Rightarrow> replay_db \<Rightarrow> replay_result" where
  "get_replay rid sc s =
    (case repo_get_replay_request rid (team_id sc) (project_id sc) (db_replays s) of
       None \<Rightarrow> replay_masked
     | Some rr \<Rightarrow> ReplayResult True ''ok'' ''ok'' (Some rr))"

text \<open>The locked event of a request, eligible and still in the episode the request was made for.\<close>

definition revalidate_event :: "replay_row \<Rightarrow> replay_db \<Rightarrow> (replay_result + outbox_row) outcome" where
  "revalidate_event rr s =
    (case lock_outbox_event (rpr_outbox_event_id rr) (db_outbox s) of
       None \<Rightarrow> Inr (Inl replay_masked)
     | Some ev \<Rightarrow>
        (case dead_eligibility_denial ev of
           Some d \<Rightarrow> Inr (Inl d)
         | None \<Rightarrow>
            try_then (dead_episode_state_version (ob_dead_at ev) (ob_attempts ev)) (\<lambda>current.
              if current \<noteq> rpr_resource_state_version rr
              then Inr (Inl (yr_deny ''stale_state'' ''stale_state''))
              else Inr (Inr ev))))"

definition authorize_replay ::
    "environment \<Rightarrow> string \<Rightarrow> (nat \<Rightarrow> int) \<Rightarrow> string \<Rightarrow> actor \<Rightarrow> scope \<Rightarrow> string \<Rightarrow> replay_db
     \<Rightarrow> (replay_result \<times> replay_db) outcome" where
  "authorize_replay env eid ts rid a sc policy_version s =
    (if \<not> replay_api_enabled env then Inr (yr_deny ''feature_disabled'' ''feature_disabled'', s)
     else case load_replay rid sc s of
       None \<Rightarrow> Inr (replay_masked, s)
     | Some rr \<Rightarrow>
        if rpr_state rr \<noteq> ''authorization_pending''
        then Inr (yr_deny ''invalid_transition'' (take 64 (''already_'' @ rpr_state rr)), s)
        else try_then (revalidate_event rr s) (\<lambda>check. case check of
          Inl d \<Rightarrow> Inr (d, s)
        | Inr ev \<Rightarrow>
          try_then (authorize (\<lambda>k. ts (k + 1)) (rpr_authorization_id rr) a sc policy_version s) (\<lambda>(out, s1).
            if \<not> sr_ok out then
              Inr (if sr_reason_code out = ''two_person_required''
                then yr_deny (sr_result_kind out) ''requester_cannot_approve''
                else yr_deny (sr_result_kind out) (sr_reason_code out), s1)
            else try_then (replay_to_authorized (ts 3) rid (team_id sc) (project_id sc) (db_replays s1))
                (\<lambda>(updated, rrs). case updated of
                   None \<Rightarrow> Inr (yr_deny ''conflict'' ''conflict'', s1\<lparr>db_replays := rrs\<rparr>)
                 | Some r \<Rightarrow>
                    try_then (replay_emit eid (ts 0) (ts 4) (ob_clarification_id ev) (ob_task_id ev)
                        ''replay.authorized''
                        (''replay-authorized:'' @ rpr_outbox_event_id rr @ '':'' @ rid)
                        [(''replay_request_id'', PStr rid),
                         (''authorization_id'', PStr (rpr_authorization_id rr)),
                         (''reason'', PStr ''policy_allow'')] (s1\<lparr>db_replays := rrs\<rparr>)) (\<lambda>(_, s2).
                      Inr (ReplayResult True ''ok'' ''policy_allow'' (Some r), s2))))))"

definition clarification_id_for :: "replay_row \<Rightarrow> replay_db \<Rightarrow> string outcome" where
  "clarification_id_for rr s =
    (case lock_outbox_event (rpr_outbox_event_id rr) (db_outbox s) of
       None \<Rightarrow> Inl AssertionError | Some ev \<Rightarrow> Inr (ob_clarification_id ev))"

definition task_id_for :: "replay_row \<Rightarrow> replay_db \<Rightarrow> string outcome" where
  "task_id_for rr s =
    (case lock_outbox_event (rpr_outbox_event_id rr) (db_outbox s) of
       None \<Rightarrow> Inl AssertionError | Some ev \<Rightarrow> Inr (ob_task_id ev))"

text \<open>The common tail of reject and cancel: transition and evidence.\<close>

definition close_and_emit ::
    "string \<Rightarrow> (nat \<Rightarrow> int) \<Rightarrow> string \<Rightarrow> replay_row \<Rightarrow> string \<Rightarrow> string \<Rightarrow> string
     \<Rightarrow> (replay_row option \<times> replay_table) outcome \<Rightarrow> replay_db \<Rightarrow> (replay_result \<times> replay_db) outcome" where
  "close_and_emit eid ts rid rr event_type prefix reason transition s =
    try_then transition (\<lambda>(updated, rrs). case updated of
       None \<Rightarrow> Inr (yr_deny ''conflict'' ''conflict'', s\<lparr>db_replays := rrs\<rparr>)
     | Some r \<Rightarrow>
        (let s1 = s\<lparr>db_replays := rrs\<rparr> in
         try_then (clarification_id_for rr s1) (\<lambda>cid.
         try_then (task_id_for rr s1) (\<lambda>tid.
         try_then (replay_emit eid (ts 0) (ts 4) cid tid event_type
             (prefix @ rpr_outbox_event_id rr @ '':'' @ rid)
             [(''replay_request_id'', PStr rid), (''reason'', PStr reason)] s1) (\<lambda>(_, s2).
           Inr (ReplayResult True ''ok'' reason (Some r), s2))))))"

definition reject_replay ::
    "environment \<Rightarrow> string \<Rightarrow> (nat \<Rightarrow> int) \<Rightarrow> string \<Rightarrow> actor \<Rightarrow> scope \<Rightarrow> string \<Rightarrow> replay_db
     \<Rightarrow> (replay_result \<times> replay_db) outcome" where
  "reject_replay env eid ts rid a sc reason s =
    (if \<not> replay_api_enabled env then Inr (yr_deny ''feature_disabled'' ''feature_disabled'', s)
     else try_then (assert_replay_reason_code (Some reason)) (\<lambda>_.
       case load_replay rid sc s of
         None \<Rightarrow> Inr (replay_masked, s)
       | Some rr \<Rightarrow>
          if rpr_state rr \<noteq> ''authorization_pending''
          then Inr (yr_deny ''invalid_transition'' (take 64 (''already_'' @ rpr_state rr)), s)
          else try_then (reject_authorization (\<lambda>k. ts (k + 1)) (rpr_authorization_id rr) a sc s) (\<lambda>(out, s1).
            if \<not> sr_ok out then Inr (yr_deny (sr_result_kind out) (sr_reason_code out), s1)
            else close_and_emit eid ts rid rr ''replay.rejected'' ''replay-rejected:'' reason
              (replay_to_rejected (ts 3) rid reason (team_id sc) (project_id sc) (db_replays s1)) s1)))"

definition cancel_replay ::
    "environment \<Rightarrow> string \<Rightarrow> (nat \<Rightarrow> int) \<Rightarrow> string \<Rightarrow> actor \<Rightarrow> scope \<Rightarrow> replay_db
     \<Rightarrow> (replay_result \<times> replay_db) outcome" where
  "cancel_replay env eid ts rid a sc s =
    (if \<not> replay_api_enabled env then Inr (yr_deny ''feature_disabled'' ''feature_disabled'', s)
     else case load_replay rid sc s of
       None \<Rightarrow> Inr (replay_masked, s)
     | Some rr \<Rightarrow>
        if role a \<noteq> ''platform_admin'' \<and> rpr_requested_by rr \<noteq> principal_id a
        then Inr (yr_deny ''forbidden'' ''rbac_denied'', s)
        else if rpr_state rr \<noteq> ''authorization_pending''
        then Inr (yr_deny ''invalid_transition'' (take 64 (''already_'' @ rpr_state rr)), s)
        else try_then (cancel_authorization (\<lambda>k. ts (k + 1)) (rpr_authorization_id rr) a sc s) (\<lambda>(out, s1).
          if \<not> sr_ok out then Inr (yr_deny (sr_result_kind out) (sr_reason_code out), s1)
          else close_and_emit eid ts rid rr ''replay.canceled'' ''replay-canceled:'' ''operator_canceled''
            (replay_to_canceled (ts 3) rid (team_id sc) (project_id sc) (db_replays s1)) s1))"

section \<open>Executing\<close>

definition readiness_of :: "(string \<Rightarrow> string) option \<Rightarrow> string \<Rightarrow> string" where
  "readiness_of provider destination =
    (let readiness = (case provider of None \<Rightarrow> default_destination_readiness | Some p \<Rightarrow> p) destination
     in if readiness \<in> set READINESS_KINDS then readiness else READINESS_UNKNOWN_DESTINATION)"

text \<open>The mutations after a successful consume, in the order of the code; \<open>s1\<close> is the database then.\<close>

definition apply_replay ::
    "string \<Rightarrow> (nat \<Rightarrow> int) \<Rightarrow> string \<Rightarrow> scope \<Rightarrow> replay_row \<Rightarrow> outbox_row \<Rightarrow> replay_db
     \<Rightarrow> (replay_result \<times> replay_db) outcome" where
  "apply_replay eid ts rid sc rr ev s1 =
    try_then (replay_dead_row (ts 6) (rpr_outbox_event_id rr) (rpr_resource_state_version rr) (db_outbox s1))
      (\<lambda>(replayed, events). case replayed of
         None \<Rightarrow> Inl (RuntimeError ''replay_dead_row guard failed after a successful authorization consume'')
       | Some _ \<Rightarrow>
         try_then (replay_to_executed (ts 7) rid (team_id sc) (project_id sc) (db_replays s1))
           (\<lambda>(updated, rrs). case updated of
              None \<Rightarrow> Inl (RuntimeError ''replay_requests transition-to-executed failed after a successful replay'')
            | Some r \<Rightarrow>
               try_then (replay_emit eid (ts 0) (ts 8) (ob_clarification_id ev) (ob_task_id ev)
                   ''replay.executed'' (''replay-executed:'' @ rpr_outbox_event_id rr @ '':'' @ rid)
                   [(''replay_request_id'', PStr rid), (''outbox_event_id'', PStr (rpr_outbox_event_id rr))]
                   (s1\<lparr>db_outbox := events, db_replays := rrs\<rparr>)) (\<lambda>(_, s2).
                 Inr (ReplayResult True ''ok'' ''policy_allow'' (Some r), s2))))"

definition execute_authorized_replay ::
    "environment \<Rightarrow> string \<Rightarrow> (nat \<Rightarrow> int) \<Rightarrow> string \<Rightarrow> actor \<Rightarrow> scope \<Rightarrow> (string \<Rightarrow> string) option
     \<Rightarrow> replay_db \<Rightarrow> (replay_result \<times> replay_db) outcome" where
  "execute_authorized_replay env eid ts rid a sc provider s =
    (if \<not> replay_execution_enabled env
     then Inr (yr_deny ''execution_gate_disabled'' ''execution_gate_disabled'', s)
     else case load_replay rid sc s of
       None \<Rightarrow> Inr (replay_masked, s)
     | Some rr \<Rightarrow>
        if rpr_state rr \<noteq> ''authorized''
        then Inr (yr_deny ''invalid_transition'' (take 64 (''invalid_transition:'' @ rpr_state rr)), s)
        else try_then (revalidate_event rr s) (\<lambda>check. case check of
          Inl d \<Rightarrow> Inr (d, s)
        | Inr ev \<Rightarrow>
          (let readiness = readiness_of provider (rpr_destination rr) in
           if readiness \<noteq> READINESS_READY then
             try_then (replay_emit eid (ts 0) (ts 1) (ob_clarification_id ev) (ob_task_id ev)
                 ''replay.execution_blocked''
                 (''replay-blocked:'' @ rpr_outbox_event_id rr @ '':'' @ rid @ '':'' @ readiness)
                 [(''replay_request_id'', PStr rid), (''reason'', PStr ''destination_unavailable'')] s)
               (\<lambda>(_, s1). Inr (yr_deny ''destination_unavailable'' ''destination_unavailable'', s1))
           else
             try_then (consume_authorization (\<lambda>k. ts (k + 1)) (rpr_authorization_id rr) a sc
                 (rpr_resource_state_version rr) s) (\<lambda>(out, s1).
               if \<not> sr_ok out then Inr (yr_deny (sr_result_kind out) (sr_reason_code out), s1)
               else apply_replay eid ts rid sc rr ev s1))))"

end
