(* ===== verification/Replay_Demo.thy ===== *)
theory Replay_Demo imports Replay Resume_Props begin

text \<open>One replay from the request to the execution, for the witnesses.\<close>

definition demo_replay_env :: environment where
  "demo_replay_env k =
     (if k \<in> {''BE3_REPLAY_API_ENABLED'', ''BE3_REPLAY_EXECUTION_ENABLED''} then Some ''true'' else None)"

definition demo_event_id :: string where "demo_event_id = ''00000000-0000-4000-8000-000000000001''"
definition demo_requested_id :: string where "demo_requested_id = ''00000000-0000-4000-8000-000000000002''"
definition demo_authorized_id :: string where "demo_authorized_id = ''00000000-0000-4000-8000-000000000003''"
definition demo_executed_id :: string where "demo_executed_id = ''00000000-0000-4000-8000-000000000004''"

definition demo_dead_event :: outbox_row where
  "demo_dead_event = \<lparr>ob_id = demo_event_id, ob_clarification_id = ''c1'', ob_task_id = ''k1'',
     ob_event_type = ''clarification.reminder_due'', ob_idempotency_key = ''c1:reminder:1'', ob_payload = [],
     ob_status = ''dead'', ob_attempts = 5, ob_created_at = 1, ob_available_at = 4, ob_published_at = None,
     ob_dead_at = Some 5, ob_last_error = Some ''boom''\<rparr>"

definition demo_ydb0 :: replay_db where
  "demo_ydb0 = \<lparr>db_auths = [], db_approvals = [], db_clarifications = [demo_clarification],
     db_tasks = [demo_task], db_resumes = [], db_outbox = [demo_dead_event], db_replays = []\<rparr>"

definition demo_replay_ids :: replay_ids where
  "demo_replay_ids = \<lparr>yi_authorization = ''a1'', yi_auth_request = ''q1'', yi_replay = ''y1'',
     yi_event = demo_requested_id\<rparr>"

definition ydb_after :: "(replay_result \<times> replay_db) outcome \<Rightarrow> replay_db option" where
  "ydb_after r = (case r of Inl e \<Rightarrow> None | Inr (out, s) \<Rightarrow> if yr_ok out then Some s else None)"

definition demo_yauth1 :: auth_row where
  "demo_yauth1 = \<lparr>ra_authorization_id = ''a1'', ra_action_type = ''replay'',
     ra_resource_type = ''outbox_event'', ra_resource_id = demo_event_id, ra_team_id = ''t1'',
     ra_project_id = ''p1'', ra_request_id = ''q1'', ra_requested_by = ''u1'',
     ra_requested_role = ''agent_operator'', ra_requested_at = 10, ra_decision = ''pending'',
     ra_decided_by = None, ra_decided_role = None, ra_decided_at = None,
     ra_decision_reason_code = None, ra_policy_result = None, ra_policy_version = None,
     ra_resource_state_version = ''1970-01-01T00:00:00.000005+00:00:5'', ra_production_effect = False,
     ra_production_approval_reference = None, ra_expires_at = 100, ra_consumed_at = None,
     ra_consumed_by = None, ra_revoked_at = None, ra_revoked_by = None,
     ra_revocation_reason_code = None, ra_expired_at = None,
     ra_idempotency_key = ''replay-auth:00000000-0000-4000-8000-000000000001:yk1'', ra_updated_at = 10\<rparr>"

definition demo_yauth2 :: auth_row where
  "demo_yauth2 = demo_yauth1\<lparr>ra_decision := ''authorized'', ra_decided_by := Some ''u2'',
     ra_decided_role := Some ''reviewer_approver'', ra_decided_at := Some 20,
     ra_decision_reason_code := Some ''policy_allow'', ra_policy_result := Some ''allow'',
     ra_policy_version := Some ''pv1'', ra_updated_at := 20\<rparr>"

definition demo_yr1 :: replay_row where
  "demo_yr1 = \<lparr>rpr_id = ''y1'', rpr_authorization_id = ''a1'', rpr_outbox_event_id = demo_event_id,
     rpr_event_type = ''clarification.reminder_due'', rpr_destination = ''audit'',
     rpr_team_id = ''t1'', rpr_project_id = ''p1'',
     rpr_resource_state_version = ''1970-01-01T00:00:00.000005+00:00:5'', rpr_state = ''authorization_pending'',
     rpr_requested_by = ''u1'', rpr_requested_at = 10, rpr_authorized_at = None, rpr_executed_at = None,
     rpr_rejected_at = None, rpr_canceled_at = None, rpr_expired_at = None,
     rpr_failure_reason_code = None, rpr_idempotency_key = ''yk1'', rpr_created_at = 10,
     rpr_updated_at = 10\<rparr>"

definition demo_yr2 :: replay_row where
  "demo_yr2 = demo_yr1\<lparr>rpr_state := ''authorized'', rpr_authorized_at := Some 20, rpr_updated_at := 20\<rparr>"

definition demo_yr3 :: replay_row where
  "demo_yr3 = demo_yr2\<lparr>rpr_state := ''executed'', rpr_executed_at := Some 30, rpr_updated_at := 30\<rparr>"

definition demo_ydb1 :: replay_db where
  "demo_ydb1 = demo_ydb0\<lparr>db_auths := [demo_yauth1], db_replays := [demo_yr1], db_outbox := [demo_dead_event,
     demo_out demo_requested_id ''replay.requested'' ''replay-requested:00000000-0000-4000-8000-000000000001:y1''
       [(''replay_request_id'', PStr ''y1''), (''outbox_event_id'', PStr demo_event_id),
        (''destination'', PStr ''audit''), (''reason'', PStr ''operator_requested'')] 10]\<rparr>"

definition demo_ydb2 :: replay_db where
  "demo_ydb2 = demo_ydb1\<lparr>db_auths := [demo_yauth2], db_replays := [demo_yr2], db_outbox := db_outbox demo_ydb1 @
     [demo_out demo_authorized_id ''replay.authorized'' ''replay-authorized:00000000-0000-4000-8000-000000000001:y1''
       [(''replay_request_id'', PStr ''y1''), (''authorization_id'', PStr ''a1''),
        (''reason'', PStr ''policy_allow'')] 20]\<rparr>"

definition demo_ydb3 :: replay_db where
  "demo_ydb3 = demo_ydb2\<lparr>db_auths := [consumed_row 30 ''svc'' demo_yauth2], db_replays := [demo_yr3],
     db_outbox := demo_dead_event\<lparr>ob_status := ''pending'', ob_available_at := 30, ob_dead_at := None,
         ob_last_error := None\<rparr> # tl (db_outbox demo_ydb2) @
       [demo_out demo_executed_id ''replay.executed'' ''replay-executed:00000000-0000-4000-8000-000000000001:y1''
         [(''replay_request_id'', PStr ''y1''), (''outbox_event_id'', PStr demo_event_id)] 30]\<rparr>"

definition demo_ready :: "(string \<Rightarrow> string) option" where
  "demo_ready = Some (\<lambda>_. READINESS_READY)"

lemma demo_replay_request_runs:
  "ydb_after (request_replay demo_replay_env demo_replay_ids (\<lambda>_. 10) (human ''u1'' ''agent_operator'')
     demo_scope demo_event_id ''yk1'' 100 None demo_ydb0) = Some demo_ydb1"
  by code_simp

lemma demo_replay_authorize_runs:
  "ydb_after (authorize_replay demo_replay_env demo_authorized_id (\<lambda>_. 20) ''y1''
     (human ''u2'' ''reviewer_approver'') demo_scope ''pv1'' demo_ydb1) = Some demo_ydb2"
  by code_simp

lemma demo_replay_execute_runs:
  "ydb_after (execute_authorized_replay demo_replay_env demo_executed_id (\<lambda>_. 30) ''y1'' demo_service demo_scope
     demo_ready demo_ydb2) = Some demo_ydb3"
  by code_simp

text \<open>The same execution with the default readiness, which reports the destination as not configured.\<close>

lemma demo_replay_blocked_runs:
  "case execute_authorized_replay demo_replay_env demo_executed_id (\<lambda>_. 30) ''y1'' demo_service demo_scope
     None demo_ydb2 of Inl _ \<Rightarrow> False | Inr (res, _) \<Rightarrow> yr_result_kind res = ''destination_unavailable''"
  by code_simp

lemma demo_ydb2_inv:
  "rra_inv (db_auths demo_ydb2)" "paa_inv (db_approvals demo_ydb2)" "rpr_inv (db_replays demo_ydb2)"
  "clo_inv (db_outbox demo_ydb2)"
  by code_simp+

lemma ydb_after_SomeD: "ydb_after r = Some s \<Longrightarrow> \<exists>out. r = Inr (out, s) \<and> yr_ok out"
  by (auto simp: ydb_after_def split: sum.splits if_split_asm)

end
