(* ===== verification/Replay_Props.thy ===== *)
theory Replay_Props imports Replay_Demo Resume_Request begin

text \<open>
  What the calls of the replay service guarantee: a request is created whole or not at all and within
  the rate limits, an execution consumes the authorization, requeues the dead row and closes the
  request together, and a stale request never reaches the row. Two lemmas show where the code and its
  comments part: a second blocked attempt raises, and the expiry scan fails on authorized requests.
\<close>

section \<open>Building blocks\<close>

lemma replay_emit_Inr:
  assumes "replay_emit eid started now cl tk ev key payload s = Inr (row, s')"
  shows "s' = s\<lparr>db_outbox := db_outbox s @ [row]\<rparr>" "ob_id row = eid" "ob_event_type row = ev"
    "ob_idempotency_key row = key" "clo_inv (db_outbox s) \<Longrightarrow> clo_inv (db_outbox s')"
proof -
  obtain t' where i: "insert_lifecycle_outbox_event eid started now cl tk ev key (Some payload) (db_outbox s)
      = Inr (row, t')" and s': "s' = s\<lparr>db_outbox := t'\<rparr>"
    using assms by (auto simp: replay_emit_def try_then_Inr_iff)
  note ins = insert_outbox_Inr[OF i]
  show "s' = s\<lparr>db_outbox := db_outbox s @ [row]\<rparr>" using s' ins(1) by simp
  show "ob_id row = eid" "ob_event_type row = ev" "ob_idempotency_key row = key" by (rule ins)+
  show "clo_inv (db_outbox s) \<Longrightarrow> clo_inv (db_outbox s')" using clo_inv_insert[OF _ i] s' by simp
qed

lemma load_replay_SomeD:
  assumes "load_replay rid sc s = Some rr"
  shows "rr \<in> set (db_replays s)" "rpr_id rr = rid" "rpr_in_scope (team_id sc) (project_id sc) rr"
  using fetchrow_SomeD[OF assms[unfolded load_replay_def lock_replay_request_def]] by simp_all

lemma lock_outbox_SomeD:
  assumes "lock_outbox_event eid t = Some ev"
  shows "ev \<in> set t" "ob_id ev = eid"
  using fetchrow_SomeD[OF assms[unfolded lock_outbox_event_def]] by simp_all

lemma dead_eligible_iff:
  "dead_eligibility_denial ev = None \<longleftrightarrow> ob_status ev = ''dead'' \<and> ob_event_type ev \<in> set ALLOWED_EVENT_TYPES"
proof -
  have "\<exists>d. destination_for_event_type (ob_event_type ev) = Inr d" if "ob_event_type ev \<in> set ALLOWED_EVENT_TYPES"
    using that unfolding event_types_classified[symmetric] by (force simp: destination_Inr_iff)
  then show ?thesis by (auto simp: dead_eligibility_denial_def split: if_split_asm)
qed

lemma dead_denial_not_ok: "dead_eligibility_denial ev = Some d \<Longrightarrow> \<not> yr_ok d"
  by (auto simp: dead_eligibility_denial_def split: if_split_asm sum.splits py_exn.splits)

lemma revalidate_event_Inl: "revalidate_event rr s = Inr (Inl d) \<Longrightarrow> \<not> yr_ok d"
  by (auto simp: revalidate_event_def try_then_Inr_iff split: option.splits if_split_asm
      dest: dead_denial_not_ok)

lemma revalidate_event_Inr:
  assumes "revalidate_event rr s = Inr (Inr ev)"
  shows "lock_outbox_event (rpr_outbox_event_id rr) (db_outbox s) = Some ev" "ob_status ev = ''dead''"
    "ob_event_type ev \<in> set ALLOWED_EVENT_TYPES"
    "dead_episode_state_version (ob_dead_at ev) (ob_attempts ev) = Inr (rpr_resource_state_version rr)"
proof -
  have e: "lock_outbox_event (rpr_outbox_event_id rr) (db_outbox s) = Some ev" "dead_eligibility_denial ev = None"
    "dead_episode_state_version (ob_dead_at ev) (ob_attempts ev) = Inr (rpr_resource_state_version rr)"
    using assms by (auto simp: revalidate_event_def try_then_Inr_iff split: option.splits if_split_asm)
  then show "lock_outbox_event (rpr_outbox_event_id rr) (db_outbox s) = Some ev"
    "dead_episode_state_version (ob_dead_at ev) (ob_attempts ev) = Inr (rpr_resource_state_version rr)"
    by blast+
  show "ob_status ev = ''dead''" "ob_event_type ev \<in> set ALLOWED_EVENT_TYPES"
    using e(2) unfolding dead_eligible_iff by blast+
qed

section \<open>The episode\<close>

lemma int_text_nonneg: "0 \<le> a \<Longrightarrow> 0 \<le> b \<Longrightarrow> int_text a = int_text b \<longleftrightarrow> a = b"
  by (auto simp: int_text_def dest: decimal_inj)

lemma episode_version_iff:
  assumes "datetime_range d" "datetime_range d'" "0 \<le> a" "0 \<le> a'"
  shows "dead_episode_state_version (Some d) a = dead_episode_state_version (Some d') a' \<longleftrightarrow> d = d' \<and> a = a'"
  using isoformat_prefix[OF _ assms(1,2), of "'':'' @ int_text a" "'':'' @ int_text a'"] int_text_nonneg[OF assms(3,4)]
  by (auto simp: dead_episode_state_version_def)

definition dates_ok :: "outbox_table \<Rightarrow> bool" where
  "dates_ok t \<longleftrightarrow> list_all (\<lambda>r. case ob_dead_at r of None \<Rightarrow> True | Some d \<Rightarrow> datetime_range d) t"

lemma requeued_checks:
  "clo_checks r \<Longrightarrow> ob_status r = ''dead'' \<Longrightarrow> clo_checks (replay_upd now (plan_replay_state (ob_attempts r)) r)"
  by (simp add: clo_checks_def replay_upd_def plan_replay_state_def)

definition requeued :: "int \<Rightarrow> outbox_row \<Rightarrow> outbox_row" where
  "requeued now r = r\<lparr>ob_status := ''pending'', ob_available_at := now, ob_dead_at := None, ob_last_error := None\<rparr>"

lemma replay_upd_requeued: "replay_upd now (plan_replay_state (ob_attempts r)) r = requeued now r"
  by (simp add: replay_upd_def plan_replay_state_def requeued_def)

lemma replay_dead_row_found:
  assumes inv: "clo_inv t" and r: "r \<in> set t" "ob_status r = ''dead''"
    "dead_episode_state_version (ob_dead_at r) (ob_attempts r) = Inr ver"
  shows "replay_dead_row now (ob_id r) ver t = Inr (Some (requeued now r), update_where (\<lambda>x. x = r) (requeued now) t)"
proof -
  let ?f = "replay_upd now (plan_replay_state (ob_attempts r))"
  have d: "distinct (map ob_id t)" using inv by (simp add: clo_inv_def)
  have e: "ob_id x = ob_id r \<longleftrightarrow> x = r" if "x \<in> set t" for x
    using distinct_map_eqD[OF d that r(1)] by auto
  have f: "fetchrow (\<lambda>x. ob_id x = ob_id r \<and> ob_status x = ''dead'') t = Some r"
    "fetchrow (\<lambda>x. ob_id x = ob_id r) t = Some r"
    using r(1,2) by (auto intro!: fetchrow_distinct[OF d])
  have "clo_checks r" using inv r(1) by (simp add: clo_inv_def)
  then have "\<forall>x \<in> set t. ob_id x = ob_id r \<longrightarrow> clo_checks (?f x)" using e requeued_checks r(2) by metis
  moreover have "update_where (\<lambda>x. ob_id x = ob_id r) ?f t = update_where (\<lambda>x. x = r) (requeued now) t"
    using e replay_upd_requeued by (auto simp: update_where_def)
  ultimately have "checked_update ''clarification_lifecycle_outbox'' clo_checks (\<lambda>x. ob_id x = ob_id r) ?f t =
      Inr (Some (requeued now r), update_where (\<lambda>x. x = r) (requeued now) t)"
    unfolding checked_update_Inr update_returning_def f(2) by (simp add: replay_upd_requeued)
  then show ?thesis by (simp add: replay_dead_row_def f(1) r(3))
qed

text \<open>
  C16. A replay reaches exactly the dead episode it was requested for: given the version text of an
  episode, the adapter requeues a row when and only when the event is dead since the same instant
  after the same number of attempts; the row keeps everything but its status, its due time and its
  error, and in every other case the table is unchanged. (The timestamps lie in the range of
  \<^verbatim>\<open>datetime\<close>, as those a database driver returns do.)
\<close>

theorem replay_dead_row_exact:
  assumes "clo_inv t" "dates_ok t" "datetime_range d" "0 \<le> n" "dead_episode_state_version (Some d) n = Inr ver"
  shows "\<exists>x t'. replay_dead_row now eid ver t = Inr (x, t') \<and>
    (x \<noteq> None \<longleftrightarrow> (\<exists>r \<in> set t. ob_id r = eid \<and> ob_status r = ''dead'' \<and> ob_dead_at r = Some d \<and> ob_attempts r = n)) \<and>
    (x = None \<longrightarrow> t' = t) \<and>
    (x \<noteq> None \<longrightarrow> t' = update_where (\<lambda>r. ob_id r = eid) (\<lambda>r. r\<lparr>ob_status := ''pending'', ob_available_at := now,
       ob_dead_at := None, ob_last_error := None\<rparr>) t)"
proof (cases "fetchrow (\<lambda>r. ob_id r = eid \<and> ob_status r = ''dead'') t")
  case None
  then have "replay_dead_row now eid ver t = Inr (None, t)" by (simp add: replay_dead_row_def)
  moreover have "\<not> (\<exists>r \<in> set t. ob_id r = eid \<and> ob_status r = ''dead'' \<and> ob_dead_at r = Some d \<and> ob_attempts r = n)"
    using None by (auto simp: fetchrow_None_iff)
  ultimately show ?thesis by blast
next
  case (Some r)
  then have r: "r \<in> set t" "ob_id r = eid" "ob_status r = ''dead''" using fetchrow_SomeD[OF Some] by simp_all
  have chk: "clo_checks r" using assms(1) r(1) by (simp add: clo_inv_def)
  then obtain d' where d': "ob_dead_at r = Some d'" using r(3) by (auto simp: clo_checks_def)
  have b: "datetime_range d'" "0 \<le> ob_attempts r"
    using assms(2) r(1) d' chk by (auto simp: dates_ok_def list_all_iff clo_checks_def)
  have uniq: "x = r" if "x \<in> set t" "ob_id x = eid" for x
    using distinct_map_eqD[of ob_id t x r] assms(1) that r by (simp add: clo_inv_def)
  obtain cur where cur: "dead_episode_state_version (ob_dead_at r) (ob_attempts r) = Inr cur"
    by (simp add: d' dead_episode_state_version_def)
  have same: "cur = ver \<longleftrightarrow> d' = d \<and> ob_attempts r = n"
    using episode_version_iff[OF b(1) assms(3) b(2) assms(4)] cur assms(5) by (auto simp: d')
  have ex: "(\<exists>r \<in> set t. ob_id r = eid \<and> ob_status r = ''dead'' \<and> ob_dead_at r = Some d \<and> ob_attempts r = n) \<longleftrightarrow> cur = ver"
  proof
    assume "\<exists>r \<in> set t. ob_id r = eid \<and> ob_status r = ''dead'' \<and> ob_dead_at r = Some d \<and> ob_attempts r = n"
    then obtain x where "x \<in> set t" "ob_id x = eid" "ob_dead_at x = Some d" "ob_attempts x = n" by blast
    moreover from this(1,2) have "x = r" by (rule uniq)
    ultimately show "cur = ver" using same d' by simp
  next
    assume "cur = ver"
    then show "\<exists>r \<in> set t. ob_id r = eid \<and> ob_status r = ''dead'' \<and> ob_dead_at r = Some d \<and> ob_attempts r = n"
      using same r d' by (intro bexI[of _ r]) simp_all
  qed
  show ?thesis
  proof (cases "cur = ver")
    case False
    then have "replay_dead_row now eid ver t = Inr (None, t)" using Some cur by (simp add: replay_dead_row_def)
    then show ?thesis unfolding ex using False by blast
  next
    case True
    have u: "update_where (\<lambda>x. x = r) (requeued now) t = update_where (\<lambda>r. ob_id r = eid)
        (\<lambda>r. r\<lparr>ob_status := ''pending'', ob_available_at := now, ob_dead_at := None, ob_last_error := None\<rparr>) t"
      unfolding update_where_def
    proof (rule map_cong[OF refl])
      fix x assume "x \<in> set t"
      then have "x = r \<longleftrightarrow> ob_id x = eid" using uniq r(2) by blast
      then show "(if x = r then requeued now x else x) = (if ob_id x = eid then x\<lparr>ob_status := ''pending'',
          ob_available_at := now, ob_dead_at := None, ob_last_error := None\<rparr> else x)"
        by (simp only: requeued_def)
    qed
    have "replay_dead_row now eid ver t = Inr (Some (requeued now r), update_where (\<lambda>x. x = r) (requeued now) t)"
      using replay_dead_row_found[OF assms(1) r(1,3) cur] unfolding True r(2) .
    then show ?thesis unfolding ex u using True by blast
  qed
qed

theorem replay_dead_row_exact_witness:
  "\<exists>ver x t'. dead_episode_state_version (Some 5000) 5 = Inr ver \<and>
     replay_dead_row 6000 ''e1'' ver [demo_dead] = Inr (Some x, t')"
proof -
  have inv: "clo_inv [demo_dead]"
    by (simp add: clo_inv_def clo_checks_def demo_dead_def demo_event_def btrim_nonempty_def)
  have d: "dates_ok [demo_dead]" "datetime_range 5000"
    by (simp_all add: dates_ok_def datetime_range_def demo_dead_def demo_event_def)
  obtain ver where v: "dead_episode_state_version (Some 5000) 5 = Inr ver"
    by (simp add: dead_episode_state_version_def)
  have r: "ob_id demo_dead = ''e1''" "ob_status demo_dead = ''dead''" "ob_dead_at demo_dead = Some 5000"
    "ob_attempts demo_dead = 5" by (simp_all add: demo_dead_def demo_event_def)
  from replay_dead_row_exact[OF inv d _ v, of 6000 "''e1''"] r v show ?thesis by auto
qed

section \<open>Requesting\<close>

lemma bounded_int_env_bounds:
  "bounded_int_env env name d lo hi = Inr v \<Longrightarrow> lo \<le> d \<Longrightarrow> d \<le> hi \<Longrightarrow> lo \<le> v \<and> v \<le> hi"
  by (auto simp: bounded_int_env_def split: option.splits if_split_asm)

definition within_limits :: "environment \<Rightarrow> (nat \<Rightarrow> int) \<Rightarrow> actor \<Rightarrow> scope \<Rightarrow> string \<Rightarrow> replay_table \<Rightarrow> bool" where
  "within_limits env ts a sc eid t \<longleftrightarrow> (\<exists>w m k. 1 \<le> w \<and> w \<le> 168 \<and> 1 \<le> m \<and> m \<le> 1000 \<and> 1 \<le> k \<and> k \<le> 100 \<and>
     rate_limit_window_hours env = Inr w \<and> max_requests_per_actor_per_window env = Inr m \<and>
     max_successful_replays_per_event env = Inr k \<and>
     int (requests_in_window (principal_id a) (or_empty (team_id sc)) (or_empty (project_id sc)) (ts 1 - seconds (3600 * w)) t) < m \<and>
     count_successful_replays_for_event (ts 2) eid w t < k)"

lemma not_limited:
  assumes "replay_rate_limited env ts a sc eid t = Inr False"
  shows "within_limits env ts a sc eid t"
proof -
  obtain w n m where w: "rate_limit_window_hours env = Inr w"
    and n: "count_recent_requests_by_actor (ts 1) (principal_id a) (or_empty (team_id sc)) (or_empty (project_id sc)) w t = Inr n"
    and m: "max_requests_per_actor_per_window env = Inr m" "\<not> m \<le> n"
    using assms by (auto simp: replay_rate_limited_def try_then_Inr_iff split: if_split_asm)
  then obtain k where k: "max_successful_replays_per_event env = Inr k"
    "\<not> k \<le> count_successful_replays_for_event (ts 2) eid w t"
    using assms by (auto simp: replay_rate_limited_def try_then_Inr_iff)
  have n': "n = int (requests_in_window (principal_id a) (or_empty (team_id sc)) (or_empty (project_id sc)) (ts 1 - seconds (3600 * w)) t)"
    using n by (auto simp: count_recent_requests_by_actor_def split: if_split_asm)
  have b: "1 \<le> w \<and> w \<le> 168" "1 \<le> m \<and> m \<le> 1000" "1 \<le> k \<and> k \<le> 100"
    using w m(1) k(1) bounded_int_env_bounds
    unfolding rate_limit_window_hours_def MAX_RATE_LIMIT_WINDOW_HOURS_def max_requests_per_actor_per_window_def
      max_successful_replays_per_event_def by fastforce+
  show ?thesis unfolding within_limits_def
    by (intro exI[of _ w] exI[of _ m] exI[of _ k]) (use b w m k n' in simp)
qed

lemma create_replay_cases:
  assumes c: "create_replay ids ts a sc ev ver dest pe key ex ref s = Inr ((auth, orr), s1)"
    and fresh: "''replay-auth:'' @ ob_id ev @ '':'' @ key \<notin> ra_idempotency_key ` set (db_auths s)"
  shows "(orr = None \<and> s1 = s) \<or>
    (\<exists>authz rr. orr = Some rr \<and>
       create_request (yi_authorization ids) (yi_auth_request ids) (ts 3)
         (request_of a sc ''replay'' ''outbox_event'' (ob_id ev) ver ex
            (''replay-auth:'' @ ob_id ev @ '':'' @ key) pe ref) (db_auths s) = Inr (authz, db_auths s @ [authz]) \<and>
       insert_replay_request (yi_replay ids) (ts 5) (ra_authorization_id authz) (ob_id ev) (ob_event_type ev) dest
         (or_empty (team_id sc)) (or_empty (project_id sc)) ver (principal_id a) key (db_replays s)
         = Inr (rr, db_replays s @ [rr]) \<and>
       s1 = s\<lparr>db_auths := db_auths s @ [authz], db_replays := db_replays s @ [rr]\<rparr>)"
proof -
  obtain out s0 where ra: "request_authorization (\<lambda>k. ts (k + 3)) (yi_authorization ids) (yi_auth_request ids)
        a sc sc ''replay'' ''outbox_event'' (ob_id ev) ver ex
        (''replay-auth:'' @ ob_id ev @ '':'' @ key) pe ref s = Inr (out, s0)"
    using c by (auto simp: create_replay_def try_then_Inr_iff)
  show ?thesis
  proof (cases "sr_ok out \<and> sr_authorization out \<noteq> None")
    case False
    then have "s0 = s" using request_authorization_cases[OF ra fresh] by blast
    then show ?thesis using c ra False
      by (auto simp: create_replay_def split: bool.splits option.splits)
  next
    case True
    then obtain authz where az: "sr_ok out" "sr_authorization out = Some authz"
      "create_request (yi_authorization ids) (yi_auth_request ids) (ts 3)
         (request_of a sc ''replay'' ''outbox_event'' (ob_id ev) ver ex
            (''replay-auth:'' @ ob_id ev @ '':'' @ key) pe ref) (db_auths s) = Inr (authz, db_auths s @ [authz])"
      "s0 = s\<lparr>db_auths := db_auths s @ [authz]\<rparr>"
      using request_authorization_cases[OF ra fresh] by (auto simp: numeral_3_eq_3)
    obtain rr rrs where i: "insert_replay_request (yi_replay ids) (ts 5) (ra_authorization_id authz) (ob_id ev)
         (ob_event_type ev) dest (or_empty (team_id sc)) (or_empty (project_id sc)) ver (principal_id a) key
         (db_replays s) = Inr (rr, rrs)" "orr = Some rr" "s1 = s0\<lparr>db_replays := rrs\<rparr>"
      using c ra az by (auto simp: create_replay_def try_then_Inr_iff)
    have "rrs = db_replays s @ [rr]" by (rule insert_replay_Inr(1)[OF i(1)])
    then show ?thesis using az i by auto
  qed
qed

lemma submit_replay_cases:
  assumes c: "submit_replay ids ts a sc ev tk key ex ref s = Inr (res, s')"
    and fresh: "''replay-auth:'' @ ob_id ev @ '':'' @ key \<notin> ra_idempotency_key ` set (db_auths s)"
  shows "(\<not> yr_ok res \<and> s' = s) \<or>
    (\<exists>ver dest authz rr evd. yr_ok res \<and> yr_replay_request res = Some rr \<and>
       dead_episode_state_version (ob_dead_at ev) (ob_attempts ev) = Inr ver \<and>
       destination_for_event_type (ob_event_type ev) = Inr dest \<and>
       create_request (yi_authorization ids) (yi_auth_request ids) (ts 3)
         (request_of a sc ''replay'' ''outbox_event'' (ob_id ev) ver ex
            (''replay-auth:'' @ ob_id ev @ '':'' @ key) (ot_production_effect tk) ref) (db_auths s)
         = Inr (authz, db_auths s @ [authz]) \<and>
       insert_replay_request (yi_replay ids) (ts 5) (ra_authorization_id authz) (ob_id ev) (ob_event_type ev) dest
         (or_empty (team_id sc)) (or_empty (project_id sc)) ver (principal_id a) key (db_replays s)
         = Inr (rr, db_replays s @ [rr]) \<and>
       ob_event_type evd = ''replay.requested'' \<and> ob_id evd = yi_event ids \<and>
       (clo_inv (db_outbox s) \<longrightarrow> clo_inv (db_outbox s @ [evd])) \<and>
       s' = s\<lparr>db_auths := db_auths s @ [authz], db_replays := db_replays s @ [rr],
         db_outbox := db_outbox s @ [evd]\<rparr>)"
proof -
  obtain ver dest where v: "dead_episode_state_version (ob_dead_at ev) (ob_attempts ev) = Inr ver"
    "destination_for_event_type (ob_event_type ev) = Inr dest"
    using c by (auto simp: submit_replay_def try_then_Inr_iff)
  show ?thesis
  proof (cases "create_replay ids ts a sc ev ver dest (ot_production_effect tk) key ex ref s")
    case (Inl e)
    then show ?thesis using c v by (cases e) (auto simp: submit_replay_def)
  next
    case (Inr p)
    obtain auth orr s1 where p: "p = ((auth, orr), s1)" by (metis prod.exhaust)
    from create_replay_cases[OF Inr[unfolded p] fresh] show ?thesis
    proof (elim disjE exE conjE)
      assume "orr = None" "s1 = s"
      then show ?thesis using c v Inr p by (auto simp: submit_replay_def split: if_split_asm)
    next
      fix authz rr
      assume orr: "orr = Some rr" and k: "create_request (yi_authorization ids) (yi_auth_request ids) (ts 3)
         (request_of a sc ''replay'' ''outbox_event'' (ob_id ev) ver ex
            (''replay-auth:'' @ ob_id ev @ '':'' @ key) (ot_production_effect tk) ref) (db_auths s)
          = Inr (authz, db_auths s @ [authz])"
        and i: "insert_replay_request (yi_replay ids) (ts 5) (ra_authorization_id authz) (ob_id ev) (ob_event_type ev) dest
         (or_empty (team_id sc)) (or_empty (project_id sc)) ver (principal_id a) key (db_replays s)
         = Inr (rr, db_replays s @ [rr])"
        and s1: "s1 = s\<lparr>db_auths := db_auths s @ [authz], db_replays := db_replays s @ [rr]\<rparr>"
      obtain evd s2 where e: "replay_emit (yi_event ids) (ts 0) (ts 6) (ob_clarification_id ev) (ob_task_id ev)
              ''replay.requested'' (''replay-requested:'' @ ob_id ev @ '':'' @ rpr_id rr)
              [(''replay_request_id'', PStr (rpr_id rr)), (''outbox_event_id'', PStr (ob_id ev)),
               (''destination'', PStr dest), (''reason'', PStr ''operator_requested'')] s1 = Inr (evd, s2)"
        "res = ReplayResult True ''ok'' ''operator_requested'' (Some rr)" "s' = s2"
        using c v Inr p orr by (auto simp: submit_replay_def try_then_Inr_iff)
      note em = replay_emit_Inr[OF e(1)]
      have "s' = s\<lparr>db_auths := db_auths s @ [authz], db_replays := db_replays s @ [rr],
         db_outbox := db_outbox s @ [evd]\<rparr>" using em(1) e(3) s1 by simp
      moreover have "clo_inv (db_outbox s) \<longrightarrow> clo_inv (db_outbox s @ [evd])" using em(1,5) s1 by simp
      ultimately show ?thesis using v k i em(2,3) e(2) by auto
    qed
  qed
qed

text \<open>A new key: the call either refuses before any write, or submits for an eligible event.\<close>

lemma request_replay_cases:
  assumes r: "request_replay env ids ts a sc eid key ex ref s = Inr (res, s')"
    and new: "key \<notin> rpr_idempotency_key ` set (db_replays s)"
  shows "(\<not> yr_ok res \<and> s' = s) \<or>
    (\<exists>ev tk. replay_api_enabled env \<and> allowed (evaluate ''request_replay'' a sc sc None False None) \<and>
       lock_outbox_event eid (db_outbox s) = Some ev \<and>
       resolve_event_scope eid (db_outbox s) (db_clarifications s) (db_tasks s) = Some tk \<and>
       ot_project_id tk \<in> {None, Some (or_empty (project_id sc))} \<and> ob_status ev = ''dead'' \<and>
       within_limits env ts a sc eid (db_replays s) \<and>
       submit_replay ids ts a sc ev tk key ex ref s = Inr (res, s'))"
proof -
  have g: "get_replay_request_by_idempotency_key key (db_replays s) = None"
    using new by (auto simp: get_replay_request_by_idempotency_key_def fetchrow_None_iff)
  show ?thesis
  proof (cases "replay_api_enabled env \<and> allowed (evaluate ''request_replay'' a sc sc None False None)")
    case False
    then show ?thesis using r g by (auto simp: request_replay_def Let_def split: if_split_asm)
  next
    case en: True
    show ?thesis
    proof (cases "\<exists>ev tk. lock_outbox_event eid (db_outbox s) = Some ev \<and>
        resolve_event_scope eid (db_outbox s) (db_clarifications s) (db_tasks s) = Some tk \<and>
        ot_project_id tk \<in> {None, Some (or_empty (project_id sc))}")
      case False
      then show ?thesis using r en g by (auto simp: request_replay_def split: option.splits if_split_asm)
    next
      case True
      then obtain ev tk where ev: "lock_outbox_event eid (db_outbox s) = Some ev"
        and tk: "resolve_event_scope eid (db_outbox s) (db_clarifications s) (db_tasks s) = Some tk"
          "ot_project_id tk \<in> {None, Some (or_empty (project_id sc))}" by blast
      show ?thesis
      proof (cases "dead_eligibility_denial ev")
        case (Some d)
        then show ?thesis using r en g ev tk dead_denial_not_ok[OF Some] by (auto simp: request_replay_def)
      next
        case None
        then have d: "ob_status ev = ''dead''" unfolding dead_eligible_iff by blast
        obtain lim where lim: "replay_rate_limited env ts a sc eid (db_replays s) = Inr lim"
          using r en g ev tk None by (auto simp: request_replay_def try_then_Inr_iff)
        show ?thesis
        proof (cases lim)
          case True
          then show ?thesis using r en g ev tk None lim by (auto simp: request_replay_def)
        next
          case False
          then have "submit_replay ids ts a sc ev tk key ex ref s = Inr (res, s')"
            using r en g ev tk None lim by (auto simp: request_replay_def)
          moreover have "within_limits env ts a sc eid (db_replays s)"
            using lim False by (intro not_limited) simp
          ultimately show ?thesis using en ev tk d by blast
        qed
      qed
    qed
  qed
qed

text \<open>
  A replay request is created whole or not at all, and within the limits: with a new key a refusal
  changes nothing. A success was allowed to the caller for a dead event that no active request holds,
  whose task is of the caller's project or of none; the caller has fewer requests in the configured
  window than the limit, and the event fewer executed replays. It appends one pending two-person
  authorization with the task's own production effect, one pending request bound to it and to the
  event's present episode and destination, and one \<^verbatim>\<open>replay.requested\<close> event, and changes nothing else.
\<close>

theorem request_replay_sound:
  assumes "request_replay env ids ts a sc eid key ex ref s = Inr (res, s')"
    "key \<notin> rpr_idempotency_key ` set (db_replays s)"
    "''replay-auth:'' @ eid @ '':'' @ key \<notin> ra_idempotency_key ` set (db_auths s)"
  shows "(\<not> yr_ok res \<longrightarrow> s' = s) \<and>
    (yr_ok res \<longrightarrow> replay_api_enabled env \<and> allowed (evaluate ''request_replay'' a sc sc None False None) \<and>
      within_limits env ts a sc eid (db_replays s) \<and>
      (\<exists>ev \<in> set (db_outbox s). \<exists>tk \<in> set (db_tasks s). \<exists>authz rr evd.
         ob_id ev = eid \<and> ob_status ev = ''dead'' \<and> ot_project_id tk \<in> {None, Some (or_empty (project_id sc))} \<and>
         (\<forall>x \<in> set (db_replays s). rpr_active x \<longrightarrow> rpr_outbox_event_id x \<noteq> eid) \<and>
         life authz = Pending \<and> ra_action_type authz = ''replay'' \<and> ra_resource_id authz = eid \<and>
         ra_requested_by authz = principal_id a \<and> ra_production_effect authz = ot_production_effect tk \<and>
         ra_resource_state_version authz = rpr_resource_state_version rr \<and>
         rpr_state rr = ''authorization_pending'' \<and> rpr_authorization_id rr = ra_authorization_id authz \<and>
         rpr_outbox_event_id rr = eid \<and> rpr_requested_by rr = principal_id a \<and>
         dead_episode_state_version (ob_dead_at ev) (ob_attempts ev) = Inr (rpr_resource_state_version rr) \<and>
         destination_for_event_type (ob_event_type ev) = Inr (rpr_destination rr) \<and>
         ob_event_type evd = ''replay.requested'' \<and>
         s' = s\<lparr>db_auths := db_auths s @ [authz], db_replays := db_replays s @ [rr],
           db_outbox := db_outbox s @ [evd]\<rparr>))"
  using request_replay_cases[OF assms(1,2)]
proof (elim disjE exE conjE)
  assume "\<not> yr_ok res" "s' = s" then show ?thesis by simp
next
  fix ev tk
  assume en: "replay_api_enabled env" "allowed (evaluate ''request_replay'' a sc sc None False None)"
    and ev: "lock_outbox_event eid (db_outbox s) = Some ev" "ob_status ev = ''dead''"
    and tk: "resolve_event_scope eid (db_outbox s) (db_clarifications s) (db_tasks s) = Some tk"
      "ot_project_id tk \<in> {None, Some (or_empty (project_id sc))}"
    and lim: "within_limits env ts a sc eid (db_replays s)"
    and c: "submit_replay ids ts a sc ev tk key ex ref s = Inr (res, s')"
  note evf = lock_outbox_SomeD[OF ev(1)]
  have tkf: "tk \<in> set (db_tasks s)" using tk(1) unfolding resolve_event_scope_def by (auto dest: fetchrow_SomeD)
  have fresh: "''replay-auth:'' @ ob_id ev @ '':'' @ key \<notin> ra_idempotency_key ` set (db_auths s)"
    using assms(3) evf(2) by simp
  from submit_replay_cases[OF c fresh] show ?thesis
  proof (elim disjE exE conjE)
    assume "\<not> yr_ok res" "s' = s" then show ?thesis by simp
  next
    fix ver dest authz rr evd
    assume ok: "yr_ok res" and v: "dead_episode_state_version (ob_dead_at ev) (ob_attempts ev) = Inr ver"
      "destination_for_event_type (ob_event_type ev) = Inr dest"
      and k: "create_request (yi_authorization ids) (yi_auth_request ids) (ts 3)
         (request_of a sc ''replay'' ''outbox_event'' (ob_id ev) ver ex
            (''replay-auth:'' @ ob_id ev @ '':'' @ key) (ot_production_effect tk) ref) (db_auths s)
         = Inr (authz, db_auths s @ [authz])"
      and i: "insert_replay_request (yi_replay ids) (ts 5) (ra_authorization_id authz) (ob_id ev) (ob_event_type ev) dest
         (or_empty (team_id sc)) (or_empty (project_id sc)) ver (principal_id a) key (db_replays s)
         = Inr (rr, db_replays s @ [rr])"
      and e: "ob_event_type evd = ''replay.requested''"
      and s': "s' = s\<lparr>db_auths := db_auths s @ [authz], db_replays := db_replays s @ [rr],
         db_outbox := db_outbox s @ [evd]\<rparr>"
    note azf = create_request_fields[OF k] and ins = insert_replay_Inr[OF i]
    have rr: "rpr_state rr = ''authorization_pending''" "rpr_authorization_id rr = ra_authorization_id authz"
      "rpr_outbox_event_id rr = eid" "rpr_requested_by rr = principal_id a" "rpr_resource_state_version rr = ver"
      "rpr_destination rr = dest"
      unfolding ins(3) using evf(2) by (simp_all add: new_replay_def)
    show ?thesis
    proof (rule conjI, use ok in simp, intro impI conjI en lim, rule bexI[OF _ evf(1)], rule bexI[OF _ tkf],
        intro exI[of _ authz] exI[of _ rr] exI[of _ evd] conjI)
    qed (use evf ev tk azf rr v ins(6) e s' in simp_all)
  qed
qed

theorem request_replay_sound_witness:
  "\<exists>res rr. request_replay demo_replay_env demo_replay_ids (\<lambda>_. 10) (human ''u1'' ''agent_operator'')
     demo_scope demo_event_id ''yk1'' 100 None demo_ydb0 = Inr (res, demo_ydb1) \<and> yr_ok res \<and>
     db_replays demo_ydb1 = db_replays demo_ydb0 @ [rr] \<and> rpr_outbox_event_id rr = demo_event_id"
proof -
  obtain res where r: "request_replay demo_replay_env demo_replay_ids (\<lambda>_. 10) (human ''u1'' ''agent_operator'')
     demo_scope demo_event_id ''yk1'' 100 None demo_ydb0 = Inr (res, demo_ydb1)" "yr_ok res"
    using ydb_after_SomeD[OF demo_replay_request_runs] by blast
  have e: "db_replays demo_ydb0 = []" "db_auths demo_ydb0 = []" by (simp_all add: demo_ydb0_def)
  obtain rr evd authz where "rpr_outbox_event_id rr = demo_event_id"
    "demo_ydb1 = demo_ydb0\<lparr>db_auths := db_auths demo_ydb0 @ [authz], db_replays := db_replays demo_ydb0 @ [rr],
       db_outbox := db_outbox demo_ydb0 @ [evd]\<rparr>"
    using request_replay_sound[OF r(1)] r(2) e by fastforce
  moreover from this(2) have "db_replays demo_ydb1 = db_replays demo_ydb0 @ [rr]"
    by (rule ssubst[of demo_ydb1 _ "\<lambda>s. db_replays s = db_replays demo_ydb0 @ [rr]"]) simp
  ultimately show ?thesis using r by blast
qed

section \<open>Executing\<close>

lemma replay_move_found:
  assumes inv: "rpr_inv t" and r: "r \<in> set t" "replay_guard c r" "rpr_checks (replay_move c r)"
  shows "replay_transition c (rpr_id r) t = Inr (Some (replay_move c r), update_where (\<lambda>x. x = r) (replay_move c) t)"
proof -
  have e: "rpr_id x = rpr_id r \<longleftrightarrow> x = r" if "x \<in> set t" for x
    using rpr_inv_row[OF inv that r(1)] by auto
  have d: "distinct (map rpr_id t)" using inv by (simp add: rpr_inv_def)
  have f: "fetchrow (\<lambda>x. rpr_id x = rpr_id r \<and> replay_guard c x) t = Some r"
    using r(1,2) by (intro fetchrow_distinct[OF d]) auto
  have u: "update_where (\<lambda>x. rpr_id x = rpr_id r \<and> replay_guard c x) (replay_move c) t =
      update_where (\<lambda>x. x = r) (replay_move c) t"
    using e r(2) by (auto simp: update_where_def)
  have "\<forall>x \<in> set t. rpr_id x = rpr_id r \<and> replay_guard c x \<longrightarrow> rpr_checks (replay_move c x)"
    using e r(3) by auto
  then show ?thesis unfolding replay_transition_Inr cas_def update_returning_def f u by simp
qed

lemma executed_ok:
  assumes "rpr_wf r" "rpr_state r = ''authorized''"
  shows "rpr_checks (replay_set ReplayExecute now r)"
  using assms by (simp add: rpr_wf_def rpr_checks_def REPLAY_STATES_def)

lemma consume_keeps_replays:
  assumes "consume_authorization ts aid a sc ver s = Inr (out, s')" "paa_inv (db_approvals s)"
  shows "db_replays s' = db_replays s" "db_outbox s' = db_outbox (s::replay_db)"
  using consume_authorization_cases[OF assms(2,1)] by auto

lemma readiness_default: "readiness_of None dest \<noteq> READINESS_READY"
  by (simp add: readiness_of_def default_destination_readiness_def READINESS_READY_def
      READINESS_NOT_CONFIGURED_def READINESS_UNKNOWN_DESTINATION_def Let_def)

lemma execute_blocked_iff:
  assumes "replay_execution_enabled env" "load_replay rid sc s = Some rr" "rpr_state rr = ''authorized''"
    "revalidate_event rr s = Inr (Inr ev)" "readiness_of provider (rpr_destination rr) \<noteq> READINESS_READY"
  shows "execute_authorized_replay env eid ts rid a sc provider s =
    try_then (replay_emit eid (ts 0) (ts 1) (ob_clarification_id ev) (ob_task_id ev)
       ''replay.execution_blocked''
       (''replay-blocked:'' @ rpr_outbox_event_id rr @ '':'' @ rid @ '':'' @ readiness_of provider (rpr_destination rr))
       [(''replay_request_id'', PStr rid), (''reason'', PStr ''destination_unavailable'')] s)
      (\<lambda>(_, s1). Inr (yr_deny ''destination_unavailable'' ''destination_unavailable'', s1))"
  using assms by (simp add: execute_authorized_replay_def Let_def)

lemma clo_inv_requeue:
  assumes "clo_inv t" "ev \<in> set t" "ob_status ev = ''dead''"
  shows "clo_inv (update_where (\<lambda>x. x = ev) (requeued now) t)"
proof -
  have "\<forall>r \<in> set (update_where (\<lambda>x. x = ev) (requeued now) t). clo_checks r"
    using assms requeued_checks[of ev now] unfolding replay_upd_requeued
    by (intro all_update_where) (auto simp: clo_inv_def)
  then show ?thesis using assms(1) by (simp add: clo_inv_def map_update_where requeued_def)
qed

lemma apply_replay_Inr:
  assumes p: "apply_replay eid ts rid sc rr ev s1 = Inr (res, s')"
    and inv: "clo_inv (db_outbox s1)" "rpr_inv (db_replays s1)"
    and rr: "rr \<in> set (db_replays s1)" "rpr_id rr = rid" "rpr_state rr = ''authorized''"
      "rpr_in_scope (team_id sc) (project_id sc) rr"
    and ev: "ev \<in> set (db_outbox s1)" "ob_id ev = rpr_outbox_event_id rr" "ob_status ev = ''dead''"
      "dead_episode_state_version (ob_dead_at ev) (ob_attempts ev) = Inr (rpr_resource_state_version rr)"
  shows "yr_ok res \<and> (\<exists>evd. ob_event_type evd = ''replay.executed'' \<and> ob_id evd = eid \<and>
    clo_inv (update_where (\<lambda>x. x = ev) (requeued (ts 6)) (db_outbox s1) @ [evd]) \<and>
    s' = s1\<lparr>db_outbox := update_where (\<lambda>x. x = ev) (requeued (ts 6)) (db_outbox s1) @ [evd],
      db_replays := update_where (\<lambda>x. x = rr) (replay_set ReplayExecute (ts 7)) (db_replays s1)\<rparr>)"
proof -
  have d: "replay_dead_row (ts 6) (rpr_outbox_event_id rr) (rpr_resource_state_version rr) (db_outbox s1) =
      Inr (Some (requeued (ts 6) ev), update_where (\<lambda>x. x = ev) (requeued (ts 6)) (db_outbox s1))"
    using replay_dead_row_found[OF inv(1) ev(1,3,4)] unfolding ev(2) .
  let ?c = "(ReplayExecute, ts 7, team_id sc, project_id sc)"
  have m: "replay_move ?c = replay_set ReplayExecute (ts 7)" by (rule ext) simp
  have t: "replay_to_executed (ts 7) rid (team_id sc) (project_id sc) (db_replays s1) =
      Inr (Some (replay_set ReplayExecute (ts 7) rr),
        update_where (\<lambda>x. x = rr) (replay_set ReplayExecute (ts 7)) (db_replays s1))"
    using replay_move_found[OF inv(2) rr(1), of ?c] rr(2-4) executed_ok[OF rpr_inv_wf[OF inv(2) rr(1)] rr(3)]
    unfolding replay_to_executed_def m by simp
  obtain evd s2 where e: "replay_emit eid (ts 0) (ts 8) (ob_clarification_id ev) (ob_task_id ev)
        ''replay.executed'' (''replay-executed:'' @ rpr_outbox_event_id rr @ '':'' @ rid)
        [(''replay_request_id'', PStr rid), (''outbox_event_id'', PStr (rpr_outbox_event_id rr))]
        (s1\<lparr>db_outbox := update_where (\<lambda>x. x = ev) (requeued (ts 6)) (db_outbox s1),
          db_replays := update_where (\<lambda>x. x = rr) (replay_set ReplayExecute (ts 7)) (db_replays s1)\<rparr>) = Inr (evd, s2)"
    "res = ReplayResult True ''ok'' ''policy_allow'' (Some (replay_set ReplayExecute (ts 7) rr))" "s' = s2"
    using p d t by (auto simp: apply_replay_def try_then_Inr_iff)
  note em = replay_emit_Inr[OF e(1)]
  have "clo_inv (update_where (\<lambda>x. x = ev) (requeued (ts 6)) (db_outbox s1) @ [evd])"
    using em(1,5) clo_inv_requeue[OF inv(1) ev(1,3)] by simp
  then show ?thesis using em(1-3) e(2,3) by (intro conjI exI[of _ evd]) simp_all
qed

lemma execute_replay_cases:
  assumes inv: "paa_inv (db_approvals s)" "rpr_inv (db_replays s)" "clo_inv (db_outbox s)"
    and p: "execute_authorized_replay env eid ts rid a sc provider s = Inr (res, s')"
  shows "(\<not> yr_ok res \<and> s' = s) \<or>
    (\<not> yr_ok res \<and> yr_result_kind res = ''destination_unavailable'' \<and>
       (\<exists>evd. ob_event_type evd = ''replay.execution_blocked'' \<and> ob_id evd = eid \<and>
          clo_inv (db_outbox s @ [evd]) \<and> s' = s\<lparr>db_outbox := db_outbox s @ [evd]\<rparr>)) \<or>
    (\<exists>rr ev out s1 evd. yr_ok res \<and> replay_execution_enabled env \<and> load_replay rid sc s = Some rr \<and>
       rpr_state rr = ''authorized'' \<and> revalidate_event rr s = Inr (Inr ev) \<and>
       readiness_of provider (rpr_destination rr) = READINESS_READY \<and>
       consume_authorization (\<lambda>k. ts (k + 1)) (rpr_authorization_id rr) a sc (rpr_resource_state_version rr) s
         = Inr (out, s1) \<and> sr_ok out \<and> ob_event_type evd = ''replay.executed'' \<and> ob_id evd = eid \<and>
       clo_inv (update_where (\<lambda>x. x = ev) (requeued (ts 6)) (db_outbox s) @ [evd]) \<and>
       s' = s1\<lparr>db_outbox := update_where (\<lambda>x. x = ev) (requeued (ts 6)) (db_outbox s) @ [evd],
         db_replays := update_where (\<lambda>x. x = rr) (replay_set ReplayExecute (ts 7)) (db_replays s)\<rparr>)"
proof (cases "\<exists>rr. replay_execution_enabled env \<and> load_replay rid sc s = Some rr \<and> rpr_state rr = ''authorized''")
  case False
  then show ?thesis using p by (auto simp: execute_authorized_replay_def split: option.splits if_split_asm)
next
  case True
  then obtain rr where rr: "replay_execution_enabled env" "load_replay rid sc s = Some rr" "rpr_state rr = ''authorized''"
    by blast
  note ld = load_replay_SomeD[OF rr(2)]
  obtain chk where chk: "revalidate_event rr s = Inr chk"
    using p rr by (auto simp: execute_authorized_replay_def try_then_Inr_iff)
  show ?thesis
  proof (cases chk)
    case (Inl d)
    then show ?thesis using p rr chk revalidate_event_Inl[of rr s d] by (auto simp: execute_authorized_replay_def)
  next
    case (Inr ev)
    note chk = chk[unfolded Inr]
    note evf = revalidate_event_Inr[OF chk]
    show ?thesis
    proof (cases "readiness_of provider (rpr_destination rr) = READINESS_READY")
      case False
      note blocked = execute_blocked_iff[OF rr chk False]
      obtain evd s1 where e: "replay_emit eid (ts 0) (ts 1) (ob_clarification_id ev) (ob_task_id ev)
         ''replay.execution_blocked''
         (''replay-blocked:'' @ rpr_outbox_event_id rr @ '':'' @ rid @ '':'' @ readiness_of provider (rpr_destination rr))
         [(''replay_request_id'', PStr rid), (''reason'', PStr ''destination_unavailable'')] s = Inr (evd, s1)"
        "res = yr_deny ''destination_unavailable'' ''destination_unavailable''" "s' = s1"
        using p unfolding blocked by (auto simp: try_then_Inr_iff)
      note em = replay_emit_Inr[OF e(1)]
      show ?thesis using em e(2,3) inv(3) by auto
    next
      case ready: True
      obtain out s1 where c: "consume_authorization (\<lambda>k. ts (k + 1)) (rpr_authorization_id rr) a sc
          (rpr_resource_state_version rr) s = Inr (out, s1)"
        and rest: "(if \<not> sr_ok out then Inr (yr_deny (sr_result_kind out) (sr_reason_code out), s1)
               else apply_replay eid ts rid sc rr ev s1) = Inr (res, s')"
        using p rr chk ready by (auto simp: execute_authorized_replay_def Let_def try_then_Inr_iff)
      note kt = consume_keeps_replays[OF c inv(1)]
      show ?thesis
      proof (cases "sr_ok out")
        case False
        then have "s1 = s" using consume_authorization_cases[OF inv(1) c] by auto
        then show ?thesis using rest False by auto
      next
        case ok: True
        then have ap: "apply_replay eid ts rid sc rr ev s1 = Inr (res, s')" using rest by simp
        note evm = lock_outbox_SomeD[OF evf(1)]
        from apply_replay_Inr[OF ap, unfolded kt, OF inv(3,2) ld(1,2) rr(3) ld(3) evm evf(2,4)]
        show ?thesis using rr chk ready c ok by blast
      qed
    qed
  qed
qed

text \<open>
  C4. Consuming the authorization, requeueing the dead row and closing the request happen together or
  not at all. An execution that does not succeed changes nothing, but for the evidence of an attempt
  that a destination blocked. One that succeeds was made by the service identity with the gate open
  and with a readiness provider of its own (the default never reports a destination ready), for an
  authorized request of its scope whose event is dead in the episode the request recorded; it consumes
  the request's own authorization, which was authorized and unexpired, returns exactly that event to
  pending with its attempts kept, marks exactly that request executed, and appends one
  \<^verbatim>\<open>replay.executed\<close> event.
\<close>

theorem execute_replay_atomic:
  assumes "rra_inv (db_auths s)" "paa_inv (db_approvals s)" "rpr_inv (db_replays s)" "clo_inv (db_outbox s)"
    "execute_authorized_replay env eid ts rid a sc provider s = Inr (res, s')"
  shows "(\<not> yr_ok res \<longrightarrow> s' = s \<or> yr_result_kind res = ''destination_unavailable'' \<and>
       (\<exists>evd. ob_event_type evd = ''replay.execution_blocked'' \<and> s' = s\<lparr>db_outbox := db_outbox s @ [evd]\<rparr>)) \<and>
    (yr_ok res \<longrightarrow> is_service_identity a \<and> replay_execution_enabled env \<and> provider \<noteq> None \<and>
      (\<exists>rr \<in> set (db_replays s). \<exists>authz \<in> set (db_auths s). \<exists>ev \<in> set (db_outbox s). \<exists>evd.
         rpr_id rr = rid \<and> rpr_in_scope (team_id sc) (project_id sc) rr \<and> rpr_state rr = ''authorized'' \<and>
         ob_id ev = rpr_outbox_event_id rr \<and> ob_status ev = ''dead'' \<and>
         dead_episode_state_version (ob_dead_at ev) (ob_attempts ev) = Inr (rpr_resource_state_version rr) \<and>
         ra_authorization_id authz = rpr_authorization_id rr \<and> life authz = Authorized \<and>
         ts 3 < ra_expires_at authz \<and> ra_resource_state_version authz = rpr_resource_state_version rr \<and>
         ob_event_type evd = ''replay.executed'' \<and>
         db_auths s' = update_where (\<lambda>x. x = authz) (consumed_row (ts 3) (principal_id a)) (db_auths s) \<and>
         db_outbox s' = update_where (\<lambda>x. x = ev) (\<lambda>x. x\<lparr>ob_status := ''pending'', ob_available_at := ts 6,
            ob_dead_at := None, ob_last_error := None\<rparr>) (db_outbox s) @ [evd] \<and>
         db_replays s' = update_where (\<lambda>x. x = rr) (\<lambda>x. x\<lparr>rpr_state := ''executed'',
            rpr_executed_at := Some (ts 7), rpr_updated_at := ts 7\<rparr>) (db_replays s)))"
  using execute_replay_cases[OF assms(2-5)]
proof (elim disjE exE conjE)
  fix rr ev out s1 evd
  assume ok: "yr_ok res" and en: "replay_execution_enabled env" and ld: "load_replay rid sc s = Some rr"
    and st: "rpr_state rr = ''authorized''" and chk: "revalidate_event rr s = Inr (Inr ev)"
    and ready: "readiness_of provider (rpr_destination rr) = READINESS_READY"
    and c: "consume_authorization (\<lambda>k. ts (k + 1)) (rpr_authorization_id rr) a sc (rpr_resource_state_version rr) s
         = Inr (out, s1)" "sr_ok out"
    and evd: "ob_event_type evd = ''replay.executed''"
    and s': "s' = s1\<lparr>db_outbox := update_where (\<lambda>x. x = ev) (requeued (ts 6)) (db_outbox s) @ [evd],
         db_replays := update_where (\<lambda>x. x = rr) (replay_set ReplayExecute (ts 7)) (db_replays s)\<rparr>"
  obtain row r t' ap' where m: "may_consume (rpr_authorization_id rr) a sc row s"
    and con: "consume (ts 3) (rpr_authorization_id rr) (principal_id a) (rpr_resource_state_version rr)
        (team_id sc) (project_id sc) (db_auths s) = Inr (Some r, t')"
    and s1: "s1 = s\<lparr>db_approvals := ap', db_auths := t'\<rparr>"
    using consume_authorization_cases[OF assms(2) c(1)] c(2) by (auto simp: numeral_3_eq_3)
  note svc = may_consume_service[OF m]
  note tab = consume_Some_table[OF assms(1) con svc(2,3)]
  note ldf = load_replay_SomeD[OF ld] and evf = revalidate_event_Inr[OF chk]
  note evm = lock_outbox_SomeD[OF evf(1)]
  have f: "replay_set ReplayExecute (ts 7) =
      (\<lambda>x. x\<lparr>rpr_state := ''executed'', rpr_executed_at := Some (ts 7), rpr_updated_at := ts 7\<rparr>)"
    "requeued (ts 6) = (\<lambda>x. x\<lparr>ob_status := ''pending'', ob_available_at := ts 6, ob_dead_at := None, ob_last_error := None\<rparr>)"
    by (rule ext, simp add: requeued_def)+
  have pr: "provider \<noteq> None" using ready readiness_default by metis
  show ?thesis
  proof (rule conjI, use ok in simp, intro impI conjI svc(1) en pr, rule bexI[OF _ ldf(1)], rule bexI[OF _ svc(2)],
      rule bexI[OF _ evm(1)], rule exI[of _ evd])
  qed (use st ldf evm evf svc tab evd s' s1 f in simp)
qed auto

theorem execute_replay_atomic_witness:
  "\<exists>res. execute_authorized_replay demo_replay_env demo_executed_id (\<lambda>_. 30) ''y1'' demo_service demo_scope
     demo_ready demo_ydb2 = Inr (res, demo_ydb3) \<and> yr_ok res \<and>
     (\<exists>authz \<in> set (db_auths demo_ydb2). life authz = Authorized \<and>
        db_auths demo_ydb3 = update_where (\<lambda>x. x = authz) (consumed_row 30 ''svc'') (db_auths demo_ydb2))"
proof -
  obtain res where r: "execute_authorized_replay demo_replay_env demo_executed_id (\<lambda>_. 30) ''y1'' demo_service
      demo_scope demo_ready demo_ydb2 = Inr (res, demo_ydb3)" "yr_ok res"
    using ydb_after_SomeD[OF demo_replay_execute_runs] by blast
  have "principal_id demo_service = ''svc''" by (simp add: demo_service_def)
  with execute_replay_atomic[OF demo_ydb2_inv r(1)] r show ?thesis by auto
qed

section \<open>A blocked destination\<close>

lemma fetchrow_append: "fetchrow p t = Some r \<Longrightarrow> fetchrow p (t @ u) = Some r"
  by (induction t) (auto simp: fetchrow_def)

text \<open>The insert has no conflict clause: the same key a second time is a unique violation.\<close>

lemma insert_outbox_again:
  assumes "insert_lifecycle_outbox_event eid c n cl tk ev key p t = Inr (row, t')"
  shows "\<exists>ix. insert_lifecycle_outbox_event eid' c' n' cl tk ev key p t' = Inl (UniqueViolation ix)"
proof -
  note ins = insert_outbox_Inr[OF assms]
  obtain q where q: "assert_safe_outbox_payload p ev = Inr q" using ins(14) by blast
  have "list_ex (\<lambda>r. ob_idempotency_key r = key) t'" using ins(1,5) by (simp add: list_ex_iff)
  moreover have "btrim_nonempty ev" "btrim_nonempty key"
    using ins(5,6,9) by (auto simp: clo_checks_def)
  ultimately show ?thesis using q
    by (simp add: insert_lifecycle_outbox_event_def clo_checks_def Let_def)
qed

text \<open>
  A second attempt against a destination that is still not ready does not answer as the first did:
  where the first attempt was denied as blocked, a repeat with the same readiness raises a unique
  violation, because the evidence of both carries the same idempotency key; the exception rolls the
  caller's transaction back.
\<close>

theorem blocked_execution_raises_again:
  assumes "execute_authorized_replay env eid ts rid a sc provider s = Inr (res, s1)"
    "yr_result_kind res = ''destination_unavailable''" "load_replay rid sc s = Some rr"
    "readiness_of provider (rpr_destination rr) \<noteq> READINESS_READY"
  shows "\<exists>ix. execute_authorized_replay env eid' ts' rid a sc provider s1 = Inl (UniqueViolation ix)"
proof -
  have en: "replay_execution_enabled env" and st: "rpr_state rr = ''authorized''"
    using assms(1-3) by (auto simp: execute_authorized_replay_def split: if_split_asm)
  then obtain chk where chk: "revalidate_event rr s = Inr chk"
    using assms(1,3) by (auto simp: execute_authorized_replay_def try_then_Inr_iff)
  have "\<exists>ev. chk = Inr ev"
  proof (cases chk)
    case (Inl d)
    have "yr_result_kind d \<noteq> ''destination_unavailable''"
      using chk Inl
      by (auto simp: revalidate_event_def try_then_Inr_iff replay_masked_def dead_eligibility_denial_def
          split: option.splits if_split_asm sum.splits py_exn.splits)
    then show ?thesis using assms(1-3) en st chk Inl by (auto simp: execute_authorized_replay_def)
  qed simp
  then obtain ev where ev: "revalidate_event rr s = Inr (Inr ev)" using chk by blast
  note blocked = execute_blocked_iff[OF en assms(3) st ev assms(4), of eid ts a]
  obtain evd where e: "replay_emit eid (ts 0) (ts 1) (ob_clarification_id ev) (ob_task_id ev)
       ''replay.execution_blocked''
       (''replay-blocked:'' @ rpr_outbox_event_id rr @ '':'' @ rid @ '':'' @ readiness_of provider (rpr_destination rr))
       [(''replay_request_id'', PStr rid), (''reason'', PStr ''destination_unavailable'')] s = Inr (evd, s1)"
    using assms(1) unfolding blocked by (auto simp: try_then_Inr_iff)
  note em = replay_emit_Inr[OF e]
  have ld: "load_replay rid sc s1 = Some rr" using assms(3) em(1) by (simp add: load_replay_def)
  note evf = revalidate_event_Inr[OF ev]
  have "lock_outbox_event (rpr_outbox_event_id rr) (db_outbox s1) = Some ev"
    using evf(1) em(1) by (simp add: lock_outbox_event_def fetchrow_append)
  then have ev1: "revalidate_event rr s1 = Inr (Inr ev)"
    using evf(2-4) dead_eligible_iff[of ev] by (simp add: revalidate_event_def)
  obtain t' where i: "insert_lifecycle_outbox_event eid (ts 0) (ts 1) (ob_clarification_id ev) (ob_task_id ev)
       ''replay.execution_blocked''
       (''replay-blocked:'' @ rpr_outbox_event_id rr @ '':'' @ rid @ '':'' @ readiness_of provider (rpr_destination rr))
       (Some [(''replay_request_id'', PStr rid), (''reason'', PStr ''destination_unavailable'')]) (db_outbox s)
         = Inr (evd, t')" "db_outbox s1 = t'"
    using e by (auto simp: replay_emit_def try_then_Inr_iff)
  show ?thesis
    using insert_outbox_again[OF i(1), of eid' "ts' 0" "ts' 1"] i(2)
    unfolding execute_blocked_iff[OF en ld st ev1 assms(4)] by (auto simp: replay_emit_def)
qed

theorem blocked_execution_raises_again_witness:
  "\<exists>res s1 ix. execute_authorized_replay demo_replay_env demo_executed_id (\<lambda>_. 30) ''y1'' demo_service demo_scope
       None demo_ydb2 = Inr (res, s1) \<and> yr_result_kind res = ''destination_unavailable'' \<and>
     execute_authorized_replay demo_replay_env demo_event_id (\<lambda>_. 40) ''y1'' demo_service demo_scope None s1
       = Inl (UniqueViolation ix)"
proof -
  obtain res s1 where r: "execute_authorized_replay demo_replay_env demo_executed_id (\<lambda>_. 30) ''y1'' demo_service
      demo_scope None demo_ydb2 = Inr (res, s1)" "yr_result_kind res = ''destination_unavailable''"
    using demo_replay_blocked_runs by (auto split: sum.splits)
  have l: "load_replay ''y1'' demo_scope demo_ydb2 = Some demo_yr2" by code_simp
  have "readiness_of None (rpr_destination demo_yr2) \<noteq> READINESS_READY" using readiness_default by metis
  from blocked_execution_raises_again[OF r l this] r show ?thesis by blast
qed

section \<open>The expiry scan\<close>

text \<open>As for resumes: a due request that is already authorized makes the whole scan fail.\<close>

lemma replay_expiry_scan_fails:
  assumes "rpr_inv t" "r \<in> set t" "rpr_state r = ''authorized''" "a \<in> set auths"
    "ra_authorization_id a = rpr_authorization_id r" "ra_expires_at a \<le> before"
    "rpr_id r \<in> set (map rpr_id (take limit (filter replay_expirable (visit t))))"
  shows "expire_due_replay_requests visit now before limit auths t = Inl (CheckViolation ''replay_requests'')"
proof -
  have "\<not> rpr_checks (expire_replay_upd now r)"
    using expired_replay_checks[of now r] rpr_wf_authorized_at[OF rpr_inv_wf[OF assms(1,2)] assms(3)] by auto
  moreover have "replay_picks visit before limit auths t r"
    using assms by (auto simp: replay_picks_def replay_expiry_due_def replay_expirable_def list_ex_iff)
  ultimately show ?thesis using assms(2) by (auto simp: expire_replay_eq list_ex_iff)
qed

end
