(* ===== verification/Replay_History.thy ===== *)
theory Replay_History imports Replay_Props Authz_History begin

text \<open>
  The replay service over time. A history interleaves calls of the five operations with any other
  statement on the authorizations, with the expiry scan, and with whatever other components do to
  their tables. \<open>coherent\<close> relates each request to the authorization it was created with; it holds in
  every reachable database and gives the two-person rule for executed replays.
\<close>

section \<open>What the authorization calls do to the table\<close>

definition auths_move :: "auth_table \<Rightarrow> auth_table \<Rightarrow> bool" where
  "auths_move t t' \<longleftrightarrow> rra_inv t' \<and> (\<exists>g. t' = map g t \<and>
     (\<forall>r \<in> set t. rra_identity (g r) = rra_identity r \<and> (g r = r \<or> life_step (life r) (life (g r)))))"

lemma auths_move_refl: "rra_inv t \<Longrightarrow> auths_move t t"
  unfolding auths_move_def by (intro conjI exI[of _ "\<lambda>r. r"]) simp_all

lemma rra_step_same_length:
  assumes "rra_inv t" "rra_step t t'" "length t' = length t"
  shows "auths_move t t'"
  unfolding auths_move_def
proof
  show "rra_inv t'" using assms(1,2) rra_step_inv by blast
  from assms(1,2) show "\<exists>g. t' = map g t \<and>
     (\<forall>r \<in> set t. rra_identity (g r) = rra_identity r \<and> (g r = r \<or> life_step (life r) (life (g r))))"
  proof (cases rule: rra_step_rows)
    case (new row)
    then show ?thesis using assms(3) by simp
  next
    case (upd g)
    then show ?thesis by blast
  qed
qed

lemma decide_moves:
  assumes "rra_inv t" "decide p aid t = Inr (x, t')"
  shows "auths_move t t'"
proof (rule rra_step_same_length[OF assms(1) rra_step.decide[OF assms(2)]])
  show "length t' = length t" using decide_cas[OF assms(2)] by (simp add: cas_def update_returning_def)
qed

lemma finish_moves:
  assumes "rra_inv t" "finish p aid t = Inr (x, t')"
  shows "auths_move t t'"
proof (rule rra_step_same_length[OF assms(1) rra_step.finish[OF assms(2)]])
  show "length t' = length t" using finish_cas[OF assms(2)] by (simp add: cas_def update_returning_def)
qed

text \<open>A decision that succeeds leaves the row it names in the decided state.\<close>

fun decided_life :: "decide_op \<Rightarrow> auth_life" where
  "decided_life (Approve _ _ _ _ _ _ _ _) = Authorized"
| "decided_life (Reject _ _ _ _ _ _) = Rejected"
| "decided_life (Cancel _ _ _ _ _ _) = Canceled"

lemma decide_life:
  assumes inv: "rra_inv t" and d: "decide p aid t = Inr (Some r, t')" and z: "z \<in> set t'" "ra_authorization_id z = aid"
  shows "life z = decided_life p"
proof -
  have c: "cas ra_authorization_id decide_guard decide_upd p aid t = (Some r, t')" using decide_cas[OF d] by simp
  from c obtain r0 where r0: "r0 \<in> set t" "ra_authorization_id r0 = aid" "decide_guard p r0" "r = decide_upd p r0" "r \<in> set t'"
    by (rule decides.cas_won)
  have "rra_inv t'" using rra_step.decide[OF d] inv rra_step_inv by blast
  then have "z = r" using z r0(2,4,5) distinct_map_eqD[of ra_authorization_id t' z r] by (simp add: rra_inv_def)
  moreover have "rra_wf r0" using inv r0(1) by (simp add: rra_inv_def)
  ultimately show ?thesis using r0(3,4)
    by (cases p) (auto simp: life_def decide_guard_def rra_wf_def rra_checks_def)
qed

lemma authorize_effect:
  assumes "rra_inv (db_auths s)" "authorize ts aid a sc pv s = Inr (out, s')"
  shows "\<exists>t. s' = s\<lparr>db_auths := t\<rparr> \<and> auths_move (db_auths s) t \<and>
    (sr_ok out \<longrightarrow> (\<forall>z \<in> set t. ra_authorization_id z = aid \<longrightarrow> life z = Authorized))"
proof -
  have "(\<not> sr_ok out \<and> s' = s) \<or> (\<exists>r t. decide (Approve (ts 0) (principal_id a) (role a) (Some ''policy_allow'')
      ''allow'' pv (team_id sc) (project_id sc)) aid (db_auths s) = Inr (Some r, t) \<and> s' = s\<lparr>db_auths := t\<rparr>)"
    using assms(2) unfolding authorize_def approve_def Let_def
    by (auto simp: try_then_Inr_iff masked_def deny_outcome_def split: option.splits if_split_asm)
  then show ?thesis
  proof (elim disjE exE conjE)
    assume "\<not> sr_ok out" "s' = s"
    then show ?thesis using auths_move_refl[OF assms(1)] by (intro exI[of _ "db_auths s"]) simp
  next
    fix r t assume d: "decide (Approve (ts 0) (principal_id a) (role a) (Some ''policy_allow'')
      ''allow'' pv (team_id sc) (project_id sc)) aid (db_auths s) = Inr (Some r, t)" and "s' = s\<lparr>db_auths := t\<rparr>"
    then show ?thesis using decide_moves[OF assms(1) d] decide_life[OF assms(1) d] by (intro exI[of _ t]) simp
  qed
qed

lemma decide_simple_effect:
  assumes "rra_inv (db_auths s)" "decide_simple ts aid a sc op ev code s = Inr (out, s')" "op \<in> {''reject'', ''cancel''}"
  shows "\<exists>t. s' = s\<lparr>db_auths := t\<rparr> \<and> auths_move (db_auths s) t \<and>
    (sr_ok out \<longrightarrow> (\<forall>z \<in> set t. ra_authorization_id z = aid \<longrightarrow>
       life z = (if op = ''reject'' then Rejected else Canceled)))"
proof -
  have "(\<not> sr_ok out \<and> s' = s) \<or> (\<exists>p r t. decided_life p = (if op = ''reject'' then Rejected else Canceled) \<and>
      decide p aid (db_auths s) = Inr (Some r, t) \<and> s' = s\<lparr>db_auths := t\<rparr>)"
  proof (cases "op = ''reject''")
    case True
    then show ?thesis using assms(2) unfolding decide_simple_def reject_def Let_def
      by (auto simp: try_then_Inr_iff masked_def deny_outcome_def split: option.splits if_split_asm
          intro!: exI[of _ "Reject (ts 0) (principal_id a) (role a) (Some code) (team_id sc) (project_id sc)"])
  next
    case False
    then show ?thesis using assms(2,3) unfolding decide_simple_def cancel_def Let_def
      by (auto simp: try_then_Inr_iff masked_def deny_outcome_def split: option.splits if_split_asm
          intro!: exI[of _ "Cancel (ts 0) (principal_id a) (role a) (Some code) (team_id sc) (project_id sc)"])
  qed
  then show ?thesis
  proof (elim disjE exE conjE)
    assume "\<not> sr_ok out" "s' = s"
    then show ?thesis using auths_move_refl[OF assms(1)] by (intro exI[of _ "db_auths s"]) simp
  next
    fix p r t assume l: "decided_life p = (if op = ''reject'' then Rejected else Canceled)"
      and d: "decide p aid (db_auths s) = Inr (Some r, t)" and s': "s' = s\<lparr>db_auths := t\<rparr>"
    show ?thesis using decide_moves[OF assms(1) d] decide_life[OF assms(1) d] s' l by (intro exI[of _ t]) metis
  qed
qed

section \<open>Coherence of requests and authorizations\<close>

definition bound_to_auth :: "replay_row \<Rightarrow> auth_row \<Rightarrow> bool" where
  "bound_to_auth rr z \<longleftrightarrow> ra_authorization_id z = rpr_authorization_id rr \<and> ra_action_type z = ''replay'' \<and>
     ra_resource_id z = rpr_outbox_event_id rr \<and> ra_requested_by z = rpr_requested_by rr \<and>
     ra_resource_state_version z = rpr_resource_state_version rr \<and>
     ra_team_id z = rpr_team_id rr \<and> ra_project_id z = rpr_project_id rr"

definition settled :: "replay_row \<Rightarrow> auth_row \<Rightarrow> bool" where
  "settled rr z \<longleftrightarrow> (rpr_state rr = ''executed'' \<longrightarrow> life z = Consumed) \<and>
     (rpr_state rr = ''rejected'' \<longrightarrow> life z = Rejected) \<and> (rpr_state rr = ''canceled'' \<longrightarrow> life z = Canceled) \<and>
     (rpr_state rr = ''authorized'' \<longrightarrow> life z \<in> {Authorized, Expired, Revoked, Consumed})"

definition replay_key :: "string \<Rightarrow> string \<Rightarrow> string" where
  "replay_key event key = ''replay-auth:'' @ event @ '':'' @ key"

definition ids_sized :: "outbox_table \<Rightarrow> bool" where
  "ids_sized t \<longleftrightarrow> (\<forall>r \<in> set t. length (ob_id r) = 36)"

definition coherent :: "replay_db \<Rightarrow> bool" where
  "coherent s \<longleftrightarrow> rra_inv (db_auths s) \<and> paa_inv (db_approvals s) \<and> rpr_inv (db_replays s) \<and>
     clo_inv (db_outbox s) \<and> ids_sized (db_outbox s) \<and> distinct (map rpr_authorization_id (db_replays s)) \<and>
     (\<forall>rr \<in> set (db_replays s). length (rpr_outbox_event_id rr) = 36 \<and>
        (\<exists>z \<in> set (db_auths s). bound_to_auth rr z \<and> settled rr z)) \<and>
     (\<forall>z \<in> set (db_auths s). starts_with ''replay-auth:'' (ra_idempotency_key z) \<longrightarrow>
        (\<exists>rr \<in> set (db_replays s). ra_idempotency_key z = replay_key (rpr_outbox_event_id rr) (rpr_idempotency_key rr)))"

lemma coherentD:
  assumes "coherent s"
  shows "rra_inv (db_auths s)" "paa_inv (db_approvals s)" "rpr_inv (db_replays s)" "clo_inv (db_outbox s)"
    "ids_sized (db_outbox s)"
  using assms by (simp_all add: coherent_def)

lemma replay_key_inj:
  assumes "replay_key e k = replay_key e' k'" "length e = 36" "length e' = 36"
  shows "e = e' \<and> k = k'"
  using assms append_eq_append_conv[of e e'] by (simp add: replay_key_def)

lemma life_step_settled: "life_step a b \<Longrightarrow> a \<notin> {Consumed, Rejected, Canceled} \<and>
    (a \<in> {Authorized, Expired, Revoked} \<longrightarrow> b \<in> {Authorized, Expired, Revoked, Consumed})"
  by (auto simp: life_step_simps)

lemma settled_moves:
  assumes "settled rr z" "z' = z \<or> life_step (life z) (life z')"
  shows "settled rr z'"
  using assms(2)
proof
  assume "life_step (life z) (life z')"
  from life_step_settled[OF this] show ?thesis using assms(1) by (auto simp: settled_def)
qed (use assms(1) in simp)

lemma bound_identity: "rra_identity z' = rra_identity z \<Longrightarrow> bound_to_auth rr z' = bound_to_auth rr z"
  by (auto simp: bound_to_auth_def rra_identity_def)

lemma coherent_auths:
  assumes "coherent s" "auths_move (db_auths s) t"
  shows "coherent (s\<lparr>db_auths := t\<rparr>)"
proof -
  obtain g where g: "t = map g (db_auths s)" "rra_inv t"
    "\<And>r. r \<in> set (db_auths s) \<Longrightarrow> rra_identity (g r) = rra_identity r \<and> (g r = r \<or> life_step (life r) (life (g r)))"
    using assms(2) by (auto simp: auths_move_def)
  have key: "ra_idempotency_key (g r) = ra_idempotency_key r" if "r \<in> set (db_auths s)" for r
    using g(3)[OF that] by (simp add: rra_identity_def)
  have b: "\<exists>z \<in> set t. bound_to_auth rr z \<and> settled rr z"
    if z: "z \<in> set (db_auths s)" "bound_to_auth rr z" "settled rr z" for rr z
  proof (rule bexI[of _ "g z"])
    show "g z \<in> set t" using g(1) z(1) by simp
    show "bound_to_auth rr (g z) \<and> settled rr (g z)"
      using g(3)[OF z(1)] z(2,3) bound_identity[of "g z" z rr] settled_moves[of rr z "g z"] by simp
  qed
  have k: "\<exists>rr \<in> set (db_replays s). ra_idempotency_key z = replay_key (rpr_outbox_event_id rr) (rpr_idempotency_key rr)"
    if "z \<in> set t" "starts_with ''replay-auth:'' (ra_idempotency_key z)" for z
    using that assms(1) key unfolding g(1) coherent_def by auto
  show ?thesis using assms(1) g(2) b k unfolding coherent_def by (simp; metis)
qed

text \<open>One transition of a request whose authorization is in the matching state.\<close>

fun life_for :: "replay_op \<Rightarrow> auth_life" where
  "life_for ReplayAuthorize = Authorized"
| "life_for (ReplayReject _) = Rejected"
| "life_for ReplayCancel = Canceled"
| "life_for ReplayExecute = Consumed"

lemma replay_set_fields:
  "rpr_authorization_id (replay_set p now r) = rpr_authorization_id r"
  "rpr_outbox_event_id (replay_set p now r) = rpr_outbox_event_id r"
  "rpr_idempotency_key (replay_set p now r) = rpr_idempotency_key r"
  "bound_to_auth (replay_set p now r) z = bound_to_auth r z"
  "life z = life_for p \<Longrightarrow> settled (replay_set p now r) z"
  by (cases p; simp add: bound_to_auth_def settled_def)+

lemma coherent_transition:
  assumes co: "coherent s" and tr: "replay_transition (p, now, tm, pr) rid (db_replays s) = Inr (x, t)"
    and rr: "rr \<in> set (db_replays s)" "rpr_id rr = rid"
    and l: "\<forall>z \<in> set (db_auths s). ra_authorization_id z = rpr_authorization_id rr \<longrightarrow> life z = life_for p"
  shows "coherent (s\<lparr>db_replays := t\<rparr>)"
proof -
  let ?c = "(p, now, tm, pr)"
  define f where "f r = (if rpr_id r = rid \<and> replay_guard ?c r then replay_set p now r else r)" for r
  have t: "t = map f (db_replays s)"
    using tr by (simp add: replay_transition_Inr cas_def update_returning_def update_where_def f_def[abs_def])
  have inv: "rpr_inv t" using replay_step.move[OF tr] replay_step_inv coherentD(3)[OF co] by blast
  have keep: "rpr_authorization_id (f r) = rpr_authorization_id r" "rpr_outbox_event_id (f r) = rpr_outbox_event_id r"
    "rpr_idempotency_key (f r) = rpr_idempotency_key r" for r by (simp_all add: f_def replay_set_fields)
  have b: "\<exists>z \<in> set (db_auths s). bound_to_auth (f r) z \<and> settled (f r) z" if r: "r \<in> set (db_replays s)" for r
  proof -
    obtain z where z: "z \<in> set (db_auths s)" "bound_to_auth r z" "settled r z" using co r by (auto simp: coherent_def)
    show ?thesis
    proof (cases "f r = r")
      case False
      then have "r = rr" "f r = replay_set p now r"
        using rpr_inv_row[OF coherentD(3)[OF co] r rr(1)] rr(2) by (auto simp: f_def split: if_split_asm)
      moreover have "life z = life_for p" if "r = rr" using l z(1,2) that by (simp add: bound_to_auth_def)
      ultimately show ?thesis using z replay_set_fields(4,5) by metis
    qed (use z in auto)
  qed
  have k: "\<exists>r \<in> set t. ra_idempotency_key z = replay_key (rpr_outbox_event_id r) (rpr_idempotency_key r)"
    if "z \<in> set (db_auths s)" "starts_with ''replay-auth:'' (ra_idempotency_key z)" for z
    using that co keep unfolding t coherent_def by auto
  have "map rpr_authorization_id (map f (db_replays s)) = map rpr_authorization_id (db_replays s)" by (simp add: keep)
  then have "distinct (map rpr_authorization_id t)" using co unfolding t coherent_def by metis
  then show ?thesis using co inv b k keep unfolding coherent_def by (simp add: t)
qed

lemma coherent_outbox: "coherent s \<Longrightarrow> clo_inv t \<Longrightarrow> ids_sized t \<Longrightarrow> coherent (s\<lparr>db_outbox := t\<rparr>)"
  by (simp add: coherent_def)

lemma coherent_emit:
  assumes "coherent s" "replay_emit eid c n cl tk ev key p s = Inr (row, s')" "length eid = 36"
  shows "coherent s'"
proof -
  note em = replay_emit_Inr[OF assms(2)]
  have "clo_inv (db_outbox s')" using em(5) coherentD(4)[OF assms(1)] by blast
  moreover have "ids_sized (db_outbox s @ [row])"
    using coherentD(5)[OF assms(1)] em(2) assms(3) by (simp add: ids_sized_def)
  ultimately show ?thesis using coherent_outbox[OF assms(1), of "db_outbox s @ [row]"] em(1) by simp
qed

section \<open>Every call keeps coherence\<close>

text \<open>The common end of the deciding calls: the transition, and then perhaps the evidence.\<close>

definition finishes :: "string \<Rightarrow> replay_op \<Rightarrow> int \<Rightarrow> scope \<Rightarrow> string \<Rightarrow> replay_db \<Rightarrow> replay_db \<Rightarrow> bool" where
  "finishes eid p now sc rid s1 s' \<longleftrightarrow> (\<exists>x t. replay_transition (p, now, team_id sc, project_id sc) rid (db_replays s1) = Inr (x, t) \<and>
     (s' = s1\<lparr>db_replays := t\<rparr> \<or>
      (\<exists>c n cl tk ev k pl row. replay_emit eid c n cl tk ev k pl (s1\<lparr>db_replays := t\<rparr>) = Inr (row, s'))))"

lemma coherent_finishes:
  assumes "coherent s1" "finishes eid p now sc rid s1 s'" "length eid = 36"
    "rr \<in> set (db_replays s1)" "rpr_id rr = rid"
    "\<forall>z \<in> set (db_auths s1). ra_authorization_id z = rpr_authorization_id rr \<longrightarrow> life z = life_for p"
  shows "coherent s'"
proof -
  obtain x t where t: "replay_transition (p, now, team_id sc, project_id sc) rid (db_replays s1) = Inr (x, t)"
    and s': "s' = s1\<lparr>db_replays := t\<rparr> \<or>
      (\<exists>c n cl tk ev k pl row. replay_emit eid c n cl tk ev k pl (s1\<lparr>db_replays := t\<rparr>) = Inr (row, s'))"
    using assms(2) unfolding finishes_def by blast
  have co: "coherent (s1\<lparr>db_replays := t\<rparr>)" by (rule coherent_transition[OF assms(1) t assms(4-6)])
  then show ?thesis using s' coherent_emit[OF co _ assms(3)] by blast
qed

lemma coherent_decided:
  assumes co: "coherent s" and ld: "load_replay rid sc s = Some rr" and e: "length eid = 36"
    and eff: "s1 = s\<lparr>db_auths := t\<rparr>" "auths_move (db_auths s) t"
    and out: "s' = s1 \<or> (\<forall>z \<in> set t. ra_authorization_id z = rpr_authorization_id rr \<longrightarrow> life z = life_for p) \<and>
      finishes eid p now sc rid s1 s'"
  shows "coherent s'"
proof -
  have co1: "coherent s1" unfolding eff(1) by (rule coherent_auths[OF co eff(2)])
  note l = load_replay_SomeD[OF ld]
  show ?thesis using out
  proof (elim disjE conjE)
    assume lf: "\<forall>z \<in> set t. ra_authorization_id z = rpr_authorization_id rr \<longrightarrow> life z = life_for p"
      and f: "finishes eid p now sc rid s1 s'"
    show ?thesis by (rule coherent_finishes[OF co1 f e, of rr]) (use l lf in \<open>simp_all add: eff(1)\<close>)
  qed (use co1 in simp)
qed

lemma authorize_replay_cases:
  assumes "authorize_replay env eid ts rid a sc pv s = Inr (res, s')"
  shows "s' = s \<or> (\<exists>rr out s1. load_replay rid sc s = Some rr \<and>
    authorize (\<lambda>k. ts (k + 1)) (rpr_authorization_id rr) a sc pv s = Inr (out, s1) \<and>
    (s' = s1 \<or> sr_ok out \<and> finishes eid ReplayAuthorize (ts 3) sc rid s1 s'))"
proof (cases "replay_api_enabled env \<and> load_replay rid sc s \<noteq> None")
  case False
  then show ?thesis using assms by (auto simp: authorize_replay_def split: if_split_asm)
next
  case True
  then obtain rr where rr: "replay_api_enabled env" "load_replay rid sc s = Some rr" by blast
  show ?thesis
  proof (cases "rpr_state rr = ''authorization_pending'' \<and> (\<exists>ev. revalidate_event rr s = Inr (Inr ev))")
    case no: False
    show ?thesis
    proof (cases "rpr_state rr = ''authorization_pending''")
      case False
      then show ?thesis using assms rr by (auto simp: authorize_replay_def)
    next
      case True
      then obtain d where "revalidate_event rr s = Inr (Inl d)"
        using assms rr no by (cases "revalidate_event rr s") (auto simp: authorize_replay_def, metis sum.exhaust)
      then show ?thesis using assms rr True by (auto simp: authorize_replay_def)
    qed
  next
    case True
    then obtain ev where ev: "rpr_state rr = ''authorization_pending''" "revalidate_event rr s = Inr (Inr ev)" by blast
    obtain out s1 where au: "authorize (\<lambda>k. ts (k + 1)) (rpr_authorization_id rr) a sc pv s = Inr (out, s1)"
      using assms rr ev by (auto simp: authorize_replay_def try_then_Inr_iff)
    show ?thesis
    proof (cases "sr_ok out")
      case False
      then show ?thesis using assms rr ev au by (auto simp: authorize_replay_def)
    next
      case ok: True
      obtain x t where t: "replay_to_authorized (ts 3) rid (team_id sc) (project_id sc) (db_replays s1) = Inr (x, t)"
        using assms rr ev au ok by (auto simp: authorize_replay_def try_then_Inr_iff)
      have "finishes eid ReplayAuthorize (ts 3) sc rid s1 s'"
        using assms rr ev au ok t unfolding finishes_def replay_to_authorized_def
        by (cases x) (fastforce simp: authorize_replay_def replay_to_authorized_def try_then_Inr_iff)+
      then show ?thesis using rr(2) au ok by blast
    qed
  qed
qed

lemma close_and_emit_finishes:
  assumes "close_and_emit eid ts rid rr ev pre reason (replay_transition (p, now, team_id sc, project_id sc) rid (db_replays s)) s
    = Inr (res, s')"
  shows "finishes eid p now sc rid s s'"
proof -
  obtain x t where t: "replay_transition (p, now, team_id sc, project_id sc) rid (db_replays s) = Inr (x, t)"
    using assms by (auto simp: close_and_emit_def try_then_Inr_iff Let_def)
  show ?thesis
  proof (cases x)
    case None
    then show ?thesis using assms t unfolding finishes_def by (auto simp: close_and_emit_def)
  next
    case (Some r)
    obtain cid tid where ids: "clarification_id_for rr (s\<lparr>db_replays := t\<rparr>) = Inr cid"
      "task_id_for rr (s\<lparr>db_replays := t\<rparr>) = Inr tid"
      using assms t Some by (auto simp: close_and_emit_def try_then_Inr_iff Let_def)
    obtain row where "replay_emit eid (ts 0) (ts 4) cid tid ev (pre @ rpr_outbox_event_id rr @ '':'' @ rid)
        [(''replay_request_id'', PStr rid), (''reason'', PStr reason)] (s\<lparr>db_replays := t\<rparr>) = Inr (row, s')"
      using assms t Some ids by (auto simp: close_and_emit_def try_then_Inr_iff Let_def)
    then show ?thesis using t unfolding finishes_def by blast
  qed
qed

lemma reject_replay_cases:
  assumes "reject_replay env eid ts rid a sc reason s = Inr (res, s')"
  shows "s' = s \<or> (\<exists>rr out s1. load_replay rid sc s = Some rr \<and>
    reject_authorization (\<lambda>k. ts (k + 1)) (rpr_authorization_id rr) a sc s = Inr (out, s1) \<and>
    (s' = s1 \<or> sr_ok out \<and> finishes eid (ReplayReject reason) (ts 3) sc rid s1 s'))"
proof (cases "replay_api_enabled env \<and> (\<exists>rr. load_replay rid sc s = Some rr \<and> rpr_state rr = ''authorization_pending'')")
  case False
  then show ?thesis using assms
    by (auto simp: reject_replay_def try_then_Inr_iff split: if_split_asm option.splits)
next
  case True
  then obtain rr where rr: "replay_api_enabled env" "load_replay rid sc s = Some rr"
    "rpr_state rr = ''authorization_pending''" by blast
  obtain out s1 where o: "reject_authorization (\<lambda>k. ts (k + 1)) (rpr_authorization_id rr) a sc s = Inr (out, s1)"
    using assms rr by (auto simp: reject_replay_def try_then_Inr_iff)
  show ?thesis
  proof (cases "sr_ok out")
    case False
    then show ?thesis using assms rr o by (auto simp: reject_replay_def try_then_Inr_iff)
  next
    case True
    then have "close_and_emit eid ts rid rr ''replay.rejected'' ''replay-rejected:'' reason
        (replay_transition (ReplayReject reason, ts 3, team_id sc, project_id sc) rid (db_replays s1)) s1 = Inr (res, s')"
      using assms rr o by (auto simp: reject_replay_def replay_to_rejected_def try_then_Inr_iff)
    from close_and_emit_finishes[OF this] show ?thesis using rr(2) o True by blast
  qed
qed

lemma cancel_replay_cases:
  assumes "cancel_replay env eid ts rid a sc s = Inr (res, s')"
  shows "s' = s \<or> (\<exists>rr out s1. load_replay rid sc s = Some rr \<and>
    cancel_authorization (\<lambda>k. ts (k + 1)) (rpr_authorization_id rr) a sc s = Inr (out, s1) \<and>
    (s' = s1 \<or> sr_ok out \<and> finishes eid ReplayCancel (ts 3) sc rid s1 s'))"
proof (cases "replay_api_enabled env \<and> (\<exists>rr. load_replay rid sc s = Some rr \<and>
    (role a = ''platform_admin'' \<or> rpr_requested_by rr = principal_id a) \<and> rpr_state rr = ''authorization_pending'')")
  case False
  then show ?thesis using assms by (auto simp: cancel_replay_def split: if_split_asm option.splits)
next
  case True
  then obtain rr where rr: "replay_api_enabled env" "load_replay rid sc s = Some rr"
    "role a = ''platform_admin'' \<or> rpr_requested_by rr = principal_id a" "rpr_state rr = ''authorization_pending''" by blast
  obtain out s1 where o: "cancel_authorization (\<lambda>k. ts (k + 1)) (rpr_authorization_id rr) a sc s = Inr (out, s1)"
    using assms rr by (auto simp: cancel_replay_def try_then_Inr_iff)
  show ?thesis
  proof (cases "sr_ok out")
    case False
    then show ?thesis using assms rr o by (auto simp: cancel_replay_def)
  next
    case True
    then have "close_and_emit eid ts rid rr ''replay.canceled'' ''replay-canceled:'' ''operator_canceled''
        (replay_transition (ReplayCancel, ts 3, team_id sc, project_id sc) rid (db_replays s1)) s1 = Inr (res, s')"
      using assms rr o by (auto simp: cancel_replay_def replay_to_canceled_def)
    from close_and_emit_finishes[OF this] show ?thesis using rr(2) o True by blast
  qed
qed

lemma coherent_authorize:
  assumes "coherent s" "authorize_replay env eid ts rid a sc pv s = Inr (res, s')" "length eid = 36"
  shows "coherent s'"
  using authorize_replay_cases[OF assms(2)]
proof (elim disjE exE conjE)
  fix rr out s1 assume ld: "load_replay rid sc s = Some rr"
    and o: "authorize (\<lambda>k. ts (k + 1)) (rpr_authorization_id rr) a sc pv s = Inr (out, s1)"
  obtain t where t: "s1 = s\<lparr>db_auths := t\<rparr>" "auths_move (db_auths s) t"
    "sr_ok out \<longrightarrow> (\<forall>z \<in> set t. ra_authorization_id z = rpr_authorization_id rr \<longrightarrow> life z = Authorized)"
    using authorize_effect[OF coherentD(1)[OF assms(1)] o] by blast
  { assume "s' = s1" then show ?thesis using coherent_decided[OF assms(1) ld assms(3) t(1,2)] by blast }
  { assume "sr_ok out" "finishes eid ReplayAuthorize (ts 3) sc rid s1 s'"
    then show ?thesis
      using coherent_decided[OF assms(1) ld assms(3) t(1,2), of s' ReplayAuthorize "ts 3"] t(3) by simp }
qed (use assms(1) in simp)

lemma coherent_reject:
  assumes "coherent s" "reject_replay env eid ts rid a sc reason s = Inr (res, s')" "length eid = 36"
  shows "coherent s'"
  using reject_replay_cases[OF assms(2)]
proof (elim disjE exE conjE)
  fix rr out s1 assume ld: "load_replay rid sc s = Some rr"
    and o: "reject_authorization (\<lambda>k. ts (k + 1)) (rpr_authorization_id rr) a sc s = Inr (out, s1)"
  obtain t where t: "s1 = s\<lparr>db_auths := t\<rparr>" "auths_move (db_auths s) t"
    "sr_ok out \<longrightarrow> (\<forall>z \<in> set t. ra_authorization_id z = rpr_authorization_id rr \<longrightarrow> life z = Rejected)"
    using decide_simple_effect[OF coherentD(1)[OF assms(1)] o[unfolded reject_authorization_def]] by auto
  { assume "s' = s1" then show ?thesis using coherent_decided[OF assms(1) ld assms(3) t(1,2)] by blast }
  { assume "sr_ok out" "finishes eid (ReplayReject reason) (ts 3) sc rid s1 s'"
    then show ?thesis
      using coherent_decided[OF assms(1) ld assms(3) t(1,2), of s' "ReplayReject reason" "ts 3"] t(3) by simp }
qed (use assms(1) in simp)

lemma coherent_cancel:
  assumes "coherent s" "cancel_replay env eid ts rid a sc s = Inr (res, s')" "length eid = 36"
  shows "coherent s'"
  using cancel_replay_cases[OF assms(2)]
proof (elim disjE exE conjE)
  fix rr out s1 assume ld: "load_replay rid sc s = Some rr"
    and o: "cancel_authorization (\<lambda>k. ts (k + 1)) (rpr_authorization_id rr) a sc s = Inr (out, s1)"
  obtain t where t: "s1 = s\<lparr>db_auths := t\<rparr>" "auths_move (db_auths s) t"
    "sr_ok out \<longrightarrow> (\<forall>z \<in> set t. ra_authorization_id z = rpr_authorization_id rr \<longrightarrow> life z = Canceled)"
    using decide_simple_effect[OF coherentD(1)[OF assms(1)] o[unfolded cancel_authorization_def]] by auto
  { assume "s' = s1" then show ?thesis using coherent_decided[OF assms(1) ld assms(3) t(1,2)] by blast }
  { assume "sr_ok out" "finishes eid ReplayCancel (ts 3) sc rid s1 s'"
    then show ?thesis
      using coherent_decided[OF assms(1) ld assms(3) t(1,2), of s' ReplayCancel "ts 3"] t(3) by simp }
qed (use assms(1) in simp)

lemma coherent_fresh_key:
  assumes co: "coherent s" and key: "key \<notin> rpr_idempotency_key ` set (db_replays s)" and eid: "length eid = 36"
  shows "''replay-auth:'' @ eid @ '':'' @ key \<notin> ra_idempotency_key ` set (db_auths s)"
proof
  assume "''replay-auth:'' @ eid @ '':'' @ key \<in> ra_idempotency_key ` set (db_auths s)"
  then obtain z where z: "z \<in> set (db_auths s)" "ra_idempotency_key z = replay_key eid key"
    by (auto simp: replay_key_def)
  have "starts_with ''replay-auth:'' (ra_idempotency_key z)"
    unfolding z(2) replay_key_def starts_with_iff by blast
  then obtain rr where rr: "rr \<in> set (db_replays s)"
    "replay_key eid key = replay_key (rpr_outbox_event_id rr) (rpr_idempotency_key rr)"
    using co z unfolding coherent_def by metis
  moreover have "length (rpr_outbox_event_id rr) = 36" using co rr(1) by (simp add: coherent_def)
  ultimately have "key = rpr_idempotency_key rr" using replay_key_inj eid by blast
  then show False using key rr(1) by blast
qed

lemma coherent_created:
  assumes co: "coherent s" and eid: "length (ob_id ev) = 36" "length (yi_event ids) = 36"
    and k: "create_request (yi_authorization ids) (yi_auth_request ids) now
         (request_of a sc ''replay'' ''outbox_event'' (ob_id ev) ver ex
            (''replay-auth:'' @ ob_id ev @ '':'' @ key) pe ref) (db_auths s) = Inr (z, db_auths s @ [z])"
    and i: "insert_replay_request (yi_replay ids) now' (ra_authorization_id z) (ob_id ev) ty dest
         (or_empty (team_id sc)) (or_empty (project_id sc)) ver (principal_id a) key (db_replays s)
         = Inr (rr, db_replays s @ [rr])"
    and e: "clo_inv (db_outbox s @ [evd])" "ob_id evd = yi_event ids"
  shows "coherent (s\<lparr>db_auths := db_auths s @ [z], db_replays := db_replays s @ [rr], db_outbox := db_outbox s @ [evd]\<rparr>)"
proof -
  note ins = insert_replay_Inr[OF i] and zf = create_request_fields[OF k]
  obtain team project where zr: "z = new_auth_row (request_of a sc ''replay'' ''outbox_event'' (ob_id ev) ver ex
            (''replay-auth:'' @ ob_id ev @ '':'' @ key) pe ref) (yi_authorization ids) (yi_auth_request ids) now team project"
      "yi_authorization ids \<notin> ra_authorization_id ` set (db_auths s)" "team_id sc = Some team" "project_id sc = Some project"
    using k by (rule create_request_Inr) (auto simp: request_of_def)
  have zkey: "ra_idempotency_key z = replay_key (ob_id ev) key"
    unfolding zr(1) by (simp add: new_auth_row_def request_of_def replay_key_def)
  have ra: "rra_inv (db_auths s @ [z])" by (rule rra_inv_insert[OF coherentD(1)[OF co] k])
  have rp: "rpr_inv (db_replays s @ [rr])" using replay_step.create[OF i] replay_step_inv coherentD(3)[OF co] by blast
  have rrf: "rpr_outbox_event_id rr = ob_id ev" "rpr_idempotency_key rr = key" "rpr_authorization_id rr = ra_authorization_id z"
    unfolding ins(3) by (simp_all add: new_replay_def)
  have new: "bound_to_auth rr z \<and> settled rr z"
    unfolding bound_to_auth_def settled_def ins(3) using zf zr(3,4) by (simp add: new_replay_def or_empty_def)
  have old: "rpr_authorization_id x \<in> ra_authorization_id ` set (db_auths s)" if "x \<in> set (db_replays s)" for x
  proof -
    have "\<exists>y \<in> set (db_auths s). bound_to_auth x y" using co that unfolding coherent_def by blast
    then obtain y where "y \<in> set (db_auths s)" "rpr_authorization_id x = ra_authorization_id y"
      unfolding bound_to_auth_def by metis
    then show ?thesis by simp
  qed
  have "rpr_authorization_id rr \<notin> rpr_authorization_id ` set (db_replays s)"
    unfolding rrf(3) zf(1) using zr(2) old by auto
  then have dist: "distinct (map rpr_authorization_id (db_replays s @ [rr]))" using co by (simp add: coherent_def)
  have ids: "ids_sized (db_outbox s @ [evd])" using coherentD(5)[OF co] e(2) eid(2) by (simp add: ids_sized_def)
  have b: "length (rpr_outbox_event_id x) = 36 \<and> (\<exists>y \<in> set (db_auths s @ [z]). bound_to_auth x y \<and> settled x y)"
    if "x \<in> set (db_replays s @ [rr])" for x
  proof (cases "x = rr")
    case True
    then show ?thesis using new rrf(1) eid(1) by auto
  next
    case False
    then show ?thesis using co that by (auto simp: coherent_def)
  qed
  have "\<exists>x \<in> set (db_replays s @ [rr]). ra_idempotency_key y = replay_key (rpr_outbox_event_id x) (rpr_idempotency_key x)"
    if "y \<in> set (db_auths s @ [z])" "starts_with ''replay-auth:'' (ra_idempotency_key y)" for y
  proof (cases "y = z")
    case True
    then show ?thesis using zkey rrf by auto
  next
    case False
    then show ?thesis using co that by (auto simp: coherent_def)
  qed
  then show ?thesis using coherentD(2)[OF co] ra rp e(1) ids dist b unfolding coherent_def by simp
qed

lemma coherent_request:
  assumes co: "coherent s" and r: "request_replay env ids ts a sc eid key ex ref s = Inr (res, s')"
    and len: "length (yi_event ids) = 36"
  shows "coherent s'"
proof (cases "key \<in> rpr_idempotency_key ` set (db_replays s)")
  case True
  then obtain x where "get_replay_request_by_idempotency_key key (db_replays s) = Some x"
    by (cases "get_replay_request_by_idempotency_key key (db_replays s)")
      (auto simp: get_replay_request_by_idempotency_key_def fetchrow_None_iff)
  then have "s' = s" using r by (auto simp: request_replay_def split: if_split_asm)
  then show ?thesis using co by simp
next
  case key: False
  from request_replay_cases[OF r key] show ?thesis
  proof (elim disjE exE conjE)
    assume "s' = s" then show ?thesis using co by simp
  next
    fix ev tk
    assume ev: "lock_outbox_event eid (db_outbox s) = Some ev" and c: "submit_replay ids ts a sc ev tk key ex ref s = Inr (res, s')"
    note evf = lock_outbox_SomeD[OF ev]
    have el: "length (ob_id ev) = 36" using coherentD(5)[OF co] evf(1) by (simp add: ids_sized_def)
    have fresh: "''replay-auth:'' @ ob_id ev @ '':'' @ key \<notin> ra_idempotency_key ` set (db_auths s)"
      by (rule coherent_fresh_key[OF co key el])
    from submit_replay_cases[OF c fresh] show ?thesis
    proof (elim disjE exE conjE)
      assume "s' = s" then show ?thesis using co by simp
    next
      fix ver dest z rr evd
      assume k: "create_request (yi_authorization ids) (yi_auth_request ids) (ts 3)
         (request_of a sc ''replay'' ''outbox_event'' (ob_id ev) ver ex
            (''replay-auth:'' @ ob_id ev @ '':'' @ key) (ot_production_effect tk) ref) (db_auths s)
         = Inr (z, db_auths s @ [z])"
        and i: "insert_replay_request (yi_replay ids) (ts 5) (ra_authorization_id z) (ob_id ev) (ob_event_type ev) dest
         (or_empty (team_id sc)) (or_empty (project_id sc)) ver (principal_id a) key (db_replays s)
         = Inr (rr, db_replays s @ [rr])"
        and e: "ob_id evd = yi_event ids" "clo_inv (db_outbox s) \<longrightarrow> clo_inv (db_outbox s @ [evd])"
        and s': "s' = s\<lparr>db_auths := db_auths s @ [z], db_replays := db_replays s @ [rr], db_outbox := db_outbox s @ [evd]\<rparr>"
      show ?thesis unfolding s'
        by (rule coherent_created[OF co el len k i _ e(1)]) (use e(2) coherentD(4)[OF co] in blast)
    qed
  qed
qed

lemma consumed_moves:
  assumes inv: "rra_inv t" and c: "consume now aid by v team project t = Inr (Some r, t')"
    and z: "z \<in> set t'" "ra_authorization_id z = aid"
  shows "auths_move t t'" "life z = Consumed"
proof -
  have f: "finish (Consume now by v team project) aid t = Inr (Some r, t')" using c by (simp add: consume_def)
  show "auths_move t t'" by (rule finish_moves[OF inv f])
  have "cas ra_authorization_id final_guard final_upd (Consume now by v team project) aid t = (Some r, t')"
    using finish_cas[OF f] by simp
  then obtain r0 where r0: "ra_authorization_id r0 = aid" "r = final_upd (Consume now by v team project) r0" "r \<in> set t'"
    by (rule finals.cas_won)
  have "rra_inv t'" using rra_step.finish[OF f] inv rra_step_inv by blast
  then have "z = r" using z r0 distinct_map_eqD[of ra_authorization_id t' z r] by (simp add: rra_inv_def)
  then show "life z = Consumed" using r0(2) by (simp add: life_def)
qed

lemma coherent_approvals: "coherent s \<Longrightarrow> paa_inv t \<Longrightarrow> coherent (s\<lparr>db_approvals := t\<rparr>)"
  by (simp add: coherent_def)

lemma coherent_execute:
  assumes co: "coherent s" and x: "execute_authorized_replay env eid ts rid a sc provider s = Inr (res, s')"
    and len: "length eid = 36"
  shows "coherent s'"
  using execute_replay_cases[OF coherentD(2-4)[OF co] x]
proof (elim disjE exE conjE)
  assume "s' = s" then show ?thesis using co by simp
next
  fix evd assume "ob_id evd = eid" "clo_inv (db_outbox s @ [evd])" "s' = s\<lparr>db_outbox := db_outbox s @ [evd]\<rparr>"
  then show ?thesis using coherent_outbox[OF co, of "db_outbox s @ [evd]"] coherentD(5)[OF co] len
    by (simp add: ids_sized_def)
next
  fix rr ev out s1 evd
  assume ld: "load_replay rid sc s = Some rr" and st: "rpr_state rr = ''authorized''"
    and c: "consume_authorization (\<lambda>k. ts (k + 1)) (rpr_authorization_id rr) a sc (rpr_resource_state_version rr) s
         = Inr (out, s1)" "sr_ok out"
    and evd: "ob_id evd = eid" "clo_inv (update_where (\<lambda>x. x = ev) (requeued (ts 6)) (db_outbox s) @ [evd])"
    and s': "s' = s1\<lparr>db_outbox := update_where (\<lambda>x. x = ev) (requeued (ts 6)) (db_outbox s) @ [evd],
         db_replays := update_where (\<lambda>x. x = rr) (replay_set ReplayExecute (ts 7)) (db_replays s)\<rparr>"
  note inv = coherentD[OF co] and l = load_replay_SomeD[OF ld]
  obtain row r t' ap' where b: "backed_by (map ra_authorization_id (db_auths s)) (\<lambda>k. ts (k + 1)) (rpr_authorization_id rr) a (rpr_resource_state_version rr) row
        (db_approvals s) ap'"
    and con: "consume (ts 3) (rpr_authorization_id rr) (principal_id a) (rpr_resource_state_version rr)
        (team_id sc) (project_id sc) (db_auths s) = Inr (Some r, t')"
    and s1: "s1 = s\<lparr>db_approvals := ap', db_auths := t'\<rparr>"
    using consume_authorization_cases[OF inv(2) c(1)] c(2) by (auto simp: numeral_3_eq_3)
  have ap: "paa_inv ap'" using backed_by_keeps[OF inv(2) b] by (simp add: keeps_spent_def)
  obtain z0 where z0: "z0 \<in> set t'" "ra_authorization_id z0 = rpr_authorization_id rr"
  proof -
    let ?p = "Consume (ts 3) (principal_id a) (rpr_resource_state_version rr) (team_id sc) (project_id sc)"
    have f: "finish ?p (rpr_authorization_id rr) (db_auths s) = Inr (Some r, t')" using con by (simp add: consume_def)
    have "cas ra_authorization_id final_guard final_upd ?p (rpr_authorization_id rr) (db_auths s) = (Some r, t')"
      using finish_cas[OF f] by simp
    then obtain r0 where "ra_authorization_id r0 = rpr_authorization_id rr" "r = final_upd ?p r0" "r \<in> set t'"
      by (rule finals.cas_won)
    then show thesis using that by simp
  qed
  have co1: "coherent s1" unfolding s1
    using coherent_auths[OF coherent_approvals[OF co ap], of t'] consumed_moves(1)[OF inv(1) con z0] by simp
  have tab: "db_replays s1 = db_replays s" "db_outbox s1 = db_outbox s" by (simp_all add: s1)
  let ?c = "(ReplayExecute, ts 7, team_id sc, project_id sc)"
  have m: "replay_move ?c = replay_set ReplayExecute (ts 7)" by (rule ext) simp
  have tr: "replay_transition ?c rid (db_replays s1) = Inr (Some (replay_set ReplayExecute (ts 7) rr),
        update_where (\<lambda>x. x = rr) (replay_set ReplayExecute (ts 7)) (db_replays s))"
    using replay_move_found[OF inv(3) l(1), of ?c] l(2,3) st executed_ok[OF rpr_inv_wf[OF inv(3) l(1)] st]
    unfolding m tab by simp
  have co2: "coherent (s1\<lparr>db_replays := update_where (\<lambda>x. x = rr) (replay_set ReplayExecute (ts 7)) (db_replays s)\<rparr>)"
    by (rule coherent_transition[OF co1 tr, of rr])
      (use l tab consumed_moves(2)[OF inv(1) con] in \<open>simp_all add: s1\<close>)
  have sized: "ids_sized (update_where (\<lambda>x. x = ev) (requeued (ts 6)) (db_outbox s) @ [evd])"
    using inv(5) evd(1) len by (auto simp: ids_sized_def set_update_where requeued_def)
  have "s' = s1\<lparr>db_replays := update_where (\<lambda>x. x = rr) (replay_set ReplayExecute (ts 7)) (db_replays s),
      db_outbox := update_where (\<lambda>x. x = ev) (requeued (ts 6)) (db_outbox s) @ [evd]\<rparr>" unfolding s' by simp
  then show ?thesis using coherent_outbox[OF co2 evd(2) sized] by metis
qed

section \<open>Histories\<close>

text \<open>
  \<open>auths\<close> is any other statement on the authorizations (a revocation, the expiry scan, a call for a
  resume); only the replay service creates keys with its prefix. \<open>others\<close> is a change of the tables of
  other components that keeps their own invariants: relays, pollers, the approval service. Generated
  event ids are UUID texts of 36 characters.
\<close>

inductive replay_svc_step :: "replay_db \<Rightarrow> replay_db \<Rightarrow> bool" where
  request: "request_replay env ids ts a sc eid key ex ref s = Inr (res, s') \<Longrightarrow> length (yi_event ids) = 36 \<Longrightarrow> replay_svc_step s s'"
| authorize: "authorize_replay env eid ts rid a sc pv s = Inr (res, s') \<Longrightarrow> length eid = 36 \<Longrightarrow> replay_svc_step s s'"
| reject: "reject_replay env eid ts rid a sc reason s = Inr (res, s') \<Longrightarrow> length eid = 36 \<Longrightarrow> replay_svc_step s s'"
| cancel: "cancel_replay env eid ts rid a sc s = Inr (res, s') \<Longrightarrow> length eid = 36 \<Longrightarrow> replay_svc_step s s'"
| execute: "execute_authorized_replay env eid ts rid a sc provider s = Inr (res, s') \<Longrightarrow> length eid = 36 \<Longrightarrow> replay_svc_step s s'"
| expire: "expire_due_replay_requests visit now before limit (db_auths s) (db_replays s) = Inr (n, t) \<Longrightarrow>
    replay_svc_step s (s\<lparr>db_replays := t\<rparr>)"
| auths: "rra_step (db_auths s) t \<Longrightarrow>
    (\<forall>z \<in> set t. ra_authorization_id z \<notin> ra_authorization_id ` set (db_auths s) \<longrightarrow>
       \<not> starts_with ''replay-auth:'' (ra_idempotency_key z)) \<Longrightarrow> replay_svc_step s (s\<lparr>db_auths := t\<rparr>)"
| others: "paa_inv ap \<Longrightarrow> clo_inv ob \<Longrightarrow> ids_sized ob \<Longrightarrow> replay_svc_step s (s\<lparr>db_approvals := ap,
    db_clarifications := cls, db_tasks := tks, db_resumes := rs, db_outbox := ob\<rparr>)"

definition empty_replay_db :: replay_db where
  "empty_replay_db = \<lparr>db_auths = [], db_approvals = [], db_clarifications = [], db_tasks = [], db_resumes = [],
     db_outbox = [], db_replays = []\<rparr>"

lemma coherent_empty: "coherent empty_replay_db"
  by (simp add: coherent_def empty_replay_db_def rra_inv_def one_active_def paa_inv_def rpr_inv_def clo_inv_def ids_sized_def)

lemma coherent_expire:
  assumes co: "coherent s" and e: "expire_due_replay_requests visit now before limit (db_auths s) (db_replays s) = Inr (n, t)"
  shows "coherent (s\<lparr>db_replays := t\<rparr>)"
proof -
  define f where "f r = (if replay_picks visit before limit (db_auths s) (db_replays s) r then expire_replay_upd now r else r)" for r
  have t: "t = map f (db_replays s)"
    using e by (auto simp: expire_replay_eq update_where_def f_def[abs_def] split: if_split_asm)
  have inv: "rpr_inv t" using replay_step.expire[OF e] replay_step_inv coherentD(3)[OF co] by blast
  have keep: "rpr_authorization_id (f r) = rpr_authorization_id r" "rpr_outbox_event_id (f r) = rpr_outbox_event_id r"
    "rpr_idempotency_key (f r) = rpr_idempotency_key r" "bound_to_auth (f r) z = bound_to_auth r z"
    "settled r z \<Longrightarrow> settled (f r) z" for r z
    by (simp_all add: f_def expire_replay_upd_def bound_to_auth_def settled_def)
  have b: "\<exists>z \<in> set (db_auths s). bound_to_auth (f r) z \<and> settled (f r) z" if r: "r \<in> set (db_replays s)" for r
    using co r keep(4,5) unfolding coherent_def by metis
  have k: "\<exists>r \<in> set t. ra_idempotency_key z = replay_key (rpr_outbox_event_id r) (rpr_idempotency_key r)"
    if "z \<in> set (db_auths s)" "starts_with ''replay-auth:'' (ra_idempotency_key z)" for z
    using that co keep(2,3) unfolding t coherent_def by auto
  have "map rpr_authorization_id (map f (db_replays s)) = map rpr_authorization_id (db_replays s)" by (simp add: keep(1))
  then have "distinct (map rpr_authorization_id t)" using co unfolding t coherent_def by metis
  then show ?thesis using co inv b k keep(2) unfolding coherent_def by (simp add: t)
qed

lemma coherent_other_auths:
  assumes co: "coherent s" and st: "rra_step (db_auths s) t"
    and pre: "\<forall>z \<in> set t. ra_authorization_id z \<notin> ra_authorization_id ` set (db_auths s) \<longrightarrow>
       \<not> starts_with ''replay-auth:'' (ra_idempotency_key z)"
  shows "coherent (s\<lparr>db_auths := t\<rparr>)"
  using coherentD(1)[OF co] st
proof (cases rule: rra_step_rows)
  case (new row)
  have "rra_inv t" using rra_step_inv[OF st coherentD(1)[OF co]] .
  moreover have "\<not> starts_with ''replay-auth:'' (ra_idempotency_key row)" using pre new by simp
  ultimately show ?thesis using co new(1) unfolding coherent_def by auto
next
  case (upd g)
  then have "length t = length (db_auths s)" by simp
  then show ?thesis using coherent_auths[OF co rra_step_same_length[OF coherentD(1)[OF co] st]] by blast
qed

lemma replay_svc_step_coherent: "replay_svc_step s s' \<Longrightarrow> coherent s \<Longrightarrow> coherent s'"
proof (induction rule: replay_svc_step.induct)
  case (request env ids ts a sc eid key ex ref s res s')
  then show ?case using coherent_request by blast
next
  case (authorize env eid ts rid a sc pv s res s')
  then show ?case using coherent_authorize by blast
next
  case (reject env eid ts rid a sc reason s res s')
  then show ?case using coherent_reject by blast
next
  case (cancel env eid ts rid a sc s res s')
  then show ?case using coherent_cancel by blast
next
  case (execute env eid ts rid a sc provider s res s')
  then show ?case using coherent_execute by blast
next
  case (expire visit now before limit s n t)
  then show ?case using coherent_expire by blast
next
  case (auths s t)
  then show ?case using coherent_other_auths by blast
next
  case (others ap ob s cls tks rs)
  then show ?case by (simp add: coherent_def)
qed

interpretation replay_svc: invariant_system empty_replay_db replay_svc_step coherent
  by unfold_locales (rule coherent_empty, rule replay_svc_step_coherent)

lemma consumed_two_person:
  assumes "rra_inv t" "z \<in> set t" "life z = Consumed" "ra_action_type z = ''replay''"
  shows "\<exists>p. ra_decided_by z = Some p \<and> p \<noteq> ra_requested_by z"
proof -
  have "rra_checks z" using assms(1,2) by (auto simp: rra_inv_def rra_wf_def)
  moreover have "ra_consumed_at z \<noteq> None" using assms(3) by (auto simp: life_def split: if_split_asm)
  ultimately show ?thesis using assms(4) by (auto simp: rra_checks_def)
qed

text \<open>
  C3. Executed replays are two-person and spend their own authorization: in every database that calls
  of the service can reach, however they interleave with each other, with other statements on the
  authorizations and with other components, each executed replay request is bound to one consumed
  authorization that was requested for the same event, episode, scope and requester, was approved by
  somebody other than the requester, and belongs to no other replay request. A rejected or canceled
  request has a rejected or canceled authorization.
\<close>

theorem executed_replays_two_person:
  assumes "replay_svc_step\<^sup>*\<^sup>* empty_replay_db s" "rr \<in> set (db_replays s)"
  shows "\<exists>z \<in> set (db_auths s). bound_to_auth rr z \<and>
    (rpr_state rr = ''executed'' \<longrightarrow> life z = Consumed \<and>
       (\<exists>p. ra_decided_by z = Some p \<and> p \<noteq> rpr_requested_by rr)) \<and>
    (rpr_state rr = ''rejected'' \<longrightarrow> life z = Rejected) \<and> (rpr_state rr = ''canceled'' \<longrightarrow> life z = Canceled) \<and>
    (\<forall>rr' \<in> set (db_replays s). rpr_authorization_id rr' = ra_authorization_id z \<longrightarrow> rr' = rr)"
proof -
  have co: "coherent s" using assms(1) by (rule replay_svc.inv_reachable)
  obtain z where z: "z \<in> set (db_auths s)" "bound_to_auth rr z" "settled rr z"
    using co assms(2) by (auto simp: coherent_def)
  have two: "\<exists>p. ra_decided_by z = Some p \<and> p \<noteq> rpr_requested_by rr" if "rpr_state rr = ''executed''"
    using consumed_two_person[OF coherentD(1)[OF co] z(1)] that z(2,3) by (simp add: settled_def bound_to_auth_def)
  have d: "distinct (map rpr_authorization_id (db_replays s))" using co by (simp add: coherent_def)
  have uniq: "rr' = rr" if "rr' \<in> set (db_replays s)" "rpr_authorization_id rr' = ra_authorization_id z" for rr'
    using distinct_map_eqD[OF d that(1) assms(2)] that(2) z(2) by (simp add: bound_to_auth_def)
  show ?thesis using z two uniq unfolding settled_def by (intro bexI[of _ z]) auto
qed

lemma demo_replay_reachable: "replay_svc_step\<^sup>*\<^sup>* empty_replay_db demo_ydb3"
proof -
  have len: "length demo_event_id = 36" "length (yi_event demo_replay_ids) = 36" "length demo_authorized_id = 36"
    "length demo_executed_id = 36"
    by (simp_all add: demo_event_id_def demo_replay_ids_def demo_requested_id_def demo_authorized_id_def
        demo_executed_id_def)
  have "clo_inv [demo_dead_event]" "paa_inv []" by code_simp+
  moreover have "ids_sized [demo_dead_event]" using len(1) by (simp add: ids_sized_def demo_dead_event_def)
  ultimately have "replay_svc_step empty_replay_db (empty_replay_db\<lparr>db_approvals := [],
      db_clarifications := [demo_clarification], db_tasks := [demo_task], db_resumes := [],
      db_outbox := [demo_dead_event]\<rparr>)" by (intro replay_svc_step.others)
  moreover have "empty_replay_db\<lparr>db_approvals := [], db_clarifications := [demo_clarification], db_tasks := [demo_task],
      db_resumes := [], db_outbox := [demo_dead_event]\<rparr> = demo_ydb0"
    by (simp add: empty_replay_db_def demo_ydb0_def)
  ultimately have s0: "replay_svc_step empty_replay_db demo_ydb0" by metis
  have s1: "replay_svc_step demo_ydb0 demo_ydb1"
    using ydb_after_SomeD[OF demo_replay_request_runs] len(2) replay_svc_step.request by blast
  have s2: "replay_svc_step demo_ydb1 demo_ydb2"
    using ydb_after_SomeD[OF demo_replay_authorize_runs] len(3) replay_svc_step.authorize by blast
  have "replay_svc_step demo_ydb2 demo_ydb3"
    using ydb_after_SomeD[OF demo_replay_execute_runs] len(4) replay_svc_step.execute by blast
  then show ?thesis
    using converse_rtranclp_into_rtranclp[of replay_svc_step] s0 s1 s2 r_into_rtranclp[of replay_svc_step] by metis
qed

theorem executed_replays_two_person_witness:
  "replay_svc_step\<^sup>*\<^sup>* empty_replay_db demo_ydb3 \<and> rpr_state demo_yr3 = ''executed'' \<and>
     (\<exists>z \<in> set (db_auths demo_ydb3). bound_to_auth demo_yr3 z \<and> life z = Consumed)"
proof -
  have "demo_yr3 \<in> set (db_replays demo_ydb3)" "rpr_state demo_yr3 = ''executed''"
    by (simp_all add: demo_ydb3_def demo_yr3_def)
  with executed_replays_two_person[OF demo_replay_reachable this(1)] demo_replay_reachable show ?thesis by blast
qed

end
