(* ===== verification/Dep_Graph.thy ===== *)
theory Dep_Graph
  imports Prelude "HOL-Library.AList" "HOL-Library.List_Lexorder" "HOL-Library.Char_ord"
begin

text \<open>
  Validation of a project's task graph
  (\<^verbatim>\<open>shared/sdk/project_planning/dependency_validator.py\<close>): the iterative three-colour depth-first
  search for a cycle, and the classification of a graph as valid, invalid or warning. The search is
  proved complete and its answer a genuine cycle; a graph that is not rejected can be executed in
  dependency order.
\<close>

section \<open>The depth-first search\<close>

datatype colour = White | Gray | Black

type_synonym adjacency = "(string \<times> string list) list"
type_synonym colours = "(string \<times> colour) list"
type_synonym parents = "string \<Rightarrow> string option"

text \<open>A dictionary is an association list; \<open>succs\<close> is \<^verbatim>\<open>adjacency.get(node, [])\<close>. A parent map answers
  \<open>None\<close> for a missing key and for a stored \<^verbatim>\<open>None\<close>, as \<^verbatim>\<open>parent.get\<close> does.\<close>

definition succs :: "adjacency \<Rightarrow> string \<Rightarrow> string list" where
  "succs adj n = (case map_of adj n of None \<Rightarrow> [] | Some l \<Rightarrow> l)"

text \<open>The walk up the parents may run forever on an arbitrary parent map: not returning is \<open>None\<close>.\<close>

partial_function (option) climb ::
    "parents \<Rightarrow> string \<Rightarrow> string option \<Rightarrow> string list \<Rightarrow> string list option" where
  "climb par nxt cur path =
    (case cur of None \<Rightarrow> Some path
     | Some c \<Rightarrow> if c = nxt then Some path else climb par nxt (par c) (path @ [c]))"

declare climb.simps [code]

definition cycle_path :: "parents \<Rightarrow> string \<Rightarrow> string \<Rightarrow> string list option" where
  "cycle_path par nxt node = map_option rev (climb par nxt (par node) [nxt, node])"

text \<open>
  \<open>visit_loop\<close> is the \<^verbatim>\<open>while stack\<close> loop. A stack entry is a node with the rest of its iterator; the
  head of the list is the top of the stack. The result holds the cycle found, if any, and the two
  dictionaries the outer loop goes on with.
\<close>

definition whites :: "colours \<Rightarrow> nat" where
  "whites col = length (filter (\<lambda>c. c = White) (map snd col))"

lemma whites_update_le: "c \<noteq> White \<Longrightarrow> whites (AList.update n c col) \<le> whites col"
  by (induction col) (auto simp: whites_def)

lemma whites_update_less:
  "c \<noteq> White \<Longrightarrow> map_of col n = Some White \<Longrightarrow> whites (AList.update n c col) < whites col"
  by (induction col) (auto simp: whites_def split: if_splits)

function visit_loop ::
    "adjacency \<Rightarrow> (string \<times> string list) list \<Rightarrow> colours \<Rightarrow> parents
     \<Rightarrow> (string list option \<times> colours \<times> parents) option" where
  "visit_loop adj [] col par = Some (None, col, par)"
| "visit_loop adj ((node, []) # st) col par = visit_loop adj st (AList.update node Black col) par"
| "visit_loop adj ((node, nxt # rest) # st) col par =
    (case map_of col nxt of
       None \<Rightarrow> visit_loop adj ((node, rest) # st) col par
     | Some White \<Rightarrow> visit_loop adj ((nxt, succs adj nxt) # (node, rest) # st)
         (AList.update nxt Gray col) (par(nxt := Some node))
     | Some Gray \<Rightarrow> map_option (\<lambda>p. (Some p, col, par)) (cycle_path par nxt node)
     | Some Black \<Rightarrow> visit_loop adj ((node, rest) # st) col par)"
  by pat_completeness auto
termination
proof (relation "measures [\<lambda>(adj, st, col, par). whites col,
    \<lambda>(adj, st, col, par). sum_list (map (\<lambda>(n, l). Suc (length l)) st)]", goal_cases)
  case (2 adj node st col par)
  then show ?case using whites_update_le[of Black node col] by (auto simp: le_less)
qed (auto simp: whites_update_less)

definition visit :: "adjacency \<Rightarrow> string \<Rightarrow> colours \<Rightarrow> parents \<Rightarrow> (string list option \<times> colours \<times> parents) option" where
  "visit adj start col par =
     visit_loop adj [(start, succs adj start)] (AList.update start Gray col) (par(start := None))"

fun search :: "adjacency \<Rightarrow> string list \<Rightarrow> colours \<Rightarrow> parents \<Rightarrow> string list option option" where
  "search adj [] col par = Some None"
| "search adj (n # ns) col par =
    (if map_of col n = Some White
     then case visit adj n col par of
         None \<Rightarrow> None
       | Some (found, col', par') \<Rightarrow>
           if found \<noteq> None \<and> found \<noteq> Some [] then Some found else search adj ns col' par'
     else search adj ns col par)"

definition find_cycle :: "adjacency \<Rightarrow> string list option option" where
  "find_cycle adj = search adj (map fst adj) (map (\<lambda>(n, _). (n, White)) adj) (\<lambda>_. None)"

section \<open>The search is correct\<close>

definition node_set :: "adjacency \<Rightarrow> string set" where
  "node_set adj = fst ` set adj"

definition edges :: "adjacency \<Rightarrow> (string \<times> string) set" where
  "edges adj = {(n, m). m \<in> set (succs adj n) \<and> m \<in> node_set adj}"

definition is_cycle :: "(string \<times> string) set \<Rightarrow> string list \<Rightarrow> bool" where
  "is_cycle E p \<longleftrightarrow> p \<noteq> [] \<and> distinct p \<and> successively (\<lambda>a b. (a, b) \<in> E) p \<and> (last p, hd p) \<in> E"

lemma is_cycle_trancl: "is_cycle E p \<Longrightarrow> (hd p, hd p) \<in> E\<^sup>+"
proof -
  have *: "successively (\<lambda>a b. (a, b) \<in> E) p \<Longrightarrow> p \<noteq> [] \<Longrightarrow> (hd p, last p) \<in> E\<^sup>*" for p
    by (induction p rule: induct_list012) (auto intro: converse_rtrancl_into_rtrancl)
  then show "is_cycle E p \<Longrightarrow> (hd p, hd p) \<in> E\<^sup>+"
    by (auto simp: is_cycle_def intro: rtrancl_into_trancl1)
qed

lemma is_cycle_not_acyclic: "is_cycle E p \<Longrightarrow> \<not> acyclic E"
  using is_cycle_trancl by (auto simp: acyclic_def)

text \<open>Every stack entry was reached from the one below it, and the bottom has no parent.\<close>

fun chained :: "adjacency \<Rightarrow> parents \<Rightarrow> (string \<times> string list) list \<Rightarrow> bool" where
  "chained adj par [] \<longleftrightarrow> True"
| "chained adj par [(n, _)] \<longleftrightarrow> par n = None"
| "chained adj par ((n, _) # (m, l) # st) \<longleftrightarrow>
     par n = Some m \<and> n \<in> set (succs adj m) \<and> chained adj par ((m, l) # st)"

text \<open>
  What the iterators have passed: a successor of a stacked node is still to come, is finished, or is
  the node stacked right above.
\<close>

fun passed :: "adjacency \<Rightarrow> colours \<Rightarrow> string option \<Rightarrow> (string \<times> string list) list \<Rightarrow> bool" where
  "passed adj col up [] \<longleftrightarrow> True"
| "passed adj col up ((n, l) # st) \<longleftrightarrow> set l \<subseteq> set (succs adj n) \<and>
     (\<forall>m \<in> set (succs adj n) \<inter> node_set adj.
        m \<in> set l \<or> map_of col m = Some Black \<or> up = Some m) \<and>
     passed adj col (Some n) st"

definition finished :: "adjacency \<Rightarrow> colours \<Rightarrow> bool" where
  "finished adj col \<longleftrightarrow> (\<forall>n. map_of col n = Some Black \<longrightarrow>
     (\<forall>m. (n, m) \<in> edges adj \<longrightarrow> map_of col m = Some Black) \<and> (n, n) \<notin> (edges adj)\<^sup>+)"

definition dfs_inv :: "adjacency \<Rightarrow> colours \<Rightarrow> parents \<Rightarrow> (string \<times> string list) list \<Rightarrow> bool" where
  "dfs_inv adj col par st \<longleftrightarrow> dom (map_of col) = node_set adj \<and> distinct (map fst st) \<and>
     (\<forall>n. map_of col n = Some Gray \<longleftrightarrow> n \<in> fst ` set st) \<and>
     chained adj par st \<and> passed adj col None st \<and> finished adj col"

lemma climb_chained:
  "chained adj par ((n, l) # st) \<Longrightarrow> nxt \<in> fst ` set st \<Longrightarrow>
     climb par nxt (par n) acc = Some (acc @ takeWhile (\<lambda>x. x \<noteq> nxt) (map fst st))"
proof (induction st arbitrary: n l acc)
  case (Cons e st)
  obtain m k where e: "e = (m, k)" by fastforce
  show ?case
  proof (cases "m = nxt")
    case True
    then show ?thesis using Cons.prems by (simp add: e climb.simps)
  next
    case False
    then have "climb par nxt (par m) (acc @ [m]) =
        Some ((acc @ [m]) @ takeWhile (\<lambda>x. x \<noteq> nxt) (map fst st))"
      using Cons.prems by (intro Cons.IH[of m k]) (auto simp: e)
    then show ?thesis using False Cons.prems by (simp add: e climb.simps[of par nxt "Some m"])
  qed
qed simp

lemma chained_path:
  assumes "chained adj par ((n, l) # st)" "nxt \<in> fst ` set st" "fst ` set ((n, l) # st) \<subseteq> node_set adj"
  shows "let w = n # takeWhile (\<lambda>x. x \<noteq> nxt) (map fst st) in
    successively (\<lambda>a b. (a, b) \<in> edges adj) (rev w) \<and> (nxt, last w) \<in> edges adj"
  using assms
proof (induction st arbitrary: n l)
  case (Cons e st)
  obtain m k where e: "e = (m, k)" by fastforce
  have mn: "(m, n) \<in> edges adj" using Cons.prems(1,3) by (auto simp: e edges_def)
  show ?case
  proof (cases "m = nxt")
    case False
    then have "let w = m # takeWhile (\<lambda>x. x \<noteq> nxt) (map fst st) in
        successively (\<lambda>a b. (a, b) \<in> edges adj) (rev w) \<and> (nxt, last w) \<in> edges adj"
      using Cons.prems by (intro Cons.IH[of m k]) (auto simp: e)
    then show ?thesis using False mn by (auto simp: e Let_def successively_append_iff)
  qed (use mn in \<open>simp add: e\<close>)
qed simp

lemma cycle_path_is_cycle:
  assumes "dfs_inv adj col par ((node, l) # st)" "map_of col nxt = Some Gray" "nxt \<noteq> node"
    "nxt \<in> set (succs adj node)"
  obtains p where "cycle_path par nxt node = Some p" "is_cycle (edges adj) p" "p \<noteq> []"
proof -
  define w where "w = node # takeWhile (\<lambda>x. x \<noteq> nxt) (map fst st)"
  let ?p = "rev w @ [nxt]"
  have g: "nxt \<in> fst ` set st" using assms(1-3) by (auto simp: dfs_inv_def)
  have keys: "fst ` set ((node, l) # st) \<subseteq> node_set adj"
    using assms(1) unfolding dfs_inv_def by (metis domIff option.distinct(1) subsetI)
  have c: "chained adj par ((node, l) # st)" and d: "distinct (node # map fst st)"
    using assms(1) by (auto simp: dfs_inv_def)
  have nk: "nxt \<in> node_set adj" using g keys by auto
  have w: "w \<noteq> []" "hd w = node" by (simp_all add: w_def)
  have "cycle_path par nxt node = Some ?p"
    using climb_chained[OF c g, of "[nxt, node]"] by (simp add: cycle_path_def w_def)
  moreover have "is_cycle (edges adj) ?p"
  proof -
    have "successively (\<lambda>a b. (a, b) \<in> edges adj) (rev w)" "(nxt, last w) \<in> edges adj"
      using chained_path[OF c g keys] by (simp_all only: Let_def w_def)
    moreover have "(node, nxt) \<in> edges adj" using assms(4) nk by (simp add: edges_def)
    ultimately have "successively (\<lambda>a b. (a, b) \<in> edges adj) ?p" "(last ?p, hd ?p) \<in> edges adj"
      using w by (simp_all add: successively_append_iff last_rev hd_append hd_rev del: successively_rev)
    moreover have "distinct ?p" using d assms(3)
      by (auto simp: w_def distinct_takeWhile dest: set_takeWhileD)
    ultimately show ?thesis by (simp only: is_cycle_def) simp
  qed
  ultimately show thesis using that by blast
qed

lemma finished_black:
  assumes "finished adj col" "\<forall>m. (n, m) \<in> edges adj \<longrightarrow> map_of col m = Some Black"
    "map_of col n \<noteq> Some Black"
  shows "finished adj (AList.update n Black col)"
proof -
  have reach: "map_of col y = Some Black" if "(x, y) \<in> (edges adj)\<^sup>*" "map_of col x = Some Black" for x y
    using that by (induction rule: rtrancl_induct) (use assms(1) in \<open>auto simp: finished_def\<close>)
  have "(n, n) \<notin> (edges adj)\<^sup>+"
    using reach assms(2,3) by (meson tranclD)
  then show ?thesis using assms(1,2) by (auto simp: finished_def update_conv')
qed

lemma passed_mono:
  "passed adj col up st \<Longrightarrow> \<forall>m. map_of col m = Some Black \<longrightarrow> map_of col' m = Some Black \<Longrightarrow>
     passed adj col' up st"
  by (induction adj col up st rule: passed.induct) auto

lemma passed_pop:
  "passed adj col (Some n) st \<Longrightarrow> map_of col n = Some Black \<Longrightarrow> passed adj col None st"
  by (cases st) auto

lemma chained_other:
  "chained adj par st \<Longrightarrow> n \<notin> fst ` set st \<Longrightarrow> chained adj (par(n := x)) st"
  by (induction adj par st rule: chained.induct) auto

text \<open>The three steps that go on: a node is finished, an edge is skipped, a white node is entered.\<close>

lemma dfs_inv_finish:
  assumes "dfs_inv adj col par ((n, []) # st)"
  shows "dfs_inv adj (AList.update n Black col) par st"
proof -
  let ?col = "AList.update n Black col"
  have n: "map_of col n = Some Gray" "n \<notin> fst ` set st" using assms by (auto simp: dfs_inv_def)
  have "passed adj ?col (Some n) st" using assms n
    by (auto simp: dfs_inv_def update_conv' intro: passed_mono)
  then have "passed adj ?col None st" by (rule passed_pop) (simp add: update_conv')
  moreover have "finished adj ?col"
  proof (rule finished_black)
    show "\<forall>m. (n, m) \<in> edges adj \<longrightarrow> map_of col m = Some Black"
      using assms by (auto simp: dfs_inv_def edges_def)
    show "finished adj col" using assms by (simp add: dfs_inv_def)
    show "map_of col n \<noteq> Some Black" using n(1) by simp
  qed
  moreover have "chained adj par st" using assms by (cases st) (auto simp: dfs_inv_def)
  moreover have "n \<in> node_set adj" using assms n(1) by (auto simp: dfs_inv_def)
  ultimately show ?thesis using assms n(2) by (auto simp: dfs_inv_def update_conv' insert_absorb)
qed

lemma dfs_inv_skip:
  assumes "dfs_inv adj col par ((n, m # l) # st)" "map_of col m = None \<or> map_of col m = Some Black"
  shows "dfs_inv adj col par ((n, l) # st)"
proof -
  have "m \<in> node_set adj \<Longrightarrow> map_of col m = Some Black" using assms by (auto simp: dfs_inv_def)
  then have "passed adj col None ((n, l) # st)" using assms(1) unfolding dfs_inv_def by fastforce
  moreover have "chained adj par ((n, l) # st)" using assms(1) by (cases st) (auto simp: dfs_inv_def)
  ultimately show ?thesis using assms(1) by (simp add: dfs_inv_def)
qed

lemma dfs_inv_enter:
  assumes "dfs_inv adj col par ((n, m # l) # st)" "map_of col m = Some White"
  shows "dfs_inv adj (AList.update m Gray col) (par(m := Some n)) ((m, succs adj m) # (n, l) # st)"
proof -
  let ?col = "AList.update m Gray col"
  have "\<forall>x. map_of col x = Some Gray \<longleftrightarrow> x \<in> fst ` set ((n, m # l) # st)"
    using assms(1) by (simp add: dfs_inv_def)
  then have "m \<notin> fst ` set ((n, l) # st)" using assms(2) by (metis fst_conv image_insert list.simps(15)
        option.inject colour.distinct(1))
  then have m: "m \<notin> fst ` set ((n, l) # st)" "m \<in> node_set adj" "m \<in> set (succs adj n)"
    using assms by (auto simp: dfs_inv_def)
  have black: "map_of ?col x = Some Black \<longleftrightarrow> map_of col x = Some Black" for x
    using assms(2) by (simp add: update_conv')
  have "chained adj par ((n, l) # st)" using assms(1) by (cases st) (auto simp: dfs_inv_def)
  then have "chained adj (par(m := Some n)) ((m, succs adj m) # (n, l) # st)"
    using chained_other[of adj par "(n, l) # st" m "Some n"] m by simp
  note chain = this
  have "passed adj ?col (Some n) st"
    using assms(1) black by (auto simp: dfs_inv_def intro: passed_mono)
  moreover have "passed adj col None ((n, m # l) # st)" using assms(1) by (simp add: dfs_inv_def)
  ultimately have "passed adj ?col None ((m, succs adj m) # (n, l) # st)"
    unfolding passed.simps black by auto
  moreover note chain
  moreover have "finished adj ?col" using assms(1) black by (simp add: dfs_inv_def finished_def)
  moreover have "dom (map_of ?col) = node_set adj"
    using assms m(2) by (auto simp: dfs_inv_def update_conv')
  moreover have "\<forall>x. map_of ?col x = Some Gray \<longleftrightarrow> x \<in> fst ` set ((m, succs adj m) # (n, l) # st)"
    using assms(1) by (auto simp: dfs_inv_def update_conv')
  moreover have "distinct (map fst ((m, succs adj m) # (n, l) # st))"
    using assms(1) m(1) by (auto simp: dfs_inv_def)
  ultimately show ?thesis by (simp only: dfs_inv_def simp_thms)
qed

text \<open>What a visit returns: a genuine cycle, or dictionaries in which the nodes of \<open>B\<close> are finished.\<close>

fun visit_ok :: "adjacency \<Rightarrow> string set \<Rightarrow> (string list option \<times> colours \<times> parents) option \<Rightarrow> bool" where
  "visit_ok adj B None \<longleftrightarrow> False"
| "visit_ok adj B (Some (Some p, _)) \<longleftrightarrow> is_cycle (edges adj) p"
| "visit_ok adj B (Some (None, col, par)) \<longleftrightarrow>
     dfs_inv adj col par [] \<and> (\<forall>n \<in> B. map_of col n = Some Black)"

lemma visit_ok_mono: "visit_ok adj B r \<Longrightarrow> B' \<subseteq> B \<Longrightarrow> visit_ok adj B' r"
  by (induction adj B r rule: visit_ok.induct) auto

definition black_or_stacked :: "colours \<Rightarrow> (string \<times> string list) list \<Rightarrow> string set" where
  "black_or_stacked col st = {n. map_of col n = Some Black} \<union> fst ` set st"

lemma visit_loop_correct:
  assumes "dfs_inv adj col par st" "\<forall>n. n \<notin> set (succs adj n)"
  shows "visit_ok adj (black_or_stacked col st) (visit_loop adj st col par)"
  using assms
proof (induction adj st col par rule: visit_loop.induct)
  case (1 adj col par)
  then show ?case by (simp add: black_or_stacked_def)
next
  case (2 adj node st col par)
  show ?case unfolding visit_loop.simps
    by (rule visit_ok_mono[OF 2(1)[OF dfs_inv_finish[OF 2(2)] 2(3)]])
      (auto simp: black_or_stacked_def update_conv')
next
  case (3 adj node nxt rest st col par)
  show ?case
  proof (cases "map_of col nxt")
    case None
    then show ?thesis using 3(1)[OF None dfs_inv_skip[OF 3(4)] 3(5)] by (simp add: black_or_stacked_def)
  next
    case (Some c)
    show ?thesis
    proof (cases c)
      case White
      with Some have w: "map_of col nxt = Some White" by simp
      have "black_or_stacked col ((node, nxt # rest) # st) \<subseteq>
          black_or_stacked (AList.update nxt Gray col) ((nxt, succs adj nxt) # (node, rest) # st)"
        using w by (auto simp: black_or_stacked_def update_conv')
      from visit_ok_mono[OF 3(2)[OF Some White dfs_inv_enter[OF 3(4) w] 3(5)] this] w
      show ?thesis by (simp add: fun_upd_def)
    next
      case Gray
      with Some have g: "map_of col nxt = Some Gray" by simp
      have "nxt \<in> set (succs adj node)" using 3(4) by (auto simp: dfs_inv_def)
      moreover from this have "nxt \<noteq> node" using 3(5) by blast
      ultimately obtain p where "cycle_path par nxt node = Some p" "is_cycle (edges adj) p"
        using cycle_path_is_cycle[OF 3(4) g] by blast
      then show ?thesis using g by simp
    next
      case Black
      with Some have b: "map_of col nxt = Some Black" by simp
      then show ?thesis using 3(3)[OF Some Black dfs_inv_skip[OF 3(4)] 3(5)]
        by (simp add: black_or_stacked_def)
    qed
  qed
qed

lemma dfs_inv_start:
  assumes "dfs_inv adj col par []" "map_of col n = Some White"
  shows "dfs_inv adj (AList.update n Gray col) (par(n := None)) [(n, succs adj n)]"
  using assms by (auto simp: dfs_inv_def update_conv' finished_def insert_absorb split: if_splits)

lemma search_correct:
  assumes "dfs_inv adj col par []" "\<forall>n. n \<notin> set (succs adj n)" "set ns \<subseteq> node_set adj"
    "\<forall>n \<in> node_set adj. n \<in> set ns \<or> map_of col n = Some Black"
  shows "(\<exists>p. search adj ns col par = Some (Some p) \<and> is_cycle (edges adj) p) \<or>
    (search adj ns col par = Some None \<and> acyclic (edges adj))"
  using assms
proof (induction ns arbitrary: col par)
  case Nil
  then have f: "finished adj col" "\<forall>n \<in> node_set adj. map_of col n = Some Black"
    by (auto simp: dfs_inv_def)
  have "(n, n) \<notin> (edges adj)\<^sup>+" for n
  proof
    assume c: "(n, n) \<in> (edges adj)\<^sup>+"
    then have "n \<in> node_set adj" by (auto simp: edges_def elim: tranclE)
    then show False using f c by (auto simp: finished_def)
  qed
  then show ?case by (auto simp: acyclic_def)
next
  case (Cons n ns)
  show ?case
  proof (cases "map_of col n = Some White")
    case True
    have ok: "visit_ok adj (black_or_stacked (AList.update n Gray col) [(n, succs adj n)]) (visit adj n col par)"
      unfolding visit_def by (rule visit_loop_correct[OF dfs_inv_start[OF Cons.prems(1) True] Cons.prems(2)])
    then obtain found col' par' where v: "visit adj n col par = Some (found, col', par')"
      by (cases "visit adj n col par") auto
    show ?thesis
    proof (cases found)
      case (Some p)
      then show ?thesis using ok v True by (auto simp: is_cycle_def)
    next
      case None
      have col': "dfs_inv adj col' par' []" "\<forall>m. map_of col m = Some Black \<or> m = n \<longrightarrow> map_of col' m = Some Black"
        using ok v None True by (simp, simp add: black_or_stacked_def update_conv') (metis option.inject colour.distinct(3))
      have "\<forall>m \<in> node_set adj. m \<in> set ns \<or> map_of col' m = Some Black"
      proof
        fix m assume "m \<in> node_set adj"
        then have "m = n \<or> m \<in> set ns \<or> map_of col m = Some Black" using Cons.prems(4) by auto
        then show "m \<in> set ns \<or> map_of col' m = Some Black" using col'(2) by blast
      qed
      moreover have "set ns \<subseteq> node_set adj" using Cons.prems(3) by simp
      ultimately have "(\<exists>p. search adj ns col' par' = Some (Some p) \<and> is_cycle (edges adj) p) \<or>
          (search adj ns col' par' = Some None \<and> acyclic (edges adj))"
        using Cons.IH[OF col'(1) Cons.prems(2)] by blast
      then show ?thesis using v None True by simp
    qed
  next
    case False
    have "map_of col n \<noteq> Some Gray" "n \<in> dom (map_of col)" using Cons.prems by (auto simp: dfs_inv_def)
    moreover from this obtain c where "map_of col n = Some c" by blast
    ultimately have black: "map_of col n = Some Black" using False by (cases c) auto
    have "(\<exists>p. search adj ns col par = Some (Some p) \<and> is_cycle (edges adj) p) \<or>
        (search adj ns col par = Some None \<and> acyclic (edges adj))"
    proof (rule Cons.IH[OF Cons.prems(1,2)])
      show "set ns \<subseteq> node_set adj" using Cons.prems(3) by simp
      show "\<forall>m \<in> node_set adj. m \<in> set ns \<or> map_of col m = Some Black"
        using Cons.prems(4) black by auto
    qed
    then show ?thesis using False by simp
  qed
qed

lemma find_cycle_correct:
  assumes "\<forall>n. n \<notin> set (succs adj n)"
  shows "(\<exists>p. find_cycle adj = Some (Some p) \<and> is_cycle (edges adj) p) \<or>
    (find_cycle adj = Some None \<and> acyclic (edges adj))"
proof -
  let ?col = "map (\<lambda>(n, _). (n, White)) adj :: colours"
  have col: "map_of ?col n = (if n \<in> node_set adj then Some White else None)" for n
    by (induction adj) (auto simp: node_set_def)
  then have "dfs_inv adj ?col (\<lambda>_. None) []"
    by (auto simp: dfs_inv_def finished_def split: if_splits)
  from search_correct[OF this assms, of "map fst adj"] show ?thesis
    by (simp add: find_cycle_def node_set_def)
qed

lemma cycle_within_nodes:
  assumes "is_cycle (edges adj) p" shows "length p \<le> length adj"
proof -
  have n: "set p \<subseteq> node_set adj"
  proof
    fix x assume "x \<in> set p"
    then obtain ys zs where p: "p = ys @ x # zs" by (auto simp: in_set_conv_decomp)
    show "x \<in> node_set adj"
    proof (cases ys rule: rev_cases)
      case Nil
      then show ?thesis using assms p by (auto simp: is_cycle_def edges_def)
    next
      case (snoc vs y)
      then show ?thesis using assms p by (auto simp: is_cycle_def edges_def successively_append_iff)
    qed
  qed
  have "length p = card (set p)" using assms by (simp add: is_cycle_def distinct_card)
  also have "\<dots> \<le> card (node_set adj)" using n by (intro card_mono) (auto simp: node_set_def)
  also have "\<dots> \<le> length adj" unfolding node_set_def using card_image_le[of "set adj" fst] card_length[of adj] by auto
  finally show ?thesis .
qed

text \<open>
  C40. The search returns on every graph without self-loops: the loop over the stack is bounded by the white
  nodes and the iterators, the walk up the parents, which would run forever on a circular parent map,
  ends, and what it returns is no path or one with at most as many nodes as the graph has.
\<close>

theorem cycle_search_returns:
  assumes "\<forall>n. n \<notin> set (succs adj n)"
  shows "\<exists>found. find_cycle adj = Some found \<and>
    (case found of None \<Rightarrow> acyclic (edges adj) | Some p \<Rightarrow> is_cycle (edges adj) p \<and> length p \<le> length adj)"
  using find_cycle_correct[OF assms] cycle_within_nodes by auto

theorem cycle_search_returns_witness:
  "\<exists>found. find_cycle [(''a'', [''b'']), (''b'', [''c'', ''a'']), (''c'', [])] = Some found \<and>
    (case found of None \<Rightarrow> acyclic (edges [(''a'', [''b'']), (''b'', [''c'', ''a'']), (''c'', [])])
     | Some p \<Rightarrow> is_cycle (edges [(''a'', [''b'']), (''b'', [''c'', ''a'']), (''c'', [])]) p \<and>
         length p \<le> length [(''a'', [''b'']), (''b'', [''c'', ''a'']), (''c'', [])])"
proof (rule cycle_search_returns)
  show "\<forall>n. n \<notin> set (succs [(''a'', [''b'']), (''b'', [''c'', ''a'']), (''c'', [])] n)" by (simp add: succs_def)
qed

section \<open>Validation of a graph\<close>

text \<open>The columns of a work item that the builder sets; the others keep their defaults.\<close>

record work_item =
  wi_key :: string
  wi_title :: string
  wi_work_type :: "string option"
  wi_role :: "string option"
  wi_status :: string
  wi_priority :: string
  wi_risk_level :: string
  wi_dispatch_policy :: string
  wi_milestone_key :: "string option"

record dependency =
  wd_item :: string
  wd_depends_on :: string
  wd_type :: string

text \<open>The error dictionaries of the validator, one constructor per \<^verbatim>\<open>type\<close>.\<close>

datatype graph_error =
    SelfDependency string
  | MissingNode string
  | DuplicateDependency string string
  | CycleError "string list"
  | UnreachableTerminal "string list"

record graph_validation =
  gv_status :: string
  gv_errors :: "graph_error list"

fun scan_dependencies ::
    "string set \<Rightarrow> dependency list \<Rightarrow> graph_error list \<Rightarrow> (string \<times> string) list \<Rightarrow> adjacency
     \<Rightarrow> graph_error list \<times> (string \<times> string) list \<times> adjacency" where
  "scan_dependencies nodes [] errors seen adj = (errors, seen, adj)"
| "scan_dependencies nodes (d # ds) errors seen adj =
    (let a = wd_item d; b = wd_depends_on d in
     if a = b then scan_dependencies nodes ds (errors @ [SelfDependency a]) seen adj
     else if a \<notin> nodes then scan_dependencies nodes ds (errors @ [MissingNode a]) seen adj
     else if b \<notin> nodes then scan_dependencies nodes ds (errors @ [MissingNode b]) seen adj
     else if (a, b) \<in> set seen then scan_dependencies nodes ds (errors @ [DuplicateDependency a b]) seen adj
     else scan_dependencies nodes ds errors (seen @ [(a, b)]) (AList.update a (succs adj a @ [b]) adj))"

fun is_structural :: "graph_error \<Rightarrow> bool" where
  "is_structural (SelfDependency _) = True"
| "is_structural (MissingNode _) = True"
| "is_structural _ = False"

fun is_hard :: "graph_error \<Rightarrow> bool" where
  "is_hard (UnreachableTerminal _) = False"
| "is_hard _ = True"

definition node_keys :: "work_item list \<Rightarrow> string set" where
  "node_keys items = wi_key ` set items"

text \<open>
  \<open>order\<close> is the order in which the set of node keys is iterated when the adjacency dictionary is
  built; Python leaves it open. \<open>None\<close> would be a cycle reconstruction that does not return.
\<close>

definition with_cycle :: "adjacency \<Rightarrow> graph_error list \<Rightarrow> graph_error list option" where
  "with_cycle adj errors =
    (if list_ex is_structural errors then Some errors
     else map_option (\<lambda>cycle. case cycle of
         None \<Rightarrow> errors
       | Some p \<Rightarrow> if p = [] then errors else errors @ [CycleError p]) (find_cycle adj))"

definition validate_dependencies ::
    "string list \<Rightarrow> work_item list \<Rightarrow> dependency list \<Rightarrow> graph_validation option" where
  "validate_dependencies order items deps =
    (let (errors, seen, adj) = scan_dependencies (node_keys items) deps [] [] (map (\<lambda>k. (k, [])) order) in
     map_option (\<lambda>errors.
       if list_ex is_hard errors then \<lparr>gv_status = ''invalid'', gv_errors = errors\<rparr>
       else if deps \<noteq> [] then
         (let isolated = sort (filter (\<lambda>k. k \<notin> fst ` set seen \<union> snd ` set seen) order) in
          if isolated \<noteq> []
          then \<lparr>gv_status = ''warning'', gv_errors = errors @ [UnreachableTerminal isolated]\<rparr>
          else \<lparr>gv_status = ''valid'', gv_errors = errors\<rparr>)
       else \<lparr>gv_status = ''valid'', gv_errors = errors\<rparr>) (with_cycle adj errors))"

section \<open>What validation decides\<close>

abbreviation dep_pair :: "dependency \<Rightarrow> string \<times> string" where
  "dep_pair d \<equiv> (wd_item d, wd_depends_on d)"

definition sound_pair :: "string set \<Rightarrow> string \<times> string \<Rightarrow> bool" where
  "sound_pair nodes ab \<longleftrightarrow> fst ab \<noteq> snd ab \<and> fst ab \<in> nodes \<and> snd ab \<in> nodes"

text \<open>The adjacency holds exactly the pairs seen, and the errors are those of the other dependencies.\<close>

definition scan_inv :: "string set \<Rightarrow> (string \<times> string) list \<Rightarrow> adjacency \<Rightarrow> bool" where
  "scan_inv nodes seen adj \<longleftrightarrow> node_set adj = nodes \<and> (\<forall>p \<in> set seen. sound_pair nodes p) \<and> distinct seen \<and>
     (\<forall>a b. b \<in> set (succs adj a) \<longleftrightarrow> (a, b) \<in> set seen)"

lemma succs_update: "succs (AList.update a l adj) n = (if n = a then l else succs adj n)"
  by (simp add: succs_def update_conv')

lemma node_set_update: "node_set (AList.update a l adj) = insert a (node_set adj)"
  by (simp add: node_set_def dom_update)

lemma scan_correct:
  assumes "scan_dependencies nodes ds errors seen adj = (errors', seen', adj')" "scan_inv nodes seen adj"
  shows "scan_inv nodes seen' adj' \<and>
    set seen' = set seen \<union> {p \<in> dep_pair ` set ds. sound_pair nodes p} \<and>
    (\<exists>new. errors' = errors @ new \<and> (\<forall>p. CycleError p \<notin> set new) \<and> (\<forall>e \<in> set new. is_hard e) \<and>
      (list_ex is_structural new \<longleftrightarrow> (\<exists>d \<in> set ds. \<not> sound_pair nodes (dep_pair d))) \<and>
      (new = [] \<longleftrightarrow> (\<forall>d \<in> set ds. sound_pair nodes (dep_pair d)) \<and> distinct (map dep_pair ds) \<and>
         set seen \<inter> dep_pair ` set ds = {}))"
  using assms
proof (induction nodes ds errors seen adj rule: scan_dependencies.induct)
  case (1 nodes errors seen adj)
  then show ?case by auto
next
  case (2 nodes d ds errors seen adj)
  let ?a = "wd_item d" and ?b = "wd_depends_on d"
  consider (self) "?a = ?b" | (a) "?a \<noteq> ?b" "?a \<notin> nodes" | (b) "?a \<noteq> ?b" "?a \<in> nodes" "?b \<notin> nodes"
    | (dup) "?a \<noteq> ?b" "?a \<in> nodes" "?b \<in> nodes" "(?a, ?b) \<in> set seen"
    | (new) "?a \<noteq> ?b" "?a \<in> nodes" "?b \<in> nodes" "(?a, ?b) \<notin> set seen" by blast
  then show ?case
  proof cases
    case self
    then show ?thesis using 2(1)[OF refl refl self] 2(6,7) by (auto simp: sound_pair_def Let_def)
  next
    case a
    then show ?thesis using 2(2)[OF refl refl a] 2(6,7) by (auto simp: sound_pair_def Let_def)
  next
    case b
    then show ?thesis using 2(3)[OF refl refl b(1)] 2(6,7) by (auto simp: sound_pair_def Let_def)
  next
    case dup
    then show ?thesis using 2(4)[OF refl refl dup(1)] 2(6,7) by (auto simp: sound_pair_def Let_def)
  next
    case new
    have "scan_inv nodes (seen @ [(?a, ?b)]) (AList.update ?a (succs adj ?a @ [?b]) adj)"
      using 2(7) new by (auto simp: scan_inv_def sound_pair_def succs_update node_set_update)
    moreover have "scan_dependencies nodes ds errors (seen @ [(?a, ?b)])
        (AList.update ?a (succs adj ?a @ [?b]) adj) = (errors', seen', adj')"
      using 2(6) new by (simp add: Let_def)
    ultimately have IH: "scan_inv nodes seen' adj' \<and>
      set seen' = set (seen @ [(?a, ?b)]) \<union> {p \<in> dep_pair ` set ds. sound_pair nodes p} \<and>
      (\<exists>new. errors' = errors @ new \<and> (\<forall>p. CycleError p \<notin> set new) \<and> (\<forall>e \<in> set new. is_hard e) \<and>
        (list_ex is_structural new \<longleftrightarrow> (\<exists>d \<in> set ds. \<not> sound_pair nodes (dep_pair d))) \<and>
        (new = [] \<longleftrightarrow> (\<forall>d \<in> set ds. sound_pair nodes (dep_pair d)) \<and> distinct (map dep_pair ds) \<and>
           set (seen @ [(?a, ?b)]) \<inter> dep_pair ` set ds = {}))"
      using 2(5)[OF refl refl new(1)] new by simp
    moreover have s: "sound_pair nodes (dep_pair d)" using new by (simp add: sound_pair_def)
    moreover have "set seen \<inter> dep_pair ` set (d # ds) = {} \<and> distinct (map dep_pair (d # ds)) \<longleftrightarrow>
        set (seen @ [(?a, ?b)]) \<inter> dep_pair ` set ds = {} \<and> distinct (map dep_pair ds)"
      using new(4) by auto
    moreover have "set seen \<union> {p \<in> dep_pair ` set (d # ds). sound_pair nodes p} =
        set (seen @ [(?a, ?b)]) \<union> {p \<in> dep_pair ` set ds. sound_pair nodes p}"
      using s by auto
    ultimately show ?thesis by (metis (no_types, lifting) set_ConsD list.set_intros(1,2))
  qed
qed

text \<open>The abstract specification: an order of all the work items in which each follows what it depends on.\<close>

fun precedes :: "'a \<Rightarrow> 'a \<Rightarrow> 'a list \<Rightarrow> bool" where
  "precedes x y [] \<longleftrightarrow> False"
| "precedes x y (z # s) \<longleftrightarrow> (z = x \<and> y \<in> set s) \<or> precedes x y s"

definition is_schedule :: "string set \<Rightarrow> dependency list \<Rightarrow> string list \<Rightarrow> bool" where
  "is_schedule nodes deps s \<longleftrightarrow> distinct s \<and> set s = nodes \<and>
     (\<forall>d \<in> set deps. precedes (wd_depends_on d) (wd_item d) s)"

lemma precedes_set: "precedes x y s \<Longrightarrow> x \<in> set s \<and> y \<in> set s"
  by (induction s) auto

lemma precedes_rank:
  "distinct s \<Longrightarrow> precedes x y s \<Longrightarrow> length (takeWhile (\<lambda>z. z \<noteq> x) s) < length (takeWhile (\<lambda>z. z \<noteq> y) s)"
  by (induction s) (auto dest: precedes_set)

lemma topological_order:
  assumes "finite A" "finite r" "acyclic r"
  shows "\<exists>s. distinct s \<and> set s = A \<and> (\<forall>(a, b) \<in> r. a \<in> A \<longrightarrow> b \<in> A \<longrightarrow> precedes b a s)"
  using assms(1)
proof (induction "card A" arbitrary: A)
  case 0
  then show ?case by auto
next
  case (Suc k)
  then obtain x where "x \<in> A" by fastforce
  obtain m where m: "m \<in> A" "\<And>y. (m, y) \<in> r \<Longrightarrow> y \<notin> A"
    by (rule wfE_min[OF finite_acyclic_wf_converse[OF assms(2,3)] \<open>x \<in> A\<close>]) (simp add: converse_iff)
  have "k = card (A - {m})" using Suc m(1) by simp
  then obtain s where s: "distinct s" "set s = A - {m}"
      "\<forall>(a, b) \<in> r. a \<in> A - {m} \<longrightarrow> b \<in> A - {m} \<longrightarrow> precedes b a s"
    using Suc.hyps(1) Suc.prems by blast
  have "precedes b a (m # s)" if ab: "(a, b) \<in> r" "a \<in> A" "b \<in> A" for a b
  proof (cases "b = m")
    case True
    have "a \<noteq> m"
      using ab True assms(3) by (auto simp: acyclic_def)
    then show ?thesis using True s(2) ab(2) by simp
  next
    case False
    have "a \<noteq> m" using m(2) ab by blast
    then show ?thesis using False s(3) ab by auto
  qed
  then show ?case using s m(1) by (intro exI[of _ "m # s"]) auto
qed

lemma schedule_iff:
  assumes "finite nodes"
  shows "(\<exists>s. is_schedule nodes deps s) \<longleftrightarrow>
    (\<forall>d \<in> set deps. sound_pair nodes (dep_pair d)) \<and> acyclic (dep_pair ` set deps)"
proof (intro iffI conjI)
  assume "\<exists>s. is_schedule nodes deps s"
  then obtain s where s: "distinct s" "set s = nodes"
      "\<forall>d \<in> set deps. precedes (wd_depends_on d) (wd_item d) s"
    by (auto simp: is_schedule_def)
  show "acyclic (dep_pair ` set deps)"
    by (rule acyclicI_order[where f = "\<lambda>x. length (takeWhile (\<lambda>z. z \<noteq> x) s)"])
      (use s precedes_rank[OF s(1)] in auto)
  show "\<forall>d \<in> set deps. sound_pair nodes (dep_pair d)"
    using s precedes_rank[OF s(1)] precedes_set by (fastforce simp: sound_pair_def)
next
  assume r: "(\<forall>d \<in> set deps. sound_pair nodes (dep_pair d)) \<and> acyclic (dep_pair ` set deps)"
  from topological_order[OF assms, of "dep_pair ` set deps"] r
  obtain s where "distinct s" "set s = nodes"
      "\<forall>(a, b) \<in> dep_pair ` set deps. a \<in> nodes \<longrightarrow> b \<in> nodes \<longrightarrow> precedes b a s"
    by auto
  then show "\<exists>s. is_schedule nodes deps s" using r by (auto simp: is_schedule_def sound_pair_def)
qed

lemma validate_scan:
  assumes "scan_dependencies (node_keys items) deps [] [] (map (\<lambda>k. (k, [])) order) = (errors, seen, adj)"
    "set order = node_keys items"
  shows "set seen = {p \<in> dep_pair ` set deps. sound_pair (node_keys items) p}"
    "edges adj = set seen" "\<forall>n. n \<notin> set (succs adj n)"
    "\<forall>p. CycleError p \<notin> set errors" "\<forall>e \<in> set errors. is_hard e"
    "list_ex is_structural errors \<longleftrightarrow> (\<exists>d \<in> set deps. \<not> sound_pair (node_keys items) (dep_pair d))"
    "errors = [] \<longleftrightarrow> (\<forall>d \<in> set deps. sound_pair (node_keys items) (dep_pair d)) \<and> distinct (map dep_pair deps)"
proof -
  have "map_of (map (\<lambda>k. (k, [])) order) a = None \<or> map_of (map (\<lambda>k. (k, [])) order) a = Some []"
    for a :: string by (induction order) auto
  then have "succs (map (\<lambda>k. (k, [])) order) a = []" for a
    unfolding succs_def by (metis option.simps(4,5))
  then have "scan_inv (node_keys items) [] (map (\<lambda>k. (k, [])) order)"
    using assms(2) by (force simp: scan_inv_def node_set_def)
  from scan_correct[OF assms(1) this] have sc: "scan_inv (node_keys items) seen adj"
    "set seen = {p \<in> dep_pair ` set deps. sound_pair (node_keys items) p}"
    "\<forall>p. CycleError p \<notin> set errors" "\<forall>e \<in> set errors. is_hard e"
    "list_ex is_structural errors \<longleftrightarrow> (\<exists>d \<in> set deps. \<not> sound_pair (node_keys items) (dep_pair d))"
    "errors = [] \<longleftrightarrow> (\<forall>d \<in> set deps. sound_pair (node_keys items) (dep_pair d)) \<and> distinct (map dep_pair deps)"
    by auto
  then show "set seen = {p \<in> dep_pair ` set deps. sound_pair (node_keys items) p}"
    "\<forall>p. CycleError p \<notin> set errors" "\<forall>e \<in> set errors. is_hard e"
    "list_ex is_structural errors \<longleftrightarrow> (\<exists>d \<in> set deps. \<not> sound_pair (node_keys items) (dep_pair d))"
    "errors = [] \<longleftrightarrow> (\<forall>d \<in> set deps. sound_pair (node_keys items) (dep_pair d)) \<and> distinct (map dep_pair deps)"
    by blast+
  show "edges adj = set seen" using sc(1) by (auto simp: scan_inv_def edges_def sound_pair_def)
  show "\<forall>n. n \<notin> set (succs adj n)" using sc(1) by (fastforce simp: scan_inv_def sound_pair_def)
qed

lemma with_cycle_correct:
  assumes "\<forall>n. n \<notin> set (succs adj n)" "\<forall>p. CycleError p \<notin> set errors" "\<forall>e \<in> set errors. is_hard e"
  obtains errors' where "with_cycle adj errors = Some errors'" "\<forall>e \<in> set errors'. is_hard e"
    "errors' = [] \<longleftrightarrow> errors = [] \<and> acyclic (edges adj)"
    "\<forall>p. CycleError p \<in> set errors' \<longrightarrow> \<not> list_ex is_structural errors \<and> is_cycle (edges adj) p"
proof (cases "list_ex is_structural errors")
  case True
  then have "errors \<noteq> []" by auto
  then show thesis using True assms(2,3) by (intro that[of errors]) (auto simp: with_cycle_def)
next
  case False
  from find_cycle_correct[OF assms(1)] show thesis
  proof (elim disjE exE conjE)
    fix p assume p: "find_cycle adj = Some (Some p)" "is_cycle (edges adj) p"
    then have "p \<noteq> []" by (simp add: is_cycle_def)
    then show thesis using False p assms(2,3) is_cycle_not_acyclic[OF p(2)]
      by (intro that[of "errors @ [CycleError p]"]) (auto simp: with_cycle_def)
  next
    assume "find_cycle adj = Some None" "acyclic (edges adj)"
    then show thesis using False assms(2,3)
      by (intro that[of errors]) (auto simp: with_cycle_def)
  qed
qed

text \<open>The work items no dependency mentions.\<close>

definition isolated_keys :: "work_item list \<Rightarrow> dependency list \<Rightarrow> string set" where
  "isolated_keys items deps = node_keys items - (wd_item ` set deps \<union> wd_depends_on ` set deps)"

lemma validate_dependencies_status:
  assumes "set order = node_keys items"
  shows "\<exists>v. validate_dependencies order items deps = Some v \<and>
    gv_status v =
      (if distinct (map dep_pair deps) \<and> (\<exists>s. is_schedule (node_keys items) deps s)
       then if deps = [] \<or> isolated_keys items deps = {} then ''valid'' else ''warning''
       else ''invalid'') \<and>
    (\<forall>p. CycleError p \<in> set (gv_errors v) \<longrightarrow> is_cycle (dep_pair ` set deps) p) \<and>
    (\<forall>ks. UnreachableTerminal ks \<in> set (gv_errors v) \<longrightarrow> set ks = isolated_keys items deps) \<and>
    (gv_status v = ''valid'' \<longleftrightarrow> gv_errors v = [])"
proof -
  obtain errors seen adj where sc: "scan_dependencies (node_keys items) deps [] []
      (map (\<lambda>k. (k, [])) order) = (errors, seen, adj)" by (metis prod_cases3)
  note f = validate_scan[OF sc assms]
  obtain errors' where e: "with_cycle adj errors = Some errors'" "\<forall>e \<in> set errors'. is_hard e"
      "errors' = [] \<longleftrightarrow> errors = [] \<and> acyclic (edges adj)"
      "\<forall>p. CycleError p \<in> set errors' \<longrightarrow> \<not> list_ex is_structural errors \<and> is_cycle (edges adj) p"
    by (rule with_cycle_correct[OF f(3,4,5)])
  have fin: "finite (node_keys items)" by (simp add: node_keys_def)
  have whole: "edges adj = dep_pair ` set deps" if "\<not> list_ex is_structural errors"
    using that f(1,2,6) by auto
  have ok: "errors' = [] \<longleftrightarrow> distinct (map dep_pair deps) \<and> (\<exists>s. is_schedule (node_keys items) deps s)"
    unfolding schedule_iff[OF fin] e(3) f(7) using whole f(6) by metis
  have cyc: "\<forall>p. CycleError p \<in> set errors' \<longrightarrow> is_cycle (dep_pair ` set deps) p" using e(4) whole by metis
  show ?thesis
  proof (cases "errors' = []")
    case False
    then have "list_ex is_hard errors'" using e(2) by (cases errors') auto
    moreover have "UnreachableTerminal ks \<notin> set errors'" for ks using e(2) by fastforce
    ultimately show ?thesis using False ok cyc by (simp add: validate_dependencies_def sc e(1))
  next
    case True
    let ?l = "filter (\<lambda>k. k \<notin> fst ` set seen \<union> snd ` set seen) order"
    have "set seen = dep_pair ` set deps" using True e(3) f(1,7) by auto
    then have l: "set ?l = isolated_keys items deps"
      using assms by (auto simp: image_image isolated_keys_def)
    then have "sort ?l = [] \<longleftrightarrow> isolated_keys items deps = {}" by (metis set_empty set_sort)
    then show ?thesis using True ok l
      by (simp add: validate_dependencies_def sc e(1) Let_def del: set_filter)
  qed
qed

text \<open>
  C31. Validation decides exactly whether the graph can be executed: it always returns, and it rejects
  the graph unless the dependencies are pairwise different and there is an order of all the work items
  in which each follows what it depends on; an accepted graph with dependencies is a warning exactly
  when some item is mentioned by none. A reported cycle is a genuine one, a warning lists exactly the
  isolated items, and a valid graph has no errors.
\<close>

theorem validate_dependencies_exact:
  assumes "set order = node_keys items"
  shows "\<exists>v. validate_dependencies order items deps = Some v \<and>
    gv_status v =
      (if distinct (map dep_pair deps) \<and> (\<exists>s. is_schedule (node_keys items) deps s)
       then if deps = [] \<or> isolated_keys items deps = {} then ''valid'' else ''warning''
       else ''invalid'') \<and>
    (\<forall>p. CycleError p \<in> set (gv_errors v) \<longrightarrow> is_cycle (dep_pair ` set deps) p) \<and>
    (\<forall>ks. UnreachableTerminal ks \<in> set (gv_errors v) \<longrightarrow> set ks = isolated_keys items deps) \<and>
    (gv_status v = ''valid'' \<longleftrightarrow> gv_errors v = [])"
  by (rule validate_dependencies_status[OF assms])

definition demo_item :: "string \<Rightarrow> work_item" where
  "demo_item k = \<lparr>wi_key = k, wi_title = k, wi_work_type = None, wi_role = None, wi_status = ''pending'',
     wi_priority = ''medium'', wi_risk_level = ''low'', wi_dispatch_policy = ''planning_only'',
     wi_milestone_key = None\<rparr>"

definition demo_dep :: "string \<Rightarrow> string \<Rightarrow> dependency" where
  "demo_dep a b = \<lparr>wd_item = a, wd_depends_on = b, wd_type = ''blocks''\<rparr>"

definition demo_items :: "work_item list" where
  "demo_items = [demo_item ''a'', demo_item ''b'', demo_item ''c'']"

definition demo_loop :: "dependency list" where
  "demo_loop = [demo_dep ''a'' ''b'', demo_dep ''b'' ''c'', demo_dep ''c'' ''a'']"

lemma demo_loop_found:
  "validate_dependencies [''a'', ''b'', ''c''] demo_items demo_loop =
     Some \<lparr>gv_status = ''invalid'', gv_errors = [CycleError [''b'', ''c'', ''a'']]\<rparr>"
  by code_simp

theorem validate_dependencies_exact_witness:
  "\<not> (\<exists>s. is_schedule {''a'', ''b'', ''c''} demo_loop s) \<and>
   is_cycle (dep_pair ` set demo_loop) [''b'', ''c'', ''a'']"
proof -
  have k: "node_keys demo_items = {''a'', ''b'', ''c''}"
    by (simp add: node_keys_def demo_items_def demo_item_def)
  then have o: "set [''a'', ''b'', ''c''] = node_keys demo_items" by simp
  have d: "distinct (map dep_pair demo_loop)" by (simp add: demo_loop_def demo_dep_def)
  show ?thesis using validate_dependencies_exact[OF o, of demo_loop] demo_loop_found d k by (simp split: if_splits)
qed

end
