(* ===== verification/Task_Graph.thy ===== *)
theory Task_Graph imports Dep_Graph begin

text \<open>
  The deterministic project planner (\<^verbatim>\<open>shared/sdk/project_planning/\<close>): the role and dispatch policy
  of a work item (\<^verbatim>\<open>assignment_policy.py\<close>), the template-driven task graph (\<^verbatim>\<open>task_graph.py\<close>,
  \<^verbatim>\<open>acceptance.py\<close>, \<^verbatim>\<open>risk_model.py\<close>), the routing flags (\<^verbatim>\<open>routing.py\<close>) and the delivery
  judgement (\<^verbatim>\<open>delivery_readiness.py\<close>). Every graph the builder makes passes the validator of
  \<open>Dep_Graph\<close>. A brief enters only through its template metadata.
\<close>

section \<open>Roles and dispatch (assignment\_policy.py)\<close>

definition EXISTING_AGENT_ROLES :: "string list" where
  "EXISTING_AGENT_ROLES = [''requirement-agent'', ''development-agent'', ''qa-agent'', ''devops-agent'']"

definition FUTURE_AGENT_ROLES :: "string list" where
  "FUTURE_AGENT_ROLES =
    [''planner-agent'', ''architecture-capability'', ''backend-agent'', ''frontend-agent'',
     ''security-capability'', ''delivery-capability'']"

definition WORK_TYPE_TO_ROLE :: "(string \<times> string) list" where
  "WORK_TYPE_TO_ROLE =
    [(''requirement'', ''requirement-agent''), (''architecture'', ''architecture-capability''),
     (''backend'', ''development-agent''), (''frontend'', ''development-agent''),
     (''database'', ''development-agent''), (''integration'', ''development-agent''),
     (''qa'', ''qa-agent''), (''security'', ''security-capability''),
     (''devops'', ''devops-agent''), (''documentation'', ''development-agent''),
     (''release'', ''delivery-capability'')]"

definition DEFAULT_ROLE :: string where "DEFAULT_ROLE = ''development-agent''"

definition assign_agent_role :: "string option \<Rightarrow> string" where
  "assign_agent_role work_type =
    (if \<not> truthy work_type then DEFAULT_ROLE
     else case map_of WORK_TYPE_TO_ROLE (py_strip (py_lower (or_empty work_type))) of
       None \<Rightarrow> DEFAULT_ROLE | Some r \<Rightarrow> r)"

definition is_runnable_role :: "string option \<Rightarrow> bool" where
  "is_runnable_role r \<longleftrightarrow> truthy r \<and> or_empty r \<in> set EXISTING_AGENT_ROLES"

definition is_future_role :: "string option \<Rightarrow> bool" where
  "is_future_role r \<longleftrightarrow> truthy r \<and> or_empty r \<in> set FUTURE_AGENT_ROLES"

definition resolve_dispatch_policy :: "string option \<Rightarrow> string \<Rightarrow> string \<Rightarrow> string" where
  "resolve_dispatch_policy work_type risk_level default_policy =
    (if risk_level \<in> {''high'', ''production''} then ''approval_required''
     else if \<not> is_runnable_role (Some (assign_agent_role work_type)) then ''planning_only''
     else default_policy)"

section \<open>Routing (routing.py)\<close>

definition PROJECT_REQUEST_TYPES :: "string list" where
  "PROJECT_REQUEST_TYPES = [''software_project'', ''feature_request'', ''build_request'']"

definition flag_enabled :: "(string \<Rightarrow> string option) \<Rightarrow> string \<Rightarrow> bool \<Rightarrow> bool" where
  "flag_enabled env name dflt =
    (let raw = py_lower (py_strip (case env name of Some v \<Rightarrow> v | None \<Rightarrow> if dflt then ''true'' else ''false''))
     in raw \<notin> {''false'', ''0'', ''no'', []})"

definition project_planner_enabled :: "(string \<Rightarrow> string option) \<Rightarrow> bool" where
  "project_planner_enabled env = flag_enabled env ''ENABLE_PROJECT_PLANNER'' True"

definition planning_only_enabled :: "(string \<Rightarrow> string option) \<Rightarrow> bool" where
  "planning_only_enabled env = flag_enabled env ''PROJECT_PLANNER_PLANNING_ONLY'' True"

definition work_item_dispatch_enabled :: "(string \<Rightarrow> string option) \<Rightarrow> bool" where
  "work_item_dispatch_enabled env = flag_enabled env ''ENABLE_PROJECT_WORK_ITEM_DISPATCH'' False"

definition should_route_to_project_planner ::
    "(string \<Rightarrow> string option) \<Rightarrow> string option \<Rightarrow> bool \<Rightarrow> bool" where
  "should_route_to_project_planner env request_type skip_project_planning =
    (if skip_project_planning then False
     else if \<not> project_planner_enabled env then False
     else py_lower (py_strip (or_empty request_type)) \<in> set PROJECT_REQUEST_TYPES)"

section \<open>Parts of a graph\<close>

record milestone =
  ms_key :: string
  ms_title :: string
  ms_order_index :: nat

record acceptance_criterion =
  ac_key :: string
  ac_description :: string
  ac_verification_method :: string
  ac_status :: string
  ac_required :: bool
  ac_work_item_key :: "string option"

record project_risk =
  pr_key :: string
  pr_title :: string
  pr_severity :: string
  pr_likelihood :: string
  pr_mitigation :: string
  pr_owner :: "string option"
  pr_status :: string

record task_graph =
  tg_project_type :: string
  tg_template :: string
  tg_milestones :: "milestone list"
  tg_work_items :: "work_item list"
  tg_dependencies :: "dependency list"
  tg_acceptance :: "acceptance_criterion list"
  tg_risks :: "project_risk list"

definition TEMPLATE_FASTAPI_TODO :: string where "TEMPLATE_FASTAPI_TODO = ''fastapi_todo_service''"
definition TEMPLATE_GENERIC :: string where "TEMPLATE_GENERIC = ''generic_software_project''"

section \<open>Templates (task\_graph.py)\<close>

definition FASTAPI_TODO_MILESTONES :: "(string \<times> string) list" where
  "FASTAPI_TODO_MILESTONES =
    [(''MS-1'', ''Requirement confirmation''),
     (''MS-2'', ''API/data design''),
     (''MS-3'', ''Backend implementation''),
     (''MS-4'', ''Test implementation''),
     (''MS-5'', ''Documentation''),
     (''MS-6'', ''QA validation''),
     (''MS-7'', ''Delivery package'')]"

definition FASTAPI_TODO_WORK_ITEMS :: "(string \<times> string \<times> string \<times> string) list" where
  "FASTAPI_TODO_WORK_ITEMS =
    [(''REQ-001'', ''Clarify and freeze scope'', ''requirement'', ''MS-1''),
     (''ARCH-001'', ''Define API contract and data model'', ''architecture'', ''MS-2''),
     (''BE-001'', ''Implement FastAPI app structure'', ''backend'', ''MS-3''),
     (''BE-002'', ''Implement Todo CRUD endpoints'', ''backend'', ''MS-3''),
     (''DB-001'', ''Implement SQLite persistence'', ''database'', ''MS-3''),
     (''QA-001'', ''Create pytest unit/integration tests'', ''qa'', ''MS-4''),
     (''DOC-001'', ''Write README and API examples'', ''documentation'', ''MS-5''),
     (''QA-002'', ''Run tests and verify acceptance criteria'', ''qa'', ''MS-6''),
     (''DEL-001'', ''Prepare delivery summary'', ''release'', ''MS-7'')]"

definition FASTAPI_TODO_DEPENDENCIES :: "(string \<times> string \<times> string) list" where
  "FASTAPI_TODO_DEPENDENCIES =
    [(''ARCH-001'', ''REQ-001'', ''requires_output''),
     (''BE-001'', ''ARCH-001'', ''requires_output''),
     (''BE-002'', ''ARCH-001'', ''requires_output''),
     (''BE-002'', ''BE-001'', ''blocks''),
     (''DB-001'', ''ARCH-001'', ''requires_output''),
     (''QA-001'', ''BE-002'', ''requires_output''),
     (''QA-001'', ''DB-001'', ''requires_output''),
     (''DOC-001'', ''BE-002'', ''informs''),
     (''QA-002'', ''QA-001'', ''requires_output''),
     (''QA-002'', ''DOC-001'', ''review_after''),
     (''DEL-001'', ''QA-002'', ''requires_output'')]"

definition mk_work_item :: "string \<Rightarrow> string \<Rightarrow> string \<Rightarrow> string \<Rightarrow> string \<Rightarrow> work_item" where
  "mk_work_item dispatch_default key title work_type milestone =
    \<lparr>wi_key = key, wi_title = title, wi_work_type = Some work_type,
     wi_role = Some (assign_agent_role (Some work_type)), wi_status = ''pending'',
     wi_priority = (if work_type \<in> {''requirement'', ''architecture'', ''qa''} then ''high'' else ''medium''),
     wi_risk_level = ''low'',
     wi_dispatch_policy = resolve_dispatch_policy (Some work_type) ''low'' dispatch_default,
     wi_milestone_key = Some milestone\<rparr>"

definition mk_dependency :: "string \<Rightarrow> string \<Rightarrow> string \<Rightarrow> dependency" where
  "mk_dependency item depends_on kind = \<lparr>wd_item = item, wd_depends_on = depends_on, wd_type = kind\<rparr>"

definition mk_milestone :: "nat \<Rightarrow> string \<times> string \<Rightarrow> milestone" where
  "mk_milestone i kt = \<lparr>ms_key = fst kt, ms_title = snd kt, ms_order_index = i\<rparr>"

section \<open>Acceptance and risks (acceptance.py, risk\_model.py)\<close>

definition mk_criterion :: "string \<Rightarrow> string \<Rightarrow> string \<Rightarrow> string option \<Rightarrow> acceptance_criterion" where
  "mk_criterion key description verification item =
    \<lparr>ac_key = key, ac_description = description, ac_verification_method = verification,
     ac_status = ''pending'', ac_required = True, ac_work_item_key = item\<rparr>"

definition mk_risk :: "string \<Rightarrow> string \<Rightarrow> string \<Rightarrow> string \<Rightarrow> string \<Rightarrow> string \<Rightarrow> project_risk" where
  "mk_risk key title severity likelihood mitigation owner =
    \<lparr>pr_key = key, pr_title = title, pr_severity = severity, pr_likelihood = likelihood,
     pr_mitigation = mitigation, pr_owner = Some owner, pr_status = ''open''\<rparr>"

definition fastapi_todo_acceptance :: "acceptance_criterion list" where
  "fastapi_todo_acceptance =
    [mk_criterion ''AC-001'' ''Can create a todo.'' ''integration_test'' (Some ''BE-002''),
     mk_criterion ''AC-002'' ''Can list todos.'' ''integration_test'' (Some ''BE-002''),
     mk_criterion ''AC-003'' ''Can get a todo by id.'' ''integration_test'' (Some ''BE-002''),
     mk_criterion ''AC-004'' ''Can update a todo.'' ''integration_test'' (Some ''BE-002''),
     mk_criterion ''AC-005'' ''Can delete a todo.'' ''integration_test'' (Some ''BE-002''),
     mk_criterion ''AC-006'' ''SQLite persistence works locally.'' ''integration_test'' (Some ''DB-001''),
     mk_criterion ''AC-007'' ''pytest suite passes.'' ''unit_test'' (Some ''QA-002''),
     mk_criterion ''AC-008'' ''README explains setup, run, test, and API examples.'' ''documentation_review'' (Some ''DOC-001''),
     mk_criterion ''AC-009'' ''No production deployment attempted.'' ''static_check'' None,
     mk_criterion ''AC-010'' ''No secret required.'' ''static_check'' None]"

definition generic_acceptance :: "acceptance_criterion list" where
  "generic_acceptance =
    [mk_criterion ''AC-001'' ''The requested capability is implemented.'' ''manual_review'' None,
     mk_criterion ''AC-002'' ''Tests for the capability pass.'' ''unit_test'' None,
     mk_criterion ''AC-003'' ''No production deployment attempted.'' ''static_check'' None]"

definition build_acceptance_criteria :: "string \<Rightarrow> acceptance_criterion list" where
  "build_acceptance_criteria template =
    (if template = TEMPLATE_FASTAPI_TODO then fastapi_todo_acceptance else generic_acceptance)"

definition fastapi_todo_risks :: "project_risk list" where
  "fastapi_todo_risks =
    [mk_risk ''RISK-001'' ''Unclear persistence requirement'' ''medium'' ''medium'' ''Freeze the data model in ARCH-001 before implementation.'' ''architecture-capability'',
     mk_risk ''RISK-002'' ''Test coverage insufficient'' ''medium'' ''medium'' ''QA-001 must cover all CRUD paths and persistence.'' ''qa-agent'',
     mk_risk ''RISK-003'' ''Environment dependency mismatch'' ''medium'' ''low'' ''Pin Python/FastAPI/pytest versions in assumptions.'' ''devops-agent'',
     mk_risk ''RISK-004'' ''Scope creep into auth/frontend'' ''high'' ''medium'' ''Non-scope explicitly excludes auth and frontend; reject additions.'' ''requirement-agent'']"

definition generic_risks :: "project_risk list" where
  "generic_risks =
    [mk_risk ''RISK-001'' ''Requirement ambiguity'' ''medium'' ''medium'' ''Confirm scope before implementation.'' ''requirement-agent'',
     mk_risk ''RISK-002'' ''Insufficient test coverage'' ''medium'' ''medium'' ''Author acceptance criteria as tests.'' ''qa-agent'']"

definition build_risks :: "string \<Rightarrow> project_risk list" where
  "build_risks template = (if template = TEMPLATE_FASTAPI_TODO then fastapi_todo_risks else generic_risks)"

section \<open>The builder\<close>

text \<open>\<open>template_meta\<close> is \<^verbatim>\<open>brief.metadata.get("template")\<close>.\<close>

definition build_task_graph :: "string option \<Rightarrow> string option \<Rightarrow> string \<Rightarrow> task_graph" where
  "build_task_graph template_meta project_type dispatch_default =
    (let template = (if truthy template_meta then or_empty template_meta else TEMPLATE_GENERIC);
         item = mk_work_item dispatch_default;
         todo = (template = TEMPLATE_FASTAPI_TODO) in
     \<lparr>tg_project_type = (if truthy project_type then or_empty project_type else template),
      tg_template = template,
      tg_milestones =
        (if todo then map (\<lambda>(i, kt). mk_milestone i kt) (List.enumerate 0 FASTAPI_TODO_MILESTONES)
         else [mk_milestone 0 (''MS-1'', ''Requirement confirmation''),
               mk_milestone 1 (''MS-2'', ''Implementation''),
               mk_milestone 2 (''MS-3'', ''Validation'')]),
      tg_work_items =
        (if todo then map (\<lambda>(k, t, wt, ms). item k t wt ms) FASTAPI_TODO_WORK_ITEMS
         else [item ''REQ-001'' ''Clarify and freeze scope'' ''requirement'' ''MS-1'',
               item ''IMPL-001'' ''Implement the requested capability'' ''backend'' ''MS-2'',
               item ''QA-001'' ''Test the implementation'' ''qa'' ''MS-3'',
               item ''DOC-001'' ''Document the result'' ''documentation'' ''MS-2'']),
      tg_dependencies =
        (if todo then map (\<lambda>(k, d, t). mk_dependency k d t) FASTAPI_TODO_DEPENDENCIES
         else [mk_dependency ''IMPL-001'' ''REQ-001'' ''requires_output'',
               mk_dependency ''QA-001'' ''IMPL-001'' ''requires_output'',
               mk_dependency ''DOC-001'' ''IMPL-001'' ''informs'']),
      tg_acceptance = build_acceptance_criteria template,
      tg_risks = build_risks template\<rparr>)"

section \<open>Delivery readiness (delivery\_readiness.py)\<close>

text \<open>The fields the evaluation reads of the persisted rows; a missing key is \<open>None\<close>.\<close>

record criterion_state =
  cs_required :: bool
  cs_status :: "string option"

record item_state =
  is_priority :: "string option"
  is_status :: "string option"

record delivery_readiness =
  dr_ready :: bool
  dr_reasons :: "string list"
  dr_required_total :: nat
  dr_required_satisfied :: nat
  dr_critical_total :: nat
  dr_critical_completed :: nat
  dr_qa_report_present :: bool
  dr_delivery_summary_present :: bool

definition evaluate_delivery_readiness ::
    "criterion_state list \<Rightarrow> item_state list \<Rightarrow> string option list \<Rightarrow> delivery_readiness" where
  "evaluate_delivery_readiness acceptance_criteria work_items artifact_types =
    (let required = filter cs_required acceptance_criteria;
         required_satisfied = filter (\<lambda>c. cs_status c = Some ''satisfied'') required;
         critical = filter (\<lambda>w. is_priority w = Some ''critical'') work_items;
         critical_done = filter (\<lambda>w. is_status w = Some ''completed'') critical;
         qa_present = Some ''qa_report'' \<in> set artifact_types;
         delivery_present = Some ''delivery_summary'' \<in> set artifact_types;
         reasons =
           (if required \<noteq> [] \<and> length required_satisfied < length required
            then [''required_acceptance_criteria_not_satisfied''] else []) @
           (if critical \<noteq> [] \<and> length critical_done < length critical
            then [''critical_work_items_not_completed''] else []) @
           (if \<not> qa_present then [''qa_report_missing''] else []) @
           (if \<not> delivery_present then [''delivery_summary_missing''] else [])
     in \<lparr>dr_ready = (reasons = []), dr_reasons = reasons,
         dr_required_total = length required, dr_required_satisfied = length required_satisfied,
         dr_critical_total = length critical, dr_critical_completed = length critical_done,
         dr_qa_report_present = qa_present, dr_delivery_summary_present = delivery_present\<rparr>)"

section \<open>Every planned graph is sound\<close>

definition todo_items :: "string \<Rightarrow> work_item list" where
  "todo_items policy = map (\<lambda>(k, t, wt, ms). mk_work_item policy k t wt ms) FASTAPI_TODO_WORK_ITEMS"

definition todo_deps :: "dependency list" where
  "todo_deps = map (\<lambda>(k, d, t). mk_dependency k d t) FASTAPI_TODO_DEPENDENCIES"

definition todo_schedule :: "string list" where
  "todo_schedule = map fst FASTAPI_TODO_WORK_ITEMS"

definition generic_schedule :: "string list" where
  "generic_schedule = [''REQ-001'', ''IMPL-001'', ''QA-001'', ''DOC-001'']"

lemma item_sels [simp]:
  "wi_key (mk_work_item p k t wt ms) = k" "wi_milestone_key (mk_work_item p k t wt ms) = Some ms"
  "wd_item (mk_dependency a b c) = a" "wd_depends_on (mk_dependency a b c) = b"
  by (simp_all add: mk_work_item_def mk_dependency_def)

lemma mk_work_item_dispatch:
  "\<not> is_runnable_role (wi_role (mk_work_item p k t wt ms)) \<Longrightarrow>
     wi_dispatch_policy (mk_work_item p k t wt ms) = ''planning_only''"
  by (simp add: mk_work_item_def resolve_dispatch_policy_def)

lemma plan_cases:
  obtains (todo) "tg_template (build_task_graph t p policy) = TEMPLATE_FASTAPI_TODO"
      "node_keys (tg_work_items (build_task_graph t p policy)) = set todo_schedule"
      "tg_dependencies (build_task_graph t p policy) = todo_deps"
      "tg_milestones (build_task_graph t p policy) =
         map (\<lambda>(i, kt). mk_milestone i kt) (List.enumerate 0 FASTAPI_TODO_MILESTONES)"
      "map wi_key (tg_work_items (build_task_graph t p policy)) = todo_schedule"
    | (generic) "tg_template (build_task_graph t p policy) \<noteq> TEMPLATE_FASTAPI_TODO"
      "node_keys (tg_work_items (build_task_graph t p policy)) = set generic_schedule"
      "tg_dependencies (build_task_graph t p policy) =
         [mk_dependency ''IMPL-001'' ''REQ-001'' ''requires_output'',
          mk_dependency ''QA-001'' ''IMPL-001'' ''requires_output'',
          mk_dependency ''DOC-001'' ''IMPL-001'' ''informs'']"
      "map wi_key (tg_work_items (build_task_graph t p policy)) = generic_schedule"
  by (cases "tg_template (build_task_graph t p policy) = TEMPLATE_FASTAPI_TODO")
    (auto simp: build_task_graph_def Let_def node_keys_def todo_schedule_def todo_deps_def
      generic_schedule_def FASTAPI_TODO_WORK_ITEMS_def)

lemma plan_schedule:
  fixes t p policy
  defines "g \<equiv> build_task_graph t p policy"
  shows "distinct (map dep_pair (tg_dependencies g))" "tg_dependencies g \<noteq> []"
    "\<exists>s. is_schedule (node_keys (tg_work_items g)) (tg_dependencies g) s"
    "isolated_keys (tg_work_items g) (tg_dependencies g) = {}"
    "distinct (map wi_key (tg_work_items g))"
proof -
  have "distinct (map dep_pair (tg_dependencies g)) \<and> tg_dependencies g \<noteq> [] \<and>
      (\<exists>s. is_schedule (node_keys (tg_work_items g)) (tg_dependencies g) s) \<and>
      isolated_keys (tg_work_items g) (tg_dependencies g) = {} \<and>
      distinct (map wi_key (tg_work_items g))"
  proof (cases rule: plan_cases[of t p policy])
    case todo
    have "is_schedule (set todo_schedule) todo_deps todo_schedule"
      by (simp add: is_schedule_def todo_schedule_def todo_deps_def FASTAPI_TODO_WORK_ITEMS_def
          FASTAPI_TODO_DEPENDENCIES_def)
    then show ?thesis using todo unfolding g_def isolated_keys_def
      by (auto simp: todo_schedule_def todo_deps_def FASTAPI_TODO_WORK_ITEMS_def
          FASTAPI_TODO_DEPENDENCIES_def)
  next
    case generic
    have "is_schedule (set generic_schedule) (tg_dependencies g) generic_schedule"
      using generic(3) by (simp add: is_schedule_def generic_schedule_def g_def)
    then show ?thesis using generic unfolding g_def isolated_keys_def
      by (auto simp: generic_schedule_def)
  qed
  then show "distinct (map dep_pair (tg_dependencies g))" "tg_dependencies g \<noteq> []"
    "\<exists>s. is_schedule (node_keys (tg_work_items g)) (tg_dependencies g) s"
    "isolated_keys (tg_work_items g) (tg_dependencies g) = {}"
    "distinct (map wi_key (tg_work_items g))" by blast+
qed

text \<open>
  C32. Whatever the brief's template, the project type and the default dispatch policy: the planned
  graph passes validation without an error or a warning, so its work items can be executed in
  dependency order; their keys are distinct; an item whose role has no running agent is planned but
  never dispatched; and every criterion and every item refers to an item or milestone of the graph.
\<close>

theorem planned_graph_sound:
  assumes "set order = node_keys (tg_work_items (build_task_graph t p policy))"
  shows "let g = build_task_graph t p policy in
    validate_dependencies order (tg_work_items g) (tg_dependencies g) =
      Some \<lparr>gv_status = ''valid'', gv_errors = []\<rparr> \<and>
    (\<exists>s. is_schedule (node_keys (tg_work_items g)) (tg_dependencies g) s) \<and>
    distinct (map wi_key (tg_work_items g)) \<and>
    (\<forall>w \<in> set (tg_work_items g). \<not> is_runnable_role (wi_role w) \<longrightarrow>
       wi_dispatch_policy w = ''planning_only'') \<and>
    (\<forall>w \<in> set (tg_work_items g). wi_milestone_key w \<in> Some ` ms_key ` set (tg_milestones g)) \<and>
    (\<forall>c \<in> set (tg_acceptance g). ac_work_item_key c \<in> insert None (Some ` node_keys (tg_work_items g)))"
proof -
  let ?g = "build_task_graph t p policy"
  have v: "validate_dependencies order (tg_work_items ?g) (tg_dependencies ?g) =
      Some \<lparr>gv_status = ''valid'', gv_errors = []\<rparr>"
  proof -
    obtain v where v: "validate_dependencies order (tg_work_items ?g) (tg_dependencies ?g) = Some v"
        "gv_status v = ''valid''" "gv_errors v = []"
      using validate_dependencies_status[OF assms, of "tg_dependencies ?g"] plan_schedule[of t p policy]
      by (auto split: if_splits)
    then have "v = \<lparr>gv_status = ''valid'', gv_errors = []\<rparr>" by simp
    then show ?thesis using v(1) by simp
  qed
  have d: "\<forall>w \<in> set (tg_work_items ?g). \<not> is_runnable_role (wi_role w) \<longrightarrow>
      wi_dispatch_policy w = ''planning_only''"
    by (auto simp: build_task_graph_def Let_def mk_work_item_dispatch)
  have m: "\<forall>w \<in> set (tg_work_items ?g). wi_milestone_key w \<in> Some ` ms_key ` set (tg_milestones ?g)"
    by (auto simp: build_task_graph_def Let_def mk_milestone_def FASTAPI_TODO_WORK_ITEMS_def
        FASTAPI_TODO_MILESTONES_def)
  have c: "\<forall>c \<in> set (tg_acceptance ?g). ac_work_item_key c \<in> insert None (Some ` node_keys (tg_work_items ?g))"
    by (auto simp: build_task_graph_def Let_def build_acceptance_criteria_def mk_criterion_def
        fastapi_todo_acceptance_def generic_acceptance_def node_keys_def FASTAPI_TODO_WORK_ITEMS_def)
  show ?thesis using v d m c plan_schedule(3,5)[of t p policy] by (simp only: Let_def simp_thms)
qed

theorem planned_graph_sound_witness:
  "validate_dependencies generic_schedule (tg_work_items (build_task_graph None None ''planning_only''))
     (tg_dependencies (build_task_graph None None ''planning_only'')) =
   Some \<lparr>gv_status = ''valid'', gv_errors = []\<rparr>"
proof -
  have "set generic_schedule = node_keys (tg_work_items (build_task_graph None None ''planning_only''))"
    by code_simp
  from planned_graph_sound[OF this] show ?thesis by (simp only: Let_def)
qed

end
