(* ===== verification/Py_Float.thy ===== *)
theory Py_Float imports Py_Json begin

text \<open>
  Floating-point numbers as Python prints them. \<^verbatim>\<open>float.__repr__\<close> and \<^verbatim>\<open>json.dumps\<close> print the shortest
  decimal text that reads back as the same number, so a float is modelled by the parts of that text:
  digits with a point, digits with an exponent of at least two digits, an infinity, or not-a-number.
  Nothing here computes with floats; two of them are the same when their texts are.
\<close>

section \<open>Digits\<close>

datatype digit = D0 | D1 | D2 | D3 | D4 | D5 | D6 | D7 | D8 | D9

fun digit_char :: "digit \<Rightarrow> char" where
  "digit_char D0 = CHR ''0''" | "digit_char D1 = CHR ''1''" | "digit_char D2 = CHR ''2''"
| "digit_char D3 = CHR ''3''" | "digit_char D4 = CHR ''4''" | "digit_char D5 = CHR ''5''"
| "digit_char D6 = CHR ''6''" | "digit_char D7 = CHR ''7''" | "digit_char D8 = CHR ''8''"
| "digit_char D9 = CHR ''9''"

definition is_digit :: "char \<Rightarrow> bool" where
  "is_digit c \<longleftrightarrow> 48 \<le> (of_char c :: nat) \<and> (of_char c :: nat) \<le> 57"

lemma digit_char_inj: "digit_char a = digit_char b \<longleftrightarrow> a = b"
  by (cases a; cases b) simp_all

lemma map_digit_char_inj: "map digit_char xs = map digit_char ys \<longleftrightarrow> xs = ys"
  by (rule inj_map_eq_map) (simp add: inj_def digit_char_inj)

lemma is_digit_digit_char: "is_digit (digit_char d)"
  by (cases d) (simp_all add: is_digit_def)

lemma digits_digit_char: "list_all is_digit (map digit_char ds)"
  by (simp add: list_all_iff is_digit_digit_char)

lemma digit_char_of: "n < 10 \<Longrightarrow> is_digit (char_of (48 + n :: nat))"
  by (simp add: is_digit_def)

lemma decimal_digits: "list_all is_digit (decimal n)" "decimal n \<noteq> []"
  by (induction n rule: decimal.induct; subst decimal.simps; simp add: digit_char_of)+

lemma not_digits: "\<not> is_digit (CHR ''-'')" "\<not> is_digit (CHR ''+'')" "\<not> is_digit (CHR ''.'')" "\<not> is_digit (CHR ''e'')"
  "\<not> is_digit (CHR ''N'')" "\<not> is_digit (CHR ''I'')"
  by (simp_all add: is_digit_def)

text \<open>A run of digits ends at the first other character.\<close>

lemma digit_run:
  assumes "xs @ c # r = ys @ d # s" "list_all is_digit xs" "list_all is_digit ys" "\<not> is_digit c" "\<not> is_digit d"
  shows "xs = ys \<and> c = d \<and> r = s"
proof -
  have "takeWhile is_digit (xs @ c # r) = xs" if "list_all is_digit xs" "\<not> is_digit c" for xs c r
    using that by (simp add: list_all_iff takeWhile_append)
  then have "xs = ys" using assms by metis
  then show ?thesis using assms(1) by simp
qed

section \<open>Numbers and their text\<close>

datatype magnitude =
    Infinite
  | Point nat digit "digit list"
  | Exponent digit "digit list" bool nat

datatype pyfloat = FloatNaN | Float bool magnitude

definition sign_text :: "bool \<Rightarrow> string" where
  "sign_text negative = (if negative then ''-'' else [])"

definition point_text :: "nat \<Rightarrow> digit \<Rightarrow> digit list \<Rightarrow> string" where
  "point_text w d ds = decimal w @ CHR ''.'' # map digit_char (d # ds)"

definition exponent_text :: "nat \<Rightarrow> string" where
  "exponent_text n = (if n < 10 then CHR ''0'' # decimal n else decimal n)"

definition exp_text :: "digit \<Rightarrow> digit list \<Rightarrow> bool \<Rightarrow> nat \<Rightarrow> string" where
  "exp_text d ds negative n = digit_char d # (if ds = [] then [] else CHR ''.'' # map digit_char ds) @
     CHR ''e'' # (if negative then CHR ''-'' else CHR ''+'') # exponent_text n"

fun magnitude_text :: "string \<Rightarrow> magnitude \<Rightarrow> string" where
  "magnitude_text infinity Infinite = infinity"
| "magnitude_text infinity (Point w d ds) = point_text w d ds"
| "magnitude_text infinity (Exponent d ds negative n) = exp_text d ds negative n"

text \<open>\<^verbatim>\<open>json.dumps\<close> and \<^verbatim>\<open>repr\<close> differ in the values that are not finite.\<close>

fun json_float :: "pyfloat \<Rightarrow> string" where
  "json_float FloatNaN = ''NaN''"
| "json_float (Float negative m) = sign_text negative @ magnitude_text ''Infinity'' m"

fun float_repr :: "pyfloat \<Rightarrow> string" where
  "float_repr FloatNaN = ''nan''"
| "float_repr (Float negative m) = sign_text negative @ magnitude_text ''inf'' m"

fun float_zero :: "pyfloat \<Rightarrow> bool" where
  "float_zero (Float negative (Point w d ds)) \<longleftrightarrow> w = 0 \<and> set (d # ds) \<subseteq> {D0}"
| "float_zero (Float negative (Exponent d ds g n)) \<longleftrightarrow> set (d # ds) \<subseteq> {D0}"
| "float_zero x \<longleftrightarrow> False"

section \<open>The text determines the number\<close>

lemma point_text_inj: "point_text w d ds = point_text w' d' ds' \<Longrightarrow> w = w' \<and> d = d' \<and> ds = ds'"
  using digit_run[of "decimal w" "CHR ''.''" "map digit_char (d # ds)" "decimal w'" "CHR ''.''" "map digit_char (d' # ds')"]
    decimal_digits not_digits decimal_inj
  by (auto simp: point_text_def digit_char_inj map_digit_char_inj)

lemma exponent_text_inj:
  assumes "exponent_text m = exponent_text n" shows "m = n"
proof -
  have "digits_val (exponent_text n) = n" for n
    using digits_val_decimal[of n] by (simp add: exponent_text_def digits_val_def)
  then show ?thesis using assms by metis
qed

lemma exp_text_inj:
  assumes "exp_text d ds g n = exp_text d' ds' g' n'"
  shows "d = d' \<and> ds = ds' \<and> g = g' \<and> n = n'"
proof -
  let ?tail = "\<lambda>g n. (if g then CHR ''-'' else CHR ''+'') # exponent_text n"
  have d: "d = d'" and t: "(if ds = [] then [] else CHR ''.'' # map digit_char ds) @ CHR ''e'' # ?tail g n =
      (if ds' = [] then [] else CHR ''.'' # map digit_char ds') @ CHR ''e'' # ?tail g' n'"
    using assms by (auto simp: exp_text_def digit_char_inj)
  from t have "(ds = []) = (ds' = [])" by (cases ds; cases ds') auto
  then have "map digit_char ds @ CHR ''e'' # ?tail g n = map digit_char ds' @ CHR ''e'' # ?tail g' n'"
    using t by (auto split: if_splits)
  then have "map digit_char ds = map digit_char ds' \<and> ?tail g n = ?tail g' n'"
    using digit_run[OF _ digits_digit_char digits_digit_char not_digits(4) not_digits(4)] by blast
  then show ?thesis using d exponent_text_inj by (auto simp: map_digit_char_inj split: if_splits)
qed

text \<open>The three shapes differ in their first character or in the letter of the exponent.\<close>

lemma no_exponent: "CHR ''e'' \<notin> set (point_text w d ds)"
  using decimal_digits(1)[of w] digits_digit_char[of "d # ds"] not_digits(4)
  by (auto simp: point_text_def list_all_iff)

lemma has_exponent: "CHR ''e'' \<in> set (exp_text d ds g n)"
  by (simp add: exp_text_def)

lemma point_head: "is_digit (hd (point_text w d ds))"
  using decimal_digits[of w] by (auto simp: point_text_def list_all_iff)

lemma exp_head: "is_digit (hd (exp_text d ds g n))"
  by (simp add: exp_text_def is_digit_digit_char)

lemma magnitude_head: "hd (magnitude_text ''Infinity'' m) = CHR ''I'' \<or> is_digit (hd (magnitude_text ''Infinity'' m))"
    "magnitude_text ''Infinity'' m \<noteq> []"
  using point_head exp_head by (cases m; simp; simp add: point_text_def exp_text_def)+

lemma magnitude_text_inj:
  assumes "magnitude_text ''Infinity'' x = magnitude_text ''Infinity'' y" shows "x = y"
proof -
  have i: "point_text w d ds \<noteq> ''Infinity''" "exp_text d ds g n \<noteq> ''Infinity''" for w d ds g n
    using point_head[of w d ds] exp_head[of d ds g n] not_digits(6) by auto
  have e: "point_text w d ds \<noteq> exp_text d' ds' g n" for w d ds d' ds' g n
    using no_exponent has_exponent by metis
  show ?thesis using assms point_text_inj exp_text_inj i i[symmetric] e e[symmetric]
    by (cases x; cases y) (simp; blast?)+
qed

lemma json_float_head:
  "json_float x \<noteq> [] \<and> (hd (json_float x) \<in> {CHR ''N'', CHR ''I'', CHR ''-''} \<or> is_digit (hd (json_float x)))"
  using magnitude_head by (cases x) (auto simp: sign_text_def)

lemma json_float_inj:
  assumes "json_float x = json_float y" shows "x = y"
proof -
  have m: "hd (magnitude_text ''Infinity'' m) \<noteq> CHR ''-''" "hd (magnitude_text ''Infinity'' m) \<noteq> CHR ''N''" for m
    using magnitude_head(1)[of m] not_digits by auto
  have n: "json_float (Float g m) \<noteq> ''NaN''" for g m
    using m(2)[of m] magnitude_head(2)[of m] by (auto simp: sign_text_def)
  show ?thesis
  proof (cases x; cases y)
    fix g v h w assume xy: "x = Float g v" "y = Float h w"
    then have "g = h \<and> magnitude_text ''Infinity'' v = magnitude_text ''Infinity'' w"
      using assms m(1)[of v] m(1)[of w] by (auto simp: sign_text_def split: if_splits dest: arg_cong[where f = hd])
    then show ?thesis using xy magnitude_text_inj by simp
  qed (use assms n n[symmetric] in auto)
qed

text \<open>No integer is printed as a float.\<close>

lemma int_text_not_float: "int_text i \<noteq> json_float x"
proof -
  have "set (int_text i) \<subseteq> {c. is_digit c} \<union> {CHR ''-''}"
    using decimal_digits(1)[of "nat i"] decimal_digits(1)[of "nat (- i)"] by (auto simp: int_text_def list_all_iff)
  moreover have "\<exists>c \<in> set (magnitude_text ''Infinity'' m). c \<in> {CHR ''.'', CHR ''e'', CHR ''I''}" for m
    by (cases m) (auto simp: point_text_def exp_text_def)
  then have "\<exists>c \<in> set (json_float x). c \<in> {CHR ''.'', CHR ''e'', CHR ''N'', CHR ''I''}"
    by (cases x) auto
  ultimately show ?thesis using not_digits by fastforce
qed

end
