(* ===== verification/Canon_Json.thy ===== *)
theory Canon_Json
  imports Py_Float "HOL-Library.Multiset" "HOL-Library.List_Lexorder" "HOL-Library.Char_ord"
begin

text \<open>
  Canonical JSON (\<^verbatim>\<open>shared/sdk/audit_integrity/canonical.py\<close>): values as \<^verbatim>\<open>json.loads\<close> yields them, the
  recursive key ordering, and the compact text with non-ASCII characters kept. The text determines the
  value: two payloads have the same canonical text exactly when they differ in nothing but the order of
  the keys of their objects.
\<close>

section \<open>Values and their text\<close>

datatype json =
    JNull
  | JBool bool
  | JInt int
  | JFloat pyfloat
  | JStr string
  | JList "json list"
  | JObj "(string \<times> json) list"

text \<open>The escapes of \<^verbatim>\<open>json.dumps(..., ensure_ascii=False)\<close>.\<close>

definition raw_char :: "char \<Rightarrow> string" where
  "raw_char c =
     (let n = (of_char c :: nat) in
      if c = CHR 0x22 then [CHR 0x5C, CHR 0x22]
      else if c = CHR 0x5C then [CHR 0x5C, CHR 0x5C]
      else if n = 10 then [CHR 0x5C, CHR ''n'']
      else if n = 13 then [CHR 0x5C, CHR ''r'']
      else if n = 9 then [CHR 0x5C, CHR ''t'']
      else if n = 8 then [CHR 0x5C, CHR ''b'']
      else if n = 12 then [CHR 0x5C, CHR ''f'']
      else if n < 32
        then [CHR 0x5C, CHR ''u'', CHR ''0'', CHR ''0'', hex_digit (n div 16), hex_digit (n mod 16)]
      else [c])"

definition raw_string :: "string \<Rightarrow> string" where
  "raw_string s = CHR 0x22 # concat (map raw_char s) @ [CHR 0x22]"

function json_text :: "json \<Rightarrow> string" where
  "json_text JNull = ''null''"
| "json_text (JBool b) = (if b then ''true'' else ''false'')"
| "json_text (JInt i) = int_text i"
| "json_text (JFloat x) = json_float x"
| "json_text (JStr s) = raw_string s"
| "json_text (JList vs) = ''['' @ join_with '','' (map json_text vs) @ '']''"
| "json_text (JObj kvs) =
     ''{'' @ join_with '','' (map (\<lambda>kv. raw_string (fst kv) @ '':'' @ json_text (snd kv)) kvs) @ ''}''"
  by pat_completeness auto

lemma size_member: "v \<in> set vs \<Longrightarrow> size (v :: json) < Suc (size_list size vs)"
  by (induction vs) auto

lemma size_field: "kv \<in> set kvs \<Longrightarrow> size (snd kv :: json) < Suc (size_list (size_prod (\<lambda>_. 0) size) kvs)"
  by (induction kvs) (auto simp: size_prod_def)

termination json_text
  by (relation "measure size") (auto simp: size_member size_field)

function canonicalise_value :: "json \<Rightarrow> json" where
  "canonicalise_value (JObj kvs) =
     JObj (map (\<lambda>kv. (fst kv, canonicalise_value (snd kv))) (sort_key fst kvs))"
| "canonicalise_value (JList vs) = JList (map canonicalise_value vs)"
| "canonicalise_value JNull = JNull"
| "canonicalise_value (JBool b) = JBool b"
| "canonicalise_value (JInt i) = JInt i"
| "canonicalise_value (JFloat x) = JFloat x"
| "canonicalise_value (JStr s) = JStr s"
  by pat_completeness auto
termination
  by (relation "measure size") (auto simp: size_member size_field)

text \<open>\<^verbatim>\<open>sort_keys=True\<close> orders the keys of every object again as it is printed.\<close>

definition canonical_json :: "json \<Rightarrow> string" where
  "canonical_json payload = json_text (canonicalise_value (canonicalise_value payload))"

section \<open>The text determines the value\<close>

lemma char_code_inj: "char_of (n :: nat) = (char_of m :: char) \<Longrightarrow> n < 256 \<Longrightarrow> m < 256 \<Longrightarrow> n = m"
  by (metis mod_less of_char_of)

lemma hex_digit_inj: "a < 16 \<Longrightarrow> b < 16 \<Longrightarrow> hex_digit a = hex_digit b \<Longrightarrow> a = b"
  by (auto simp: hex_digit_def split: if_splits dest: char_code_inj)

lemma of_char_less: "of_char (c :: char) < (256 :: nat)"
  by (metis of_char_mod_256 mod_less_divisor zero_less_numeral)

lemma hex_pair_inj:
  assumes "hex_digit (of_char (c :: char) div 16) = hex_digit (of_char d div 16)"
    "hex_digit (of_char c mod 16) = hex_digit (of_char d mod 16)"
  shows "c = d"
proof -
  have "of_char c div 16 = (of_char d div 16 :: nat)"
    using of_char_less[of c] of_char_less[of d]
    by (intro hex_digit_inj[OF _ _ assms(1)]) (simp_all add: less_mult_imp_div_less)
  moreover have "of_char c mod 16 = (of_char d mod 16 :: nat)"
    by (intro hex_digit_inj[OF _ _ assms(2)]) auto
  ultimately have "of_char c = (of_char d :: nat)" by (metis div_mult_mod_eq)
  then show ?thesis by simp
qed

lemma raw_char_prefix: "raw_char c @ x = raw_char d @ y \<Longrightarrow> c = d \<and> x = y"
  unfolding raw_char_def Let_def
  by (auto split: if_splits dest: hex_pair_inj) (metis of_char_eq_iff)+

lemma raw_char_no_quote: "raw_char c @ x \<noteq> CHR 0x22 # y"
  by (auto simp: raw_char_def Let_def)

lemma raw_string_prefix: "raw_string a @ r = raw_string b @ s \<Longrightarrow> a = b \<and> r = s"
proof -
  have *: "concat (map raw_char a) @ CHR 0x22 # r = concat (map raw_char b) @ CHR 0x22 # s \<Longrightarrow> a = b \<and> r = s"
  proof (induction a arbitrary: b)
    case Nil
    then show ?case using raw_char_no_quote by (cases b) (auto dest: sym)
  next
    case (Cons c a)
    then obtain d b' where b: "b = d # b'" using raw_char_no_quote by (cases b) auto
    have "c = d \<and> concat (map raw_char a) @ CHR 0x22 # r = concat (map raw_char b') @ CHR 0x22 # s"
      using Cons.prems raw_char_prefix[of c "concat (map raw_char a) @ CHR 0x22 # r" d] b by auto
    then show ?case using Cons.IH b by blast
  qed
  show "raw_string a @ r = raw_string b @ s \<Longrightarrow> a = b \<and> r = s"
    using * by (simp add: raw_string_def)
qed

text \<open>What can follow a value: the end, or one of the three closing characters.\<close>

definition closed :: "string \<Rightarrow> bool" where
  "closed r \<longleftrightarrow> r = [] \<or> hd r \<in> {CHR '','', CHR '']'', CHR ''}''}"

text \<open>A number is printed without any of them, so its text ends where the number does.\<close>

definition number_text :: "string \<Rightarrow> bool" where
  "number_text s \<longleftrightarrow> set s \<inter> {CHR '','', CHR '']'', CHR ''}''} = {}"

lemma digits_number_text: "list_all is_digit s \<Longrightarrow> number_text s"
  by (auto simp: number_text_def list_all_iff is_digit_def)

lemma number_text_Cons: "number_text (c # s) \<longleftrightarrow> c \<notin> {CHR '','', CHR '']'', CHR ''}''} \<and> number_text s"
  by (auto simp: number_text_def)

lemma number_text_append: "number_text (s @ t) \<longleftrightarrow> number_text s \<and> number_text t"
  by (auto simp: number_text_def)

lemma number_text_digit: "number_text (map digit_char ds)" "digit_char d \<notin> {CHR '','', CHR '']'', CHR ''}''}"
  using digits_number_text[OF digits_digit_char] by (auto simp: number_text_def) (cases d; simp)+

lemma number_text_Nil: "number_text []"
  by (simp add: number_text_def)

lemma number_texts: "number_text (int_text i)" "number_text (json_float x)"
proof -
  note d = digits_number_text[OF decimal_digits(1)]
  show "number_text (int_text i)" by (simp add: int_text_def d number_text_Cons)
  have "number_text (magnitude_text ''Infinity'' m)" for m
    using number_text_digit(2)
    by (cases m) (simp_all add: point_text_def exp_text_def exponent_text_def number_text_append number_text_Cons
        number_text_digit(1) d number_text_Nil)
  then show "number_text (json_float x)"
    by (cases x) (auto simp: sign_text_def number_text_append number_text_Cons number_text_def)
qed

lemma number_prefix:
  assumes "xs @ r = ys @ s" "number_text xs" "number_text ys" "closed r" "closed s"
  shows "xs = ys \<and> r = s"
proof -
  let ?open = "\<lambda>c. c \<notin> {CHR '','', CHR '']'', CHR ''}''}"
  have "takeWhile ?open (xs @ r) = xs" if "number_text xs" "closed r" for xs r
  proof -
    have "\<forall>c \<in> set xs. ?open c" using that(1) by (auto simp: number_text_def)
    then show ?thesis using that(2) by (cases r) (auto simp: closed_def takeWhile_append)
  qed
  then have "xs = ys" using assms by metis
  then show ?thesis using assms(1) by simp
qed

lemma int_text_head: "int_text i \<noteq> []" "hd (int_text i) = CHR ''-'' \<or> is_digit (hd (int_text i))"
  using decimal_digits[of "nat i"] by (auto simp: int_text_def list_all_iff)

lemma int_text_inj:
  assumes "int_text i = int_text j" shows "i = j"
proof -
  have "(i < 0) = (j < 0)"
    using assms decimal_digits[of "nat i"] decimal_digits[of "nat j"] not_digits(1)
    by (cases "decimal (nat i)"; cases "decimal (nat j)") (auto simp: int_text_def split: if_splits)
  then have "decimal (nat \<bar>i\<bar>) = decimal (nat \<bar>j\<bar>)" using assms by (auto simp: int_text_def split: if_splits)
  then show ?thesis using \<open>(i < 0) = (j < 0)\<close> decimal_inj by fastforce
qed

text \<open>A printer is prefix-determined at a value when a closed rest leaves no doubt what was printed.\<close>

definition determined :: "('a \<Rightarrow> string) \<Rightarrow> 'a \<Rightarrow> bool" where
  "determined f v \<longleftrightarrow> (\<forall>w r s. f v @ r = f w @ s \<longrightarrow> closed r \<longrightarrow> closed s \<longrightarrow> v = w \<and> r = s)"

lemma determinedD: "determined f v \<Longrightarrow> f v @ r = f w @ s \<Longrightarrow> closed r \<Longrightarrow> closed s \<Longrightarrow> v = w \<and> r = s"
  by (simp add: determined_def)

lemma join_with_eq: "join_with sep (x # xs) = x @ concat (map (\<lambda>y. sep @ y) xs)"
  by (induction xs arbitrary: x) auto

lemma closed_item: "closed (concat (map (\<lambda>v. '','' @ f v) vs) @ c # r)" if "c \<in> {CHR '']'', CHR ''}''}"
  using that by (cases vs) (auto simp: closed_def)

lemma items_determined:
  assumes "\<And>v. v \<in> set vs \<Longrightarrow> determined f v" "c \<in> {CHR '']'', CHR ''}''}"
    "concat (map (\<lambda>v. '','' @ f v) vs) @ c # r = concat (map (\<lambda>v. '','' @ f v) ws) @ c # s"
  shows "vs = ws \<and> r = s"
  using assms(1,3)
proof (induction vs arbitrary: ws)
  case Nil
  then show ?case using assms(2) by (cases ws) auto
next
  case (Cons v vs)
  then obtain w ws' where ws: "ws = w # ws'" using assms(2) by (cases ws) auto
  have "f v @ concat (map (\<lambda>v. '','' @ f v) vs) @ c # r = f w @ concat (map (\<lambda>v. '','' @ f v) ws') @ c # s"
    using Cons.prems(2) ws by simp
  from determinedD[OF Cons.prems(1) this closed_item[OF assms(2)] closed_item[OF assms(2)]]
  show ?case using Cons.IH[of ws'] Cons.prems(1) ws by simp
qed

lemma list_determined:
  assumes "\<And>v. v \<in> set vs \<Longrightarrow> determined f v" "c \<in> {CHR '']'', CHR ''}''}"
    "\<And>v. f v \<noteq> [] \<and> hd (f v) \<noteq> c"
    "join_with '','' (map f vs) @ c # r = join_with '','' (map f ws) @ c # s"
  shows "vs = ws \<and> r = s"
proof (cases vs; cases ws)
  fix w ws' assume "vs = []" "ws = w # ws'"
  then show ?thesis using assms(3)[of w] assms(4) by (cases "f w") (auto simp: join_with_eq)
next
  fix v vs' assume "vs = v # vs'" "ws = []"
  then show ?thesis using assms(3)[of v] assms(4) by (cases "f v") (auto simp: join_with_eq)
next
  fix v vs' w ws' assume vw: "vs = v # vs'" "ws = w # ws'"
  have "f v @ concat (map (\<lambda>v. '','' @ f v) vs') @ c # r = f w @ concat (map (\<lambda>v. '','' @ f v) ws') @ c # s"
    using assms(4) vw by (simp add: join_with_eq comp_def)
  moreover have "determined f v" using assms(1) vw by simp
  ultimately have "v = w" "concat (map (\<lambda>v. '','' @ f v) vs') @ c # r = concat (map (\<lambda>v. '','' @ f v) ws') @ c # s"
    using determinedD[of f v _ w] closed_item[OF assms(2)] by blast+
  then show ?thesis using items_determined[of vs' f c r ws' s] assms(1,2) vw by simp
qed (use assms(4) in auto)

lemma number_head_neq:
  "hd (int_text i) \<notin> {CHR ''n'', CHR ''t'', CHR ''f'', CHR 0x22, CHR ''['', CHR ''{'', CHR '']'', CHR ''}''}"
  "hd (json_float x) \<notin> {CHR ''n'', CHR ''t'', CHR ''f'', CHR 0x22, CHR ''['', CHR ''{'', CHR '']'', CHR ''}''}"
  using int_text_head(2)[of i] json_float_head[of x] by (auto simp: is_digit_def)

lemma json_text_head:
  "json_text v \<noteq> [] \<and> hd (json_text v) = (case v of JNull \<Rightarrow> CHR ''n'' | JBool b \<Rightarrow> if b then CHR ''t'' else CHR ''f''
     | JInt i \<Rightarrow> hd (int_text i) | JFloat x \<Rightarrow> hd (json_float x) | JStr _ \<Rightarrow> CHR 0x22 | JList _ \<Rightarrow> CHR ''[''
     | JObj _ \<Rightarrow> CHR ''{'')"
  using int_text_head(1) json_float_head by (cases v) (auto simp: raw_string_def)

lemma json_text_head_neq: "json_text v \<noteq> [] \<and> hd (json_text v) \<notin> {CHR '']'', CHR ''}''}"
  using json_text_head[of v] number_head_neq
  by (cases v) (auto simp: raw_string_def split: if_splits)

text \<open>The first character tells which kind of value was printed; the two kinds of numbers share theirs.\<close>

fun kind :: "json \<Rightarrow> nat" where
  "kind JNull = 0" | "kind (JBool b) = (if b then 1 else 2)" | "kind (JInt i) = 3" | "kind (JFloat x) = 3"
| "kind (JStr s) = 4" | "kind (JList vs) = 5" | "kind (JObj kvs) = 6"

lemma json_text_kind:
  assumes "json_text v @ r = json_text w @ s" shows "kind v = kind w"
proof -
  have "hd (json_text v) = hd (json_text w)" using assms json_text_head by (metis hd_append2)
  then show ?thesis using json_text_head[of v] json_text_head[of w] number_head_neq
    by (cases v; cases w) (auto split: if_splits simp del: json_text.simps)
qed

lemma field_determined:
  assumes "determined json_text (snd kv)"
  shows "determined (\<lambda>kv. raw_string (fst kv) @ '':'' @ json_text (snd kv)) kv"
  unfolding determined_def
proof (intro allI impI)
  fix w r s assume e: "(raw_string (fst kv) @ '':'' @ json_text (snd kv)) @ r =
      (raw_string (fst w) @ '':'' @ json_text (snd w)) @ s" and c: "closed r" "closed s"
  then have "fst kv = fst w" "json_text (snd kv) @ r = json_text (snd w) @ s"
    using raw_string_prefix[of "fst kv" "'':'' @ json_text (snd kv) @ r" "fst w"] by auto
  then show "kv = w \<and> r = s" using determinedD[OF assms _ c] by (metis prod.expand)
qed

lemma number_determined:
  assumes "kind v = 3" shows "determined json_text v"
  unfolding determined_def
proof (intro allI impI)
  fix w r s assume e: "json_text v @ r = json_text w @ s" and c: "closed r" "closed s"
  have k: "number_text (json_text u)" if "kind u = 3" for u using that number_texts by (cases u) (auto split: if_splits)
  have w: "kind w = 3" using json_text_kind[OF e] assms by simp
  have "json_text v = json_text w \<and> r = s" using number_prefix[OF e k[OF assms] k[OF w] c] .
  then show "v = w \<and> r = s" using assms w int_text_inj json_float_inj int_text_not_float int_text_not_float[symmetric]
    by (cases v; cases w) (auto split: if_splits)
qed

lemma json_text_determined: "determined json_text v"
proof (induction v rule: json_text.induct)
  case (6 vs)
  show ?case unfolding determined_def
  proof (intro allI impI)
    fix w r s assume e: "json_text (JList vs) @ r = json_text w @ s" and c: "closed r" "closed s"
    obtain ws where w: "w = JList ws" using json_text_kind[OF e] by (cases w) (auto split: if_splits)
    show "JList vs = w \<and> r = s"
      using list_determined[of vs json_text "CHR '']''" r ws s] 6 e json_text_head_neq w by auto
  qed
next
  case (7 kvs)
  let ?f = "\<lambda>kv. raw_string (fst kv) @ '':'' @ json_text (snd kv)"
  show ?case unfolding determined_def
  proof (intro allI impI)
    fix w r s assume e: "json_text (JObj kvs) @ r = json_text w @ s" and c: "closed r" "closed s"
    obtain ws where w: "w = JObj ws" using json_text_kind[OF e] by (cases w) (auto split: if_splits)
    show "JObj kvs = w \<and> r = s"
      using list_determined[of kvs ?f "CHR ''}''" r ws s] 7 e w field_determined
      by (auto simp: raw_string_def)
  qed
next
  case (5 a)
  show ?case unfolding determined_def
  proof (intro allI impI)
    fix w r s assume e: "json_text (JStr a) @ r = json_text w @ s" and c: "closed r" "closed s"
    obtain b where w: "w = JStr b" using json_text_kind[OF e] by (cases w) (auto split: if_splits)
    show "JStr a = w \<and> r = s" using raw_string_prefix[of a r b s] e w by simp
  qed
next
  case 1
  show ?case unfolding determined_def
  proof (intro allI impI)
    fix w r s assume e: "json_text JNull @ r = json_text w @ s"
    have "w = JNull" using json_text_kind[OF e] by (cases w) (auto split: if_splits)
    then show "JNull = w \<and> r = s" using e by simp
  qed
next
  case (2 b)
  show ?case unfolding determined_def
  proof (intro allI impI)
    fix w r s assume e: "json_text (JBool b) @ r = json_text w @ s"
    have "w = JBool b" using json_text_kind[OF e] by (cases w) (auto split: if_splits)
    then show "JBool b = w \<and> r = s" using e by (simp split: if_splits)
  qed
qed (simp_all add: number_determined)

lemma json_text_inj: "json_text v = json_text w \<Longrightarrow> v = w"
  using determinedD[OF json_text_determined, of v "[]" w "[]"] by (simp add: closed_def)

lemma sorted_fields: "sorted (map fst (map (\<lambda>kv. (fst kv, f (snd kv))) (sort_key fst kvs)))"
  by (simp add: comp_def)

lemma canonicalise_idem: "canonicalise_value (canonicalise_value v) = canonicalise_value v"
proof (induction v rule: canonicalise_value.induct)
  case (1 kvs)
  have "sort_key fst (map (\<lambda>kv. (fst kv, canonicalise_value (snd kv))) (sort_key fst kvs)) =
      map (\<lambda>kv. (fst kv, canonicalise_value (snd kv))) (sort_key fst kvs)"
    by (rule sort_key_id_if_sorted) (rule sorted_fields)
  then show ?case using 1 by (simp add: comp_def)
qed auto

lemma canonical_json_eq: "canonical_json v = json_text (canonicalise_value v)"
  by (simp add: canonical_json_def canonicalise_idem)

lemma sort_fields_perm:
  assumes "mset kvs = mset kvs'" "distinct (map fst kvs)"
  shows "sort_key fst kvs = sort_key fst kvs'"
proof (rule sort_key_inj_key_eq)
  show "inj_on fst (set kvs)" using assms(2) by (simp add: distinct_map)
qed (use assms(1) in simp_all)

section \<open>The same payload\<close>

text \<open>
  A payload is a dictionary, whose keys are distinct and in no significant order. \<open>same_value\<close> says what
  it means for two values to be the same: the same scalars, lists with the same elements in the same order,
  and objects whose fields pair up, whatever their order.
\<close>

fun distinct_keys :: "json \<Rightarrow> bool" where
  "distinct_keys (JObj kvs) \<longleftrightarrow> distinct (map fst kvs) \<and> list_all (\<lambda>kv. distinct_keys (snd kv)) kvs"
| "distinct_keys (JList vs) \<longleftrightarrow> list_all distinct_keys vs"
| "distinct_keys v \<longleftrightarrow> True"

inductive same_value :: "json \<Rightarrow> json \<Rightarrow> bool" where
  same_null: "same_value JNull JNull"
| same_bool: "same_value (JBool b) (JBool b)"
| same_int: "same_value (JInt i) (JInt i)"
| same_float: "same_value (JFloat x) (JFloat x)"
| same_str: "same_value (JStr s) (JStr s)"
| same_list: "list_all2 same_value vs ws \<Longrightarrow> same_value (JList vs) (JList ws)"
| same_obj: "mset kvs = mset kvs' \<Longrightarrow> list_all2 (\<lambda>a b. fst a = fst b \<and> same_value (snd a) (snd b)) kvs' ws' \<Longrightarrow>
    mset ws = mset ws' \<Longrightarrow> same_value (JObj kvs) (JObj ws)"
  monos list_all2_mono

inductive_cases same_value_cases: "same_value (JObj kvs) w" "same_value (JList vs) w" "same_value JNull w"

text \<open>The ordering of keys commutes with a change of the values.\<close>

lemma map_sort_fields:
  "map (\<lambda>kv. (fst kv, f (snd kv))) (sort_key fst kvs) = sort_key fst (map (\<lambda>kv. (fst kv, f (snd kv))) kvs)"
proof -
  have insort: "map (\<lambda>kv. (fst kv, f (snd kv))) (insort_key fst kv kvs) =
      insort_key fst (fst kv, f (snd kv)) (map (\<lambda>kv. (fst kv, f (snd kv))) kvs)" for kv kvs
    by (induction kvs) auto
  show ?thesis by (induction kvs) (simp_all add: insort)
qed

lemma canonicalise_same: "canonicalise_value v = canonicalise_value w \<Longrightarrow> same_value v w"
proof (induction v arbitrary: w rule: canonicalise_value.induct)
  case (1 kvs)
  let ?g = "\<lambda>kv. (fst kv, canonicalise_value (snd kv))"
  obtain ws where w: "w = JObj ws" using 1(2) by (cases w) auto
  then have m: "map ?g (sort_key fst kvs) = map ?g (sort_key fst ws)" using 1(2) by simp
  then have l: "length (sort_key fst kvs) = length (sort_key fst ws)" using map_eq_imp_length_eq by blast
  have "list_all2 (\<lambda>a b. fst a = fst b \<and> same_value (snd a) (snd b)) (sort_key fst kvs) (sort_key fst ws)"
  proof (rule list_all2_all_nthI[OF l])
    fix n assume n: "n < length (sort_key fst kvs)"
    have "map ?g (sort_key fst kvs) ! n = map ?g (sort_key fst ws) ! n" using m by (rule arg_cong)
    then have "?g (sort_key fst kvs ! n) = ?g (sort_key fst ws ! n)" using n l by (simp only: nth_map)
    moreover have "sort_key fst kvs ! n \<in> set (sort_key fst kvs)" using n nth_mem by blast
    ultimately show "fst (sort_key fst kvs ! n) = fst (sort_key fst ws ! n) \<and>
        same_value (snd (sort_key fst kvs ! n)) (snd (sort_key fst ws ! n))" using 1(1) by simp
  qed
  then show ?case unfolding w by (intro same_obj[where kvs' = "sort_key fst kvs" and ws' = "sort_key fst ws"]) simp_all
next
  case (2 vs)
  obtain ws where w: "w = JList ws" using 2(2) by (cases w) auto
  then have m: "map canonicalise_value vs = map canonicalise_value ws" using 2(2) by simp
  then have l: "length vs = length ws" using map_eq_imp_length_eq by blast
  have "list_all2 same_value vs ws"
    using 2(1) m l by (intro list_all2_all_nthI) (simp_all, metis nth_map nth_mem)
  then show ?case unfolding w by (rule same_list)
next
  case 3 then show ?case using same_null by (cases w) auto
next
  case (4 b) then show ?case using same_bool by (cases w) auto
next
  case (5 i) then show ?case using same_int by (cases w) auto
next
  case (6 x) then show ?case using same_float by (cases w) auto
next
  case (7 s) then show ?case using same_str by (cases w) auto
qed

lemma same_canonicalise:
  "same_value v w \<Longrightarrow> distinct_keys v \<Longrightarrow> distinct_keys w \<Longrightarrow> canonicalise_value v = canonicalise_value w"
proof (induction rule: same_value.induct)
  case (same_list vs ws)
  then show ?case by (auto simp: list_all_iff list_all2_conv_all_nth intro!: nth_equalityI)
next
  case (same_obj kvs kvs' ws' ws)
  let ?g = "\<lambda>kv. (fst kv, canonicalise_value (snd kv))"
  have s: "sort_key fst kvs = sort_key fst kvs'" "sort_key fst ws = sort_key fst ws'"
    using same_obj(1,2,4,5) by (auto intro!: sort_fields_perm)
  have d: "list_all (\<lambda>kv. distinct_keys (snd kv)) kvs'" "list_all (\<lambda>kv. distinct_keys (snd kv)) ws'"
    using same_obj(4,5) mset_eq_setD[OF same_obj(1)] mset_eq_setD[OF same_obj(2)] by (auto simp: list_all_iff)
  have "map ?g kvs' = map ?g ws'"
    using same_obj(3) d by (auto simp: list_all_length list_all2_conv_all_nth intro!: nth_equalityI)
  then show ?case by (simp add: s map_sort_fields)
qed auto

text \<open>
  C33. Canonical JSON forgets the order of keys and nothing else: two payloads, whose objects have
  distinct keys, have the same canonical text exactly when they are the same value. In particular no field
  may be dropped, no element of a list moved, and no number, text or null mistaken for another.
\<close>

theorem canonical_json_exact:
  assumes "distinct_keys v" "distinct_keys w"
  shows "canonical_json v = canonical_json w \<longleftrightarrow> same_value v w"
  using canonicalise_same[of v w] same_canonicalise[OF _ assms]
  by (auto simp: canonical_json_eq dest: json_text_inj)

definition demo_fields :: "(string \<times> json) list" where
  "demo_fields = [(''b'', JList [JInt (- 10), JNull, JFloat (Float False (Point 1 D5 []))]), (''a'', JStr [CHR 0x22])]"

theorem canonical_json_exact_witness:
  "same_value (JObj demo_fields) (JObj (rev demo_fields)) \<and>
   canonical_json (JObj demo_fields) = ''{'' @ raw_string ''a'' @ '':'' @ raw_string [CHR 0x22] @ '','' @
     raw_string ''b'' @ '':[-10,null,1.5]}'' \<and>
   \<not> same_value (JObj [(''a'', JNull)]) (JObj [])"
proof -
  have d: "distinct_keys (JObj demo_fields)" "distinct_keys (JObj (rev demo_fields))"
      "distinct_keys (JObj [(''a'', JNull)])" "distinct_keys (JObj [])" by code_simp+
  have e: "canonical_json (JObj demo_fields) = canonical_json (JObj (rev demo_fields))"
      "canonical_json (JObj [(''a'', JNull)]) \<noteq> canonical_json (JObj [])"
      "canonical_json (JObj demo_fields) = ''{'' @ raw_string ''a'' @ '':'' @ raw_string [CHR 0x22] @ '','' @
     raw_string ''b'' @ '':[-10,null,1.5]}''" by code_simp+
  show ?thesis using canonical_json_exact[OF d(1,2)] canonical_json_exact[OF d(3,4)] e by blast
qed

end
