(* ===== verification/Audit_Chain.thy ===== *)
theory Audit_Chain imports Canon_Json "HOL-Library.Product_Lexorder" begin

text \<open>
  The tamper-evident audit chain (\<^verbatim>\<open>shared/sdk/audit_integrity/\<close>): the two hashes of an audit row
  (\<^verbatim>\<open>hasher.py\<close>), the HMAC key ring and the signer (\<^verbatim>\<open>keyring.py\<close>, \<^verbatim>\<open>signer.py\<close>), the writer
  (\<^verbatim>\<open>store.py\<close>) and the verifier (\<^verbatim>\<open>verifier.py\<close>) over the tables \<^verbatim>\<open>audit_logs\<close> and
  \<^verbatim>\<open>audit_integrity_records\<close> of migration 012. The hash functions, \<^verbatim>\<open>json.loads\<close> and the \<^verbatim>\<open>str()\<close>
  of a JSON container are parameters (\<open>stdlib\<close>). A timestamp column is its UTC ISO text.
\<close>

record stdlib =
  sha256 :: "string \<Rightarrow> string"
  hmac_sha256 :: "string \<Rightarrow> string \<Rightarrow> string"
  json_loads :: "string \<Rightarrow> json option"
  py_repr :: "json \<Rightarrow> string"

section \<open>Rows and their hashes (canonical.py, hasher.py, models.py)\<close>

definition CHAIN_VERSION :: int where "CHAIN_VERSION = 1"
definition GENESIS_PREV_HASH :: string where "GENESIS_PREV_HASH = ''GENESIS''"

text \<open>What the column \<^verbatim>\<open>artifact_refs\<close> can hold: nothing, JSON text, a parsed object, or another value.\<close>

datatype refs = RefsNone | RefsText string | RefsObj "(string \<times> json) list" | RefsOther

record audit_log =
  al_id :: string
  al_task_id :: "string option"
  al_agent :: "string option"
  al_decision_type :: "string option"
  al_summary :: "string option"
  al_result :: "string option"
  al_artifact_refs :: refs
  al_created_at :: "string option"

fun refs_value :: "stdlib \<Rightarrow> refs \<Rightarrow> json" where
  "refs_value lib RefsNone = JObj []"
| "refs_value lib (RefsText s) =
     (if s = [] then JObj [] else case json_loads lib s of None \<Rightarrow> JObj [] | Some v \<Rightarrow> v)"
| "refs_value lib (RefsObj kvs) = JObj kvs"
| "refs_value lib RefsOther = JObj []"

definition build_canonical_payload :: "stdlib \<Rightarrow> audit_log \<Rightarrow> json" where
  "build_canonical_payload lib row =
    JObj [(''audit_log_id'', JStr (al_id row)),
          (''task_id'', JStr (or_empty (al_task_id row))),
          (''agent'', JStr (or_empty (al_agent row))),
          (''decision_type'', JStr (or_empty (al_decision_type row))),
          (''summary'', JStr (or_empty (al_summary row))),
          (''result'', JStr (or_empty (al_result row))),
          (''artifact_refs'', canonicalise_value (refs_value lib (al_artifact_refs row))),
          (''created_at'', JStr (or_empty (al_created_at row)))]"

definition compute_payload_hash :: "stdlib \<Rightarrow> json \<Rightarrow> string" where
  "compute_payload_hash lib payload = sha256 lib (canonical_json payload)"

definition row_envelope :: "int \<Rightarrow> int \<Rightarrow> string \<Rightarrow> string option \<Rightarrow> string \<Rightarrow> string" where
  "row_envelope chain_version sequence_number audit_log_id prev_hash payload_hash =
    join_with [CHR 0x0A]
      [''chain_version='' @ int_text chain_version,
       ''sequence_number='' @ int_text sequence_number,
       ''audit_log_id='' @ audit_log_id,
       ''prev_hash='' @ (if truthy prev_hash then or_empty prev_hash else GENESIS_PREV_HASH),
       ''canonical_payload_hash='' @ payload_hash]"

definition compute_row_hash :: "stdlib \<Rightarrow> int \<Rightarrow> int \<Rightarrow> string \<Rightarrow> string option \<Rightarrow> string \<Rightarrow> string" where
  "compute_row_hash lib chain_version sequence_number audit_log_id prev_hash payload_hash =
    sha256 lib (row_envelope chain_version sequence_number audit_log_id prev_hash payload_hash)"

section \<open>Key ring (keyring.py)\<close>

record key_entry =
  ke_bytes :: string
  ke_source :: string

record keyring =
  kr_keys :: "(string \<times> key_entry) list"
  kr_active_key_id :: "string option"
  kr_invalid_reason :: "string option"
  kr_source :: string
  kr_mode :: string

definition no_keyring :: keyring where
  "no_keyring = \<lparr>kr_keys = [], kr_active_key_id = None, kr_invalid_reason = None,
     kr_source = ''unknown'', kr_mode = ''none''\<rparr>"

definition invalid_keyring :: "string \<Rightarrow> keyring" where
  "invalid_keyring reason = \<lparr>kr_keys = [], kr_active_key_id = None, kr_invalid_reason = Some reason,
     kr_source = ''keyring_env'', kr_mode = ''invalid''\<rparr>"

definition quoted :: "string \<Rightarrow> string" where
  "quoted s = CHR 0x27 # s @ [CHR 0x27]"

fun load_keys :: "(string \<times> json) list \<Rightarrow> string + (string \<times> key_entry) list" where
  "load_keys [] = Inr []"
| "load_keys ((key_id, v) # rest) =
    (if py_strip key_id = [] then Inl ''AUDIT_HMAC_KEYRING_JSON contains an empty key_id''
     else case v of
       JStr s \<Rightarrow>
         if py_strip s = []
         then Inl (''AUDIT_HMAC_KEYRING_JSON key '' @ quoted key_id @ '' has empty or non-string value'')
         else (case load_keys rest of Inl e \<Rightarrow> Inl e
               | Inr loaded \<Rightarrow> Inr ((key_id, \<lparr>ke_bytes = s, ke_source = ''keyring_env''\<rparr>) # loaded))
     | _ \<Rightarrow> Inl (''AUDIT_HMAC_KEYRING_JSON key '' @ quoted key_id @ '' has empty or non-string value''))"

text \<open>\<^verbatim>\<open>str(x or "")\<close> of a JSON value.\<close>

fun str_or_empty :: "stdlib \<Rightarrow> json option \<Rightarrow> string" where
  "str_or_empty lib None = []"
| "str_or_empty lib (Some JNull) = []"
| "str_or_empty lib (Some (JBool b)) = (if b then ''True'' else [])"
| "str_or_empty lib (Some (JInt i)) = (if i = 0 then [] else int_text i)"
| "str_or_empty lib (Some (JFloat x)) = (if float_zero x then [] else float_repr x)"
| "str_or_empty lib (Some (JStr s)) = s"
| "str_or_empty lib (Some (JList vs)) = (if vs = [] then [] else py_repr lib (JList vs))"
| "str_or_empty lib (Some (JObj kvs)) = (if kvs = [] then [] else py_repr lib (JObj kvs))"

definition load_keyring_json :: "stdlib \<Rightarrow> string \<Rightarrow> string option \<Rightarrow> keyring" where
  "load_keyring_json lib raw override_active =
    (case json_loads lib raw of
       None \<Rightarrow> invalid_keyring ''AUDIT_HMAC_KEYRING_JSON is not valid JSON''
     | Some (JObj payload) \<Rightarrow>
        (case map_of payload ''keys'' of
           Some (JObj (k # ks)) \<Rightarrow>
            (case load_keys (k # ks) of
               Inl reason \<Rightarrow> invalid_keyring reason
             | Inr loaded \<Rightarrow>
                (let override = py_strip (or_empty override_active);
                     declared_active = (if override \<noteq> [] then override
                       else py_strip (str_or_empty lib (map_of payload ''active_key_id''))) in
                 if declared_active = []
                 then invalid_keyring (''AUDIT_HMAC_KEYRING_JSON.active_key_id or '' @
                        ''AUDIT_HMAC_ACTIVE_KEY_ID is required'')
                 else if map_of loaded declared_active = None
                 then invalid_keyring (''active_key_id '' @ quoted declared_active @
                        '' is not in AUDIT_HMAC_KEYRING_JSON.keys'')
                 else \<lparr>kr_keys = loaded, kr_active_key_id = Some declared_active,
                       kr_invalid_reason = None, kr_source = ''keyring_env'',
                       kr_mode = ''multi_keyring''\<rparr>))
         | _ \<Rightarrow> invalid_keyring ''AUDIT_HMAC_KEYRING_JSON.keys missing or empty'')
     | Some _ \<Rightarrow> invalid_keyring ''AUDIT_HMAC_KEYRING_JSON must be a JSON object'')"

definition load_legacy_single_key :: "string \<Rightarrow> string option \<Rightarrow> keyring" where
  "load_legacy_single_key raw_key key_id =
    (let stripped = py_strip (or_empty key_id);
         name = (if stripped \<noteq> [] then stripped else ''legacy-single-key'') in
     \<lparr>kr_keys = [(name, \<lparr>ke_bytes = raw_key, ke_source = ''legacy_env''\<rparr>)],
      kr_active_key_id = Some name, kr_invalid_reason = None, kr_source = ''legacy_env'',
      kr_mode = ''legacy_single_key''\<rparr>)"

definition keyring_of_env :: "stdlib \<Rightarrow> (string \<Rightarrow> string option) \<Rightarrow> keyring" where
  "keyring_of_env lib env =
    (let keyring_json = py_strip (or_empty (env ''AUDIT_HMAC_KEYRING_JSON''));
         legacy = py_strip (or_empty (env ''AUDIT_HMAC_KEY'')) in
     if keyring_json \<noteq> [] then load_keyring_json lib keyring_json (env ''AUDIT_HMAC_ACTIVE_KEY_ID'')
     else if legacy \<noteq> [] then load_legacy_single_key legacy (env ''AUDIT_HMAC_KEY_ID'')
     else no_keyring)"

definition configured :: "keyring \<Rightarrow> bool" where
  "configured kr \<longleftrightarrow> kr_mode kr \<in> {''legacy_single_key'', ''multi_keyring''} \<and> kr_active_key_id kr \<noteq> None"

definition active_key_bytes :: "keyring \<Rightarrow> (string \<times> string) option" where
  "active_key_bytes kr =
    (if \<not> configured kr then None
     else case kr_active_key_id kr of None \<Rightarrow> None
       | Some kid \<Rightarrow> map_option (\<lambda>e. (kid, ke_bytes e)) (map_of (kr_keys kr) kid))"

definition key_bytes_for :: "keyring \<Rightarrow> string \<Rightarrow> string option" where
  "key_bytes_for kr key_id = map_option ke_bytes (map_of (kr_keys kr) key_id)"

definition known_key_ids :: "keyring \<Rightarrow> string list" where
  "known_key_ids kr = sort (map fst (kr_keys kr))"

definition keyring_metadata_rows :: "keyring \<Rightarrow> (string \<times> string \<times> string) list" where
  "keyring_metadata_rows kr = map (\<lambda>kid.
     (kid, if Some kid = kr_active_key_id kr then ''active'' else ''inactive'', kr_source kr))
     (known_key_ids kr)"

section \<open>Signer (signer.py)\<close>

definition sign :: "stdlib \<Rightarrow> keyring \<Rightarrow> string \<Rightarrow> string option \<times> string \<times> string" where
  "sign lib kr row_hash =
    (case active_key_bytes kr of
       None \<Rightarrow> (None, ''signing_key_not_configured'', ''unsigned'')
     | Some (kid, key) \<Rightarrow>
         if row_hash = [] then (None, ''unsigned'', kid)
         else (Some (hmac_sha256 lib key row_hash), ''signed'', kid))"

definition is_ascii :: "string \<Rightarrow> bool" where
  "is_ascii s \<longleftrightarrow> list_all (\<lambda>c. (of_char c :: nat) < 128) s"

text \<open>\<^verbatim>\<open>hmac.compare_digest\<close> raises on text that is not ASCII.\<close>

definition compare_digest :: "string \<Rightarrow> string \<Rightarrow> bool outcome" where
  "compare_digest a b =
    (if is_ascii a \<and> is_ascii b then Inr (a = b)
     else Inl (TypeError ''comparing strings with non-ASCII characters is not supported''))"

definition verify_active :: "stdlib \<Rightarrow> keyring \<Rightarrow> string \<Rightarrow> string option \<Rightarrow> bool outcome" where
  "verify_active lib kr row_hash signature =
    (if \<not> truthy signature then Inr False
     else case active_key_bytes kr of
       None \<Rightarrow> Inr False
     | Some (_, key) \<Rightarrow> compare_digest (hmac_sha256 lib key row_hash) (or_empty signature))"

definition verify_with ::
    "stdlib \<Rightarrow> keyring \<Rightarrow> string \<Rightarrow> string option \<Rightarrow> string option \<Rightarrow> (bool \<times> string) outcome" where
  "verify_with lib kr row_hash signature signing_key_id =
    (if \<not> truthy signature then Inr (False, ''signature_failed'')
     else if kr_mode kr = ''none'' then Inr (False, ''no_keyring'')
     else if kr_mode kr = ''invalid'' then Inr (False, ''no_keyring'')
     else
      let target_id = (if truthy signing_key_id then or_empty signing_key_id
                       else or_empty (kr_active_key_id kr)) in
      case (if target_id = [] then None else key_bytes_for kr target_id) of
        None \<Rightarrow> Inr (False, ''key_missing'')
      | Some key \<Rightarrow> try_then (compare_digest (hmac_sha256 lib key row_hash) (or_empty signature)) (\<lambda>same.
          Inr (if same then (True, ''ok'') else (False, ''signature_failed''))))"

section \<open>Writer (store.py)\<close>

record integrity_record =
  ir_integrity_id :: string
  ir_audit_log_id :: string
  ir_chain_version :: int
  ir_sequence_number :: int
  ir_prev_hash :: "string option"
  ir_row_hash :: string
  ir_payload_hash :: string
  ir_signature :: "string option"
  ir_signing_key_id :: "string option"
  ir_signature_status :: string
  ir_integrity_status :: string

record audit_db =
  ad_logs :: "audit_log list"
  ad_records :: "integrity_record list"

definition integrity_checks :: "integrity_record \<Rightarrow> bool" where
  "integrity_checks r \<longleftrightarrow>
     ir_signature_status r \<in> {''unsigned'', ''signed'', ''signing_key_not_configured''} \<and>
     ir_integrity_status r \<in> {''active'', ''backfilled'', ''invalidated''}"

definition chain_records :: "int \<Rightarrow> audit_db \<Rightarrow> integrity_record list" where
  "chain_records v db = sort_key ir_sequence_number (filter (\<lambda>r. ir_chain_version r = v) (ad_records db))"

definition latest_record :: "int \<Rightarrow> audit_db \<Rightarrow> integrity_record option" where
  "latest_record v db = (if chain_records v db = [] then None else Some (last (chain_records v db)))"

definition insert_integrity :: "integrity_record \<Rightarrow> audit_db \<Rightarrow> audit_db outcome" where
  "insert_integrity r db =
    (if \<not> integrity_checks r then Inl (CheckViolation ''audit_integrity_records'')
     else if list_ex (\<lambda>x. ir_integrity_id x = ir_integrity_id r) (ad_records db)
       then Inl (UniqueViolation ''audit_integrity_records_pkey'')
     else if list_ex (\<lambda>x. ir_audit_log_id x = ir_audit_log_id r) (ad_records db)
       then Inl (UniqueViolation ''uq_audit_integrity_audit_log_id'')
     else if list_ex (\<lambda>x. ir_chain_version x = ir_chain_version r \<and>
                ir_sequence_number x = ir_sequence_number r) (ad_records db)
       then Inl (UniqueViolation ''uq_audit_integrity_sequence'')
     else Inr (db\<lparr>ad_records := ad_records db @ [r]\<rparr>))"

definition new_integrity ::
    "stdlib \<Rightarrow> keyring \<Rightarrow> string \<Rightarrow> string \<Rightarrow> audit_log \<Rightarrow> int \<Rightarrow> string option \<Rightarrow> integrity_record" where
  "new_integrity lib kr iid status row seq prev_hash =
    (let payload_hash = compute_payload_hash lib (build_canonical_payload lib row);
         row_hash = compute_row_hash lib CHAIN_VERSION seq (al_id row) prev_hash payload_hash;
         (signature, sig_status, key_id) = sign lib kr row_hash in
     \<lparr>ir_integrity_id = iid, ir_audit_log_id = al_id row, ir_chain_version = CHAIN_VERSION,
      ir_sequence_number = seq, ir_prev_hash = prev_hash, ir_row_hash = row_hash,
      ir_payload_hash = payload_hash, ir_signature = signature, ir_signing_key_id = Some key_id,
      ir_signature_status = sig_status, ir_integrity_status = status\<rparr>)"

text \<open>The advisory lock serialises the writers; one call runs alone. \<open>iid\<close> is the generated id.\<close>

definition create_integrity_record_in_txn ::
    "stdlib \<Rightarrow> keyring \<Rightarrow> string \<Rightarrow> string \<Rightarrow> audit_log \<Rightarrow> audit_db
     \<Rightarrow> (integrity_record option \<times> audit_db) outcome" where
  "create_integrity_record_in_txn lib kr iid status row db =
    (if al_id row = [] then Inl (ValueError ''audit_log_row missing audit_log_id / audit_id / id'')
     else if list_ex (\<lambda>x. ir_audit_log_id x = al_id row) (ad_records db) then Inr (None, db)
     else
      let (seq, prev_hash) = (case latest_record CHAIN_VERSION db of
             None \<Rightarrow> (1, None)
           | Some prev \<Rightarrow> (ir_sequence_number prev + 1, Some (ir_row_hash prev)));
          r = new_integrity lib kr iid status row seq prev_hash in
      try_then (insert_integrity r db) (\<lambda>db'. Inr (Some r, db')))"

text \<open>At most five attempts; \<open>iids\<close> are the ids generated by the attempts.\<close>

definition MAX_SEQUENCE_RETRIES :: nat where "MAX_SEQUENCE_RETRIES = 5"

fun create_attempts ::
    "nat \<Rightarrow> stdlib \<Rightarrow> keyring \<Rightarrow> (nat \<Rightarrow> string) \<Rightarrow> string \<Rightarrow> audit_log \<Rightarrow> audit_db \<Rightarrow> py_exn option
     \<Rightarrow> (integrity_record option \<times> audit_db) outcome" where
  "create_attempts 0 lib kr iids status row db last_exc =
     (case last_exc of Some e \<Rightarrow> Inl e | None \<Rightarrow> Inr (None, db))"
| "create_attempts (Suc n) lib kr iids status row db last_exc =
     (case create_integrity_record_in_txn lib kr (iids n) status row db of
        Inl (UniqueViolation c) \<Rightarrow> create_attempts n lib kr iids status row db (Some (UniqueViolation c))
      | Inl e \<Rightarrow> Inl e
      | Inr x \<Rightarrow> Inr x)"

definition create_integrity_record_for_audit_log ::
    "stdlib \<Rightarrow> keyring \<Rightarrow> (nat \<Rightarrow> string) \<Rightarrow> string \<Rightarrow> audit_log \<Rightarrow> audit_db
     \<Rightarrow> (integrity_record option \<times> audit_db) outcome" where
  "create_integrity_record_for_audit_log lib kr iids status row db =
     create_attempts MAX_SEQUENCE_RETRIES lib kr iids status row db None"

end
