(* ===== verification/Audit_Verify.thy ===== *)
theory Audit_Verify imports Audit_Chain begin

text \<open>
  The verifier of the audit chain (\<^verbatim>\<open>shared/sdk/audit_integrity/verifier.py\<close>) and the backfill of
  missing records (\<^verbatim>\<open>store.py\<close>). The verifier walks the joined rows in order and stops at the first
  failure; per-row signatures are checked with the key the row names.
\<close>

section \<open>Backfill (store.py)\<close>

record backfill_report =
  bf_audit_logs :: nat
  bf_before :: nat
  bf_created :: nat
  bf_after :: nat
  bf_missing_before :: nat
  bf_missing_after :: nat
  bf_signed :: nat
  bf_unsigned :: nat
  bf_not_configured :: nat

definition count_records :: "int \<Rightarrow> audit_db \<Rightarrow> nat" where
  "count_records v db = length (filter (\<lambda>r. ir_chain_version r = v) (ad_records db))"

definition missing_logs :: "audit_db \<Rightarrow> audit_log list" where
  "missing_logs db = sort_key (\<lambda>l. (or_empty (al_created_at l), al_id l))
     (filter (\<lambda>l. \<not> list_ex (\<lambda>r. ir_audit_log_id r = al_id l \<and> ir_chain_version r = CHAIN_VERSION)
        (ad_records db)) (ad_logs db))"

definition count_created :: "integrity_record \<Rightarrow> backfill_report \<Rightarrow> backfill_report" where
  "count_created r c =
    (let c = c\<lparr>bf_created := bf_created c + 1\<rparr> in
     if ir_signature_status r = ''signing_key_not_configured''
     then c\<lparr>bf_not_configured := bf_not_configured c + 1\<rparr>
     else if ir_signature_status r = ''unsigned'' then c\<lparr>bf_unsigned := bf_unsigned c + 1\<rparr>
     else c\<lparr>bf_signed := bf_signed c + 1\<rparr>)"

text \<open>\<open>iids\<close> gives the generated ids of each row's attempts.\<close>

fun backfill_rows ::
    "stdlib \<Rightarrow> keyring \<Rightarrow> (string \<Rightarrow> nat \<Rightarrow> string) \<Rightarrow> audit_log list \<Rightarrow> backfill_report \<Rightarrow> audit_db
     \<Rightarrow> (backfill_report \<times> audit_db) outcome" where
  "backfill_rows lib kr iids [] c db = Inr (c, db)"
| "backfill_rows lib kr iids (l # ls) c db =
     try_then (create_integrity_record_for_audit_log lib kr (iids (al_id l)) ''backfilled'' l db)
       (\<lambda>(result, db'). case result of
            None \<Rightarrow> backfill_rows lib kr iids ls c db'
          | Some r \<Rightarrow> backfill_rows lib kr iids ls (count_created r c) db')"

definition backfill_missing_integrity_records ::
    "stdlib \<Rightarrow> keyring \<Rightarrow> (string \<Rightarrow> nat \<Rightarrow> string) \<Rightarrow> audit_db \<Rightarrow> (backfill_report \<times> audit_db) outcome" where
  "backfill_missing_integrity_records lib kr iids db =
    (let audit_count = length (ad_logs db); before = count_records CHAIN_VERSION db in
     try_then (backfill_rows lib kr iids (missing_logs db)
         \<lparr>bf_audit_logs = audit_count, bf_before = before, bf_created = 0, bf_after = 0,
          bf_missing_before = audit_count - before, bf_missing_after = 0, bf_signed = 0,
          bf_unsigned = 0, bf_not_configured = 0\<rparr> db)
       (\<lambda>(c, db'). let after = before + bf_created c in
          Inr (c\<lparr>bf_after := after, bf_missing_after := audit_count - after\<rparr>, db')))"

section \<open>Modes and results (verifier.py)\<close>

definition VALID_VERIFY_MODES :: "string list" where
  "VALID_VERIFY_MODES = [''permissive'', ''strict'', ''chain_only'']"

definition resolve_verify_mode :: "(string \<Rightarrow> string option) \<Rightarrow> string option \<Rightarrow> string" where
  "resolve_verify_mode env requested =
    (let candidate = py_lower (py_strip (or_empty requested));
         env_default = py_lower (py_strip (or_empty (env ''AUDIT_VERIFY_SIGNATURE_MODE''))) in
     if candidate \<in> set VALID_VERIFY_MODES then candidate
     else if env_default \<in> set VALID_VERIFY_MODES then env_default
     else ''permissive'')"

definition allow_unsigned_legacy :: "(string \<Rightarrow> string option) \<Rightarrow> bool" where
  "allow_unsigned_legacy env =
     (py_lower (py_strip (or_empty (env ''AUDIT_VERIFY_ALLOW_UNSIGNED_LEGACY'')))
        \<in> {''1'', ''true'', ''yes''})"

text \<open>The three warnings the walk can add, with the values their text shows.\<close>

datatype verify_warning =
    KeyMissingWarning int "string option"
  | NoKeyringWarning int
  | UnknownStatusWarning int string

record verification_result =
  vr_status :: string
  vr_chain_version :: int
  vr_total_records :: nat
  vr_verified_records :: nat
  vr_failed_records :: nat
  vr_first_failure_sequence :: "int option"
  vr_first_failure_audit_log_id :: "string option"
  vr_failure_reason :: "string option"
  vr_missing_integrity_records :: nat
  vr_extra_integrity_records :: nat
  vr_audit_logs_count :: nat
  vr_integrity_records_count :: nat
  vr_hmac_enabled :: bool
  vr_signing_key_id :: string
  vr_expected_hash :: "string option"
  vr_actual_hash :: "string option"
  vr_mode :: string
  vr_keyring_mode :: string
  vr_active_signing_key_id :: "string option"
  vr_known_key_ids :: "string list"
  vr_signed_records :: nat
  vr_unsigned_records :: nat
  vr_key_missing_records :: nat
  vr_signature_failed_records :: nat
  vr_warnings :: "verify_warning list"

definition fail_at ::
    "int \<Rightarrow> string \<Rightarrow> string \<Rightarrow> string option \<Rightarrow> string option \<Rightarrow> verification_result \<Rightarrow> verification_result" where
  "fail_at seq aid reason expected actual res =
    res\<lparr>vr_status := ''failed'', vr_failed_records := vr_failed_records res + 1,
        vr_first_failure_sequence := Some seq, vr_first_failure_audit_log_id := Some aid,
        vr_failure_reason := Some reason, vr_expected_hash := expected, vr_actual_hash := actual\<rparr>"

definition warn :: "verify_warning \<Rightarrow> verification_result \<Rightarrow> verification_result" where
  "warn w res = res\<lparr>vr_warnings := vr_warnings res @ [w]\<rparr>"

section \<open>One row\<close>

text \<open>The hash checks of a row, in the order of the code: the first failure, if any.\<close>

definition check_hashes ::
    "stdlib \<Rightarrow> int \<Rightarrow> int \<Rightarrow> string option \<Rightarrow> integrity_record \<Rightarrow> audit_log
     \<Rightarrow> (string \<times> string option \<times> string option) option" where
  "check_hashes lib version prev_seq prev_row_hash r l =
    (let seq = ir_sequence_number r;
         payload_hash = compute_payload_hash lib (build_canonical_payload lib (l\<lparr>al_id := ir_audit_log_id r\<rparr>));
         row_hash = compute_row_hash lib version seq (ir_audit_log_id r) (ir_prev_hash r) payload_hash in
     if seq \<noteq> prev_seq + 1
     then Some (''sequence_gap: expected '' @ int_text (prev_seq + 1) @ '', got '' @ int_text seq,
                Some (int_text (prev_seq + 1)), Some (int_text seq))
     else if payload_hash \<noteq> ir_payload_hash r
     then Some (''canonical_payload_hash_mismatch'', Some (ir_payload_hash r), Some payload_hash)
     else if row_hash \<noteq> ir_row_hash r
     then Some (''row_hash_mismatch'', Some (ir_row_hash r), Some row_hash)
     else if 1 < seq \<and> ir_prev_hash r \<noteq> prev_row_hash
     then Some (''prev_hash_mismatch'', Some (or_empty prev_row_hash), Some (or_empty (ir_prev_hash r)))
     else None)"

text \<open>The signature of a row: the updated result, and whether the row failed.\<close>

definition check_signature ::
    "stdlib \<Rightarrow> keyring \<Rightarrow> string \<Rightarrow> bool \<Rightarrow> integrity_record \<Rightarrow> verification_result
     \<Rightarrow> (verification_result \<times> bool) outcome" where
  "check_signature lib kr mode legacy r res =
    (let seq = ir_sequence_number r; aid = ir_audit_log_id r; status = ir_signature_status r in
     if mode = ''chain_only'' then Inr (res, False)
     else if status = ''signed'' then
       try_then (verify_with lib kr (ir_row_hash r) (ir_signature r) (ir_signing_key_id r)) (\<lambda>(ok, what).
         if ok then Inr (res\<lparr>vr_signed_records := vr_signed_records res + 1\<rparr>, False)
         else if what = ''key_missing'' then
           (let res = res\<lparr>vr_key_missing_records := vr_key_missing_records res + 1\<rparr> in
            if mode = ''strict'' then Inr (fail_at seq aid ''hmac_signing_key_missing'' None None res, True)
            else Inr (warn (KeyMissingWarning seq (ir_signing_key_id r)) res, False))
         else if what = ''no_keyring'' then
           (let res = res\<lparr>vr_key_missing_records := vr_key_missing_records res + 1\<rparr> in
            if mode = ''strict''
            then Inr (fail_at seq aid ''hmac_keyring_not_configured'' (vr_expected_hash res) (vr_actual_hash res) res, True)
            else Inr (warn (NoKeyringWarning seq) res, False))
         else if what = ''signature_failed'' then
           Inr (fail_at seq aid ''hmac_signature_invalid'' None None
                  (res\<lparr>vr_signature_failed_records := vr_signature_failed_records res + 1\<rparr>), True)
         else Inr (res, False))
     else if status = ''signing_key_not_configured'' then
       (let res = res\<lparr>vr_unsigned_records := vr_unsigned_records res + 1\<rparr> in
        if mode = ''strict'' \<and> \<not> legacy
        then Inr (fail_at seq aid ''unsigned_row_under_strict_mode'' (vr_expected_hash res) (vr_actual_hash res) res, True)
        else Inr (res, False))
     else if status = ''unsigned'' then Inr (res\<lparr>vr_unsigned_records := vr_unsigned_records res + 1\<rparr>, False)
     else Inr (warn (UnknownStatusWarning seq status) res, False))"

section \<open>The walk\<close>

fun verify_rows ::
    "stdlib \<Rightarrow> keyring \<Rightarrow> string \<Rightarrow> bool \<Rightarrow> int \<Rightarrow> (integrity_record \<times> audit_log) list \<Rightarrow> int \<Rightarrow> string option
     \<Rightarrow> verification_result \<Rightarrow> verification_result outcome" where
  "verify_rows lib kr mode legacy version [] prev_seq prev_row_hash res = Inr res"
| "verify_rows lib kr mode legacy version ((r, l) # rows) prev_seq prev_row_hash res =
    (case check_hashes lib version prev_seq prev_row_hash r l of
       Some (reason, expected, actual) \<Rightarrow>
         Inr (fail_at (ir_sequence_number r) (ir_audit_log_id r) reason expected actual res)
     | None \<Rightarrow>
         try_then (check_signature lib kr mode legacy r res) (\<lambda>(res, failed).
           if failed then Inr res
           else verify_rows lib kr mode legacy version rows (ir_sequence_number r) (Some (ir_row_hash r))
                  (res\<lparr>vr_verified_records := vr_verified_records res + 1\<rparr>)))"

text \<open>\<^verbatim>\<open>JOIN audit_logs al ON al.id = r.audit_log_id\<close>, ordered by sequence number.\<close>

definition joined_rows :: "int \<Rightarrow> audit_db \<Rightarrow> (integrity_record \<times> audit_log) list" where
  "joined_rows v db = List.map_filter (\<lambda>r. map_option (Pair r)
     (find (\<lambda>l. al_id l = ir_audit_log_id r) (ad_logs db))) (chain_records v db)"

definition start_result :: "keyring \<Rightarrow> string \<Rightarrow> int \<Rightarrow> audit_db \<Rightarrow> verification_result" where
  "start_result kr mode version db =
    (let audit_count = length (ad_logs db); integrity_count = count_records version db in
     \<lparr>vr_status = ''passed'', vr_chain_version = version,
      vr_total_records = length (joined_rows version db), vr_verified_records = 0,
      vr_failed_records = 0, vr_first_failure_sequence = None, vr_first_failure_audit_log_id = None,
      vr_failure_reason = None, vr_missing_integrity_records = audit_count - integrity_count,
      vr_extra_integrity_records = integrity_count - audit_count, vr_audit_logs_count = audit_count,
      vr_integrity_records_count = integrity_count, vr_hmac_enabled = configured kr,
      vr_signing_key_id = (if truthy (kr_active_key_id kr) then or_empty (kr_active_key_id kr) else ''unsigned''),
      vr_expected_hash = None, vr_actual_hash = None, vr_mode = mode, vr_keyring_mode = kr_mode kr,
      vr_active_signing_key_id = kr_active_key_id kr, vr_known_key_ids = known_key_ids kr,
      vr_signed_records = 0, vr_unsigned_records = 0, vr_key_missing_records = 0,
      vr_signature_failed_records = 0, vr_warnings = []\<rparr>)"

definition finish_result :: "string \<Rightarrow> verification_result \<Rightarrow> verification_result" where
  "finish_result mode res =
    (let res = (if vr_status res = ''passed'' \<and> 0 < vr_missing_integrity_records res
        then res\<lparr>vr_status := ''partial'', vr_failure_reason := Some
               (int_text (int (vr_missing_integrity_records res)) @ '' audit_logs row(s) lack an integrity record'')\<rparr>
        else res) in
     if vr_status res = ''passed'' \<and> 0 < vr_key_missing_records res \<and> mode = ''permissive''
     then res\<lparr>vr_status := ''partial'', vr_failure_reason := Some
            (int_text (int (vr_key_missing_records res)) @ '' signed row(s) lack a known signing key'')\<rparr>
     else res)"

definition verify_chain ::
    "stdlib \<Rightarrow> keyring \<Rightarrow> string \<Rightarrow> bool \<Rightarrow> int \<Rightarrow> audit_db \<Rightarrow> verification_result outcome" where
  "verify_chain lib kr mode legacy version db =
     try_then (verify_rows lib kr mode legacy version (joined_rows version db) 0 None
         (start_result kr mode version db))
       (\<lambda>res. Inr (finish_result mode res))"

end
