(* ===== verification/Audit_Forensics.thy ===== *)
theory Audit_Forensics imports Audit_Verify "HOL-Library.Sublist" begin

text \<open>
  Forensic analysis of a broken chain (\<^verbatim>\<open>shared/sdk/audit_integrity/forensics.py\<close>): the redaction of
  summaries, the analysis of one record, the scan that collects every failing record, and the
  classification that decides whether a repair may be offered.
\<close>

section \<open>Vocabulary\<close>

definition FAILURE_CANONICAL_PAYLOAD_HASH :: string where
  "FAILURE_CANONICAL_PAYLOAD_HASH = ''canonical_payload_hash_mismatch''"
definition FAILURE_ROW_HASH :: string where "FAILURE_ROW_HASH = ''row_hash_mismatch''"
definition FAILURE_PREV_HASH :: string where "FAILURE_PREV_HASH = ''prev_hash_mismatch''"
definition FAILURE_SEQUENCE_GAP :: string where "FAILURE_SEQUENCE_GAP = ''sequence_gap''"
definition FAILURE_SIGNATURE_INVALID :: string where
  "FAILURE_SIGNATURE_INVALID = ''hmac_signature_invalid''"
definition FAILURE_SIGNING_KEY_MISSING :: string where
  "FAILURE_SIGNING_KEY_MISSING = ''hmac_signing_key_missing''"

definition ROOT_CAUSE_TEST_TAMPER_NOT_RESTORED :: string where
  "ROOT_CAUSE_TEST_TAMPER_NOT_RESTORED = ''test_tamper_not_restored''"
definition ROOT_CAUSE_CANONICALIZATION_VERSION_DRIFT :: string where
  "ROOT_CAUSE_CANONICALIZATION_VERSION_DRIFT = ''canonicalization_version_drift''"
definition ROOT_CAUSE_DIRECT_POST_LEGACY_GAP :: string where
  "ROOT_CAUSE_DIRECT_POST_LEGACY_GAP = ''direct_post_legacy_gap''"
definition ROOT_CAUSE_AUDIT_LOG_MUTATED :: string where
  "ROOT_CAUSE_AUDIT_LOG_MUTATED = ''audit_log_mutated_after_integrity''"
definition ROOT_CAUSE_MANUAL_DATABASE_CHANGE :: string where
  "ROOT_CAUSE_MANUAL_DATABASE_CHANGE = ''manual_database_change''"
definition ROOT_CAUSE_HMAC_KEY_MISSING_ONLY :: string where
  "ROOT_CAUSE_HMAC_KEY_MISSING_ONLY = ''hmac_key_missing_only''"
definition ROOT_CAUSE_UNKNOWN :: string where "ROOT_CAUSE_UNKNOWN = ''unknown''"

definition REPAIRABLE_ROOT_CAUSES :: "string list" where
  "REPAIRABLE_ROOT_CAUSES = [ROOT_CAUSE_TEST_TAMPER_NOT_RESTORED,
     ROOT_CAUSE_CANONICALIZATION_VERSION_DRIFT, ROOT_CAUSE_DIRECT_POST_LEGACY_GAP]"

definition REPAIR_RISK_LOW :: string where "REPAIR_RISK_LOW = ''low''"
definition REPAIR_RISK_MEDIUM :: string where "REPAIR_RISK_MEDIUM = ''medium''"
definition REPAIR_RISK_HIGH :: string where "REPAIR_RISK_HIGH = ''high''"

definition KNOWN_TAMPER_MARKERS :: "string list" where
  "KNOWN_TAMPER_MARKERS = ['' [TAMPER-SIMULATION]'']"

lemmas vocabulary_defs = FAILURE_CANONICAL_PAYLOAD_HASH_def FAILURE_ROW_HASH_def FAILURE_PREV_HASH_def
  FAILURE_SEQUENCE_GAP_def FAILURE_SIGNATURE_INVALID_def FAILURE_SIGNING_KEY_MISSING_def
  ROOT_CAUSE_TEST_TAMPER_NOT_RESTORED_def ROOT_CAUSE_CANONICALIZATION_VERSION_DRIFT_def
  ROOT_CAUSE_DIRECT_POST_LEGACY_GAP_def ROOT_CAUSE_AUDIT_LOG_MUTATED_def
  ROOT_CAUSE_MANUAL_DATABASE_CHANGE_def ROOT_CAUSE_HMAC_KEY_MISSING_ONLY_def ROOT_CAUSE_UNKNOWN_def
  REPAIR_RISK_LOW_def REPAIR_RISK_MEDIUM_def REPAIR_RISK_HIGH_def

section \<open>Redaction\<close>

definition is_alnum :: "char \<Rightarrow> bool" where
  "is_alnum c = (let n = (of_char c :: nat) in
     (48 \<le> n \<and> n \<le> 57) \<or> (65 \<le> n \<and> n \<le> 90) \<or> (97 \<le> n \<and> n \<le> 122))"

text \<open>The alternatives of \<^verbatim>\<open>_SECRET_SCRUB\<close>: a prefix, and the class of the eight or more characters after it.\<close>

definition SECRET_SCRUB :: "(string \<times> (char \<Rightarrow> bool)) list" where
  "SECRET_SCRUB = (''ghp_'', is_alnum) # (''sk-'', is_alnum) #
     map (\<lambda>c. (''xox'' @ [c, CHR ''-''], \<lambda>d. is_alnum d \<or> d = CHR ''-'')) ''baprs''"

text \<open>The rest of the text after a match at its start; matches are greedy.\<close>

definition token_rest :: "string \<times> (char \<Rightarrow> bool) \<Rightarrow> string \<Rightarrow> string option" where
  "token_rest pk s =
    (let t = drop (length (fst pk)) s in
     if starts_with (fst pk) s \<and> 8 \<le> length (takeWhile (snd pk) t) then Some (dropWhile (snd pk) t) else None)"

fun first_rest :: "(string \<times> (char \<Rightarrow> bool)) list \<Rightarrow> string \<Rightarrow> string option" where
  "first_rest [] s = None"
| "first_rest (pk # pks) s = (case token_rest pk s of Some t \<Rightarrow> Some t | None \<Rightarrow> first_rest pks s)"

lemma token_rest_shorter:
  assumes "token_rest pk s = Some t" shows "length t < length s"
proof -
  let ?d = "drop (length (fst pk)) s"
  have "8 \<le> length (takeWhile (snd pk) ?d)" "t = dropWhile (snd pk) ?d"
    using assms by (auto simp: token_rest_def Let_def split: if_split_asm)
  moreover have "length (takeWhile (snd pk) ?d) + length (dropWhile (snd pk) ?d) = length ?d"
    by (metis length_append takeWhile_dropWhile_id)
  ultimately show ?thesis by simp
qed

lemma first_rest_shorter: "first_rest pks s = Some t \<Longrightarrow> length t < length s"
  by (induction pks) (auto split: option.splits dest: token_rest_shorter)

function scrub :: "string \<Rightarrow> string" where
  "scrub [] = []"
| "scrub (c # s) = (case first_rest SECRET_SCRUB (c # s) of
      Some t \<Rightarrow> ''[REDACTED]'' @ scrub t
    | None \<Rightarrow> c # scrub s)"
  by pat_completeness auto
termination
  by (relation "measure length") (auto dest: first_rest_shorter)

definition SUMMARY_MAX :: nat where "SUMMARY_MAX = 160"

definition redact_summary :: "string option \<Rightarrow> string" where
  "redact_summary summary =
    (if \<not> truthy summary then []
     else let scrubbed = scrub (or_empty summary) in
       if SUMMARY_MAX < length scrubbed then take SUMMARY_MAX scrubbed @ ''...[truncated]'' else scrubbed)"

section \<open>One record\<close>

record failed_record =
  fa_sequence :: int
  fa_audit_log_id :: string
  fa_decision_type :: string
  fa_task_id :: "string option"
  fa_created_at :: string
  fa_stored_canonical :: string
  fa_recomputed_canonical :: string
  fa_stored_row :: string
  fa_recomputed_row :: string
  fa_stored_prev :: "string option"
  fa_expected_prev :: "string option"
  fa_signature_status :: string
  fa_signature_verification :: string
  fa_failure_types :: "string list"
  fa_summary_redacted :: string
  fa_tamper_marker :: bool
  fa_recovered_matches :: bool
  fa_production_executed :: "bool option"
  fa_root_cause :: string
  fa_repairable :: bool
  fa_repair_risk :: string

fun json_truthy :: "json \<Rightarrow> bool" where
  "json_truthy JNull = False"
| "json_truthy (JBool b) = b"
| "json_truthy (JInt i) = (i \<noteq> 0)"
| "json_truthy (JFloat x) = (\<not> float_zero x)"
| "json_truthy (JStr s) = (s \<noteq> [])"
| "json_truthy (JList vs) = (vs \<noteq> [])"
| "json_truthy (JObj kvs) = (kvs \<noteq> [])"

definition production_flag :: "(string \<times> json) list \<Rightarrow> bool option" where
  "production_flag refs =
    (case map_of refs ''production_executed'' of
       Some v \<Rightarrow> Some (json_truthy v)
     | None \<Rightarrow> (case map_of refs ''original_event'' of
         Some (JObj nested) \<Rightarrow> map_option json_truthy (map_of nested ''production_executed'')
       | _ \<Rightarrow> None))"

fun extract_production_executed :: "stdlib \<Rightarrow> refs \<Rightarrow> bool option" where
  "extract_production_executed lib (RefsText s) =
     (case json_loads lib s of Some (JObj kvs) \<Rightarrow> production_flag kvs | _ \<Rightarrow> None)"
| "extract_production_executed lib (RefsObj kvs) = production_flag kvs"
| "extract_production_executed lib RefsNone = None"
| "extract_production_executed lib RefsOther = None"

fun strip_marker :: "string list \<Rightarrow> string \<Rightarrow> (string \<times> string) option" where
  "strip_marker [] summary = None"
| "strip_marker (m # ms) summary =
    (if suffix m summary then Some (take (length summary - length m) summary, m) else strip_marker ms summary)"

definition strip_known_marker :: "string option \<Rightarrow> (string \<times> string) option" where
  "strip_known_marker summary =
    (if \<not> truthy summary then None else strip_marker KNOWN_TAMPER_MARKERS (or_empty summary))"

definition classify_record :: "failed_record \<Rightarrow> failed_record" where
  "classify_record a =
    (let canonical_ok = FAILURE_CANONICAL_PAYLOAD_HASH \<notin> set (fa_failure_types a);
         row_ok = FAILURE_ROW_HASH \<notin> set (fa_failure_types a);
         prev_ok = FAILURE_PREV_HASH \<notin> set (fa_failure_types a);
         signature_failed = (FAILURE_SIGNATURE_INVALID \<in> set (fa_failure_types a) \<or>
            FAILURE_SIGNING_KEY_MISSING \<in> set (fa_failure_types a)) in
     if canonical_ok \<and> row_ok \<and> prev_ok \<and> signature_failed
     then a\<lparr>fa_root_cause := ROOT_CAUSE_HMAC_KEY_MISSING_ONLY, fa_repairable := False,
            fa_repair_risk := REPAIR_RISK_LOW\<rparr>
     else if \<not> canonical_ok \<and> fa_tamper_marker a \<and> fa_recovered_matches a \<and>
        fa_production_executed a = Some False
     then a\<lparr>fa_root_cause := ROOT_CAUSE_TEST_TAMPER_NOT_RESTORED, fa_repairable := True,
            fa_repair_risk := REPAIR_RISK_LOW\<rparr>
     else if \<not> canonical_ok
     then a\<lparr>fa_root_cause := ROOT_CAUSE_AUDIT_LOG_MUTATED, fa_repairable := False,
            fa_repair_risk := REPAIR_RISK_HIGH\<rparr>
     else if \<not> prev_ok
     then a\<lparr>fa_root_cause := ROOT_CAUSE_MANUAL_DATABASE_CHANGE, fa_repairable := False,
            fa_repair_risk := REPAIR_RISK_HIGH\<rparr>
     else a\<lparr>fa_root_cause := ROOT_CAUSE_UNKNOWN, fa_repairable := False, fa_repair_risk := REPAIR_RISK_HIGH\<rparr>)"

definition failure_types ::
    "string \<Rightarrow> string \<Rightarrow> string \<Rightarrow> string \<Rightarrow> string option \<Rightarrow> string option \<Rightarrow> string \<Rightarrow> string list" where
  "failure_types recomputed_canonical stored_canonical recomputed_row stored_row stored_prev expected_prev sigv =
    (if recomputed_canonical \<noteq> stored_canonical then [FAILURE_CANONICAL_PAYLOAD_HASH] else []) @
    (if recomputed_row \<noteq> stored_row then [FAILURE_ROW_HASH] else []) @
    (if expected_prev \<noteq> None \<and> stored_prev \<noteq> None \<and> stored_prev \<noteq> expected_prev
     then [FAILURE_PREV_HASH] else []) @
    (if sigv \<in> {FAILURE_SIGNATURE_INVALID, ''signature_failed''} then [FAILURE_SIGNATURE_INVALID] else []) @
    (if sigv \<in> {FAILURE_SIGNING_KEY_MISSING, ''key_missing''} then [FAILURE_SIGNING_KEY_MISSING] else [])"

definition analyse_record ::
    "stdlib \<Rightarrow> int \<Rightarrow> int \<Rightarrow> string \<Rightarrow> audit_log \<Rightarrow> string \<Rightarrow> string \<Rightarrow> string option \<Rightarrow> string
     \<Rightarrow> string option \<Rightarrow> string \<Rightarrow> failed_record" where
  "analyse_record lib version seq aid row stored_canonical stored_row stored_prev sig_status expected_prev sigv =
    (let recomputed_canonical = compute_payload_hash lib (build_canonical_payload lib (row\<lparr>al_id := aid\<rparr>));
         recomputed_row = compute_row_hash lib version seq aid stored_prev recomputed_canonical;
         stripped = strip_known_marker (al_summary row);
         recovered = (case stripped of None \<Rightarrow> False
           | Some (original, _) \<Rightarrow> compute_payload_hash lib
               (build_canonical_payload lib (row\<lparr>al_id := aid, al_summary := Some original\<rparr>)) = stored_canonical) in
     classify_record
      \<lparr>fa_sequence = seq, fa_audit_log_id = aid, fa_decision_type = or_empty (al_decision_type row),
       fa_task_id = al_task_id row, fa_created_at = or_empty (al_created_at row),
       fa_stored_canonical = stored_canonical, fa_recomputed_canonical = recomputed_canonical,
       fa_stored_row = stored_row, fa_recomputed_row = recomputed_row, fa_stored_prev = stored_prev,
       fa_expected_prev = expected_prev, fa_signature_status = sig_status,
       fa_signature_verification = sigv,
       fa_failure_types = failure_types recomputed_canonical stored_canonical recomputed_row stored_row
          stored_prev expected_prev sigv,
       fa_summary_redacted = redact_summary (al_summary row), fa_tamper_marker = stripped \<noteq> None,
       fa_recovered_matches = recovered,
       fa_production_executed = extract_production_executed lib (al_artifact_refs row),
       fa_root_cause = ROOT_CAUSE_UNKNOWN, fa_repairable = False, fa_repair_risk = REPAIR_RISK_HIGH\<rparr>)"

section \<open>The scan\<close>

fun scan_rows ::
    "stdlib \<Rightarrow> int \<Rightarrow> (integrity_record \<times> audit_log) list \<Rightarrow> int \<Rightarrow> string option \<Rightarrow> failed_record list" where
  "scan_rows lib version [] prev_seq prev_row_hash = []"
| "scan_rows lib version ((r, l) # rows) prev_seq prev_row_hash =
    (let seq = ir_sequence_number r;
         a = analyse_record lib version seq (ir_audit_log_id r) l (ir_payload_hash r) (ir_row_hash r)
               (ir_prev_hash r) (ir_signature_status r) (if 1 < seq then prev_row_hash else None) ''n/a'';
         a = (if seq \<noteq> prev_seq + 1
              then a\<lparr>fa_failure_types := FAILURE_SEQUENCE_GAP # fa_failure_types a\<rparr> else a) in
     (if fa_failure_types a \<noteq> [] then [a] else []) @ scan_rows lib version rows seq (Some (ir_row_hash r)))"

definition scan :: "stdlib \<Rightarrow> int \<Rightarrow> audit_db \<Rightarrow> failed_record list" where
  "scan lib version db = scan_rows lib version (joined_rows version db) 0 None"

section \<open>The chain\<close>

record classification =
  cc_root_cause :: "string option"
  cc_confidence :: string
  cc_repair_allowed :: bool
  cc_repair_risk :: string
  cc_policy_reason :: string
  cc_sequence_range :: "(int \<times> int) option"
  cc_decision_types :: "string list"
  cc_production_involved :: bool

definition aggregate_risk :: "failed_record list \<Rightarrow> string" where
  "aggregate_risk failed =
    (if list_ex (\<lambda>r. fa_repair_risk r = REPAIR_RISK_HIGH) failed then REPAIR_RISK_HIGH
     else if 1 < length failed then REPAIR_RISK_MEDIUM else REPAIR_RISK_LOW)"

definition repair_reason :: "string \<Rightarrow> bool \<Rightarrow> bool \<Rightarrow> string" where
  "repair_reason root all_repairable production_involved =
    (if production_involved then ''production_executed involved -> repair blocked''
     else if root = ROOT_CAUSE_UNKNOWN then ''unknown root cause -> repair blocked''
     else if root = ROOT_CAUSE_HMAC_KEY_MISSING_ONLY
     then ''signature/key-only failure -> payload repair not applicable''
     else if root = ROOT_CAUSE_AUDIT_LOG_MUTATED
     then ''audit_log mutated after integrity, not proven synthetic -> repair blocked''
     else if root = ROOT_CAUSE_MANUAL_DATABASE_CHANGE then ''manual database change -> repair blocked''
     else if \<not> all_repairable
     then root @ '' present but not every record is repairable -> repair blocked''
     else if root \<in> set REPAIRABLE_ROOT_CAUSES
     then root @ '': synthetic non-production artifact, deterministic repair''
     else ''repair blocked'')"

definition classify_chain_root_cause :: "failed_record list \<Rightarrow> classification" where
  "classify_chain_root_cause failed =
    (if failed = []
     then \<lparr>cc_root_cause = None, cc_confidence = ''n/a'', cc_repair_allowed = False,
           cc_repair_risk = REPAIR_RISK_LOW, cc_policy_reason = ''no failed records'',
           cc_sequence_range = None, cc_decision_types = [], cc_production_involved = False\<rparr>
     else
      let causes = remdups (map fa_root_cause failed);
          decision_types = sort (remdups (filter (\<lambda>t. t \<noteq> []) (map fa_decision_type failed)));
          seqs = sort (map fa_sequence failed);
          seq_range = Some (hd seqs, last seqs);
          production_involved = list_ex (\<lambda>r. fa_production_executed r = Some True) failed in
      if 3 \<le> length failed \<and> length decision_types = 1 \<and>
         list_all (\<lambda>r. FAILURE_CANONICAL_PAYLOAD_HASH \<in> set (fa_failure_types r) \<and> \<not> fa_tamper_marker r) failed \<and>
         set causes \<subseteq> {ROOT_CAUSE_AUDIT_LOG_MUTATED, ROOT_CAUSE_CANONICALIZATION_VERSION_DRIFT}
      then
       (let repair_allowed = (\<not> production_involved) in
        \<lparr>cc_root_cause = Some ROOT_CAUSE_CANONICALIZATION_VERSION_DRIFT, cc_confidence = ''medium'',
         cc_repair_allowed = repair_allowed, cc_repair_risk = aggregate_risk failed,
         cc_policy_reason = (if repair_allowed then ''uniform canonicalization drift across one decision_type''
            else ''production_executed involved -> repair blocked''),
         cc_sequence_range = seq_range, cc_decision_types = decision_types,
         cc_production_involved = production_involved\<rparr>)
      else if length causes = 1
      then
       (let root = hd causes; all_repairable = list_all fa_repairable failed in
        \<lparr>cc_root_cause = Some root, cc_confidence = (if root \<noteq> ROOT_CAUSE_UNKNOWN then ''high'' else ''low''),
         cc_repair_allowed = (all_repairable \<and> root \<in> set REPAIRABLE_ROOT_CAUSES \<and> \<not> production_involved),
         cc_repair_risk = aggregate_risk failed,
         cc_policy_reason = repair_reason root all_repairable production_involved,
         cc_sequence_range = seq_range, cc_decision_types = decision_types,
         cc_production_involved = production_involved\<rparr>)
      else
        \<lparr>cc_root_cause = Some ROOT_CAUSE_UNKNOWN, cc_confidence = ''low'', cc_repair_allowed = False,
         cc_repair_risk = REPAIR_RISK_HIGH,
         cc_policy_reason = ''mixed root causes ['' @ join_with '', '' (map quoted (sort causes)) @
            ''] -> cannot prove safe repair'',
         cc_sequence_range = seq_range, cc_decision_types = decision_types,
         cc_production_involved = production_involved\<rparr>)"

end
