(* ===== verification/Audit_Repair.thy ===== *)
theory Audit_Repair imports Audit_Forensics begin

text \<open>
  The controlled repair of a chain (\<^verbatim>\<open>shared/sdk/audit_integrity/repair.py\<close>): the plan built from the
  forensic findings, the recomputation of the hashes from the first failed sequence to the tail, the
  update of the changed records, the check before the commit and the rollback when it fails.
\<close>

section \<open>Statuses and the plan\<close>

definition REPAIR_STATUS_DRY_RUN :: string where "REPAIR_STATUS_DRY_RUN = ''dry_run''"
definition REPAIR_STATUS_SKIPPED_UNSAFE :: string where "REPAIR_STATUS_SKIPPED_UNSAFE = ''skipped_unsafe''"
definition REPAIR_STATUS_APPROVAL_REQUIRED :: string where
  "REPAIR_STATUS_APPROVAL_REQUIRED = ''approval_required''"
definition REPAIR_STATUS_COMPLETED :: string where "REPAIR_STATUS_COMPLETED = ''completed''"
definition REPAIR_STATUS_FAILED :: string where "REPAIR_STATUS_FAILED = ''failed''"

lemmas repair_status_defs = REPAIR_STATUS_DRY_RUN_def REPAIR_STATUS_SKIPPED_UNSAFE_def
  REPAIR_STATUS_APPROVAL_REQUIRED_def REPAIR_STATUS_COMPLETED_def REPAIR_STATUS_FAILED_def

definition MAX_HASH_SAMPLE :: nat where "MAX_HASH_SAMPLE = 25"

record repair_plan =
  rp_root_cause :: string
  rp_repair_allowed :: bool
  rp_repair_risk :: string
  rp_first_failed :: "int option"
  rp_affected :: "int list"
  rp_reason :: string

definition changed_records_count :: "repair_plan \<Rightarrow> nat" where
  "changed_records_count plan = length (rp_affected plan)"

definition least_sequence :: "failed_record list \<Rightarrow> int" where
  "least_sequence failed = fold min (map fa_sequence (tl failed)) (fa_sequence (hd failed))"

definition plan_repair ::
    "failed_record list \<Rightarrow> string \<Rightarrow> bool \<Rightarrow> string \<Rightarrow> int option \<Rightarrow> string \<Rightarrow> repair_plan" where
  "plan_repair failed root_cause repair_allowed repair_risk tail reason =
    (case (failed, tail) of
       (f # fs, Some t) \<Rightarrow>
         (let first = least_sequence (f # fs) in
          \<lparr>rp_root_cause = root_cause,
           rp_repair_allowed = (repair_allowed \<and> root_cause \<in> set REPAIRABLE_ROOT_CAUSES),
           rp_repair_risk = repair_risk, rp_first_failed = Some first, rp_affected = [first..t],
           rp_reason = reason\<rparr>)
     | _ \<Rightarrow>
         \<lparr>rp_root_cause = root_cause, rp_repair_allowed = False, rp_repair_risk = repair_risk,
          rp_first_failed = None, rp_affected = [],
          rp_reason = (if reason \<noteq> [] then reason else ''no failed records'')\<rparr>)"

definition chain_tail_sequence :: "int \<Rightarrow> audit_db \<Rightarrow> int option" where
  "chain_tail_sequence v db =
    (if chain_records v db = [] then None else Some (ir_sequence_number (last (chain_records v db))))"

section \<open>Recomputing the hashes\<close>

record recomputed =
  rc_integrity_id :: string
  rc_sequence :: int
  rc_audit_log_id :: string
  rc_stored_canonical :: string
  rc_stored_row :: string
  rc_stored_prev :: "string option"
  rc_new_canonical :: string
  rc_new_row :: string
  rc_new_prev :: "string option"

definition fetch_rows :: "int \<Rightarrow> int \<Rightarrow> audit_db \<Rightarrow> (integrity_record \<times> audit_log) list" where
  "fetch_rows start v db = filter (\<lambda>rl. start \<le> ir_sequence_number (fst rl)) (joined_rows v db)"

definition recompute_row ::
    "stdlib \<Rightarrow> int \<Rightarrow> integrity_record \<Rightarrow> audit_log \<Rightarrow> string option \<Rightarrow> recomputed" where
  "recompute_row lib v r l prev_hash =
    (let aid = ir_audit_log_id r;
         new_canonical = compute_payload_hash lib (build_canonical_payload lib (l\<lparr>al_id := aid\<rparr>)) in
     \<lparr>rc_integrity_id = ir_integrity_id r, rc_sequence = ir_sequence_number r, rc_audit_log_id = aid,
      rc_stored_canonical = ir_payload_hash r, rc_stored_row = ir_row_hash r,
      rc_stored_prev = ir_prev_hash r, rc_new_canonical = new_canonical,
      rc_new_row = compute_row_hash lib v (ir_sequence_number r) aid prev_hash new_canonical,
      rc_new_prev = prev_hash\<rparr>)"

fun recompute_chain ::
    "stdlib \<Rightarrow> int \<Rightarrow> (integrity_record \<times> audit_log) list \<Rightarrow> string option \<Rightarrow> recomputed list" where
  "recompute_chain lib v [] prev_hash = []"
| "recompute_chain lib v ((r, l) # rows) prev_hash =
    (let e = recompute_row lib v r l prev_hash in e # recompute_chain lib v rows (Some (rc_new_row e)))"

definition start_prev_hash :: "int \<Rightarrow> int \<Rightarrow> audit_db \<Rightarrow> string option" where
  "start_prev_hash start v db =
    (if start \<le> 1 then None
     else map_option ir_row_hash (fetchrow (\<lambda>r. ir_chain_version r = v \<and> ir_sequence_number r = start - 1)
            (ad_records db)))"

definition start_of :: "repair_plan \<Rightarrow> int" where
  "start_of plan = (case rp_first_failed plan of Some n \<Rightarrow> if n = 0 then 1 else n | None \<Rightarrow> 1)"

definition hashes_changed :: "recomputed \<Rightarrow> bool" where
  "hashes_changed e \<longleftrightarrow> rc_new_canonical e \<noteq> rc_stored_canonical e \<or> rc_new_row e \<noteq> rc_stored_row e \<or>
     rc_new_prev e \<noteq> rc_stored_prev e"

record hash_summary =
  hs_sequence :: int
  hs_canonical :: string
  hs_row :: string
  hs_prev :: "string option"

definition hash_summaries :: "recomputed list \<Rightarrow> hash_summary list \<times> hash_summary list" where
  "hash_summaries recomputed =
    (let changed = take MAX_HASH_SAMPLE (filter hashes_changed recomputed) in
     (map (\<lambda>e. \<lparr>hs_sequence = rc_sequence e, hs_canonical = rc_stored_canonical e,
        hs_row = rc_stored_row e, hs_prev = rc_stored_prev e\<rparr>) changed,
      map (\<lambda>e. \<lparr>hs_sequence = rc_sequence e, hs_canonical = rc_new_canonical e,
        hs_row = rc_new_row e, hs_prev = rc_new_prev e\<rparr>) changed))"

definition preview ::
    "stdlib \<Rightarrow> repair_plan \<Rightarrow> int \<Rightarrow> audit_db \<Rightarrow> hash_summary list \<times> hash_summary list" where
  "preview lib plan v db =
    (let start = start_of plan in
     hash_summaries (recompute_chain lib v (fetch_rows start v db) (start_prev_hash start v db)))"

section \<open>Updating and checking\<close>

definition rebind :: "recomputed \<Rightarrow> integrity_record \<Rightarrow> integrity_record" where
  "rebind e r = r\<lparr>ir_payload_hash := rc_new_canonical e, ir_row_hash := rc_new_row e,
     ir_prev_hash := rc_new_prev e, ir_integrity_status := ''active''\<rparr>"

fun update_records :: "recomputed list \<Rightarrow> audit_db \<Rightarrow> audit_db \<times> nat" where
  "update_records [] db = (db, 0)"
| "update_records (e # es) db =
    (if \<not> hashes_changed e then update_records es db
     else
      (let db = db\<lparr>ad_records := update_where (\<lambda>r. ir_integrity_id r = rc_integrity_id e) (rebind e) (ad_records db)\<rparr>;
           (db, changed) = update_records es db in
       (db, changed + 1)))"

definition recompute_and_update ::
    "stdlib \<Rightarrow> repair_plan \<Rightarrow> int \<Rightarrow> audit_db
     \<Rightarrow> (hash_summary list \<times> hash_summary list) \<times> nat \<times> audit_db" where
  "recompute_and_update lib plan v db =
    (let start = start_of plan;
         recomputed = recompute_chain lib v (fetch_rows start v db) (start_prev_hash start v db);
         (db', changed) = update_records recomputed db in
     (hash_summaries recomputed, changed, db'))"

fun verify_walk ::
    "stdlib \<Rightarrow> int \<Rightarrow> (integrity_record \<times> audit_log) list \<Rightarrow> int \<Rightarrow> string option
     \<Rightarrow> bool \<times> int option \<times> string option" where
  "verify_walk lib v [] prev_seq prev_row_hash = (True, None, None)"
| "verify_walk lib v ((r, l) # rows) prev_seq prev_row_hash =
    (let seq = ir_sequence_number r in
     if seq \<noteq> prev_seq + 1 then (False, Some seq, Some ''sequence_gap'')
     else
      let rec_canonical = compute_payload_hash lib (build_canonical_payload lib (l\<lparr>al_id := ir_audit_log_id r\<rparr>)) in
      if rec_canonical \<noteq> ir_payload_hash r then (False, Some seq, Some ''canonical_payload_hash_mismatch'')
      else if compute_row_hash lib v seq (ir_audit_log_id r) (ir_prev_hash r) rec_canonical \<noteq> ir_row_hash r
      then (False, Some seq, Some ''row_hash_mismatch'')
      else if 1 < seq \<and> ir_prev_hash r \<noteq> prev_row_hash then (False, Some seq, Some ''prev_hash_mismatch'')
      else verify_walk lib v rows seq (Some (ir_row_hash r)))"

definition verify_in_txn :: "stdlib \<Rightarrow> int \<Rightarrow> audit_db \<Rightarrow> bool \<times> int option \<times> string option" where
  "verify_in_txn lib v db = verify_walk lib v (joined_rows v db) 0 None"

section \<open>Applying a plan\<close>

datatype repair_warning =
    NotAllowedWarning string
  | ApprovalWarning
  | RolledBackWarning "int option" "string option"

record repair_report =
  rep_dry_run :: bool
  rep_approved :: bool
  rep_root_cause :: string
  rep_repair_allowed :: bool
  rep_repair_risk :: string
  rep_first_failed :: "int option"
  rep_affected_count :: nat
  rep_changed_count :: nat
  rep_logs_modified :: bool
  rep_records_modified :: bool
  rep_before :: "hash_summary list"
  rep_after :: "hash_summary list"
  rep_verification :: "(bool \<times> int option \<times> string option) option"
  rep_production_executed :: bool
  rep_status :: string
  rep_warnings :: "repair_warning list"

definition new_report :: "repair_plan \<Rightarrow> bool \<Rightarrow> bool \<Rightarrow> repair_report" where
  "new_report plan approved dry_run =
    \<lparr>rep_dry_run = dry_run, rep_approved = approved, rep_root_cause = rp_root_cause plan,
     rep_repair_allowed = rp_repair_allowed plan, rep_repair_risk = rp_repair_risk plan,
     rep_first_failed = rp_first_failed plan, rep_affected_count = changed_records_count plan,
     rep_changed_count = 0, rep_logs_modified = False, rep_records_modified = False, rep_before = [],
     rep_after = [], rep_verification = None, rep_production_executed = False,
     rep_status = REPAIR_STATUS_DRY_RUN, rep_warnings = []\<rparr>"

text \<open>A failed check raises inside the transaction, so the database is the one before it.\<close>

definition apply_repair ::
    "stdlib \<Rightarrow> repair_plan \<Rightarrow> bool \<Rightarrow> bool \<Rightarrow> int \<Rightarrow> audit_db \<Rightarrow> repair_report \<times> audit_db" where
  "apply_repair lib plan approved dry_run v db =
    (let report = new_report plan approved dry_run in
     if \<not> rp_repair_allowed plan
     then (report\<lparr>rep_status := REPAIR_STATUS_SKIPPED_UNSAFE,
                  rep_warnings := [NotAllowedWarning (rp_reason plan)]\<rparr>, db)
     else if \<not> approved
     then (report\<lparr>rep_status := REPAIR_STATUS_APPROVAL_REQUIRED, rep_warnings := [ApprovalWarning]\<rparr>, db)
     else if dry_run
     then (report\<lparr>rep_before := fst (preview lib plan v db), rep_after := snd (preview lib plan v db),
                  rep_status := REPAIR_STATUS_DRY_RUN\<rparr>, db)
     else
      let ((before, after), changed, db') = recompute_and_update lib plan v db;
          (ok, fail_seq, reason) = verify_in_txn lib v db';
          report = report\<lparr>rep_before := before, rep_after := after, rep_changed_count := changed,
            rep_records_modified := (0 < changed), rep_verification := Some (ok, fail_seq, reason)\<rparr> in
      if \<not> ok
      then (report\<lparr>rep_status := REPAIR_STATUS_FAILED, rep_warnings := [RolledBackWarning fail_seq reason],
                   rep_records_modified := False, rep_changed_count := 0\<rparr>, db)
      else (report\<lparr>rep_status := REPAIR_STATUS_COMPLETED\<rparr>, db'))"

end
