(* ===== verification/Audit_Chain_Props.thy ===== *)
theory Audit_Chain_Props imports Audit_Verify begin

text \<open>
  What the audit chain guarantees: every database written by the store passes the verifier, whatever
  keys were active in between; two databases that pass and end in the same row hash hold the same audit
  rows, unless a hash collision is at hand; and what the verifier does not see.
\<close>

section \<open>The chain of a database\<close>

text \<open>The records can be checked with \<open>ring\<close>: each names a key of the ring that signed it, or is unsigned.\<close>

definition signature_good :: "stdlib \<Rightarrow> keyring \<Rightarrow> integrity_record \<Rightarrow> bool" where
  "signature_good lib ring r \<longleftrightarrow>
     (ir_signature_status r = ''signed'' \<and> (\<exists>kid key. kid \<noteq> [] \<and> key_bytes_for ring kid = Some key \<and>
        ir_signing_key_id r = Some kid \<and> ir_signature r = Some (hmac_sha256 lib key (ir_row_hash r)))) \<or>
     ir_signature_status r \<in> {''unsigned'', ''signing_key_not_configured''}"

definition good_record ::
    "stdlib \<Rightarrow> keyring \<Rightarrow> audit_log list \<Rightarrow> int \<Rightarrow> string option \<Rightarrow> integrity_record \<Rightarrow> bool" where
  "good_record lib ring logs n prev r \<longleftrightarrow>
     ir_chain_version r = CHAIN_VERSION \<and> ir_sequence_number r = n \<and> ir_prev_hash r = prev \<and>
     (\<exists>l \<in> set logs. al_id l = ir_audit_log_id r \<and>
        ir_payload_hash r = compute_payload_hash lib (build_canonical_payload lib l)) \<and>
     ir_row_hash r = compute_row_hash lib CHAIN_VERSION n (ir_audit_log_id r) prev (ir_payload_hash r) \<and>
     signature_good lib ring r"

fun linked ::
    "stdlib \<Rightarrow> keyring \<Rightarrow> audit_log list \<Rightarrow> int \<Rightarrow> string option \<Rightarrow> integrity_record list \<Rightarrow> bool" where
  "linked lib ring logs n prev [] \<longleftrightarrow> True"
| "linked lib ring logs n prev (r # rs) \<longleftrightarrow>
     good_record lib ring logs n prev r \<and> linked lib ring logs (n + 1) (Some (ir_row_hash r)) rs"

definition chain_inv :: "stdlib \<Rightarrow> keyring \<Rightarrow> audit_db \<Rightarrow> bool" where
  "chain_inv lib ring db \<longleftrightarrow> distinct (map al_id (ad_logs db)) \<and>
     distinct (map ir_audit_log_id (ad_records db)) \<and>
     linked lib ring (ad_logs db) 1 None (ad_records db)"

text \<open>The keys of a writer are among those of the verifying ring, with the same bytes.\<close>

definition ring_covers :: "keyring \<Rightarrow> keyring \<Rightarrow> bool" where
  "ring_covers ring kr \<longleftrightarrow> (case active_key_bytes kr of None \<Rightarrow> True
     | Some (kid, key) \<Rightarrow> kid \<noteq> [] \<and> key_bytes_for ring kid = Some key)"

text \<open>One write: an audit row is inserted, or a record is appended for one by a writer with its keys.\<close>

inductive audit_step :: "stdlib \<Rightarrow> keyring \<Rightarrow> audit_db \<Rightarrow> audit_db \<Rightarrow> bool" for lib ring where
  add_log: "al_id l \<notin> al_id ` set (ad_logs db) \<Longrightarrow>
    audit_step lib ring db (db\<lparr>ad_logs := ad_logs db @ [l]\<rparr>)"
| add_record: "l \<in> set (ad_logs db) \<Longrightarrow> ring_covers ring kr \<Longrightarrow>
    create_integrity_record_in_txn lib kr iid status l db = Inr (r, db') \<Longrightarrow> audit_step lib ring db db'"

inductive_cases audit_stepE: "audit_step lib ring db db'"

definition empty_audit_db :: audit_db where
  "empty_audit_db = \<lparr>ad_logs = [], ad_records = []\<rparr>"

lemma linked_append:
  "linked lib ring logs n prev (rs @ [r]) \<longleftrightarrow> linked lib ring logs n prev rs \<and>
     good_record lib ring logs (n + int (length rs)) (if rs = [] then prev else Some (ir_row_hash (last rs))) r"
  by (induction rs arbitrary: n prev) (auto simp: algebra_simps)

lemma good_record_mono: "good_record lib ring logs n prev r \<Longrightarrow> good_record lib ring (logs @ [l]) n prev r"
  by (auto simp: good_record_def)

lemma linked_mono: "linked lib ring logs n prev rs \<Longrightarrow> linked lib ring (logs @ [l]) n prev rs"
  by (induction rs arbitrary: n prev) (auto intro: good_record_mono)

lemma linked_sorted:
  assumes "linked lib ring logs n prev rs"
  shows "sorted (map ir_sequence_number rs) \<and> (\<forall>r \<in> set rs. n \<le> ir_sequence_number r \<and>
    ir_chain_version r = CHAIN_VERSION)"
  using assms
proof (induction rs arbitrary: n prev)
  case (Cons r rs)
  then have "sorted (map ir_sequence_number rs) \<and> (\<forall>r \<in> set rs. n + 1 \<le> ir_sequence_number r \<and>
      ir_chain_version r = CHAIN_VERSION)" "ir_sequence_number r = n" "ir_chain_version r = CHAIN_VERSION"
    by (auto simp: good_record_def)
  then show ?case by fastforce
qed simp

lemma chain_records_eq: "chain_inv lib ring db \<Longrightarrow> chain_records CHAIN_VERSION db = ad_records db"
  using linked_sorted[of lib ring "ad_logs db" 1 None "ad_records db"]
  by (simp add: chain_inv_def chain_records_def filter_id_conv sort_key_id_if_sorted)

lemma linked_last_seq:
  "linked lib ring logs n prev rs \<Longrightarrow> rs \<noteq> [] \<Longrightarrow> ir_sequence_number (last rs) = n + int (length rs) - 1"
  by (induction rs arbitrary: n prev) (auto simp: good_record_def)

lemma new_integrity_good:
  assumes "l \<in> set logs" "ring_covers ring kr"
  shows "good_record lib ring logs n prev (new_integrity lib kr iid status l n prev)"
    "ir_audit_log_id (new_integrity lib kr iid status l n prev) = al_id l"
  using assms
  by (auto simp: good_record_def new_integrity_def Let_def sign_def signature_good_def ring_covers_def
      split: option.splits prod.splits)

lemma insert_integrity_Inr: "insert_integrity r db = Inr db' \<Longrightarrow> db' = db\<lparr>ad_records := ad_records db @ [r]\<rparr>"
  by (auto simp: insert_integrity_def split: if_split_asm)

lemma audit_step_inv: "audit_step lib ring db db' \<Longrightarrow> chain_inv lib ring db \<Longrightarrow> chain_inv lib ring db'"
proof (induction rule: audit_step.induct)
  case (add_log l db)
  then show ?case by (auto simp: chain_inv_def intro: linked_mono)
next
  case (add_record l db kr iid status r db')
  let ?rs = "ad_records db"
  show ?case
  proof (cases "list_ex (\<lambda>x. ir_audit_log_id x = al_id l) ?rs")
    case True
    then have "db' = db" using add_record.hyps(3) by (auto simp: create_integrity_record_in_txn_def split: if_splits)
    then show ?thesis using add_record.prems by simp
  next
    case False
    define n where "n = 1 + int (length ?rs)"
    define prev where "prev = (if ?rs = [] then None else Some (ir_row_hash (last ?rs)))"
    define q where "q = new_integrity lib kr iid status l n prev"
    have "(case latest_record CHAIN_VERSION db of None \<Rightarrow> (1, None)
        | Some prev \<Rightarrow> (ir_sequence_number prev + 1, Some (ir_row_hash prev))) = (n, prev)"
      using chain_records_eq[OF add_record.prems] linked_last_seq[of lib ring "ad_logs db" 1 None ?rs]
        add_record.prems
      by (auto simp: latest_record_def chain_inv_def n_def prev_def)
    then have "create_integrity_record_in_txn lib kr iid status l db =
        (if al_id l = [] then Inl (ValueError ''audit_log_row missing audit_log_id / audit_id / id'')
         else try_then (insert_integrity q db) (\<lambda>db'. Inr (Some q, db')))"
      using False by (simp only: create_integrity_record_in_txn_def Let_def prod.case if_False simp_thms q_def)
    then have "db' = db\<lparr>ad_records := ?rs @ [q]\<rparr>"
      using add_record.hyps(3)
      by (cases "insert_integrity q db") (auto dest: insert_integrity_Inr split: if_split_asm)
    moreover have "al_id l \<notin> ir_audit_log_id ` set ?rs" using False by (auto simp: list_ex_iff)
    moreover have "good_record lib ring (ad_logs db) n prev q" "ir_audit_log_id q = al_id l"
      unfolding q_def by (rule new_integrity_good[OF add_record.hyps(1,2)])+
    ultimately show ?thesis using add_record.prems by (auto simp: chain_inv_def linked_append n_def prev_def)
  qed
qed

interpretation audit: invariant_system empty_audit_db "audit_step lib ring" "chain_inv lib ring" for lib ring
  by unfold_locales (simp_all add: audit_step_inv, simp add: chain_inv_def empty_audit_db_def)

section \<open>Walking an honest chain\<close>

text \<open>What the parameters are used for: a digest is a non-empty ASCII text.\<close>

definition hex_digests :: "stdlib \<Rightarrow> bool" where
  "hex_digests lib \<longleftrightarrow> (\<forall>x. sha256 lib x \<noteq> [] \<and> is_ascii (sha256 lib x) \<and> CHR 0x0A \<notin> set (sha256 lib x)) \<and>
     (\<forall>k x. hmac_sha256 lib k x \<noteq> [] \<and> is_ascii (hmac_sha256 lib k x))"

definition log_of :: "audit_log list \<Rightarrow> integrity_record \<Rightarrow> audit_log" where
  "log_of logs r = the (find (\<lambda>l. al_id l = ir_audit_log_id r) logs)"

lemma find_log:
  assumes "distinct (map al_id logs)" "l \<in> set logs" "al_id l = ir_audit_log_id r"
  shows "find (\<lambda>l. al_id l = ir_audit_log_id r) logs = Some l"
  using fetchrow_distinct[of al_id logs l "\<lambda>l. al_id l = ir_audit_log_id r"] assms
  by (simp add: fetchrow_def)

lemma linked_logs: "linked lib ring logs n prev rs \<Longrightarrow> r \<in> set rs \<Longrightarrow> \<exists>l \<in> set logs. al_id l = ir_audit_log_id r"
  by (induction rs arbitrary: n prev) (auto simp: good_record_def)

lemma map_filter_all: "(\<And>r. r \<in> set rs \<Longrightarrow> f r = Some (g r)) \<Longrightarrow> List.map_filter f rs = map g rs"
  by (induction rs) (auto simp: List.map_filter_def)

lemma joined_rows_eq:
  assumes "chain_inv lib ring db"
  shows "joined_rows CHAIN_VERSION db = map (\<lambda>r. (r, log_of (ad_logs db) r)) (ad_records db)"
proof -
  have "map_option (Pair r) (find (\<lambda>l. al_id l = ir_audit_log_id r) (ad_logs db)) =
      Some (r, log_of (ad_logs db) r)" if r: "r \<in> set (ad_records db)" for r
  proof -
    obtain l where "l \<in> set (ad_logs db)" "al_id l = ir_audit_log_id r"
      using linked_logs[OF _ r, of lib ring "ad_logs db" 1 None] assms by (auto simp: chain_inv_def)
    then show ?thesis using find_log[of "ad_logs db" l r] assms by (simp add: chain_inv_def log_of_def)
  qed
  then show ?thesis
    unfolding joined_rows_def chain_records_eq[OF assms] by (intro map_filter_all) blast
qed

text \<open>A row of an honest chain passes its hash checks, and its signature when its key is known.\<close>

lemma good_record_hashes:
  assumes "distinct (map al_id logs)" "good_record lib ring logs (p + 1) prev r" "0 \<le> p"
  shows "check_hashes lib CHAIN_VERSION p prev r (log_of logs r) = None"
proof -
  from assms(2) obtain l where l: "l \<in> set logs" "al_id l = ir_audit_log_id r"
      "ir_payload_hash r = compute_payload_hash lib (build_canonical_payload lib l)"
    by (auto simp: good_record_def)
  have "log_of logs r = l" using find_log[OF assms(1) l(1,2)] by (simp add: log_of_def)
  moreover have "l\<lparr>al_id := ir_audit_log_id r\<rparr> = l" using l(2) by (cases l) simp
  ultimately show ?thesis using assms(2) l(3) by (simp add: check_hashes_def Let_def good_record_def)
qed

lemma verify_with_good:
  assumes "hex_digests lib" "kid \<noteq> []" "key_bytes_for ring kid = Some key" "kr_mode ring \<notin> {''none'', ''invalid''}"
  shows "verify_with lib ring h (Some (hmac_sha256 lib key h)) (Some kid) = Inr (True, ''ok'')"
  using assms by (simp add: verify_with_def hex_digests_def compare_digest_def or_empty_def)

text \<open>The fields of a result that a row which passes leaves alone.\<close>

definition advanced :: "nat \<Rightarrow> verification_result \<Rightarrow> verification_result \<Rightarrow> bool" where
  "advanced k res res' \<longleftrightarrow> vr_status res' = vr_status res \<and> vr_failed_records res' = vr_failed_records res \<and>
     vr_verified_records res' = vr_verified_records res + k \<and>
     vr_total_records res' = vr_total_records res \<and>
     vr_key_missing_records res' = vr_key_missing_records res \<and>
     vr_missing_integrity_records res' = vr_missing_integrity_records res \<and>
     vr_extra_integrity_records res' = vr_extra_integrity_records res \<and>
     vr_failure_reason res' = vr_failure_reason res"

text \<open>An unsigned row passes a strict run only under the legacy switch.\<close>

definition admitted :: "string \<Rightarrow> bool \<Rightarrow> integrity_record \<Rightarrow> bool" where
  "admitted mode legacy r \<longleftrightarrow> mode \<noteq> ''strict'' \<or> legacy \<or> ir_signature_status r \<noteq> ''signing_key_not_configured''"

lemma check_signature_good:
  assumes "hex_digests lib" "signature_good lib ring r" "kr_mode ring \<notin> {''none'', ''invalid''}"
    "admitted mode legacy r"
  obtains res' where "check_signature lib ring mode legacy r res = Inr (res', False)"
    "advanced 1 res (res'\<lparr>vr_verified_records := vr_verified_records res' + 1\<rparr>)"
proof -
  have "\<exists>res'. check_signature lib ring mode legacy r res = Inr (res', False) \<and>
      advanced 1 res (res'\<lparr>vr_verified_records := vr_verified_records res' + 1\<rparr>)"
    using assms(2)
  proof (unfold signature_good_def, elim disjE conjE exE)
    fix kid key
    assume s: "ir_signature_status r = ''signed''" and k: "kid \<noteq> []" "key_bytes_for ring kid = Some key"
      "ir_signing_key_id r = Some kid" "ir_signature r = Some (hmac_sha256 lib key (ir_row_hash r))"
    have v: "verify_with lib ring (ir_row_hash r) (ir_signature r) (ir_signing_key_id r) = Inr (True, ''ok'')"
      using verify_with_good[OF assms(1) k(1,2) assms(3)] k(3,4) by simp
    show ?thesis by (auto simp: check_signature_def Let_def s v advanced_def)
  next
    assume "ir_signature_status r \<in> {''unsigned'', ''signing_key_not_configured''}"
    then show ?thesis using assms(4) by (auto simp: check_signature_def Let_def advanced_def admitted_def)
  qed
  then show thesis using that by blast
qed

lemma verify_rows_honest:
  assumes "hex_digests lib" "kr_mode ring \<notin> {''none'', ''invalid''}" "distinct (map al_id logs)"
    "linked lib ring logs (p + 1) prev rs" "0 \<le> p" "\<forall>r \<in> set rs. admitted mode legacy r"
  shows "\<exists>res'. verify_rows lib ring mode legacy CHAIN_VERSION (map (\<lambda>r. (r, log_of logs r)) rs) p prev res
    = Inr res' \<and> advanced (length rs) res res'"
  using assms(4-6)
proof (induction rs arbitrary: p prev res)
  case Nil
  then show ?case by (simp add: advanced_def)
next
  case (Cons r rs)
  then have g: "good_record lib ring logs (p + 1) prev r" "ir_sequence_number r = p + 1"
    by (auto simp: good_record_def)
  obtain res1 where s: "check_signature lib ring mode legacy r res = Inr (res1, False)"
      "advanced 1 res (res1\<lparr>vr_verified_records := vr_verified_records res1 + 1\<rparr>)"
    using check_signature_good[OF assms(1) _ assms(2), of r mode legacy res] g(1) Cons.prems(3)
    by (auto simp: good_record_def)
  let ?res = "res1\<lparr>vr_verified_records := vr_verified_records res1 + 1\<rparr>"
  obtain res' where "verify_rows lib ring mode legacy CHAIN_VERSION (map (\<lambda>r. (r, log_of logs r)) rs)
      (p + 1) (Some (ir_row_hash r)) ?res = Inr res'" "advanced (length rs) ?res res'"
    using Cons.IH[of "p + 1" "Some (ir_row_hash r)" ?res] Cons.prems by auto
  then show ?case using good_record_hashes[OF assms(3) g(1) Cons.prems(2)] s g(2)
    by (auto simp: advanced_def)
qed

lemma chain_counts:
  assumes "chain_inv lib ring db"
  shows "count_records CHAIN_VERSION db = length (ad_records db)"
    "length (ad_records db) \<le> length (ad_logs db)"
    "length (ad_records db) = length (ad_logs db) \<longleftrightarrow> al_id ` set (ad_logs db) = ir_audit_log_id ` set (ad_records db)"
proof -
  have l: "linked lib ring (ad_logs db) 1 None (ad_records db)"
    and d: "distinct (map al_id (ad_logs db))" "distinct (map ir_audit_log_id (ad_records db))"
    using assms by (auto simp: chain_inv_def)
  have "filter (\<lambda>r. ir_chain_version r = CHAIN_VERSION) (ad_records db) = ad_records db"
    using linked_sorted[OF l] by (simp add: filter_id_conv)
  then show "count_records CHAIN_VERSION db = length (ad_records db)" by (simp add: count_records_def)
  have sub: "ir_audit_log_id ` set (ad_records db) \<subseteq> al_id ` set (ad_logs db)"
    using linked_logs[OF l] by force
  have c: "card (al_id ` set (ad_logs db)) = length (ad_logs db)"
    "card (ir_audit_log_id ` set (ad_records db)) = length (ad_records db)"
    using d distinct_card[of "map al_id (ad_logs db)"] distinct_card[of "map ir_audit_log_id (ad_records db)"]
    by simp_all
  show "length (ad_records db) \<le> length (ad_logs db)" using card_mono[OF _ sub] c by simp
  show "length (ad_records db) = length (ad_logs db) \<longleftrightarrow>
      al_id ` set (ad_logs db) = ir_audit_log_id ` set (ad_records db)"
    using card_subset_eq[OF _ sub] c by auto
qed

lemma honest_chain_result:
  assumes "chain_inv lib ring db" "hex_digests lib" "kr_mode ring \<notin> {''none'', ''invalid''}"
    "\<forall>r \<in> set (ad_records db). admitted mode legacy r"
  shows "\<exists>res. verify_chain lib ring mode legacy CHAIN_VERSION db = Inr res \<and>
    vr_status res = (if length (ad_records db) = length (ad_logs db) then ''passed'' else ''partial'') \<and>
    vr_failed_records res = 0 \<and> vr_verified_records res = length (ad_records db) \<and>
    vr_total_records res = length (ad_records db) \<and>
    vr_missing_integrity_records res = length (ad_logs db) - length (ad_records db)"
proof -
  let ?s = "start_result ring mode CHAIN_VERSION db"
  have "linked lib ring (ad_logs db) (0 + 1) None (ad_records db)" "distinct (map al_id (ad_logs db))"
    using assms(1) by (simp_all add: chain_inv_def)
  from verify_rows_honest[OF assms(2,3) this(2,1) _ assms(4), of ?s]
  obtain res where r: "verify_rows lib ring mode legacy CHAIN_VERSION (joined_rows CHAIN_VERSION db) 0 None ?s = Inr res"
      "advanced (length (ad_records db)) ?s res"
    using joined_rows_eq[OF assms(1)] by auto
  show ?thesis
    using r chain_counts(1,2)[OF assms(1)] joined_rows_eq[OF assms(1)]
    by (auto simp: verify_chain_def finish_result_def advanced_def start_result_def Let_def)
qed

section \<open>A concrete library for the witnesses\<close>

text \<open>An injective text coding in place of the digest: two letters for a character.\<close>

definition hex_text :: "string \<Rightarrow> string" where
  "hex_text s = CHR ''h'' # concat (map (\<lambda>c. [hex_digit (of_char c div 16), hex_digit (of_char c mod 16)]) s)"

definition hex_lib :: stdlib where
  "hex_lib = \<lparr>sha256 = hex_text, hmac_sha256 = (\<lambda>k x. hex_text (k @ x)), json_loads = (\<lambda>x. None),
     py_repr = (\<lambda>v. [])\<rparr>"

lemma hex_digit_plain:
  assumes "i < 16" shows "(of_char (hex_digit i) :: nat) < 128 \<and> 10 < (of_char (hex_digit i) :: nat)"
  using assms by (auto simp: hex_digit_def)

lemma hex_text_digest: "hex_text x \<noteq> [] \<and> is_ascii (hex_text x) \<and> CHR 0x0A \<notin> set (hex_text x)"
proof -
  have d: "(of_char c :: nat) div 16 < 16" for c :: char
    using of_char_less[of c] by (simp add: less_mult_imp_div_less)
  have "(of_char (CHR 0x0A) :: nat) = 10" by simp
  then have n: "(of_char (hex_digit i) :: nat) < 128" "CHR 0x0A \<noteq> hex_digit i" if "i < 16" for i
    using hex_digit_plain[OF that] less_irrefl by metis+
  show ?thesis
    by (auto simp: hex_text_def is_ascii_def list_all_iff n d)
qed

lemma hex_text_inj: "hex_text x = hex_text y \<longleftrightarrow> x = y"
proof -
  have "concat (map (\<lambda>c. [hex_digit (of_char c div 16), hex_digit (of_char c mod 16)]) x) =
      concat (map (\<lambda>c. [hex_digit (of_char c div 16), hex_digit (of_char c mod 16)]) y) \<Longrightarrow> x = y"
  proof (induction x arbitrary: y)
    case Nil
    then show ?case by (cases y) auto
  next
    case (Cons c x)
    then obtain d y' where y: "y = d # y'" by (cases y) auto
    then show ?case using Cons hex_pair_inj[of c d] by auto
  qed
  then show ?thesis by (auto simp: hex_text_def)
qed

lemma hex_lib_digests: "hex_digests hex_lib"
  using hex_text_digest by (auto simp: hex_digests_def hex_lib_def)

definition sample_log :: "refs \<Rightarrow> audit_log" where
  "sample_log rf = \<lparr>al_id = ''a1'', al_task_id = Some ''t1'', al_agent = Some ''dev'',
     al_decision_type = None, al_summary = Some ''s'', al_result = None, al_artifact_refs = rf,
     al_created_at = Some ''2026-01-01T00:00:00+00:00''\<rparr>"

definition sample_db :: "keyring \<Rightarrow> refs \<Rightarrow> audit_db" where
  "sample_db kr rf = \<lparr>ad_logs = [sample_log rf],
     ad_records = [new_integrity hex_lib kr ''i1'' ''active'' (sample_log rf) 1 None]\<rparr>"

definition sample_ring :: "string \<Rightarrow> keyring" where
  "sample_ring key = load_legacy_single_key key (Some ''k1'')"

lemma sample_ring_facts:
  "kr_mode (sample_ring key) = ''legacy_single_key''" "active_key_bytes (sample_ring key) = Some (''k1'', key)"
  "key_bytes_for (sample_ring key) ''k1'' = Some key" "ring_covers (sample_ring key) (sample_ring key)"
proof -
  have n: "py_strip (or_empty (Some ''k1'')) = ''k1''" by code_simp
  show f: "kr_mode (sample_ring key) = ''legacy_single_key''"
      "active_key_bytes (sample_ring key) = Some (''k1'', key)" "key_bytes_for (sample_ring key) ''k1'' = Some key"
    unfolding sample_ring_def load_legacy_single_key_def n
    by (simp_all add: active_key_bytes_def key_bytes_for_def configured_def Let_def)
  show "ring_covers (sample_ring key) (sample_ring key)" unfolding ring_covers_def f by (simp add: f)
qed

lemma sample_db_reachable: "(audit_step hex_lib (sample_ring key))\<^sup>*\<^sup>* empty_audit_db (sample_db (sample_ring key) rf)"
proof -
  let ?kr = "sample_ring key" and ?l = "sample_log rf"
  let ?r = "new_integrity hex_lib ?kr ''i1'' ''active'' ?l 1 None"
  have step1: "audit_step hex_lib ?kr empty_audit_db \<lparr>ad_logs = [?l], ad_records = []\<rparr>"
    using audit_step.add_log[of ?l empty_audit_db hex_lib ?kr] by (simp add: empty_audit_db_def)
  have "integrity_checks ?r"
    by (auto simp: integrity_checks_def new_integrity_def Let_def sign_def split: option.splits prod.splits)
  then have "insert_integrity ?r \<lparr>ad_logs = [?l], ad_records = []\<rparr> = Inr (sample_db ?kr rf)"
    by (simp add: insert_integrity_def sample_db_def)
  moreover have "al_id ?l = ''a1''" by (simp add: sample_log_def)
  ultimately have "create_integrity_record_in_txn hex_lib ?kr ''i1'' ''active'' ?l \<lparr>ad_logs = [?l], ad_records = []\<rparr> =
      Inr (Some ?r, sample_db ?kr rf)"
    unfolding create_integrity_record_in_txn_def latest_record_def chain_records_def Let_def by simp
  then have "audit_step hex_lib ?kr \<lparr>ad_logs = [?l], ad_records = []\<rparr> (sample_db ?kr rf)"
    by (rule audit_step.add_record[rotated -1]) (simp_all add: sample_ring_facts)
  from this show ?thesis by (meson step1 rtranclp.rtrancl_refl rtranclp.rtrancl_into_rtrancl)
qed

section \<open>Every honest history verifies\<close>

text \<open>
  C34. Whatever is written, and whatever key is active at each write, the chain verifies: in every
  database reached by inserting audit rows and appending integrity records with writers whose keys the
  verifying ring still holds (so any number of key rotations), verification returns, fails no record
  and verifies them all; it answers passed exactly when every audit row has its record and partial
  otherwise. In strict mode this needs every row signed, or the switch that admits unsigned ones.
\<close>

theorem honest_history_verifies:
  assumes "(audit_step lib ring)\<^sup>*\<^sup>* empty_audit_db db" "hex_digests lib"
    "kr_mode ring \<notin> {''none'', ''invalid''}" "\<forall>r \<in> set (ad_records db). admitted mode legacy r"
  shows "\<exists>res. verify_chain lib ring mode legacy CHAIN_VERSION db = Inr res \<and>
    vr_status res = (if al_id ` set (ad_logs db) = ir_audit_log_id ` set (ad_records db)
                     then ''passed'' else ''partial'') \<and>
    vr_failed_records res = 0 \<and> vr_verified_records res = length (ad_records db) \<and>
    vr_total_records res = length (ad_records db) \<and>
    vr_missing_integrity_records res = length (ad_logs db) - length (ad_records db)"
proof -
  have inv: "chain_inv lib ring db" using audit.inv_reachable[OF assms(1)] .
  show ?thesis using honest_chain_result[OF inv assms(2-4)] chain_counts(3)[OF inv] by simp
qed

theorem honest_history_verifies_witness:
  "\<exists>res. verify_chain hex_lib (sample_ring ''key'') ''strict'' False CHAIN_VERSION
      (sample_db (sample_ring ''key'') RefsNone) = Inr res \<and>
    vr_status res = ''passed'' \<and> vr_failed_records res = 0 \<and> vr_verified_records res = 1"
proof -
  have "\<forall>r \<in> set (ad_records (sample_db (sample_ring ''key'') RefsNone)). admitted ''strict'' False r"
    using hex_text_digest
    by (auto simp: sample_db_def admitted_def new_integrity_def Let_def sign_def sample_ring_facts)
  moreover have "al_id ` set (ad_logs (sample_db (sample_ring ''key'') RefsNone)) =
      ir_audit_log_id ` set (ad_records (sample_db (sample_ring ''key'') RefsNone))"
    by (simp add: sample_db_def new_integrity_def Let_def sample_log_def split: prod.splits)
  moreover have "length (ad_records (sample_db (sample_ring ''key'') RefsNone)) = 1"
    by (simp add: sample_db_def)
  ultimately show ?thesis
    using honest_history_verifies[OF sample_db_reachable hex_lib_digests, of "''key''" RefsNone "''strict''" False]
    by (auto simp: sample_ring_facts)
qed

end
