(* ===== verification/Audit_Tamper.thy ===== *)
theory Audit_Tamper imports Audit_Chain_Props begin

text \<open>
  Tamper evidence of the audit chain. Two databases that both verify and end in the same row hash hold
  the same audit rows, provided the texts hashed for them do not collide; the last section states what
  the verifier does not see: the newest audit row can be deleted.
\<close>

section \<open>What the hashes cover\<close>

text \<open>The content of an audit row as far as the chain protects it.\<close>

record audit_view =
  av_id :: string
  av_task_id :: string
  av_agent :: string
  av_decision_type :: string
  av_summary :: string
  av_result :: string
  av_artifact_refs :: json
  av_created_at :: string

definition view_of :: "stdlib \<Rightarrow> integrity_record \<times> audit_log \<Rightarrow> audit_view" where
  "view_of lib rl =
    \<lparr>av_id = ir_audit_log_id (fst rl), av_task_id = or_empty (al_task_id (snd rl)),
     av_agent = or_empty (al_agent (snd rl)), av_decision_type = or_empty (al_decision_type (snd rl)),
     av_summary = or_empty (al_summary (snd rl)), av_result = or_empty (al_result (snd rl)),
     av_artifact_refs = canonicalise_value (refs_value lib (al_artifact_refs (snd rl))),
     av_created_at = or_empty (al_created_at (snd rl))\<rparr>"

text \<open>The two texts hashed when a joined row is verified.\<close>

definition payload_text :: "stdlib \<Rightarrow> integrity_record \<times> audit_log \<Rightarrow> string" where
  "payload_text lib rl = canonical_json (build_canonical_payload lib ((snd rl)\<lparr>al_id := ir_audit_log_id (fst rl)\<rparr>))"

definition envelope_text :: "stdlib \<Rightarrow> int \<Rightarrow> integrity_record \<times> audit_log \<Rightarrow> string" where
  "envelope_text lib v rl = row_envelope v (ir_sequence_number (fst rl)) (ir_audit_log_id (fst rl))
     (ir_prev_hash (fst rl)) (sha256 lib (payload_text lib rl))"

definition hashed_texts :: "stdlib \<Rightarrow> int \<Rightarrow> audit_db \<Rightarrow> string set" where
  "hashed_texts lib v db = payload_text lib ` set (joined_rows v db) \<union> envelope_text lib v ` set (joined_rows v db)"

definition collision_free :: "stdlib \<Rightarrow> string set \<Rightarrow> string set \<Rightarrow> bool" where
  "collision_free lib X Y \<longleftrightarrow> (\<forall>x \<in> X. \<forall>y \<in> Y. sha256 lib x = sha256 lib y \<longrightarrow> x = y)"

lemma map_of_fields:
  assumes "canonicalise_value (JObj kvs) = canonicalise_value (JObj kvs')"
    "distinct (map fst kvs)" "distinct (map fst kvs')"
  shows "map_option canonicalise_value (map_of kvs k) = map_option canonicalise_value (map_of kvs' k)"
proof -
  let ?h = "\<lambda>kv :: string \<times> json. (fst kv, canonicalise_value (snd kv))"
  have "set (map ?h (sort_key fst kvs)) = set (map ?h (sort_key fst kvs'))" using assms(1) by simp
  then have "set (map ?h kvs) = set (map ?h kvs')" by simp
  moreover have "distinct (map fst (map ?h kvs))" "distinct (map fst (map ?h kvs'))"
    using assms(2,3) by (simp_all add: comp_def)
  ultimately have "map_of (map ?h kvs) = map_of (map ?h kvs')" by (simp add: map_of_inject_set)
  moreover have "map_of (map ?h kvs) k = map_option canonicalise_value (map_of kvs k)" for kvs
    by (induction kvs) auto
  ultimately show ?thesis by metis
qed

lemma payload_text_view:
  assumes "payload_text lib x = payload_text lib y" shows "view_of lib x = view_of lib y"
proof -
  let ?F = "\<lambda>rl. [(''audit_log_id'', JStr (ir_audit_log_id (fst rl))),
     (''task_id'', JStr (or_empty (al_task_id (snd rl)))), (''agent'', JStr (or_empty (al_agent (snd rl)))),
     (''decision_type'', JStr (or_empty (al_decision_type (snd rl)))),
     (''summary'', JStr (or_empty (al_summary (snd rl)))), (''result'', JStr (or_empty (al_result (snd rl)))),
     (''artifact_refs'', canonicalise_value (refs_value lib (al_artifact_refs (snd rl)))),
     (''created_at'', JStr (or_empty (al_created_at (snd rl))))]"
  have p: "payload_text lib rl = canonical_json (JObj (?F rl))" for rl
    by (simp add: payload_text_def build_canonical_payload_def)
  have "canonicalise_value (JObj (?F x)) = canonicalise_value (JObj (?F y))"
    using assms unfolding p canonical_json_eq by (rule json_text_inj)
  from map_of_fields[OF this, of "''audit_log_id''"] map_of_fields[OF this, of "''task_id''"]
    map_of_fields[OF this, of "''agent''"] map_of_fields[OF this, of "''decision_type''"]
    map_of_fields[OF this, of "''summary''"] map_of_fields[OF this, of "''result''"]
    map_of_fields[OF this, of "''artifact_refs''"] map_of_fields[OF this, of "''created_at''"]
  show ?thesis by (simp add: view_of_def canonicalise_idem)
qed

text \<open>The envelope: the last line is the payload hash, and then the rest is determined line by line.\<close>

lemma last_line:
  assumes "x @ c # u = y @ c # w" "c \<notin> set u" "c \<notin> set w" shows "x = y \<and> u = w"
proof -
  have t: "takeWhile (\<lambda>a. a \<noteq> c) (rev (x @ c # u)) = rev u" if "c \<notin> set u" for x u
    using that by (auto simp: takeWhile_append)
  have "rev u = rev w" using t[OF assms(2), of x] t[OF assms(3), of y] assms(1) by simp
  then show ?thesis using assms(1) by simp
qed

lemma row_envelope_inj:
  assumes "row_envelope v n a p h = row_envelope v n b q k" "CHR 0x0A \<notin> set h" "CHR 0x0A \<notin> set k"
  shows "h = k \<and> (a = b \<longrightarrow> (if truthy p then or_empty p else GENESIS_PREV_HASH) =
    (if truthy q then or_empty q else GENESIS_PREV_HASH))"
proof -
  define g where "g = (\<lambda>p. if truthy p then or_empty p else GENESIS_PREV_HASH)"
  define i where "i = (\<lambda>a p. ''chain_version='' @ int_text v @ [CHR 0x0A] @ ''sequence_number='' @ int_text n @
    [CHR 0x0A] @ ''audit_log_id='' @ a @ [CHR 0x0A] @ ''prev_hash='' @ g p)"
  have e: "row_envelope v n a p h = i a p @ CHR 0x0A # (''canonical_payload_hash='' @ h)" for a p h
    by (simp add: row_envelope_def i_def g_def)
  have "CHR 0x0A \<notin> set (''canonical_payload_hash='' @ h)" "CHR 0x0A \<notin> set (''canonical_payload_hash='' @ k)"
    using assms(2,3) by simp_all
  from last_line[OF assms(1)[unfolded e] this] have l: "i a p = i b q" "h = k" by simp_all
  have "a = b \<longrightarrow> g p = g q"
  proof
    assume "a = b"
    then show "g p = g q" using l(1) by (simp only: i_def same_append_eq)
  qed
  then show ?thesis using l(2) by (simp only: g_def simp_thms)
qed

section \<open>From a verified run to its hashes\<close>

fun hashes_ok :: "stdlib \<Rightarrow> int \<Rightarrow> int \<Rightarrow> string option \<Rightarrow> (integrity_record \<times> audit_log) list \<Rightarrow> bool" where
  "hashes_ok lib v p prev [] \<longleftrightarrow> True"
| "hashes_ok lib v p prev ((r, l) # rows) \<longleftrightarrow> check_hashes lib v p prev r l = None \<and>
     hashes_ok lib v (ir_sequence_number r) (Some (ir_row_hash r)) rows"

lemma fail_at_status [simp]: "vr_status (fail_at n a why x y res) = ''failed''"
  by (simp add: fail_at_def)

lemma warn_status [simp]: "vr_status (warn w res) = vr_status res"
  by (simp add: warn_def)

lemma fail_at_total [simp]: "vr_total_records (fail_at n a why x y res) = vr_total_records res"
  by (simp add: fail_at_def)

lemma warn_total [simp]: "vr_total_records (warn w res) = vr_total_records res"
  by (simp add: warn_def)

lemma check_signature_status:
  assumes "check_signature lib kr mode legacy r res = Inr (res', failed)"
  shows "if failed then vr_status res' = ''failed'' else vr_status res' = vr_status res"
    "vr_total_records res' = vr_total_records res"
proof -
  have "(if failed then vr_status res' = ''failed'' else vr_status res' = vr_status res) \<and>
    vr_total_records res' = vr_total_records res"
  proof (cases "mode \<noteq> ''chain_only'' \<and> ir_signature_status r = ''signed''")
    case True
    then have s: "mode \<noteq> ''chain_only''" "ir_signature_status r = ''signed''" by simp_all
    obtain ok what where v: "verify_with lib kr (ir_row_hash r) (ir_signature r) (ir_signing_key_id r) = Inr (ok, what)"
      using assms s by (auto simp: check_signature_def Let_def try_then_Inr_iff)
    show ?thesis
      using assms unfolding check_signature_def Let_def s(2) v try_then_simps prod.case if_P[OF refl]
        if_not_P[OF s(1)]
      by (auto split: if_split_asm)
  next
    case False
    then show ?thesis using assms
      by (cases "mode = ''chain_only''")
        (auto simp: check_signature_def Let_def split: if_split_asm)
  qed
  then show "if failed then vr_status res' = ''failed'' else vr_status res' = vr_status res"
    "vr_total_records res' = vr_total_records res" by blast+
qed

lemma verify_rows_hashes:
  assumes "verify_rows lib kr mode legacy v rows p prev res = Inr res'" "vr_status res' \<noteq> ''failed''"
  shows "hashes_ok lib v p prev rows"
  using assms
proof (induction rows arbitrary: p prev res)
  case (Cons rl rows)
  obtain r l where rl: "rl = (r, l)" by fastforce
  have h: "check_hashes lib v p prev r l = None"
    using Cons.prems by (auto simp: rl fail_at_def split: option.splits)
  then obtain res1 failed where s: "check_signature lib kr mode legacy r res = Inr (res1, failed)"
    using Cons.prems by (auto simp: rl try_then_Inr_iff)
  have "\<not> failed" using check_signature_status(1)[OF s] Cons.prems s h by (auto simp: rl)
  then show ?case using Cons h s by (auto simp: rl)
qed simp

lemma verify_chain_hashes:
  assumes "verify_chain lib kr mode legacy v db = Inr res" "vr_status res \<noteq> ''failed''"
  shows "hashes_ok lib v 0 None (joined_rows v db)"
proof -
  obtain res1 where "verify_rows lib kr mode legacy v (joined_rows v db) 0 None (start_result kr mode v db) = Inr res1"
      "res = finish_result mode res1"
    using assms(1) by (auto simp: verify_chain_def try_then_Inr_iff)
  moreover from this have "vr_status res1 \<noteq> ''failed''"
    using assms(2) by (auto simp: finish_result_def Let_def)
  ultimately show ?thesis using verify_rows_hashes by blast
qed

lemma verify_rows_total:
  "verify_rows lib kr mode legacy v rows p prev res = Inr res' \<Longrightarrow> vr_total_records res' = vr_total_records res"
proof (induction rows arbitrary: p prev res)
  case (Cons rl rows)
  obtain r l where rl: "rl = (r, l)" by fastforce
  show ?case
  proof (cases "check_hashes lib v p prev r l")
    case None
    then obtain res1 failed where s: "check_signature lib kr mode legacy r res = Inr (res1, failed)"
      using Cons.prems by (auto simp: rl try_then_Inr_iff)
    have t: "vr_total_records res1 = vr_total_records res" using check_signature_status(2)[OF s] .
    show ?thesis
    proof (cases failed)
      case True
      then show ?thesis using Cons.prems None s t by (simp add: rl)
    next
      case False
      then show ?thesis using Cons.prems None s t by (auto simp: rl dest: Cons.IH)
    qed
  next
    case (Some why)
    then show ?thesis using Cons.prems unfolding rl by (cases why) auto
  qed
qed simp

lemma verify_chain_total:
  assumes "verify_chain lib kr mode legacy v db = Inr res"
  shows "vr_total_records res = length (joined_rows v db)"
proof -
  obtain res1 where r: "verify_rows lib kr mode legacy v (joined_rows v db) 0 None (start_result kr mode v db) = Inr res1"
      "res = finish_result mode res1"
    using assms by (auto simp: verify_chain_def try_then_Inr_iff)
  have "vr_total_records (finish_result mode res1) = vr_total_records res1"
    by (simp add: finish_result_def Let_def)
  then show ?thesis using verify_rows_total[OF r(1)] r(2) by (simp add: start_result_def Let_def)
qed

lemma hashes_ok_append:
  "hashes_ok lib v p prev (rows @ [(r, l)]) \<longleftrightarrow> hashes_ok lib v p prev rows \<and>
     check_hashes lib v (p + int (length rows))
       (if rows = [] then prev else Some (ir_row_hash (fst (last rows)))) r l = None"
  by (induction rows arbitrary: p prev) (auto simp: check_hashes_def Let_def algebra_simps split: if_splits)

section \<open>Tamper evidence\<close>

lemma check_hashes_None:
  assumes "check_hashes lib v p prev r l = None"
  shows "ir_sequence_number r = p + 1" "ir_row_hash r = sha256 lib (envelope_text lib v (r, l))"
    "0 < p \<Longrightarrow> ir_prev_hash r = prev"
  using assms
  by (auto simp: check_hashes_def Let_def envelope_text_def payload_text_def compute_payload_hash_def
      compute_row_hash_def split: if_split_asm)

lemma hex_digestsD: "hex_digests lib \<Longrightarrow> sha256 lib x \<noteq> [] \<and> CHR 0x0A \<notin> set (sha256 lib x)"
  by (simp add: hex_digests_def)

lemma hashes_nonempty:
  assumes "hex_digests lib" "hashes_ok lib v p prev rows" "rows \<noteq> []"
  shows "ir_row_hash (fst (last rows)) \<noteq> []"
proof -
  obtain xs r l where rows: "rows = xs @ [(r, l)]" using assms(3) by (metis rev_exhaust surj_pair)
  then have "ir_row_hash r = sha256 lib (envelope_text lib v (r, l))"
    using assms(2) check_hashes_None(2) by (auto simp: hashes_ok_append)
  then show ?thesis using hex_digestsD[OF assms(1)] rows by simp
qed

text \<open>Two rows at the same place with the same row hash have the same content and the same predecessor.\<close>

lemma equal_rows:
  assumes "hex_digests lib" "check_hashes lib v p prev r l = None" "check_hashes lib v p prev' r' l' = None"
    "ir_row_hash r = ir_row_hash r'"
    "collision_free lib {payload_text lib (r, l), envelope_text lib v (r, l)}
       {payload_text lib (r', l'), envelope_text lib v (r', l')}"
  shows "view_of lib (r, l) = view_of lib (r', l')"
    "(if truthy (ir_prev_hash r) then or_empty (ir_prev_hash r) else GENESIS_PREV_HASH) =
     (if truthy (ir_prev_hash r') then or_empty (ir_prev_hash r') else GENESIS_PREV_HASH)"
proof -
  have "envelope_text lib v (r, l) = envelope_text lib v (r', l')"
    using assms(4,5) check_hashes_None(2)[OF assms(2)] check_hashes_None(2)[OF assms(3)]
    by (simp add: collision_free_def)
  then have e: "row_envelope v (p + 1) (ir_audit_log_id r) (ir_prev_hash r) (sha256 lib (payload_text lib (r, l))) =
      row_envelope v (p + 1) (ir_audit_log_id r') (ir_prev_hash r') (sha256 lib (payload_text lib (r', l')))"
    using check_hashes_None(1)[OF assms(2)] check_hashes_None(1)[OF assms(3)] by (simp add: envelope_text_def)
  note inj = row_envelope_inj[OF e conjunct2[OF hex_digestsD[OF assms(1)]] conjunct2[OF hex_digestsD[OF assms(1)]]]
  then have "payload_text lib (r, l) = payload_text lib (r', l')" using assms(5) by (simp add: collision_free_def)
  then show w: "view_of lib (r, l) = view_of lib (r', l')" by (rule payload_text_view)
  then have "ir_audit_log_id r = ir_audit_log_id r'" by (simp add: view_of_def)
  then show "(if truthy (ir_prev_hash r) then or_empty (ir_prev_hash r) else GENESIS_PREV_HASH) =
     (if truthy (ir_prev_hash r') then or_empty (ir_prev_hash r') else GENESIS_PREV_HASH)"
    using inj by blast
qed

definition row_texts :: "stdlib \<Rightarrow> int \<Rightarrow> (integrity_record \<times> audit_log) list \<Rightarrow> string set" where
  "row_texts lib v rows = payload_text lib ` set rows \<union> envelope_text lib v ` set rows"

lemma collision_free_mono: "collision_free lib X Y \<Longrightarrow> X' \<subseteq> X \<Longrightarrow> Y' \<subseteq> Y \<Longrightarrow> collision_free lib X' Y'"
  by (auto simp: collision_free_def)

lemma same_head_same_rows:
  assumes "hex_digests lib" "hashes_ok lib v 0 None rows" "hashes_ok lib v 0 None rows'"
    "length rows = length rows'" "rows \<noteq> [] \<Longrightarrow> ir_row_hash (fst (last rows)) = ir_row_hash (fst (last rows'))"
    "collision_free lib (row_texts lib v rows) (row_texts lib v rows')"
  shows "map (view_of lib) rows = map (view_of lib) rows'"
  using assms(2-6)
proof (induction rows arbitrary: rows' rule: rev_induct)
  case (snoc x xs)
  then obtain ys y where ys: "rows' = ys @ [y]" by (cases rows' rule: rev_cases) auto
  obtain r l r' l' where xy: "x = (r, l)" "y = (r', l')" by fastforce
  let ?p = "int (length xs)" and ?prev = "if xs = [] then None else Some (ir_row_hash (fst (last xs)))"
    and ?prev' = "if ys = [] then None else Some (ir_row_hash (fst (last ys)))"
  have len: "length xs = length ys" "xs = [] \<longleftrightarrow> ys = []" using snoc.prems(3) ys by auto
  have h: "hashes_ok lib v 0 None xs" "check_hashes lib v ?p ?prev r l = None"
    "hashes_ok lib v 0 None ys" "check_hashes lib v ?p ?prev' r' l' = None"
    using snoc.prems(1,2) len by (auto simp: ys xy hashes_ok_append)
  have cf: "collision_free lib {payload_text lib (r, l), envelope_text lib v (r, l)}
      {payload_text lib (r', l'), envelope_text lib v (r', l')}"
    "collision_free lib (row_texts lib v xs) (row_texts lib v ys)"
    by (rule collision_free_mono[OF snoc.prems(5)]; auto simp: row_texts_def ys xy)+
  have eqh: "ir_row_hash r = ir_row_hash r'" using snoc.prems(4) by (simp add: ys xy)
  note eq = equal_rows[OF assms(1) h(2,4) eqh cf(1)]
  have "ir_row_hash (fst (last xs)) = ir_row_hash (fst (last ys))" if "xs \<noteq> []"
  proof -
    have "0 < ?p" using that by simp
    then have "ir_prev_hash r = ?prev" "ir_prev_hash r' = ?prev'"
      using check_hashes_None(3)[OF h(2)] check_hashes_None(3)[OF h(4)] by simp_all
    moreover have "ir_row_hash (fst (last xs)) \<noteq> []" "ir_row_hash (fst (last ys)) \<noteq> []"
      using hashes_nonempty[OF assms(1) h(1) that] hashes_nonempty[OF assms(1) h(3)] len that by auto
    ultimately show ?thesis using eq(2) that len by (simp add: or_empty_def)
  qed
  then have "map (view_of lib) xs = map (view_of lib) ys"
    using snoc.IH[OF h(1,3) len(1) _ cf(2)] by blast
  then show ?case using eq(1) by (simp add: ys xy)
qed simp

text \<open>
  C35. Two databases that both verify, whatever key rings and modes were used, and that end in the same
  row hash after the same number of rows, hold the same audit rows in the same order, in every column
  the chain covers; the only way out is a collision among the texts hashed for the two. So who keeps
  the newest row hash elsewhere detects any change, insertion, deletion or reordering below it.
\<close>

theorem tamper_evidence:
  assumes "hex_digests lib"
    "verify_chain lib kr mode legacy v db = Inr res" "vr_status res \<noteq> ''failed''"
    "verify_chain lib kr' mode' legacy' v db' = Inr res'" "vr_status res' \<noteq> ''failed''"
    "vr_total_records res = vr_total_records res'"
    "map ir_row_hash (map fst (joined_rows v db)) = hs @ [h]"
    "map ir_row_hash (map fst (joined_rows v db')) = hs' @ [h]"
    "collision_free lib (hashed_texts lib v db) (hashed_texts lib v db')"
  shows "map (view_of lib) (joined_rows v db) = map (view_of lib) (joined_rows v db')"
proof (rule same_head_same_rows[OF assms(1)])
  show "hashes_ok lib v 0 None (joined_rows v db)" "hashes_ok lib v 0 None (joined_rows v db')"
    using verify_chain_hashes assms(2-5) by blast+
  show "length (joined_rows v db) = length (joined_rows v db')"
    using verify_chain_total[OF assms(2)] verify_chain_total[OF assms(4)] assms(6) by simp
  have "ir_row_hash (fst (last rows)) = h" if "map ir_row_hash (map fst rows) = ks @ [h]"
    for rows :: "(integrity_record \<times> audit_log) list" and ks
    using that by (cases rows rule: rev_cases) auto
  then show "ir_row_hash (fst (last (joined_rows v db))) = ir_row_hash (fst (last (joined_rows v db')))"
    using assms(7,8) by metis
qed (use assms(9) in \<open>simp add: row_texts_def hashed_texts_def\<close>)

text \<open>Two rings, two spellings of the same artifact object: the same row hash, the same content.\<close>

definition spelling1 :: refs where
  "spelling1 = RefsObj [(''b'', JInt 1), (''a'', JInt 2)]"

definition spelling2 :: refs where
  "spelling2 = RefsObj [(''a'', JInt 2), (''b'', JInt 1)]"

lemma sample_db_verifies:
  "\<exists>res. verify_chain hex_lib (sample_ring key) ''permissive'' False CHAIN_VERSION (sample_db (sample_ring key) rf) = Inr res \<and>
    vr_status res \<noteq> ''failed'' \<and> vr_total_records res = 1"
proof -
  have inv: "chain_inv hex_lib (sample_ring key) (sample_db (sample_ring key) rf)"
    by (rule audit.inv_reachable[OF sample_db_reachable])
  show ?thesis
    using honest_chain_result[OF inv hex_lib_digests, of "''permissive''" False]
    by (auto simp: sample_ring_facts admitted_def sample_db_def)
qed

lemma spelling_payload:
  "build_canonical_payload hex_lib (sample_log spelling1) = build_canonical_payload hex_lib (sample_log spelling2)"
proof -
  have "canonicalise_value (JObj [(''b'', JInt 1), (''a'', JInt 2)]) =
      canonicalise_value (JObj [(''a'', JInt 2), (''b'', JInt 1)])" by code_simp
  then show ?thesis by (simp add: build_canonical_payload_def sample_log_def spelling1_def spelling2_def)
qed

theorem tamper_evidence_witness:
  "map (view_of hex_lib) (joined_rows CHAIN_VERSION (sample_db (sample_ring ''x'') spelling1)) =
   map (view_of hex_lib) (joined_rows CHAIN_VERSION (sample_db (sample_ring ''y'') spelling2))"
proof -
  have j: "map ir_row_hash (map fst (joined_rows CHAIN_VERSION (sample_db (sample_ring key) rf))) =
      [] @ [compute_row_hash hex_lib CHAIN_VERSION 1 ''a1'' None (compute_payload_hash hex_lib
        (build_canonical_payload hex_lib (sample_log rf)))]" for key rf
    using joined_rows_eq[OF audit.inv_reachable[OF sample_db_reachable[of key rf]]]
    by (simp add: sample_db_def new_integrity_def Let_def sample_log_def split: prod.splits)
  have c: "collision_free hex_lib X Y" for X Y
    by (simp add: collision_free_def hex_lib_def hex_text_inj)
  obtain res1 res2 where "verify_chain hex_lib (sample_ring ''x'') ''permissive'' False CHAIN_VERSION
        (sample_db (sample_ring ''x'') spelling1) = Inr res1" "vr_status res1 \<noteq> ''failed''" "vr_total_records res1 = 1"
      "verify_chain hex_lib (sample_ring ''y'') ''permissive'' False CHAIN_VERSION
        (sample_db (sample_ring ''y'') spelling2) = Inr res2" "vr_status res2 \<noteq> ''failed''" "vr_total_records res2 = 1"
    using sample_db_verifies[of "''x''" spelling1] sample_db_verifies[of "''y''" spelling2] by blast
  then show ?thesis
    using tamper_evidence[OF hex_lib_digests _ _ _ _ _ j[of "''x''" spelling1, unfolded spelling_payload]
        j[of "''y''" spelling2] c] by metis
qed

section \<open>What the verifier does not see\<close>

lemma linked_filter:
  "linked lib ring logs n prev rs \<Longrightarrow> \<forall>r \<in> set rs. P (ir_audit_log_id r) \<Longrightarrow>
   linked lib ring (filter (\<lambda>l. P (al_id l)) logs) n prev rs"
  by (induction rs arbitrary: n prev) (auto simp: good_record_def)

definition delete_audit_logs :: "string set \<Rightarrow> audit_db \<Rightarrow> audit_db" where
  "delete_audit_logs ids db = db\<lparr>ad_logs := filter (\<lambda>l. al_id l \<notin> ids) (ad_logs db)\<rparr>"

lemma linked_prefix: "linked lib ring logs n prev (rs @ rs') \<Longrightarrow> linked lib ring logs n prev rs"
  by (induction rs arbitrary: n prev) auto

lemma suffix_deleted:
  assumes "chain_inv lib ring db" "ad_records db = rs @ gone" "ids = ir_audit_log_id ` set gone"
  shows "linked lib ring (ad_logs (delete_audit_logs ids db)) 1 None rs"
    "joined_rows CHAIN_VERSION (delete_audit_logs ids db) =
       map (\<lambda>r. (r, log_of (ad_logs (delete_audit_logs ids db)) r)) rs"
proof -
  let ?logs = "ad_logs (delete_audit_logs ids db)"
  have d: "distinct (map al_id (ad_logs db))" "distinct (map ir_audit_log_id (rs @ gone))"
    "linked lib ring (ad_logs db) 1 None (rs @ gone)" using assms(1,2) by (simp_all add: chain_inv_def)
  have "\<forall>r \<in> set rs. ir_audit_log_id r \<notin> ids" using d(2) assms(3) by auto
  then show l: "linked lib ring ?logs 1 None rs"
    using linked_filter[OF linked_prefix[OF d(3)], of "\<lambda>i. i \<notin> ids"] by (simp add: delete_audit_logs_def)
  have dl: "distinct (map al_id ?logs)" using d(1) by (simp add: delete_audit_logs_def distinct_map_filter)
  have "chain_records CHAIN_VERSION (delete_audit_logs ids db) = rs @ gone"
    using chain_records_eq[OF assms(1)] assms(2) by (simp add: chain_records_def delete_audit_logs_def)
  moreover have "List.map_filter (\<lambda>r. map_option (Pair r) (find (\<lambda>l. al_id l = ir_audit_log_id r) ?logs)) gone = []"
  proof -
    have "find (\<lambda>l. al_id l = ir_audit_log_id r) ?logs = None" if "r \<in> set gone" for r
      using that assms(3) by (auto simp: find_None_iff delete_audit_logs_def)
    then show ?thesis by (simp add: List.map_filter_def)
  qed
  moreover have "List.map_filter (\<lambda>r. map_option (Pair r) (find (\<lambda>l. al_id l = ir_audit_log_id r) ?logs)) rs =
      map (\<lambda>r. (r, log_of ?logs r)) rs"
  proof (rule map_filter_all)
    fix r assume "r \<in> set rs"
    from linked_logs[OF l this] obtain x where x: "x \<in> set ?logs" "al_id x = ir_audit_log_id r" by blast
    show "map_option (Pair r) (find (\<lambda>l. al_id l = ir_audit_log_id r) ?logs) = Some (r, log_of ?logs r)"
      using find_log[OF dl x] by (simp add: log_of_def)
  qed
  ultimately show "joined_rows CHAIN_VERSION (delete_audit_logs ids db) = map (\<lambda>r. (r, log_of ?logs r)) rs"
    by (simp add: joined_rows_def map_filter_def)
qed

text \<open>
  Deleting the newest audit rows is not detected: take a fully recorded chain that verifies and
  delete the audit rows of any final stretch of its records, which no foreign key prevents. The verifier
  then answers passed with no failed record; only the counter of extra integrity records shows it.
\<close>

theorem deleted_tail_passes:
  assumes "(audit_step lib ring)\<^sup>*\<^sup>* empty_audit_db db" "hex_digests lib"
    "kr_mode ring \<notin> {''none'', ''invalid''}" "\<forall>r \<in> set (ad_records db). admitted mode legacy r"
    "al_id ` set (ad_logs db) = ir_audit_log_id ` set (ad_records db)"
    "ad_records db = rs @ gone"
  shows "\<exists>res. verify_chain lib ring mode legacy CHAIN_VERSION
      (delete_audit_logs (ir_audit_log_id ` set gone) db) = Inr res \<and>
    vr_status res = ''passed'' \<and> vr_failed_records res = 0 \<and> vr_failure_reason res = None \<and>
    vr_verified_records res = length rs \<and> vr_extra_integrity_records res = length gone"
proof -
  let ?db = "delete_audit_logs (ir_audit_log_id ` set gone) db"
  let ?s = "start_result ring mode CHAIN_VERSION ?db"
  have inv: "chain_inv lib ring db" using audit.inv_reachable[OF assms(1)] .
  note sd = suffix_deleted[OF inv assms(6) refl]
  have d: "distinct (map al_id (ad_logs db))" "distinct (map ir_audit_log_id (rs @ gone))"
    using inv assms(6) by (simp_all add: chain_inv_def)
  have "distinct (map al_id (ad_logs ?db))" using d(1) by (simp add: delete_audit_logs_def distinct_map_filter)
  from verify_rows_honest[OF assms(2,3) this, of 0 None rs mode legacy ?s] sd assms(4,6)
  obtain res where r: "verify_rows lib ring mode legacy CHAIN_VERSION (joined_rows CHAIN_VERSION ?db) 0 None ?s = Inr res"
      "advanced (length rs) ?s res" by auto
  have "al_id ` set (ad_logs ?db) = ir_audit_log_id ` set rs"
  proof -
    have "al_id ` set (ad_logs ?db) = al_id ` set (ad_logs db) - ir_audit_log_id ` set gone"
      by (auto simp: delete_audit_logs_def)
    also have "\<dots> = ir_audit_log_id ` set rs" using assms(5,6) d(2) by auto
    finally show ?thesis .
  qed
  then have "length (ad_logs ?db) = length rs"
    using distinct_card[of "map al_id (ad_logs ?db)"] distinct_card[of "map ir_audit_log_id rs"] d
      \<open>distinct (map al_id (ad_logs ?db))\<close> by simp
  moreover have "count_records CHAIN_VERSION ?db = length rs + length gone"
    using chain_counts(1)[OF inv] assms(6) by (simp add: count_records_def delete_audit_logs_def)
  ultimately show ?thesis
    using r sd(2) by (auto simp: verify_chain_def finish_result_def advanced_def start_result_def Let_def)
qed

theorem deleted_tail_passes_witness:
  "\<exists>res. verify_chain hex_lib (sample_ring ''x'') ''strict'' False CHAIN_VERSION
      (delete_audit_logs {''a1''} (sample_db (sample_ring ''x'') RefsNone)) = Inr res \<and>
    vr_status res = ''passed'' \<and> vr_extra_integrity_records res = 1"
proof -
  let ?db = "sample_db (sample_ring ''x'') RefsNone"
  have a: "\<forall>r \<in> set (ad_records ?db). admitted ''strict'' False r"
    using hex_text_digest
    by (auto simp: sample_db_def admitted_def new_integrity_def Let_def sign_def sample_ring_facts)
  have i: "ir_audit_log_id ` set (ad_records ?db) = {''a1''}" "length (ad_records ?db) = 1"
    "al_id ` set (ad_logs ?db) = {''a1''}"
    by (simp_all add: sample_db_def new_integrity_def Let_def sample_log_def split: prod.splits)
  show ?thesis
    using deleted_tail_passes[OF sample_db_reachable hex_lib_digests _ a, of "[]" "ad_records ?db"] i
    by (auto simp: sample_ring_facts)
qed

end
