(* ===== verification/Audit_Forensics_Props.thy ===== *)
theory Audit_Forensics_Props imports Audit_Forensics Audit_Tamper begin

text \<open>
  What the forensic analysis guarantees: no secret survives redaction, the scan agrees with the verifier
  up to one case, and exactly when the classification allows a repair.
\<close>

section \<open>Redaction\<close>

text \<open>A word of the pattern: a prefix and eight characters of its class.\<close>

definition secret_word :: "string \<Rightarrow> bool" where
  "secret_word w \<longleftrightarrow> (\<exists>pk \<in> set SECRET_SCRUB. \<exists>t. w = fst pk @ t \<and> length t = 8 \<and> list_all (snd pk) t)"

lemma takeWhile_prefix: "n \<le> length (takeWhile P xs) \<longleftrightarrow> n \<le> length xs \<and> list_all P (take n xs)"
proof (induction xs arbitrary: n)
  case (Cons x xs)
  then show ?case by (cases n) auto
qed simp

lemma token_rest_iff:
  "token_rest pk s \<noteq> None \<longleftrightarrow> (\<exists>t. prefix (fst pk @ t) s \<and> length t = 8 \<and> list_all (snd pk) t)"
proof -
  have "(\<exists>t. prefix (fst pk @ t) s \<and> length t = 8 \<and> list_all (snd pk) t)"
    if m: "starts_with (fst pk) s" "8 \<le> length (takeWhile (snd pk) (drop (length (fst pk)) s))"
  proof -
    obtain r where r: "s = fst pk @ r" using m(1) by (auto simp: starts_with_iff)
    then have "8 \<le> length r" "list_all (snd pk) (take 8 r)" using m(2) by (simp_all add: takeWhile_prefix)
    then show ?thesis using r
      by (intro exI[of _ "take 8 r"]) (simp add: take_is_prefix)
  qed
  moreover have "starts_with (fst pk) s \<and> 8 \<le> length (takeWhile (snd pk) (drop (length (fst pk)) s))"
    if m: "prefix (fst pk @ t) s" "length t = 8" "list_all (snd pk) t" for t
  proof -
    obtain r where "s = fst pk @ t @ r" using m(1) by (auto simp: prefix_def)
    then show ?thesis using m(2,3) by (auto simp: starts_with_iff takeWhile_prefix)
  qed
  ultimately show ?thesis by (auto simp: token_rest_def Let_def)
qed

lemma first_rest_iff: "first_rest pks s \<noteq> None \<longleftrightarrow> (\<exists>pk \<in> set pks. token_rest pk s \<noteq> None)"
  by (induction pks) (auto split: option.splits)

lemma secret_at_iff: "first_rest SECRET_SCRUB s \<noteq> None \<longleftrightarrow> (\<exists>w. secret_word w \<and> prefix w s)"
  unfolding first_rest_iff token_rest_iff secret_word_def by blast

lemma secret_word_chars:
  assumes "secret_word w"
  shows "\<exists>c w'. w = c # w' \<and> c \<in> {CHR ''g'', CHR ''s'', CHR ''x''}" "CHR ''['' \<notin> set w" "CHR ''.'' \<notin> set w"
proof -
  obtain pk t where pk: "pk \<in> set SECRET_SCRUB" "w = fst pk @ t" "list_all (snd pk) t"
    using assms by (auto simp: secret_word_def)
  show "\<exists>c w'. w = c # w' \<and> c \<in> {CHR ''g'', CHR ''s'', CHR ''x''}"
    using pk(1,2) by (auto simp: SECRET_SCRUB_def)
  have "\<forall>pk \<in> set SECRET_SCRUB. CHR ''['' \<notin> set (fst pk) \<and> CHR ''.'' \<notin> set (fst pk) \<and>
      \<not> snd pk (CHR ''['') \<and> \<not> snd pk (CHR ''.'')"
    by (simp add: SECRET_SCRUB_def is_alnum_def)
  then show "CHR ''['' \<notin> set w" "CHR ''.'' \<notin> set w"
    using pk by (auto simp: list_all_iff)
qed

lemma scrub_kept: "prefix w (scrub s) \<Longrightarrow> CHR ''['' \<notin> set w \<Longrightarrow> prefix w s"
proof (induction s arbitrary: w rule: scrub.induct)
  case (2 c s)
  show ?case
  proof (cases w)
    case (Cons d w')
    show ?thesis
      using 2 Cons by (cases "first_rest SECRET_SCRUB (c # s)") auto
  qed simp
qed simp

lemma redacted_mark_no_secret: "suffix y ''[REDACTED]'' \<Longrightarrow> y \<noteq> [] \<Longrightarrow> secret_word w \<Longrightarrow> \<not> prefix w (y @ z)"
  using secret_word_chars(1)[of w] by (auto simp: suffix_Cons)

lemma suffix_append_cases: "suffix y (a @ b) \<Longrightarrow> suffix y b \<or> (\<exists>u. u \<noteq> [] \<and> suffix u a \<and> y = u @ b)"
proof -
  assume "suffix y (a @ b)"
  then obtain z where "a @ b = z @ y" by (auto simp: suffix_def)
  then show ?thesis
    by (auto simp: append_eq_append_conv2 suffix_def)
qed

lemma scrub_no_secret: "suffix y (scrub s) \<Longrightarrow> secret_word w \<Longrightarrow> \<not> prefix w y"
proof (induction s arbitrary: y rule: scrub.induct)
  case 1
  then show ?case using secret_word_chars(1)[of w] by auto
next
  case (2 c s)
  show ?case
  proof (cases "first_rest SECRET_SCRUB (c # s)")
    case None
    show ?thesis
    proof
      assume p: "prefix w y"
      consider "suffix y (scrub s)" | "y = c # scrub s" using 2(3) None by (auto simp: suffix_Cons)
      then show False
      proof cases
        case 1
        then show False using 2(1)[OF None] 2(4) p by blast
      next
        case y: 2
        obtain d w' where w: "w = d # w'" using secret_word_chars(1)[OF 2(4)] by blast
        have "prefix w' s" using scrub_kept[of w' s] secret_word_chars(2)[OF 2(4)] p y w by auto
        then have "prefix w (c # s)" using p y w by auto
        then show False using secret_at_iff[of "c # s"] None 2(4) by auto
      qed
    qed
  next
    case (Some t)
    then have "suffix y (''[REDACTED]'' @ scrub t)" using 2(3) by simp
    from suffix_append_cases[OF this] show ?thesis
    proof (elim disjE exE conjE)
      assume "suffix y (scrub t)"
      then show ?thesis using 2(2)[OF Some] 2(4) by blast
    next
      fix u assume "u \<noteq> []" "suffix u ''[REDACTED]''" "y = u @ scrub t"
      then show ?thesis using redacted_mark_no_secret 2(4) by blast
    qed
  qed
qed

text \<open>
  No secret survives redaction: nowhere in a redacted summary, truncated or not, does a token of the
  known shapes start, and a summary without such a token that fits the limit is kept as it is.
\<close>

theorem redaction_complete:
  "(suffix y (redact_summary summary) \<and> secret_word w \<longrightarrow> \<not> prefix w y) \<and>
   (length s \<le> SUMMARY_MAX \<and> (\<forall>y w. suffix y s \<and> secret_word w \<longrightarrow> \<not> prefix w y) \<longrightarrow>
     redact_summary (Some s) = s) \<and>
   length (redact_summary summary) \<le> SUMMARY_MAX + 14"
proof (intro conjI impI; (elim conjE)?)
  assume y: "suffix y (redact_summary summary)" and w: "secret_word w"
  obtain c w' where c: "w = c # w'" "c \<in> {CHR ''g'', CHR ''s'', CHR ''x''}" using secret_word_chars(1)[OF w] by blast
  let ?s = "scrub (or_empty summary)"
  consider "y = []" | "suffix y ?s" | "suffix y (take SUMMARY_MAX ?s @ ''...[truncated]'')"
    using y by (auto simp: redact_summary_def Let_def split: if_split_asm)
  then show "\<not> prefix w y"
  proof cases
    case 3
    from suffix_append_cases[OF this] show ?thesis
    proof (elim disjE exE conjE)
      assume "suffix y ''...[truncated]''"
      then show ?thesis using c(2) secret_word_chars(2,3)[OF w] c(1)
        by (auto simp: suffix_Cons)
    next
      fix u assume u: "u \<noteq> []" "suffix u (take SUMMARY_MAX ?s)" "y = u @ ''...[truncated]''"
      show ?thesis
      proof
        assume "prefix w y"
        then have "prefix w u" using secret_word_chars(3)[OF w] unfolding u(3) prefix_append
          by (auto simp: prefix_Cons)
        moreover obtain z where "take SUMMARY_MAX ?s = z @ u" using u(2) by (auto simp: suffix_def)
        then have "suffix (u @ drop SUMMARY_MAX ?s) ?s"
          by (metis append.assoc append_take_drop_id suffixI)
        ultimately show False using scrub_no_secret[OF _ w, of "u @ drop SUMMARY_MAX ?s"] by (auto simp: prefix_append)
      qed
    qed
  qed (use scrub_no_secret[OF _ w] c(1) in auto)
next
  assume l: "length s \<le> SUMMARY_MAX" and n: "\<forall>y w. suffix y s \<and> secret_word w \<longrightarrow> \<not> prefix w y"
  have "(\<forall>y w. suffix y s \<and> secret_word w \<longrightarrow> \<not> prefix w y) \<Longrightarrow> scrub s = s" for s
  proof (induction s)
    case (Cons c s)
    then have "first_rest SECRET_SCRUB (c # s) = None" using secret_at_iff[of "c # s"] by auto
    moreover have "\<forall>y w. suffix y s \<and> secret_word w \<longrightarrow> \<not> prefix w y" using Cons.prems by (auto simp: suffix_Cons)
    ultimately show ?case using Cons.IH by simp
  qed simp
  then show "redact_summary (Some s) = s" using l n by (auto simp: redact_summary_def or_empty_def)
next
  show "length (redact_summary summary) \<le> SUMMARY_MAX + 14" by (auto simp: redact_summary_def Let_def)
qed

theorem redaction_complete_witness:
  "redact_summary (Some ''key sk-abcdefgh1 leaked'') = ''key [REDACTED] leaked'' \<and>
   \<not> prefix ''sk-abcdefgh'' ''[REDACTED] leaked'' \<and> redact_summary (Some ''plain'') = ''plain''"
proof -
  have r: "redact_summary (Some ''key sk-abcdefgh1 leaked'') = ''key [REDACTED] leaked''" by code_simp
  have w: "secret_word ''sk-abcdefgh''"
    by (auto simp: secret_word_def SECRET_SCRUB_def is_alnum_def)
  have s: "suffix ''[REDACTED] leaked'' (redact_summary (Some ''key sk-abcdefgh1 leaked''))"
    unfolding r by (rule suffixI[of _ "''key ''"]) simp
  have p: "\<forall>y w. suffix y ''plain'' \<and> secret_word w \<longrightarrow> \<not> prefix w y"
  proof (intro allI impI notI, elim conjE)
    fix y w assume "suffix y ''plain''" "secret_word w" "prefix w y"
    then have "length w \<le> 5" using suffix_length_le prefix_length_le by fastforce
    then show False using \<open>secret_word w\<close> by (auto simp: secret_word_def)
  qed
  show ?thesis
    using redaction_complete[of "''[REDACTED] leaked''" "Some ''key sk-abcdefgh1 leaked''" "''sk-abcdefgh''" "''plain''"]
      r w s p by (simp add: SUMMARY_MAX_def)
qed

section \<open>The scan and the verifier\<close>

lemma classify_record_keeps [simp]:
  "fa_failure_types (classify_record a) = fa_failure_types a"
  "fa_tamper_marker (classify_record a) = fa_tamper_marker a"
  "fa_recovered_matches (classify_record a) = fa_recovered_matches a"
  "fa_production_executed (classify_record a) = fa_production_executed a"
  "fa_decision_type (classify_record a) = fa_decision_type a"
  "fa_sequence (classify_record a) = fa_sequence a"
  by (simp_all add: classify_record_def Let_def)

lemma analyse_failure_types:
  "fa_failure_types (analyse_record lib v n aid l sc sr sp ss ep ''n/a'') =
    failure_types (compute_payload_hash lib (build_canonical_payload lib (l\<lparr>al_id := aid\<rparr>))) sc
      (compute_row_hash lib v n aid sp (compute_payload_hash lib (build_canonical_payload lib (l\<lparr>al_id := aid\<rparr>)))) sr
      sp ep ''n/a''"
  by (simp add: analyse_record_def Let_def)

lemma no_failure_types:
  "failure_types rc sc rr sr sp ep ''n/a'' = [] \<longleftrightarrow> rc = sc \<and> rr = sr \<and> (ep = None \<or> sp = None \<or> sp = ep)"
  by (auto simp: failure_types_def vocabulary_defs)

lemma scan_rows_Nil:
  "scan_rows lib v rows p prev = [] \<and> (\<forall>r \<in> fst ` set rows. 1 < ir_sequence_number r \<longrightarrow> ir_prev_hash r \<noteq> None)
     \<longleftrightarrow> hashes_ok lib v p prev rows" if "0 < p \<longrightarrow> prev \<noteq> None" "0 \<le> p"
  using that
proof (induction rows arbitrary: p prev)
  case (Cons rl rows)
  obtain r l where rl: "rl = (r, l)" by fastforce
  let ?n = "ir_sequence_number r"
  have step: "check_hashes lib v p prev r l = None \<longleftrightarrow> ?n = p + 1 \<and>
      fa_failure_types (analyse_record lib v ?n (ir_audit_log_id r) l (ir_payload_hash r) (ir_row_hash r)
        (ir_prev_hash r) (ir_signature_status r) (if 1 < ?n then prev else None) ''n/a'') = [] \<and>
      (1 < ?n \<longrightarrow> ir_prev_hash r \<noteq> None)"
    using Cons.prems unfolding analyse_failure_types no_failure_types
    by (auto simp: check_hashes_def Let_def)
  show ?case
  proof (cases "?n = p + 1")
    case True
    have "0 < ?n \<longrightarrow> Some (ir_row_hash r) \<noteq> None" "0 \<le> ?n" using Cons.prems True by simp_all
    note IH = Cons.IH[OF this]
    show ?thesis using True step IH by (auto simp: rl Let_def)
  next
    case False
    then have "scan_rows lib v (rl # rows) p prev \<noteq> []" by (simp add: rl Let_def)
    then show ?thesis using False step by (auto simp: rl)
  qed
qed simp

lemma chain_only_rows:
  assumes "vr_status res \<noteq> ''failed''"
  shows "\<exists>res'. verify_rows lib kr ''chain_only'' legacy v rows p prev res = Inr res' \<and>
    (if hashes_ok lib v p prev rows then vr_status res' = vr_status res else vr_status res' = ''failed'')"
  using assms
proof (induction rows arbitrary: p prev res)
  case (Cons rl rows)
  obtain r l where rl: "rl = (r, l)" by fastforce
  show ?case
  proof (cases "check_hashes lib v p prev r l")
    case None
    have "check_signature lib kr ''chain_only'' legacy r res = Inr (res, False)"
      by (simp add: check_signature_def Let_def)
    moreover obtain res' where "verify_rows lib kr ''chain_only'' legacy v rows (ir_sequence_number r)
        (Some (ir_row_hash r)) (res\<lparr>vr_verified_records := vr_verified_records res + 1\<rparr>) = Inr res'"
      "if hashes_ok lib v (ir_sequence_number r) (Some (ir_row_hash r)) rows then vr_status res' = vr_status res
       else vr_status res' = ''failed''"
      using Cons.IH[of "res\<lparr>vr_verified_records := vr_verified_records res + 1\<rparr>" "ir_sequence_number r"
          "Some (ir_row_hash r)"] Cons.prems by auto
    ultimately show ?thesis using None by (simp add: rl)
  next
    case (Some why)
    then show ?thesis by (cases why) (simp add: rl)
  qed
qed simp

lemma chain_only_verdict:
  "\<exists>res. verify_chain lib kr ''chain_only'' legacy v db = Inr res \<and>
    (vr_status res = ''failed'' \<longleftrightarrow> \<not> hashes_ok lib v 0 None (joined_rows v db))"
proof -
  have "vr_status (start_result kr ''chain_only'' v db) = ''passed''" by (simp add: start_result_def Let_def)
  then obtain res where "verify_rows lib kr ''chain_only'' legacy v (joined_rows v db) 0 None
      (start_result kr ''chain_only'' v db) = Inr res"
    "if hashes_ok lib v 0 None (joined_rows v db) then vr_status res = ''passed'' else vr_status res = ''failed''"
    using chain_only_rows[of "start_result kr ''chain_only'' v db" lib kr legacy v "joined_rows v db" 0 None] by auto
  then show ?thesis by (auto simp: verify_chain_def finish_result_def Let_def split: if_split_asm)
qed

text \<open>
  The forensic scan and the verifier agree on the hashes, up to one case the scan does not see: a
  record that is not the first and stores no previous hash. So the verifier, asked for the chain only,
  fails exactly when the scan finds a record or there is such a severed one.
\<close>

theorem scan_agrees_with_verifier:
  "\<exists>res. verify_chain lib kr ''chain_only'' legacy v db = Inr res \<and>
    (vr_status res = ''failed'' \<longleftrightarrow> scan lib v db \<noteq> [] \<or>
       (\<exists>r \<in> fst ` set (joined_rows v db). 1 < ir_sequence_number r \<and> ir_prev_hash r = None))"
proof -
  obtain res where r: "verify_chain lib kr ''chain_only'' legacy v db = Inr res"
      "vr_status res = ''failed'' \<longleftrightarrow> \<not> hashes_ok lib v 0 None (joined_rows v db)"
    using chain_only_verdict[of lib kr legacy v db] by blast
  have e: "\<not> hashes_ok lib v 0 None (joined_rows v db) \<longleftrightarrow> scan lib v db \<noteq> [] \<or>
      (\<exists>r \<in> fst ` set (joined_rows v db). 1 < ir_sequence_number r \<and> ir_prev_hash r = None)"
  proof -
    have h: "scan_rows lib v (joined_rows v db) 0 None = [] \<and> (\<forall>r \<in> fst ` set (joined_rows v db).
        1 < ir_sequence_number r \<longrightarrow> ir_prev_hash r \<noteq> None) \<longleftrightarrow> hashes_ok lib v 0 None (joined_rows v db)"
      by (rule scan_rows_Nil) simp_all
    show ?thesis unfolding scan_def h[symmetric]
      by (simp only: de_Morgan_conj bex_simps ball_simps not_imp not_not)
  qed
  show ?thesis using r(1) r(2)[unfolded e] by blast
qed

section \<open>When a repair is allowed\<close>

text \<open>Provably a test marker; and content that differs from what was hashed, without a marker.\<close>

definition proven_test_tamper :: "failed_record \<Rightarrow> bool" where
  "proven_test_tamper a \<longleftrightarrow> FAILURE_CANONICAL_PAYLOAD_HASH \<in> set (fa_failure_types a) \<and>
     fa_tamper_marker a \<and> fa_recovered_matches a \<and> fa_production_executed a = Some False"

definition unexplained_change :: "failed_record \<Rightarrow> bool" where
  "unexplained_change a \<longleftrightarrow> FAILURE_CANONICAL_PAYLOAD_HASH \<in> set (fa_failure_types a) \<and> \<not> fa_tamper_marker a"

definition classified :: "failed_record \<Rightarrow> bool" where
  "classified a \<longleftrightarrow> (\<exists>b. a = classify_record b \<or>
     a = (classify_record b)\<lparr>fa_failure_types := FAILURE_SEQUENCE_GAP # fa_failure_types b\<rparr>)"

lemma classify_record_cause:
  "fa_root_cause (classify_record a) =
    (if proven_test_tamper a then ROOT_CAUSE_TEST_TAMPER_NOT_RESTORED
     else if FAILURE_CANONICAL_PAYLOAD_HASH \<in> set (fa_failure_types a) then ROOT_CAUSE_AUDIT_LOG_MUTATED
     else fa_root_cause (classify_record a))"
  "fa_root_cause (classify_record a) \<in> {ROOT_CAUSE_TEST_TAMPER_NOT_RESTORED, ROOT_CAUSE_AUDIT_LOG_MUTATED} \<longleftrightarrow>
    FAILURE_CANONICAL_PAYLOAD_HASH \<in> set (fa_failure_types a)"
  "fa_repairable (classify_record a) = proven_test_tamper a"
  "fa_root_cause (classify_record a) \<in> set REPAIRABLE_ROOT_CAUSES \<longleftrightarrow> proven_test_tamper a"
  by (auto simp: classify_record_def Let_def proven_test_tamper_def REPAIRABLE_ROOT_CAUSES_def
      ROOT_CAUSE_TEST_TAMPER_NOT_RESTORED_def ROOT_CAUSE_CANONICALIZATION_VERSION_DRIFT_def
      ROOT_CAUSE_DIRECT_POST_LEGACY_GAP_def ROOT_CAUSE_AUDIT_LOG_MUTATED_def
      ROOT_CAUSE_MANUAL_DATABASE_CHANGE_def ROOT_CAUSE_HMAC_KEY_MISSING_ONLY_def ROOT_CAUSE_UNKNOWN_def)

lemma gap_is_no_mismatch [simp]: "FAILURE_CANONICAL_PAYLOAD_HASH \<noteq> FAILURE_SEQUENCE_GAP"
  by (simp add: vocabulary_defs)

lemma classified_facts:
  assumes "classified a"
  shows "fa_repairable a = proven_test_tamper a"
    "fa_root_cause a \<in> set REPAIRABLE_ROOT_CAUSES \<longleftrightarrow> proven_test_tamper a"
    "proven_test_tamper a \<Longrightarrow> fa_root_cause a = ROOT_CAUSE_TEST_TAMPER_NOT_RESTORED"
    "unexplained_change a \<Longrightarrow> fa_root_cause a = ROOT_CAUSE_AUDIT_LOG_MUTATED"
proof -
  obtain b where b: "a = classify_record b \<or>
     a = (classify_record b)\<lparr>fa_failure_types := FAILURE_SEQUENCE_GAP # fa_failure_types b\<rparr>"
    using assms by (auto simp: classified_def)
  then have p: "proven_test_tamper a = proven_test_tamper b" "unexplained_change a = unexplained_change b"
    by (auto simp: proven_test_tamper_def unexplained_change_def)
  have r: "fa_root_cause a = fa_root_cause (classify_record b)" "fa_repairable a = fa_repairable (classify_record b)"
    using b by auto
  show "fa_repairable a = proven_test_tamper a" "fa_root_cause a \<in> set REPAIRABLE_ROOT_CAUSES \<longleftrightarrow> proven_test_tamper a"
    by (simp_all only: r p classify_record_cause(3,4))
  show "proven_test_tamper a \<Longrightarrow> fa_root_cause a = ROOT_CAUSE_TEST_TAMPER_NOT_RESTORED"
    unfolding r(1) p by (subst classify_record_cause(1)) simp
  show "unexplained_change a \<Longrightarrow> fa_root_cause a = ROOT_CAUSE_AUDIT_LOG_MUTATED"
    unfolding r(1) p by (subst classify_record_cause(1)) (auto simp: unexplained_change_def proven_test_tamper_def)
qed

lemma scan_classified: "a \<in> set (scan_rows lib v rows p prev) \<Longrightarrow> classified a"
proof (induction rows arbitrary: p prev)
  case (Cons rl rows)
  obtain r l where rl: "rl = (r, l)" by fastforce
  define A where "A = analyse_record lib v (ir_sequence_number r) (ir_audit_log_id r) l (ir_payload_hash r)
     (ir_row_hash r) (ir_prev_hash r) (ir_signature_status r) (if 1 < ir_sequence_number r then prev else None) ''n/a''"
  obtain b where b: "A = classify_record b" unfolding A_def analyse_record_def Let_def by blast
  have "classified A" "classified (A\<lparr>fa_failure_types := FAILURE_SEQUENCE_GAP # fa_failure_types A\<rparr>)"
    unfolding b classified_def by auto
  moreover have "a \<in> set (scan_rows lib v rows (ir_sequence_number r) (Some (ir_row_hash r))) \<or> a = A \<or>
      a = A\<lparr>fa_failure_types := FAILURE_SEQUENCE_GAP # fa_failure_types A\<rparr>"
    using Cons.prems unfolding rl scan_rows.simps Let_def A_def[symmetric] by (auto split: if_split_asm)
  ultimately show ?case using Cons.IH by blast
qed simp

lemma repair_offer_iff:
  "cc_repair_allowed (classify_chain_root_cause (scan lib v db)) \<longleftrightarrow>
    (scan lib v db \<noteq> [] \<and> (\<forall>a \<in> set (scan lib v db). fa_production_executed a \<noteq> Some True) \<and>
     ((\<forall>a \<in> set (scan lib v db). fa_repairable a \<and> proven_test_tamper a) \<or>
      (\<forall>a \<in> set (scan lib v db). \<not> fa_repairable a \<and> unexplained_change a) \<and> 3 \<le> length (scan lib v db) \<and>
        (\<exists>t. fa_decision_type ` set (scan lib v db) - {[]} = {t})))"
proof -
  define F where "F = scan lib v db"
  define T where "T = sort (remdups (filter (\<lambda>t. t \<noteq> []) (map fa_decision_type F)))"
  define C where "C = remdups (map fa_root_cause F)"
  have cl: "\<And>a. a \<in> set F \<Longrightarrow> classified a" unfolding F_def scan_def by (rule scan_classified)
  have T1: "length T = 1 \<longleftrightarrow> (\<exists>t. fa_decision_type ` set F - {[]} = {t})"
  proof -
    have "length T = card (set T)" unfolding T_def by (simp add: distinct_card[symmetric])
    moreover have "set T = fa_decision_type ` set F - {[]}" by (auto simp: T_def)
    ultimately show ?thesis by (simp add: card_1_singleton_iff)
  qed
  have drift: "list_all (\<lambda>r. FAILURE_CANONICAL_PAYLOAD_HASH \<in> set (fa_failure_types r) \<and> \<not> fa_tamper_marker r) F \<and>
      set C \<subseteq> {ROOT_CAUSE_AUDIT_LOG_MUTATED, ROOT_CAUSE_CANONICALIZATION_VERSION_DRIFT} \<longleftrightarrow>
      (\<forall>a \<in> set F. unexplained_change a)"
    using classified_facts(4)[OF cl] by (auto simp: list_all_iff C_def unexplained_change_def)
  have un: "unexplained_change a \<Longrightarrow> \<not> fa_repairable a \<and> \<not> proven_test_tamper a" if "a \<in> set F" for a
    using classified_facts(1)[OF cl[OF that]] by (auto simp: unexplained_change_def proven_test_tamper_def)
  have single: "length C = 1 \<and> list_all fa_repairable F \<and> hd C \<in> set REPAIRABLE_ROOT_CAUSES \<longleftrightarrow>
      (\<forall>a \<in> set F. fa_repairable a \<and> proven_test_tamper a)" if ne: "F \<noteq> []"
  proof
    assume "length C = 1 \<and> list_all fa_repairable F \<and> hd C \<in> set REPAIRABLE_ROOT_CAUSES"
    then show "\<forall>a \<in> set F. fa_repairable a \<and> proven_test_tamper a"
      using classified_facts(1)[OF cl] by (simp add: list_all_iff)
  next
    assume a: "\<forall>a \<in> set F. fa_repairable a \<and> proven_test_tamper a"
    then have "\<forall>a \<in> set F. fa_root_cause a = ROOT_CAUSE_TEST_TAMPER_NOT_RESTORED"
      using classified_facts(3)[OF cl] by blast
    moreover obtain f where "f \<in> set F" using ne by (cases F) auto
    ultimately have sC: "set C = {ROOT_CAUSE_TEST_TAMPER_NOT_RESTORED}" unfolding C_def set_remdups set_map by auto
    have "card (set C) = length C" by (rule distinct_card) (simp add: C_def)
    then have "length C = 1" unfolding sC by simp
    moreover from this sC have "hd C = ROOT_CAUSE_TEST_TAMPER_NOT_RESTORED" by (cases C) auto
    ultimately show "length C = 1 \<and> list_all fa_repairable F \<and> hd C \<in> set REPAIRABLE_ROOT_CAUSES"
      using a by (simp add: list_all_iff REPAIRABLE_ROOT_CAUSES_def)
  qed
  have prod: "list_ex (\<lambda>r. fa_production_executed r = Some True) F \<longleftrightarrow>
      \<not> (\<forall>a \<in> set F. fa_production_executed a \<noteq> Some True)" by (simp add: list_ex_iff)
  show ?thesis
  proof (cases "F = []")
    case True
    then show ?thesis by (simp add: F_def classify_chain_root_cause_def)
  next
    case False
    have "cc_repair_allowed (classify_chain_root_cause F) =
        (if 3 \<le> length F \<and> length T = 1 \<and> (\<forall>a \<in> set F. unexplained_change a)
         then \<not> list_ex (\<lambda>r. fa_production_executed r = Some True) F
         else length C = 1 \<and> list_all fa_repairable F \<and> hd C \<in> set REPAIRABLE_ROOT_CAUSES \<and>
           \<not> list_ex (\<lambda>r. fa_production_executed r = Some True) F)"
      using False unfolding classify_chain_root_cause_def Let_def T_def[symmetric] C_def[symmetric] drift[symmetric]
      by auto
    moreover have "(\<forall>a \<in> set F. unexplained_change a) \<longleftrightarrow>
        (\<forall>a \<in> set F. \<not> fa_repairable a \<and> unexplained_change a)" using un by blast
    moreover have "\<not> ((\<forall>a \<in> set F. unexplained_change a) \<and> (\<forall>a \<in> set F. fa_repairable a \<and> proven_test_tamper a))"
      using un False by (metis list.set_intros(1) neq_Nil_conv)
    ultimately show ?thesis
      using False single[OF False] unfolding F_def[symmetric] T1 prod by argo
  qed
qed

text \<open>
  Exactly when the forensic classification offers a repair: something failed, no failing record is
  marked production, and either every one is a proven test tamper, or at least three audit rows of one
  decision type were changed without a marker. In the second case no record is repairable by itself.
\<close>

theorem repair_offer_exact:
  "cc_repair_allowed (classify_chain_root_cause (scan lib v db)) \<longleftrightarrow>
    (scan lib v db \<noteq> [] \<and> (\<forall>a \<in> set (scan lib v db). fa_production_executed a \<noteq> Some True) \<and>
     ((\<forall>a \<in> set (scan lib v db). fa_repairable a \<and> proven_test_tamper a) \<or>
      (\<forall>a \<in> set (scan lib v db). \<not> fa_repairable a \<and> unexplained_change a) \<and> 3 \<le> length (scan lib v db) \<and>
        (\<exists>t. fa_decision_type ` set (scan lib v db) - {[]} = {t})))"
  by (rule repair_offer_iff)

end
