(* ===== verification/Audit_Repair_Props.thy ===== *)
theory Audit_Repair_Props imports Audit_Repair Audit_Forensics_Props begin

text \<open>
  What a repair guarantees: it changes nothing but the hash columns and the status of records of the
  failed tail, commits only a chain that verifies, and on a complete chain succeeds exactly when the
  hashes below its start are right. And what it does not: the signatures of
  the records it rebinds become invalid, and rewritten audit rows can be offered for repair.
\<close>

section \<open>The check inside the transaction\<close>

lemma verify_walk_ok: "fst (verify_walk lib v rows p prev) \<longleftrightarrow> hashes_ok lib v p prev rows"
proof (induction rows arbitrary: p prev)
  case (Cons rl rows)
  then show ?case by (cases rl) (simp add: Let_def check_hashes_def)
qed simp

lemma hashes_ok_app:
  "hashes_ok lib v p prev (xs @ ys) \<longleftrightarrow> hashes_ok lib v p prev xs \<and>
     hashes_ok lib v (if xs = [] then p else ir_sequence_number (fst (last xs)))
       (if xs = [] then prev else Some (ir_row_hash (fst (last xs)))) ys"
proof (induction xs arbitrary: p prev)
  case (Cons rl xs)
  then show ?case by (cases rl) auto
qed simp

section \<open>What an update leaves alone\<close>

text \<open>The columns of a record that say which record it is and how it was signed.\<close>

definition identity_columns :: "integrity_record \<Rightarrow>
    string \<times> string \<times> int \<times> int \<times> string option \<times> string option \<times> string" where
  "identity_columns r = (ir_integrity_id r, ir_audit_log_id r, ir_chain_version r, ir_sequence_number r,
     ir_signature r, ir_signing_key_id r, ir_signature_status r)"

lemma rebind_identity [simp]: "identity_columns (rebind e r) = identity_columns r"
  by (simp add: identity_columns_def rebind_def)

lemma rebind_columns [simp]:
  "ir_integrity_id (rebind e r) = ir_integrity_id r" "ir_audit_log_id (rebind e r) = ir_audit_log_id r"
  "ir_chain_version (rebind e r) = ir_chain_version r" "ir_sequence_number (rebind e r) = ir_sequence_number r"
  "ir_payload_hash (rebind e r) = rc_new_canonical e" "ir_row_hash (rebind e r) = rc_new_row e"
  "ir_prev_hash (rebind e r) = rc_new_prev e"
  by (simp_all add: rebind_def)

text \<open>The update of a record by a list of entries with distinct ids.\<close>

definition rebound :: "recomputed list \<Rightarrow> integrity_record \<Rightarrow> integrity_record" where
  "rebound es r = (case find (\<lambda>e. hashes_changed e \<and> rc_integrity_id e = ir_integrity_id r) es of
     None \<Rightarrow> r | Some e \<Rightarrow> rebind e r)"

lemma rebound_identity [simp]: "identity_columns (rebound es r) = identity_columns r"
  by (simp add: rebound_def split: option.splits)

lemma rebound_columns [simp]:
  "ir_integrity_id (rebound es r) = ir_integrity_id r" "ir_audit_log_id (rebound es r) = ir_audit_log_id r"
  "ir_chain_version (rebound es r) = ir_chain_version r" "ir_sequence_number (rebound es r) = ir_sequence_number r"
  using rebound_identity[of es r] by (simp_all add: identity_columns_def)

lemma rebound_step:
  assumes "rc_integrity_id e \<notin> rc_integrity_id ` set es" "hashes_changed e"
  shows "rebound es (if ir_integrity_id r = rc_integrity_id e then rebind e r else r) = rebound (e # es) r"
proof (cases "ir_integrity_id r = rc_integrity_id e")
  case True
  then have "find (\<lambda>e. hashes_changed e \<and> rc_integrity_id e = ir_integrity_id (rebind e' r)) es = None" for e'
    using assms(1) by (auto simp: find_None_iff) (metis image_eqI)
  then show ?thesis using True assms(2) by (simp add: rebound_def)
next
  case False
  then show ?thesis by (auto simp: rebound_def)
qed

lemma update_records_eq:
  assumes "distinct (map rc_integrity_id es)"
  shows "fst (update_records es db) = db\<lparr>ad_records := map (rebound es) (ad_records db)\<rparr>"
  using assms
proof (induction es arbitrary: db)
  case Nil
  have "rebound [] = (\<lambda>r. r)" by (simp add: rebound_def fun_eq_iff)
  then show ?case by simp
next
  case (Cons e es)
  show ?case
  proof (cases "hashes_changed e")
    case False
    then have "rebound (e # es) = rebound es" by (simp add: rebound_def fun_eq_iff)
    then show ?thesis using Cons False by simp
  next
    case True
    have "map (rebound es) (update_where (\<lambda>r. ir_integrity_id r = rc_integrity_id e) (rebind e) rs) =
        map (rebound (e # es)) rs" for rs
      using rebound_step[OF _ True, of es] Cons.prems by (simp add: update_where_def)
    then show ?thesis using Cons True by (simp add: Let_def case_prod_unfold)
  qed
qed

lemma update_records_logs [simp]: "ad_logs (fst (update_records es db)) = ad_logs db"
  by (induction es arbitrary: db) (simp_all add: Let_def case_prod_unfold)

lemma update_records_identity [simp]:
  "map identity_columns (ad_records (fst (update_records es db))) = map identity_columns (ad_records db)"
proof (induction es arbitrary: db)
  case (Cons e es)
  have "map identity_columns (update_where p (rebind e) rs) = map identity_columns rs" for p rs
    by (simp add: update_where_def)
  then show ?case using Cons by (simp add: Let_def case_prod_unfold)
qed simp

section \<open>Rows under an update\<close>

lemma insort_key_map: "(\<And>x. f (g x) = f x) \<Longrightarrow> insort_key f (g x) (map g xs) = map g (insort_key f x xs)"
  by (induction xs) auto

lemma sort_key_map: "(\<And>x. f (g x) = f x) \<Longrightarrow> sort_key f (map g xs) = map g (sort_key f xs)"
  by (induction xs) (simp_all add: insort_key_map)

lemma joined_rows_map:
  assumes "\<And>r. ir_chain_version (g r) = ir_chain_version r" "\<And>r. ir_sequence_number (g r) = ir_sequence_number r"
    "\<And>r. ir_audit_log_id (g r) = ir_audit_log_id r"
  shows "joined_rows v (db\<lparr>ad_records := map g (ad_records db)\<rparr>) = map (\<lambda>rl. (g (fst rl), snd rl)) (joined_rows v db)"
proof -
  have c: "chain_records v (db\<lparr>ad_records := map g (ad_records db)\<rparr>) = map g (chain_records v db)"
    using assms(1,2) by (simp add: chain_records_def filter_map comp_def sort_key_map)
  have m: "List.map_filter (\<lambda>r. map_option (Pair r) (find (\<lambda>l. al_id l = ir_audit_log_id r) logs)) (map g rs) =
      map (\<lambda>rl. (g (fst rl), snd rl)) (List.map_filter (\<lambda>r. map_option (Pair r)
        (find (\<lambda>l. al_id l = ir_audit_log_id r) logs)) rs)" for logs rs
    using assms(3) by (induction rs) (auto simp: List.map_filter_def)
  show ?thesis unfolding joined_rows_def c using m by simp
qed

lemma joined_rows_member: "(r, l) \<in> set (joined_rows v db) \<Longrightarrow> r \<in> set (ad_records db) \<and> ir_chain_version r = v"
  by (auto simp: joined_rows_def chain_records_def List.map_filter_def split: if_split_asm)

lemma distinct_map_find:
  assumes "distinct (map k rs)"
  shows "distinct (map (k \<circ> fst) (List.map_filter (\<lambda>r. map_option (Pair r) (f r)) rs))"
proof -
  have s: "set (map fst (List.map_filter (\<lambda>r. map_option (Pair r) (f r)) rs)) \<subseteq> set rs" for rs
    by (auto simp: List.map_filter_def)
  show ?thesis using assms
  proof (induction rs)
    case (Cons r rs)
    have "k r \<notin> set (map (k \<circ> fst) (List.map_filter (\<lambda>r. map_option (Pair r) (f r)) rs))"
      using Cons.prems s[of rs] by (auto simp: image_iff)
    then show ?case using Cons by (auto simp: List.map_filter_def)
  qed (simp add: List.map_filter_def)
qed

lemma distinct_joined_ids:
  assumes "distinct (map ir_integrity_id (ad_records db))"
  shows "distinct (map (ir_integrity_id \<circ> fst) (joined_rows v db))"
proof -
  let ?F = "filter (\<lambda>r. ir_chain_version r = v) (ad_records db)"
  have "distinct (map ir_integrity_id ?F)" using assms by (rule distinct_map_filter)
  then have "distinct (map ir_integrity_id (sort_key ir_sequence_number ?F))"
    by (simp add: distinct_map)
  then show ?thesis unfolding joined_rows_def chain_records_def by (rule distinct_map_find)
qed

section \<open>The entries of a recomputation\<close>

lemma recompute_chain_ids:
  "map rc_integrity_id (recompute_chain lib v rows prev) = map (ir_integrity_id \<circ> fst) rows"
proof (induction rows arbitrary: prev)
  case (Cons rl rows)
  then show ?case by (cases rl) (simp add: Let_def recompute_row_def)
qed simp

text \<open>A record carries the recomputed hashes.\<close>

definition carries :: "recomputed \<Rightarrow> integrity_record \<Rightarrow> bool" where
  "carries e r \<longleftrightarrow> ir_payload_hash r = rc_new_canonical e \<and> ir_row_hash r = rc_new_row e \<and>
     ir_prev_hash r = rc_new_prev e"

lemma rebound_carries:
  assumes "distinct (map rc_integrity_id es)" "e \<in> set es" "rc_integrity_id e = ir_integrity_id r"
    "rc_stored_canonical e = ir_payload_hash r" "rc_stored_row e = ir_row_hash r" "rc_stored_prev e = ir_prev_hash r"
  shows "carries e (rebound es r)"
proof (cases "hashes_changed e")
  case True
  have "find (\<lambda>x. hashes_changed x \<and> rc_integrity_id x = ir_integrity_id r) es = Some e"
    using fetchrow_distinct[of rc_integrity_id es e "\<lambda>x. hashes_changed x \<and> rc_integrity_id x = ir_integrity_id r"]
      assms(1-3) True by (auto simp: fetchrow_def)
  then show ?thesis by (simp add: rebound_def carries_def)
next
  case False
  have "find (\<lambda>x. hashes_changed x \<and> rc_integrity_id x = ir_integrity_id r) es = None"
    using assms(1-3) False by (auto simp: find_None_iff) (metis distinct_map inj_on_def)
  then show ?thesis using False assms(4-6) by (simp add: rebound_def carries_def hashes_changed_def)
qed

text \<open>Each entry of a recomputation is about one record, and remembers the hashes it had.\<close>

definition recomputed_from :: "recomputed \<Rightarrow> integrity_record \<times> audit_log \<Rightarrow> bool" where
  "recomputed_from e rl \<longleftrightarrow> rc_integrity_id e = ir_integrity_id (fst rl) \<and>
     rc_stored_canonical e = ir_payload_hash (fst rl) \<and> rc_stored_row e = ir_row_hash (fst rl) \<and>
     rc_stored_prev e = ir_prev_hash (fst rl)"

lemma recompute_chain_from: "list_all2 recomputed_from (recompute_chain lib v rows prev) rows"
proof (induction rows arbitrary: prev)
  case (Cons rl rows)
  then show ?case by (cases rl) (simp add: Let_def recompute_row_def recomputed_from_def)
qed simp

lemma recompute_chain_carries:
  assumes "distinct (map (ir_integrity_id \<circ> fst) rows)"
  shows "list_all2 (\<lambda>e rl. carries e (rebound (recompute_chain lib v rows prev) (fst rl)))
    (recompute_chain lib v rows prev) rows"
proof -
  let ?es = "recompute_chain lib v rows prev"
  have d: "distinct (map rc_integrity_id ?es)" unfolding recompute_chain_ids by (rule assms)
  show ?thesis
    by (rule list.rel_mono_strong[OF recompute_chain_from]) (use rebound_carries[OF d] in \<open>auto simp: recomputed_from_def\<close>)
qed

lemma recomputed_ok:
  assumes "list_all2 (\<lambda>e rl. carries e (g (fst rl))) (recompute_chain lib v rows prev) rows"
    "\<And>r. ir_sequence_number (g r) = ir_sequence_number r" "\<And>r. ir_audit_log_id (g r) = ir_audit_log_id r"
    "map (\<lambda>rl. ir_sequence_number (fst rl)) rows = [p + 1..p + int (length rows)]" "0 \<le> p" "0 < p \<Longrightarrow> prev' = prev"
  shows "hashes_ok lib v p prev' (map (\<lambda>rl. (g (fst rl), snd rl)) rows)"
  using assms(1,4-6)
proof (induction rows arbitrary: p prev prev' rule: list.induct)
  case (Cons rl rows)
  obtain r l where rl: "rl = (r, l)" by fastforce
  let ?e = "recompute_row lib v r l prev"
  have c: "carries ?e (g r)" using Cons.prems(1) by (simp add: rl Let_def)
  have u: "[p + 1..p + int (length (rl # rows))] = (p + 1) # [p + 1 + 1..p + 1 + int (length rows)]"
    by (subst upto_rec1) (simp_all add: algebra_simps)
  then have seq: "ir_sequence_number r = p + 1"
      "map (\<lambda>rl. ir_sequence_number (fst rl)) rows = [p + 1 + 1..p + 1 + int (length rows)]"
    using Cons.prems(2) by (simp_all add: rl)
  have "check_hashes lib v p prev' (g r) l = None"
    using c seq(1) Cons.prems(3,4) assms(2,3)
    by (cases "p = 0") (simp_all add: check_hashes_def Let_def carries_def recompute_row_def)
  moreover have "hashes_ok lib v (p + 1) (Some (ir_row_hash (g r))) (map (\<lambda>rl. (g (fst rl), snd rl)) rows)"
    using Cons.IH[of "Some (rc_new_row ?e)" "p + 1" "Some (ir_row_hash (g r))"] Cons.prems(1,3) seq(2) c
    by (simp add: rl Let_def carries_def)
  ultimately show ?case using seq(1) assms(2) by (simp add: rl)
qed simp

section \<open>A repair is all or nothing\<close>

lemma list_all2_map_self: "(\<And>x. x \<in> set xs \<Longrightarrow> R x (f x)) \<Longrightarrow> list_all2 R xs (map f xs)"
  by (induction xs) auto

lemma apply_repair_cases:
  assumes "apply_repair lib plan approved dry_run v db = (rep, db')"
  obtains (untouched) "db' = db" "rep_status rep \<noteq> REPAIR_STATUS_COMPLETED"
  | (committed) es where "rp_repair_allowed plan" "approved" "\<not> dry_run"
      "rep_status rep = REPAIR_STATUS_COMPLETED"
      "es = recompute_chain lib v (fetch_rows (start_of plan) v db) (start_prev_hash (start_of plan) v db)"
      "db' = fst (update_records es db)" "hashes_ok lib v 0 None (joined_rows v db')"
      "rep_logs_modified rep = False"
proof -
  let ?es = "recompute_chain lib v (fetch_rows (start_of plan) v db) (start_prev_hash (start_of plan) v db)"
  let ?db = "fst (update_records ?es db)"
  consider "\<not> rp_repair_allowed plan \<or> \<not> approved \<or> dry_run"
    | "rp_repair_allowed plan" "approved" "\<not> dry_run" by blast
  then show ?thesis
  proof cases
    case 1
    then show ?thesis
      using assms by (intro untouched)
        (auto simp: apply_repair_def Let_def repair_status_defs new_report_def split: if_split_asm)
  next
    case 2
    show ?thesis
    proof (cases "fst (verify_in_txn lib v ?db)")
      case True
      then have "hashes_ok lib v 0 None (joined_rows v ?db)" by (simp add: verify_in_txn_def verify_walk_ok)
      then show ?thesis
        using assms 2 True
        by (intro committed[OF _ _ _ _ refl])
          (auto simp: apply_repair_def recompute_and_update_def Let_def case_prod_unfold new_report_def)
    next
      case False
      then show ?thesis
        using assms 2 by (intro untouched)
          (auto simp: apply_repair_def recompute_and_update_def Let_def case_prod_unfold repair_status_defs)
    qed
  qed
qed

text \<open>
  C37. A repair is all or nothing. Audit rows never change; no record is created, removed or reordered. A
  record that changes belongs to the chain, at or above the first failed sequence, and what changes are
  its three hash columns, at least one of them, and its \<^verbatim>\<open>integrity_status\<close>, which becomes active whatever
  it was. Every other column, the signature among them, is kept. And whatever does change was approved,
  not a dry run, allowed by the plan, and leaves a chain whose hashes the verifier accepts, whatever key
  ring it holds.
\<close>

theorem repair_atomic:
  assumes "apply_repair lib plan approved dry_run v db = (rep, db')"
    "distinct (map ir_integrity_id (ad_records db))"
  shows "ad_logs db' = ad_logs db \<and>
    list_all2 (\<lambda>r r'. r' = r \<or>
        ir_chain_version r = v \<and> start_of plan \<le> ir_sequence_number r \<and>
        (ir_payload_hash r', ir_row_hash r', ir_prev_hash r') \<noteq> (ir_payload_hash r, ir_row_hash r, ir_prev_hash r) \<and>
        r' = r\<lparr>ir_payload_hash := ir_payload_hash r', ir_row_hash := ir_row_hash r',
          ir_prev_hash := ir_prev_hash r', ir_integrity_status := ''active''\<rparr>)
      (ad_records db) (ad_records db') \<and>
    (db' \<noteq> db \<or> rep_status rep = REPAIR_STATUS_COMPLETED \<longrightarrow>
       approved \<and> \<not> dry_run \<and> rp_repair_allowed plan \<and> rep_status rep = REPAIR_STATUS_COMPLETED \<and>
       (\<forall>kr legacy. \<exists>res. verify_chain lib kr ''chain_only'' legacy v db' = Inr res \<and> vr_status res \<noteq> ''failed''))"
    (is "_ \<and> list_all2 ?R _ _ \<and> _")
  using assms(1)
proof (cases rule: apply_repair_cases)
  case untouched
  then show ?thesis by (simp add: list.rel_refl)
next
  case (committed es)
  let ?rows = "fetch_rows (start_of plan) v db"
  have d: "distinct (map (ir_integrity_id \<circ> fst) (fetch_rows n v db))" for n
    using distinct_joined_ids[OF assms(2)] by (simp add: fetch_rows_def distinct_map_filter)
  have es: "distinct (map rc_integrity_id es)" unfolding committed(5) recompute_chain_ids by (rule d)
  have one: "?R r (rebound es r)" if r: "r \<in> set (ad_records db)" for r
  proof (cases "find (\<lambda>e. hashes_changed e \<and> rc_integrity_id e = ir_integrity_id r) es")
    case (Some e)
    then have e: "e \<in> set es" "hashes_changed e" "rc_integrity_id e = ir_integrity_id r"
      by (auto simp: find_Some_iff)
    have "list_all2 recomputed_from es ?rows" unfolding committed(5) by (rule recompute_chain_from)
    then obtain r' l where x: "(r', l) \<in> set ?rows" "recomputed_from e (r', l)"
      using e(1) by (metis in_set_conv_nth list_all2_conv_all_nth surj_pair)
    then have "(r', l) \<in> set (joined_rows v db)" "start_of plan \<le> ir_sequence_number r'" by (auto simp: fetch_rows_def)
    moreover from this have "r' = r"
      using joined_rows_member assms(2) r e(3) x(2) by (metis distinct_map fst_conv inj_on_def recomputed_from_def)
    ultimately have "ir_chain_version r = v" "start_of plan \<le> ir_sequence_number r" using joined_rows_member by blast+
    moreover have "rebound es r = rebind e r" using Some by (simp add: rebound_def)
    ultimately show ?thesis using e(2) x(2) \<open>r' = r\<close>
      by (auto simp: hashes_changed_def recomputed_from_def rebind_def)
  qed (simp add: rebound_def)
  have records: "ad_records db' = map (rebound es) (ad_records db)"
    unfolding committed(6) update_records_eq[OF es] by simp
  have "list_all2 ?R (ad_records db) (ad_records db')"
    unfolding records by (rule list_all2_map_self) (rule one)
  moreover
  have "\<exists>res. verify_chain lib kr ''chain_only'' legacy v db' = Inr res \<and> vr_status res \<noteq> ''failed''" for kr legacy
    using chain_only_verdict[of lib kr legacy v db'] committed(7) by auto
  ultimately show ?thesis using committed by auto
qed

section \<open>A repair succeeds on a complete chain\<close>

text \<open>The constraints of the table, and a chain without a gap or an orphan among its records.\<close>

definition complete_chain :: "int \<Rightarrow> audit_db \<Rightarrow> bool" where
  "complete_chain v db \<longleftrightarrow> distinct (map ir_integrity_id (ad_records db)) \<and>
     distinct (map (\<lambda>r. (ir_chain_version r, ir_sequence_number r)) (ad_records db)) \<and>
     map (\<lambda>rl. ir_sequence_number (fst rl)) (joined_rows v db) = [1..int (length (joined_rows v db))]"

lemma upto_bounds: "map f ys = [a..b] \<Longrightarrow> x \<in> set ys \<Longrightarrow> a \<le> f x \<and> f x \<le> b"
  by (metis atLeastAtMost_iff image_eqI set_map set_upto)

lemma split_upto:
  assumes "map f rows = [1..int (length rows)]" "1 \<le> n" "n \<le> int (length rows) + 1"
  obtains xs ys where "rows = xs @ ys" "map f xs = [1..n - 1]" "map f ys = [n..n - 1 + int (length ys)]"
    "filter (\<lambda>x. n \<le> f x) rows = ys" "int (length xs) = n - 1"
proof -
  define k where "k = nat (n - 1)"
  have k: "k \<le> length rows" "int k = n - 1" using assms(2,3) by (simp_all add: k_def)
  have u: "[1..int (length rows)] = [1..n - 1] @ [n..int (length rows)]"
  proof (cases "n \<le> int (length rows)")
    case True
    then show ?thesis using upto_split1[of 1 n "int (length rows)"] assms(2) by simp
  next
    case False
    then have "n = int (length rows) + 1" using assms(3) by simp
    then show ?thesis by simp
  qed
  have t: "map f (take k rows) = [1..n - 1]"
    using assms(1) k u by (simp add: take_map[symmetric])
  have d: "map f (drop k rows) = [n..int (length rows)]"
    using assms(1) k u by (simp add: drop_map[symmetric])
  have "\<not> n \<le> f x" if "x \<in> set (take k rows)" for x
    using upto_bounds[OF t that] by simp
  moreover have "n \<le> f x" if "x \<in> set (drop k rows)" for x
    using upto_bounds[OF d that] by simp
  ultimately have "filter (\<lambda>x. n \<le> f x) (take k rows) = []" "filter (\<lambda>x. n \<le> f x) (drop k rows) = drop k rows"
    by (simp_all add: filter_empty_conv filter_id_conv)
  then have "filter (\<lambda>x. n \<le> f x) rows = drop k rows"
    by (metis append_self_conv2 append_take_drop_id filter_append)
  then show ?thesis using that[of "take k rows" "drop k rows"] t d k by simp
qed

lemma repair_exact:
  assumes "complete_chain v db" "rp_repair_allowed plan" "1 \<le> start_of plan"
    "start_of plan \<le> int (length (joined_rows v db)) + 1"
    "apply_repair lib plan True False v db = (rep, db')"
  shows "if hashes_ok lib v 0 None (filter (\<lambda>rl. ir_sequence_number (fst rl) < start_of plan) (joined_rows v db))
    then rep_status rep = REPAIR_STATUS_COMPLETED \<and> hashes_ok lib v 0 None (joined_rows v db')
    else rep_status rep = REPAIR_STATUS_FAILED \<and> db' = db"
proof -
  let ?n = "start_of plan" and ?rows = "joined_rows v db"
  have seqs: "map (\<lambda>rl. ir_sequence_number (fst rl)) ?rows = [1..int (length ?rows)]"
    and ids: "distinct (map ir_integrity_id (ad_records db))"
    and keys: "distinct (map (\<lambda>r. (ir_chain_version r, ir_sequence_number r)) (ad_records db))"
    using assms(1) by (simp_all add: complete_chain_def)
  obtain xs ys where split: "?rows = xs @ ys" "map (\<lambda>rl. ir_sequence_number (fst rl)) xs = [1..?n - 1]"
      "map (\<lambda>rl. ir_sequence_number (fst rl)) ys = [?n..?n - 1 + int (length ys)]"
      "fetch_rows ?n v db = ys" "int (length xs) = ?n - 1"
    using split_upto[OF seqs assms(3,4)] unfolding fetch_rows_def by blast
  define es where "es = recompute_chain lib v ys (start_prev_hash ?n v db)"
  have dj: "distinct (map (ir_integrity_id \<circ> fst) (xs @ ys))" using distinct_joined_ids[OF ids, of v] split(1) by simp
  then have dy: "distinct (map (ir_integrity_id \<circ> fst) ys)" by simp
  have de: "distinct (map rc_integrity_id es)" unfolding es_def recompute_chain_ids by (rule dy)
  let ?db = "fst (update_records es db)"
  have jr: "joined_rows v ?db = map (\<lambda>rl. (rebound es (fst rl), snd rl)) xs @
      map (\<lambda>rl. (rebound es (fst rl), snd rl)) ys"
    unfolding update_records_eq[OF de] using joined_rows_map[of "rebound es" v db] split(1) by simp
  have "rebound es (fst rl) = fst rl" if "rl \<in> set xs" for rl
  proof -
    have "rc_integrity_id ` set es = (ir_integrity_id \<circ> fst) ` set ys"
      using arg_cong[OF recompute_chain_ids[of lib v ys "start_prev_hash ?n v db", folded es_def], of set] by simp
    moreover have "ir_integrity_id (fst rl) \<notin> (ir_integrity_id \<circ> fst) ` set ys" using dj that by auto
    ultimately have "find (\<lambda>e. hashes_changed e \<and> rc_integrity_id e = ir_integrity_id (fst rl)) es = None"
      by (auto simp: find_None_iff) (metis image_eqI)
    then show ?thesis by (simp add: rebound_def)
  qed
  then have xs: "map (\<lambda>rl. (rebound es (fst rl), snd rl)) xs = xs" by (simp add: map_idI)
  have "filter (\<lambda>rl. ir_sequence_number (fst rl) < ?n) ?rows = xs"
  proof -
    have "ir_sequence_number (fst rl) < ?n" if "rl \<in> set xs" for rl
      using upto_bounds[OF split(2) that] by simp
    moreover have "\<not> ir_sequence_number (fst rl) < ?n" if "rl \<in> set ys" for rl
      using upto_bounds[OF split(3) that] by simp
    ultimately show ?thesis unfolding split(1) by (simp add: filter_id_conv filter_empty_conv)
  qed
  note low = this
  define prev where "prev = (if xs = [] then None else Some (ir_row_hash (fst (last xs))))"
  have sp: "start_prev_hash ?n v db = prev"
  proof (cases "xs = []")
    case True
    then show ?thesis using split(5) by (simp add: start_prev_hash_def prev_def)
  next
    case False
    let ?r = "fst (last xs)"
    have "last xs \<in> set ?rows" using False split(1) by simp
    then have r: "?r \<in> set (ad_records db)" "ir_chain_version ?r = v"
      using joined_rows_member[of ?r "snd (last xs)" v db] by simp_all
    have "ir_sequence_number ?r = last [1..?n - 1]"
      using arg_cong[OF split(2), of last] False by (simp add: last_map)
    moreover have "[1..?n - 1] = [1..?n - 2] @ [?n - 1]"
      using upto_rec2[of 1 "?n - 1"] split(5) False by (cases xs) simp_all
    ultimately have s: "ir_sequence_number ?r = ?n - 1" by simp
    have "fetchrow (\<lambda>r. ir_chain_version r = v \<and> ir_sequence_number r = ?n - 1) (ad_records db) = Some ?r"
      by (rule fetchrow_distinct[OF keys r(1)]) (use r(2) s in auto)
    moreover have "\<not> ?n \<le> 1" using split(5) False by (cases xs) simp_all
    ultimately show ?thesis using False by (simp add: start_prev_hash_def prev_def)
  qed
  have "hashes_ok lib v (?n - 1) prev (map (\<lambda>rl. (rebound es (fst rl), snd rl)) ys)"
  proof (rule recomputed_ok[where prev = prev])
    show "list_all2 (\<lambda>e rl. carries e (rebound es (fst rl))) (recompute_chain lib v ys prev) ys"
      using recompute_chain_carries[OF dy, of lib v prev] by (simp add: es_def sp)
  qed (use split(3) assms(3) in simp_all)
  moreover have "(if xs = [] then 0 else ir_sequence_number (fst (last xs))) = ?n - 1"
  proof (cases "xs = []")
    case False
    then have "ir_sequence_number (fst (last xs)) = last [1..?n - 1]"
      using arg_cong[OF split(2), of last] by (simp add: last_map)
    moreover have "[1..?n - 1] = [1..?n - 2] @ [?n - 1]"
      using upto_rec2[of 1 "?n - 1"] split(5) False by (cases xs) simp_all
    ultimately show ?thesis using False by simp
  qed (use split(5) in simp)
  ultimately have ok: "hashes_ok lib v 0 None (joined_rows v ?db) \<longleftrightarrow> hashes_ok lib v 0 None xs"
    unfolding jr xs hashes_ok_app prev_def by simp
  then have "if hashes_ok lib v 0 None xs then rep_status rep = REPAIR_STATUS_COMPLETED \<and> db' = ?db
      else rep_status rep = REPAIR_STATUS_FAILED \<and> db' = db"
    using assms(2,5) verify_walk_ok[of lib v "joined_rows v ?db" 0 None]
    by (auto simp: apply_repair_def recompute_and_update_def Let_def case_prod_unfold verify_in_txn_def
        split(4) es_def)
  then show ?thesis using ok unfolding low by (auto split: if_splits)
qed

lemma repair_restores:
  assumes "complete_chain v db" "rp_repair_allowed plan" "1 \<le> start_of plan"
    "start_of plan \<le> int (length (joined_rows v db)) + 1"
    "hashes_ok lib v 0 None (filter (\<lambda>rl. ir_sequence_number (fst rl) < start_of plan) (joined_rows v db))"
    "apply_repair lib plan True False v db = (rep, db')"
  shows "rep_status rep = REPAIR_STATUS_COMPLETED \<and> hashes_ok lib v 0 None (joined_rows v db')"
  using repair_exact[OF assms(1-4,6)] assms(5) by simp

text \<open>
  C38. On a complete chain, with no gap and no orphan among its records, an approved repair restores
  everything above its start, whatever the audit rows now contain. It completes exactly when the hashes
  below the start are right, and then the chain verifies with the verifier that ignores signatures;
  otherwise the check inside the transaction fails and the database is left as it was. The scan that
  chooses the start overlooks a record whose \<^verbatim>\<open>prev_hash\<close> is missing, so the second case can follow it.
\<close>

theorem repair_restores_chain:
  assumes "complete_chain v db" "rp_repair_allowed plan" "1 \<le> start_of plan"
    "start_of plan \<le> int (length (joined_rows v db)) + 1"
  shows "\<exists>rep db'. apply_repair lib plan True False v db = (rep, db') \<and> ad_logs db' = ad_logs db \<and>
    (if hashes_ok lib v 0 None (filter (\<lambda>rl. ir_sequence_number (fst rl) < start_of plan) (joined_rows v db))
     then rep_status rep = REPAIR_STATUS_COMPLETED \<and>
       (\<forall>kr legacy. \<exists>res. verify_chain lib kr ''chain_only'' legacy v db' = Inr res \<and> vr_status res \<noteq> ''failed'')
     else rep_status rep = REPAIR_STATUS_FAILED \<and> db' = db)"
proof -
  obtain rep db' where a: "apply_repair lib plan True False v db = (rep, db')" by fastforce
  note r = repair_exact[OF assms a]
  have "ad_logs db' = ad_logs db" using a by (cases rule: apply_repair_cases) auto
  moreover have "\<exists>res. verify_chain lib kr ''chain_only'' legacy v db' = Inr res \<and> vr_status res \<noteq> ''failed''"
    if "hashes_ok lib v 0 None (joined_rows v db')" for kr legacy
    using that chain_only_verdict[of lib kr legacy v db'] by blast
  ultimately show ?thesis using a r by (auto split: if_splits)
qed

section \<open>What a repair does to the signatures\<close>

lemma check_signature_returns:
  assumes "hex_digests lib" "is_ascii (or_empty (ir_signature r))"
  shows "\<exists>res' failed. check_signature lib kr mode legacy r res = Inr (res', failed)"
proof -
  have "\<exists>ok what. verify_with lib kr (ir_row_hash r) (ir_signature r) (ir_signing_key_id r) = Inr (ok, what)"
    using assms by (auto simp: verify_with_def Let_def compare_digest_def hex_digests_def split: option.splits)
  then obtain ok what where v: "verify_with lib kr (ir_row_hash r) (ir_signature r) (ir_signing_key_id r) = Inr (ok, what)"
    by blast
  have "check_signature lib kr mode legacy r res \<noteq> Inl e" for e
    unfolding check_signature_def Let_def v try_then_simps prod.case by simp
  then show ?thesis by (cases "check_signature lib kr mode legacy r res") auto
qed

lemma verify_rows_returns:
  assumes "hex_digests lib" "\<forall>rl \<in> set rows. is_ascii (or_empty (ir_signature (fst rl)))"
  shows "\<exists>res'. verify_rows lib kr mode legacy v rows p prev res = Inr res'"
  using assms(2)
proof (induction rows arbitrary: p prev res)
  case (Cons rl rows)
  obtain r l where rl: "rl = (r, l)" by fastforce
  obtain res1 failed where s: "check_signature lib kr mode legacy r res = Inr (res1, failed)"
    using check_signature_returns[OF assms(1), of r kr mode legacy res] Cons.prems by (auto simp: rl)
  show ?case
  proof (cases "check_hashes lib v p prev r l")
    case None
    then show ?thesis using s Cons.IH Cons.prems by (simp add: rl)
  next
    case (Some why)
    then show ?thesis by (cases why) (simp add: rl)
  qed
qed simp

lemma verify_rows_signatures:
  assumes "verify_rows lib kr mode legacy v rows p prev res = Inr res'" "vr_status res' \<noteq> ''failed''" "rl \<in> set rows"
  shows "\<exists>res1 res2. check_signature lib kr mode legacy (fst rl) res1 = Inr (res2, False)"
  using assms
proof (induction rows arbitrary: p prev res)
  case (Cons x rows)
  obtain r l where x: "x = (r, l)" by fastforce
  show ?case
  proof (cases "check_hashes lib v p prev r l")
    case None
    then obtain res1 failed where s: "check_signature lib kr mode legacy r res = Inr (res1, failed)"
      using Cons.prems(1) by (auto simp: x try_then_Inr_iff)
    have nf: "\<not> failed" using check_signature_status(1)[OF s] Cons.prems(1,2) None s by (auto simp: x)
    then have "verify_rows lib kr mode legacy v rows (ir_sequence_number r) (Some (ir_row_hash r))
        (res1\<lparr>vr_verified_records := vr_verified_records res1 + 1\<rparr>) = Inr res'"
      using Cons.prems(1) None s by (simp add: x)
    then show ?thesis using Cons.IH[OF _ Cons.prems(2)] Cons.prems(3) s nf x
      by (cases "rl = x") auto
  next
    case (Some why)
    then show ?thesis using Cons.prems(1,2) by (cases why) (auto simp: x)
  qed
qed simp

lemma stale_signature_fails:
  assumes "hex_digests lib" "mode \<noteq> ''chain_only''" "kr_mode kr \<notin> {''none'', ''invalid''}"
    "ir_signature_status r = ''signed''" "ir_signing_key_id r = Some kid" "kid \<noteq> []"
    "key_bytes_for kr kid = Some key" "ir_signature r = Some sig" "sig \<noteq> []" "is_ascii sig"
    "hmac_sha256 lib key (ir_row_hash r) \<noteq> sig"
  shows "check_signature lib kr mode legacy r res \<noteq> Inr (res', False)"
proof -
  have v: "verify_with lib kr (ir_row_hash r) (ir_signature r) (ir_signing_key_id r) = Inr (False, ''signature_failed'')"
    using assms by (simp add: verify_with_def or_empty_def compare_digest_def hex_digests_def)
  show ?thesis
    using assms(2) unfolding check_signature_def Let_def assms(4) v try_then_simps prod.case by simp
qed

text \<open>
  A repair does not re-sign. If a completed repair changes the row hash of a record that was validly
  signed with a key the verifier holds, the verifier rejects the repaired chain in both of its modes
  that look at signatures, unless the two row hashes have the same code under that key.
\<close>

theorem repaired_signature_rejected:
  assumes "apply_repair lib plan approved dry_run v db = (rep, db')" "rep_status rep = REPAIR_STATUS_COMPLETED"
    "hex_digests lib" "mode \<noteq> ''chain_only''" "kr_mode kr \<notin> {''none'', ''invalid''}"
    "\<forall>r \<in> set (ad_records db). is_ascii (or_empty (ir_signature r))"
    "(r', l) \<in> set (joined_rows v db')" "ir_signature_status r' = ''signed''" "ir_signing_key_id r' = Some kid"
    "kid \<noteq> []" "key_bytes_for kr kid = Some key"
    "r \<in> set (ad_records db)" "identity_columns r = identity_columns r'"
    "ir_signature r = Some (hmac_sha256 lib key (ir_row_hash r))"
    "hmac_sha256 lib key (ir_row_hash r') \<noteq> hmac_sha256 lib key (ir_row_hash r)"
  shows "\<exists>res. verify_chain lib kr mode legacy v db' = Inr res \<and> vr_status res = ''failed''"
proof -
  have ident: "map identity_columns (ad_records db') = map identity_columns (ad_records db)"
    using assms(1) by (cases rule: apply_repair_cases) simp_all
  have "\<forall>rl \<in> set (joined_rows v db'). is_ascii (or_empty (ir_signature (fst rl)))"
  proof
    fix rl assume "rl \<in> set (joined_rows v db')"
    then have "fst rl \<in> set (ad_records db')" using joined_rows_member[of "fst rl" "snd rl"] by simp
    then have "identity_columns (fst rl) \<in> identity_columns ` set (ad_records db)"
      using arg_cong[OF ident, of set] by (metis image_eqI list.set_map)
    then obtain q where "q \<in> set (ad_records db)" "identity_columns (fst rl) = identity_columns q" by blast
    then show "is_ascii (or_empty (ir_signature (fst rl)))" using assms(6) by (auto simp: identity_columns_def)
  qed
  from verify_rows_returns[OF assms(3) this] obtain res where
    res: "verify_rows lib kr mode legacy v (joined_rows v db') 0 None (start_result kr mode v db') = Inr res" by blast
  have sig: "ir_signature r' = Some (hmac_sha256 lib key (ir_row_hash r))"
    using assms(13,14) by (simp add: identity_columns_def)
  have "\<not> (\<exists>res1 res2. check_signature lib kr mode legacy r' res1 = Inr (res2, False))"
    using stale_signature_fails[OF assms(3-5,8-11) sig] assms(3,15) by (simp add: hex_digests_def)
  then have "vr_status res = ''failed''" using verify_rows_signatures[OF res _ assms(7)] by auto
  then show ?thesis using res by (simp add: verify_chain_def finish_result_def Let_def)
qed

end
