(* ===== verification/Audit_Backfill.thy ===== *)
theory Audit_Backfill imports Audit_Chain_Props begin

text \<open>
  Completing a chain: appending a record for an audit row that lacks one always succeeds on an honest
  chain, so a backfill records every missing row, in the order of their creation.
\<close>

lemma linked_seqs: "linked lib ring logs n prev rs \<Longrightarrow> map ir_sequence_number rs = [n..n + int (length rs) - 1]"
proof (induction rs arbitrary: n prev)
  case (Cons r rs)
  then have "ir_sequence_number r = n" "map ir_sequence_number rs = [n + 1..n + 1 + int (length rs) - 1]"
    by (auto simp: good_record_def)
  moreover have "[n..n + int (length (r # rs)) - 1] = n # [n + 1..n + 1 + int (length rs) - 1]"
    by (subst upto_rec1) (simp_all add: algebra_simps)
  ultimately show ?case by simp
qed simp

section \<open>Appending one record\<close>

lemma new_integrity_fields:
  "ir_integrity_id (new_integrity lib kr iid status l n prev) = iid"
  "ir_audit_log_id (new_integrity lib kr iid status l n prev) = al_id l"
  "ir_chain_version (new_integrity lib kr iid status l n prev) = CHAIN_VERSION"
  "ir_sequence_number (new_integrity lib kr iid status l n prev) = n"
  "ir_prev_hash (new_integrity lib kr iid status l n prev) = prev"
  "ir_payload_hash (new_integrity lib kr iid status l n prev) =
     compute_payload_hash lib (build_canonical_payload lib l)"
  "ir_row_hash (new_integrity lib kr iid status l n prev) = compute_row_hash lib CHAIN_VERSION n (al_id l) prev
     (compute_payload_hash lib (build_canonical_payload lib l))"
  "ir_integrity_status (new_integrity lib kr iid status l n prev) = status"
  by (simp_all add: new_integrity_def Let_def split: prod.splits)

lemma new_integrity_checks:
  "status \<in> {''active'', ''backfilled'', ''invalidated''} \<Longrightarrow>
   integrity_checks (new_integrity lib kr iid status l n prev)"
  by (auto simp: integrity_checks_def new_integrity_def Let_def sign_def split: option.splits prod.splits)

text \<open>On an honest chain the next record goes in, whatever the row, if it has an id and no record yet.\<close>

lemma append_record:
  assumes "chain_inv lib ring db" "l \<in> set (ad_logs db)" "al_id l \<noteq> []"
    "al_id l \<notin> ir_audit_log_id ` set (ad_records db)" "iid \<notin> ir_integrity_id ` set (ad_records db)"
    "status \<in> {''active'', ''backfilled'', ''invalidated''}"
  obtains q where "create_integrity_record_in_txn lib kr iid status l db =
      Inr (Some q, db\<lparr>ad_records := ad_records db @ [q]\<rparr>)"
    "ir_audit_log_id q = al_id l" "ir_integrity_id q = iid"
proof -
  let ?rs = "ad_records db"
  define n where "n = 1 + int (length ?rs)"
  define prev where "prev = (if ?rs = [] then None else Some (ir_row_hash (last ?rs)))"
  define q where "q = new_integrity lib kr iid status l n prev"
  have lk: "linked lib ring (ad_logs db) 1 None ?rs" using assms(1) by (simp add: chain_inv_def)
  have seq: "(case latest_record CHAIN_VERSION db of None \<Rightarrow> (1, None)
      | Some prev \<Rightarrow> (ir_sequence_number prev + 1, Some (ir_row_hash prev))) = (n, prev)"
    using chain_records_eq[OF assms(1)] linked_last_seq[of lib ring "ad_logs db" 1 None ?rs] lk
    by (auto simp: latest_record_def n_def prev_def)
  have nl: "\<not> list_ex (\<lambda>x. ir_audit_log_id x = al_id l) ?rs" using assms(4) by (force simp: list_ex_iff)
  have ni: "\<not> list_ex (\<lambda>x. ir_integrity_id x = iid) ?rs" using assms(5) by (force simp: list_ex_iff)
  have "ir_sequence_number x < n" if "x \<in> set ?rs" for x
  proof -
    have "ir_sequence_number x \<in> set [1..1 + int (length ?rs) - 1]"
      using imageI[OF that, of ir_sequence_number] linked_seqs[OF lk] by (metis list.set_map)
    then show ?thesis by (simp add: n_def)
  qed
  then have ns: "\<not> list_ex (\<lambda>x. ir_chain_version x = CHAIN_VERSION \<and> ir_sequence_number x = n) ?rs"
    by (auto simp: list_ex_iff)
  have "insert_integrity q db = Inr (db\<lparr>ad_records := ?rs @ [q]\<rparr>)"
    using nl ni ns new_integrity_checks[OF assms(6)]
    by (simp add: insert_integrity_def q_def new_integrity_fields)
  then have "create_integrity_record_in_txn lib kr iid status l db = Inr (Some q, db\<lparr>ad_records := ?rs @ [q]\<rparr>)"
    using assms(3) nl by (simp add: create_integrity_record_in_txn_def seq flip: q_def)
  then show ?thesis using that[of q] by (simp add: q_def new_integrity_fields)
qed

section \<open>Any list of rows can be recorded\<close>

lemma fresh_text: "finite X \<Longrightarrow> \<exists>s :: string. s \<notin> X"
  by (rule ex_new_if_finite) (simp add: infinite_UNIV_listI)

lemma recorded_history:
  assumes "distinct (map al_id ls)" "\<forall>l \<in> set ls. al_id l \<noteq> []" "ring_covers ring kr"
  shows "\<exists>db. (audit_step lib ring)\<^sup>*\<^sup>* empty_audit_db db \<and> ad_logs db = ls \<and>
    map ir_audit_log_id (ad_records db) = map al_id ls"
  using assms(1,2)
proof (induction ls rule: rev_induct)
  case Nil
  then show ?case by (intro exI[of _ empty_audit_db]) (simp add: empty_audit_db_def)
next
  case (snoc l ls)
  then obtain db where db: "(audit_step lib ring)\<^sup>*\<^sup>* empty_audit_db db" "ad_logs db = ls"
      "map ir_audit_log_id (ad_records db) = map al_id ls" by auto
  have ids: "ir_audit_log_id ` set (ad_records db) = al_id ` set ls"
    using arg_cong[OF db(3), of set] by simp
  let ?db = "db\<lparr>ad_logs := ls @ [l]\<rparr>"
  have new: "al_id l \<notin> al_id ` set ls" "al_id l \<noteq> []" using snoc.prems by auto
  have s1: "audit_step lib ring db ?db" using audit_step.add_log[of l db lib ring] new(1) db(2) by simp
  then have r1: "(audit_step lib ring)\<^sup>*\<^sup>* empty_audit_db ?db" using db(1) by (simp add: rtranclp.rtrancl_into_rtrancl)
  obtain iid where iid: "iid \<notin> ir_integrity_id ` set (ad_records ?db)" using fresh_text by (metis finite_imageI finite_set)
  obtain q where q: "create_integrity_record_in_txn lib kr iid ''active'' l ?db =
      Inr (Some q, ?db\<lparr>ad_records := ad_records ?db @ [q]\<rparr>)" "ir_audit_log_id q = al_id l"
    using append_record[OF audit.inv_reachable[OF r1], of l iid "''active''" kr] iid new ids by auto
  have "audit_step lib ring ?db (?db\<lparr>ad_records := ad_records ?db @ [q]\<rparr>)"
    by (rule audit_step.add_record[OF _ assms(3) q(1)]) simp
  then have "(audit_step lib ring)\<^sup>*\<^sup>* empty_audit_db (?db\<lparr>ad_records := ad_records ?db @ [q]\<rparr>)"
    using r1 by (simp add: rtranclp.rtrancl_into_rtrancl)
  then show ?case using db(3) q(2) by (intro exI[of _ "?db\<lparr>ad_records := ad_records ?db @ [q]\<rparr>"]) simp
qed

section \<open>Backfill\<close>

text \<open>The ids the database generates for the attempts of a backfill are new and different.\<close>

definition fresh_ids :: "(string \<Rightarrow> nat \<Rightarrow> string) \<Rightarrow> audit_log list \<Rightarrow> audit_db \<Rightarrow> bool" where
  "fresh_ids iids ls db \<longleftrightarrow> (\<forall>l \<in> set ls. iids (al_id l) 4 \<notin> ir_integrity_id ` set (ad_records db)) \<and>
     distinct (map (\<lambda>l. iids (al_id l) 4) ls)"

lemma backfill_rows_complete:
  assumes "(audit_step lib ring)\<^sup>*\<^sup>* empty_audit_db db" "ring_covers ring kr" "set ls \<subseteq> set (ad_logs db)"
    "distinct (map al_id ls)" "\<forall>l \<in> set ls. al_id l \<noteq> [] \<and> al_id l \<notin> ir_audit_log_id ` set (ad_records db)"
    "fresh_ids iids ls db"
  shows "\<exists>c' db'. backfill_rows lib kr iids ls c db = Inr (c', db') \<and> (audit_step lib ring)\<^sup>*\<^sup>* empty_audit_db db' \<and>
    ad_logs db' = ad_logs db \<and> map ir_audit_log_id (ad_records db') = map ir_audit_log_id (ad_records db) @ map al_id ls \<and>
    bf_created c' = bf_created c + length ls \<and> bf_before c' = bf_before c \<and> bf_audit_logs c' = bf_audit_logs c \<and>
    bf_signed c' + bf_unsigned c' + bf_not_configured c' =
      bf_signed c + bf_unsigned c + bf_not_configured c + length ls"
  using assms(1,3-6)
proof (induction ls arbitrary: c db)
  case (Cons l ls)
  have inv: "chain_inv lib ring db" using audit.inv_reachable[OF Cons.prems(1)] .
  have fresh: "iids (al_id l) 4 \<notin> ir_integrity_id ` set (ad_records db)" using Cons.prems(5) by (simp add: fresh_ids_def)
  have lin: "l \<in> set (ad_logs db)" and lid: "al_id l \<noteq> []" "al_id l \<notin> ir_audit_log_id ` set (ad_records db)"
    using Cons.prems(2,4) by auto
  obtain q where q: "create_integrity_record_in_txn lib kr (iids (al_id l) 4) ''backfilled'' l db =
      Inr (Some q, db\<lparr>ad_records := ad_records db @ [q]\<rparr>)" "ir_audit_log_id q = al_id l"
      "ir_integrity_id q = iids (al_id l) 4"
    using append_record[OF inv lin lid fresh, of "''backfilled''" kr] by auto
  let ?db = "db\<lparr>ad_records := ad_records db @ [q]\<rparr>"
  have "audit_step lib ring db ?db" by (rule audit_step.add_record[OF lin assms(2) q(1)])
  then have r: "(audit_step lib ring)\<^sup>*\<^sup>* empty_audit_db ?db" using Cons.prems(1) by (rule rtranclp.rtrancl_into_rtrancl[rotated])
  have c: "create_integrity_record_for_audit_log lib kr (iids (al_id l)) ''backfilled'' l db = Inr (Some q, ?db)"
    using q(1) by (simp add: create_integrity_record_for_audit_log_def MAX_SEQUENCE_RETRIES_def eval_nat_numeral)
  have "\<exists>c' db'. backfill_rows lib kr iids ls (count_created q c) ?db = Inr (c', db') \<and>
      (audit_step lib ring)\<^sup>*\<^sup>* empty_audit_db db' \<and> ad_logs db' = ad_logs ?db \<and>
      map ir_audit_log_id (ad_records db') = map ir_audit_log_id (ad_records ?db) @ map al_id ls \<and>
      bf_created c' = bf_created (count_created q c) + length ls \<and> bf_before c' = bf_before (count_created q c) \<and>
      bf_audit_logs c' = bf_audit_logs (count_created q c) \<and>
      bf_signed c' + bf_unsigned c' + bf_not_configured c' = bf_signed (count_created q c) +
        bf_unsigned (count_created q c) + bf_not_configured (count_created q c) + length ls"
  proof (rule Cons.IH[OF r])
    show "set ls \<subseteq> set (ad_logs ?db)" "distinct (map al_id ls)" using Cons.prems(2,3) by auto
    show "\<forall>x \<in> set ls. al_id x \<noteq> [] \<and> al_id x \<notin> ir_audit_log_id ` set (ad_records ?db)"
      using Cons.prems(3,4) q(2) by (auto simp: image_iff)
    have "iids (al_id x) 4 \<noteq> iids (al_id l) 4" if "x \<in> set ls" for x
      using Cons.prems(5) imageI[OF that, of "\<lambda>l. iids (al_id l) 4"] by (auto simp: fresh_ids_def)
    then show "fresh_ids iids ls ?db" using Cons.prems(5) q(3) by (simp add: fresh_ids_def)
  qed
  moreover have "bf_created (count_created q c) = bf_created c + 1" "bf_before (count_created q c) = bf_before c"
    "bf_audit_logs (count_created q c) = bf_audit_logs c"
    "bf_signed (count_created q c) + bf_unsigned (count_created q c) + bf_not_configured (count_created q c) =
     bf_signed c + bf_unsigned c + bf_not_configured c + 1"
    by (simp_all add: count_created_def Let_def)
  ultimately show ?case using c q(2) by (auto simp: try_then_def)
qed auto

lemma backfill_missing_before:
  "backfill_rows lib kr iids ls c db = Inr (c', db') \<Longrightarrow> bf_missing_before c' = bf_missing_before c"
proof (induction ls arbitrary: c db)
  case (Cons l ls)
  have "bf_missing_before (count_created q c) = bf_missing_before c" for q c by (simp add: count_created_def Let_def)
  then show ?case using Cons by (auto simp: try_then_Inr_iff split: option.splits)
qed simp

lemma missing_logs_set:
  assumes "chain_inv lib ring db"
  shows "set (missing_logs db) = {l \<in> set (ad_logs db). al_id l \<notin> ir_audit_log_id ` set (ad_records db)}"
    "distinct (map al_id (missing_logs db))"
    "length (missing_logs db) + length (ad_records db) = length (ad_logs db)"
proof -
  have d: "distinct (map al_id (ad_logs db))" "distinct (map ir_audit_log_id (ad_records db))"
    and l: "linked lib ring (ad_logs db) 1 None (ad_records db)" using assms by (simp_all add: chain_inv_def)
  have v: "\<forall>r \<in> set (ad_records db). ir_chain_version r = CHAIN_VERSION" using linked_sorted[OF l] by blast
  show s: "set (missing_logs db) = {l \<in> set (ad_logs db). al_id l \<notin> ir_audit_log_id ` set (ad_records db)}"
    using v by (auto simp: missing_logs_def list_ex_iff image_iff)
  have "distinct (map al_id (filter p (ad_logs db)))" for p using d(1) by (rule distinct_map_filter)
  then show m: "distinct (map al_id (missing_logs db))" unfolding missing_logs_def by (simp add: distinct_map)
  have sub: "ir_audit_log_id ` set (ad_records db) \<subseteq> al_id ` set (ad_logs db)" using linked_logs[OF l] by force
  have "al_id ` set (missing_logs db) = al_id ` set (ad_logs db) - ir_audit_log_id ` set (ad_records db)"
    unfolding s by auto
  then have "card (al_id ` set (missing_logs db)) = card (al_id ` set (ad_logs db)) - card (ir_audit_log_id ` set (ad_records db))"
    using card_Diff_subset[OF _ sub] by simp
  moreover have "card (f ` set xs) = length xs" if "distinct (map f xs)" for f :: "audit_log \<Rightarrow> string" and xs
    using distinct_card[OF that] by simp
  moreover have "card (ir_audit_log_id ` set (ad_records db)) = length (ad_records db)"
    using distinct_card[OF d(2)] by simp
  moreover have "length (ad_records db) \<le> length (ad_logs db)" by (rule chain_counts(2)[OF assms])
  ultimately show "length (missing_logs db) + length (ad_records db) = length (ad_logs db)" using m d(1) by simp
qed

text \<open>
  C36. A backfill completes the chain. Run on any honest database whose rows have ids, it never fails,
  appends one record for each row that lacks one and none for the others, counts them right, reports
  nothing missing afterwards, and the database it leaves verifies as passed.
\<close>

theorem backfill_completes_chain:
  assumes "(audit_step lib ring)\<^sup>*\<^sup>* empty_audit_db db" "ring_covers ring kr"
    "\<forall>l \<in> set (ad_logs db). al_id l \<noteq> []" "fresh_ids iids (missing_logs db) db"
    "hex_digests lib" "kr_mode ring \<notin> {''none'', ''invalid''}"
  shows "\<exists>rep db' res. backfill_missing_integrity_records lib kr iids db = Inr (rep, db') \<and>
    ad_logs db' = ad_logs db \<and>
    map ir_audit_log_id (ad_records db') = map ir_audit_log_id (ad_records db) @ map al_id (missing_logs db) \<and>
    al_id ` set (ad_logs db') = ir_audit_log_id ` set (ad_records db') \<and>
    bf_created rep = bf_missing_before rep \<and> bf_missing_after rep = 0 \<and>
    bf_signed rep + bf_unsigned rep + bf_not_configured rep = bf_created rep \<and>
    verify_chain lib ring ''permissive'' legacy CHAIN_VERSION db' = Inr res \<and> vr_status res = ''passed''"
proof -
  have inv: "chain_inv lib ring db" using audit.inv_reachable[OF assms(1)] .
  note ms = missing_logs_set[OF inv]
  let ?c = "\<lparr>bf_audit_logs = length (ad_logs db), bf_before = count_records CHAIN_VERSION db, bf_created = 0,
    bf_after = 0, bf_missing_before = length (ad_logs db) - count_records CHAIN_VERSION db, bf_missing_after = 0,
    bf_signed = 0, bf_unsigned = 0, bf_not_configured = 0\<rparr>"
  have sub: "set (missing_logs db) \<subseteq> set (ad_logs db)" using ms(1) by blast
  have new: "\<forall>l \<in> set (missing_logs db). al_id l \<noteq> [] \<and> al_id l \<notin> ir_audit_log_id ` set (ad_records db)"
    using ms(1) assms(3) by blast
  obtain c db' where b: "backfill_rows lib kr iids (missing_logs db) ?c db = Inr (c, db')"
      "(audit_step lib ring)\<^sup>*\<^sup>* empty_audit_db db'" "ad_logs db' = ad_logs db"
      "map ir_audit_log_id (ad_records db') = map ir_audit_log_id (ad_records db) @ map al_id (missing_logs db)"
      "bf_created c = bf_created ?c + length (missing_logs db)" "bf_before c = bf_before ?c"
      "bf_signed c + bf_unsigned c + bf_not_configured c =
         bf_signed ?c + bf_unsigned ?c + bf_not_configured ?c + length (missing_logs db)"
    using backfill_rows_complete[OF assms(1,2) sub ms(2) new assms(4), of ?c] by blast
  have mb: "bf_missing_before c = bf_missing_before ?c"
    using b(1) backfill_missing_before by blast
  have n: "count_records CHAIN_VERSION db = length (ad_records db)" by (rule chain_counts(1)[OF inv])
  have inv': "chain_inv lib ring db'" using audit.inv_reachable[OF b(2)] .
  have rsub: "ir_audit_log_id ` set (ad_records db) \<subseteq> al_id ` set (ad_logs db)"
    using linked_logs[of lib ring "ad_logs db" 1 None "ad_records db"] inv by (force simp: chain_inv_def)
  have all: "al_id ` set (ad_logs db') = ir_audit_log_id ` set (ad_records db')"
    using arg_cong[OF b(4), of set] rsub b(3) ms(1) by auto
  obtain res where "verify_chain lib ring ''permissive'' legacy CHAIN_VERSION db' = Inr res" "vr_status res = ''passed''"
    using honest_chain_result[OF inv' assms(5,6), of "''permissive''" legacy] chain_counts(3)[OF inv'] all
    by (auto simp: admitted_def)
  moreover define rep where "rep = c\<lparr>bf_after := bf_before ?c + bf_created c,
    bf_missing_after := length (ad_logs db) - (bf_before ?c + bf_created c)\<rparr>"
  moreover have "backfill_missing_integrity_records lib kr iids db = Inr (rep, db')"
    unfolding backfill_missing_integrity_records_def Let_def b(1) rep_def by simp
  moreover have "bf_created rep = bf_missing_before rep" "bf_missing_after rep = 0"
    "bf_signed rep + bf_unsigned rep + bf_not_configured rep = bf_created rep"
    using b(5,7) n ms(3) mb by (simp_all add: rep_def)
  ultimately show ?thesis using b(3,4) all by blast
qed

theorem backfill_completes_chain_witness:
  "\<exists>rep db' res. backfill_missing_integrity_records hex_lib (sample_ring ''x'') (\<lambda>a k. a)
      \<lparr>ad_logs = [sample_log RefsNone], ad_records = []\<rparr> = Inr (rep, db') \<and>
    map ir_audit_log_id (ad_records db') = [''a1''] \<and> bf_missing_after rep = 0 \<and>
    verify_chain hex_lib (sample_ring ''x'') ''permissive'' False CHAIN_VERSION db' = Inr res \<and>
    vr_status res = ''passed''"
proof -
  let ?db = "\<lparr>ad_logs = [sample_log RefsNone], ad_records = []\<rparr>"
  have "audit_step hex_lib (sample_ring ''x'') empty_audit_db ?db"
    using audit_step.add_log[of "sample_log RefsNone" empty_audit_db] by (simp add: empty_audit_db_def)
  then have r: "(audit_step hex_lib (sample_ring ''x''))\<^sup>*\<^sup>* empty_audit_db ?db" by blast
  have m: "missing_logs ?db = [sample_log RefsNone]" by (simp add: missing_logs_def)
  have "\<forall>l \<in> set (ad_logs ?db). al_id l \<noteq> []" "fresh_ids (\<lambda>a k. a) (missing_logs ?db) ?db"
    unfolding m by (simp_all add: sample_log_def fresh_ids_def)
  from backfill_completes_chain[OF r sample_ring_facts(4) this hex_lib_digests, of False]
  show ?thesis unfolding m by (auto simp: sample_ring_facts sample_log_def)
qed

end
