(* ===== verification/Audit_Rewrite.thy ===== *)
theory Audit_Rewrite imports Audit_Repair_Props Audit_Backfill begin

text \<open>
  Forensics and repair together. A history whose audit rows were rewritten in three or more places, all
  of one decision type, is offered for repair although no failing record is repairable by itself, and
  the repair then makes the rewritten rows the verified history.
\<close>

section \<open>The steps of a repair run\<close>

text \<open>The scan, its classification and the plan, composed with the argument defaults of the functions.\<close>

definition plan_for :: "stdlib \<Rightarrow> int \<Rightarrow> audit_db \<Rightarrow> repair_plan" where
  "plan_for lib v db =
    (let failed = scan lib v db; c = classify_chain_root_cause failed in
     plan_repair failed (if truthy (cc_root_cause c) then or_empty (cc_root_cause c) else ''unknown'')
       (cc_repair_allowed c) (cc_repair_risk c) (chain_tail_sequence v db) [])"

lemma offer_cause:
  assumes "cc_repair_allowed (classify_chain_root_cause failed)"
  shows "\<exists>root. cc_root_cause (classify_chain_root_cause failed) = Some root \<and> root \<in> set REPAIRABLE_ROOT_CAUSES \<and>
    root \<noteq> []"
proof -
  have d: "ROOT_CAUSE_CANONICALIZATION_VERSION_DRIFT \<in> set REPAIRABLE_ROOT_CAUSES" "[] \<notin> set REPAIRABLE_ROOT_CAUSES"
    by (simp_all add: REPAIRABLE_ROOT_CAUSES_def vocabulary_defs)
  have "\<exists>root. cc_root_cause (classify_chain_root_cause failed) = Some root \<and> root \<in> set REPAIRABLE_ROOT_CAUSES"
    using assms d(1) unfolding classify_chain_root_cause_def Let_def by (simp split: if_split_asm)
  then show ?thesis using d(2) by metis
qed

lemma least_sequence_Min:
  assumes "failed \<noteq> []" shows "least_sequence failed = Min (fa_sequence ` set failed)"
proof -
  obtain f fs where f: "failed = f # fs" using assms by (cases failed) auto
  have "least_sequence failed = fold min (map fa_sequence fs) (fa_sequence f)" by (simp add: least_sequence_def f)
  also have "\<dots> = Min (set (fa_sequence f # map fa_sequence fs))" by (rule Min.set_eq_fold[symmetric])
  also have "set (fa_sequence f # map fa_sequence fs) = fa_sequence ` set failed" by (simp add: f)
  finally show ?thesis .
qed

lemma plan_for_allowed:
  assumes "cc_repair_allowed (classify_chain_root_cause (scan lib v db))" "scan lib v db \<noteq> []"
    "chain_records v db \<noteq> []"
  shows "rp_repair_allowed (plan_for lib v db)"
    "rp_first_failed (plan_for lib v db) = Some (least_sequence (scan lib v db))"
proof -
  obtain root where r: "cc_root_cause (classify_chain_root_cause (scan lib v db)) = Some root"
      "root \<in> set REPAIRABLE_ROOT_CAUSES" "root \<noteq> []" using offer_cause[OF assms(1)] by blast
  obtain f fs where f: "scan lib v db = f # fs" using assms(2) by (cases "scan lib v db") auto
  obtain t where t: "chain_tail_sequence v db = Some t" using assms(3) by (simp add: chain_tail_sequence_def)
  have "plan_for lib v db = plan_repair (f # fs) root True
      (cc_repair_risk (classify_chain_root_cause (scan lib v db))) (Some t) []"
    using assms(1) r(1,3) f t by (simp add: plan_for_def Let_def or_empty_def)
  then show "rp_repair_allowed (plan_for lib v db)"
    "rp_first_failed (plan_for lib v db) = Some (least_sequence (scan lib v db))"
    using r(2) f by (simp_all add: plan_repair_def Let_def)
qed

section \<open>Rewriting audit rows\<close>

definition rewrite_logs :: "(audit_log \<Rightarrow> audit_log) \<Rightarrow> audit_db \<Rightarrow> audit_db" where
  "rewrite_logs edit db = db\<lparr>ad_logs := map edit (ad_logs db)\<rparr>"

definition payload_changed :: "stdlib \<Rightarrow> (audit_log \<Rightarrow> audit_log) \<Rightarrow> audit_log \<Rightarrow> bool" where
  "payload_changed lib edit l \<longleftrightarrow> compute_payload_hash lib (build_canonical_payload lib (edit l)) \<noteq>
     compute_payload_hash lib (build_canonical_payload lib l)"

lemma joined_rows_rewrite:
  assumes "\<And>l. al_id (edit l) = al_id l"
  shows "joined_rows v (rewrite_logs edit db) = map (\<lambda>rl. (fst rl, edit (snd rl))) (joined_rows v db)"
proof -
  have f: "find (\<lambda>l. al_id l = x) (map edit logs) = map_option edit (find (\<lambda>l. al_id l = x) logs)" for x logs
    by (induction logs) (simp_all add: assms)
  have c: "chain_records v (rewrite_logs edit db) = chain_records v db"
    by (simp add: chain_records_def rewrite_logs_def)
  have "List.map_filter (\<lambda>r. map_option (Pair r) (map_option edit (find (\<lambda>l. al_id l = ir_audit_log_id r) logs))) rs =
      map (\<lambda>rl. (fst rl, edit (snd rl))) (List.map_filter (\<lambda>r. map_option (Pair r)
        (find (\<lambda>l. al_id l = ir_audit_log_id r) logs)) rs)" for logs rs
    by (induction rs) (auto simp: List.map_filter_def)
  then show ?thesis unfolding joined_rows_def c by (simp add: rewrite_logs_def f)
qed

text \<open>A record of an honest chain over a rewritten row.\<close>

lemma rewritten_record:
  assumes "distinct (map al_id logs)" "good_record lib ring logs (p + 1) prev r" "0 \<le> p"
    "\<And>l. al_id (edit l) = al_id l"
  shows "check_hashes lib CHAIN_VERSION p prev r (edit (log_of logs r)) = None \<longleftrightarrow>
      \<not> payload_changed lib edit (log_of logs r)"
    "ir_audit_log_id r = al_id (log_of logs r)" "ir_sequence_number r = p + 1" "log_of logs r \<in> set logs"
    "ir_payload_hash r = compute_payload_hash lib (build_canonical_payload lib (log_of logs r))"
    "ir_row_hash r = compute_row_hash lib CHAIN_VERSION (p + 1) (ir_audit_log_id r) prev (ir_payload_hash r)"
    "ir_prev_hash r = prev"
proof -
  from assms(2) obtain l where l: "l \<in> set logs" "al_id l = ir_audit_log_id r"
      "ir_payload_hash r = compute_payload_hash lib (build_canonical_payload lib l)"
    by (auto simp: good_record_def)
  have lo: "log_of logs r = l" using find_log[OF assms(1) l(1,2)] by (simp add: log_of_def)
  show g: "ir_audit_log_id r = al_id (log_of logs r)" "ir_sequence_number r = p + 1" "log_of logs r \<in> set logs"
    "ir_payload_hash r = compute_payload_hash lib (build_canonical_payload lib (log_of logs r))"
    "ir_row_hash r = compute_row_hash lib CHAIN_VERSION (p + 1) (ir_audit_log_id r) prev (ir_payload_hash r)"
    "ir_prev_hash r = prev"
    using assms(2) l lo by (simp_all add: good_record_def)
  have "(edit l)\<lparr>al_id := ir_audit_log_id r\<rparr> = edit l" using l(2) assms(4)[of l] by (cases "edit l") simp
  then show "check_hashes lib CHAIN_VERSION p prev r (edit (log_of logs r)) = None \<longleftrightarrow>
      \<not> payload_changed lib edit (log_of logs r)"
    using g assms(3) lo by (auto simp: check_hashes_def Let_def payload_changed_def)
qed

lemma rewritten_prefix_ok:
  assumes "distinct (map al_id logs)" "\<And>l. al_id (edit l) = al_id l"
    "linked lib ring logs (p + 1) prev rs" "0 \<le> p"
    "\<forall>r \<in> set rs. ir_sequence_number r < n \<longrightarrow> \<not> payload_changed lib edit (log_of logs r)"
  shows "hashes_ok lib CHAIN_VERSION p prev
    (filter (\<lambda>rl. ir_sequence_number (fst rl) < n) (map (\<lambda>r. (r, edit (log_of logs r))) rs))"
  using assms(3-5)
proof (induction rs arbitrary: p prev)
  case (Cons r rs)
  have g: "good_record lib ring logs (p + 1) prev r" using Cons.prems(1) by simp
  note w = rewritten_record[OF assms(1) g Cons.prems(2) assms(2)]
  show ?case
  proof (cases "ir_sequence_number r < n")
    case True
    then have "check_hashes lib CHAIN_VERSION p prev r (edit (log_of logs r)) = None"
      using w(1) Cons.prems(3) by simp
    then show ?thesis using True Cons.IH[of "p + 1" "Some (ir_row_hash r)"] Cons.prems w(3) by simp
  next
    case False
    have "\<not> ir_sequence_number x < n" if "x \<in> set rs" for x
      using linked_sorted[of lib ring logs "p + 1 + 1" "Some (ir_row_hash r)" rs] Cons.prems(1) that False w(3)
      by fastforce
    then have "filter (\<lambda>rl. ir_sequence_number (fst rl) < n) (map (\<lambda>r. (r, edit (log_of logs r))) rs) = []"
      by (auto simp: filter_empty_conv)
    then show ?thesis using False by simp
  qed
qed simp

text \<open>The scan of a rewritten history finds exactly the rewritten rows.\<close>

lemma rewritten_scan:
  assumes "distinct (map al_id logs)" "\<And>l. al_id (edit l) = al_id l"
    "linked lib ring logs (p + 1) prev rs" "0 \<le> p"
  shows "map fa_sequence (scan_rows lib CHAIN_VERSION (map (\<lambda>r. (r, edit (log_of logs r))) rs) p prev) =
      map ir_sequence_number (filter (\<lambda>r. payload_changed lib edit (log_of logs r)) rs) \<and>
    (\<forall>a \<in> set (scan_rows lib CHAIN_VERSION (map (\<lambda>r. (r, edit (log_of logs r))) rs) p prev).
       FAILURE_CANONICAL_PAYLOAD_HASH \<in> set (fa_failure_types a) \<and>
       (\<exists>l \<in> set logs. payload_changed lib edit l \<and>
         fa_tamper_marker a = (strip_known_marker (al_summary (edit l)) \<noteq> None) \<and>
         fa_decision_type a = or_empty (al_decision_type (edit l)) \<and>
         fa_production_executed a = extract_production_executed lib (al_artifact_refs (edit l))))"
  using assms(3,4)
proof (induction rs arbitrary: p prev)
  case (Cons r rs)
  have g: "good_record lib ring logs (p + 1) prev r" using Cons.prems(1) by simp
  note w = rewritten_record[OF assms(1) g Cons.prems(2) assms(2)]
  let ?l = "log_of logs r"
  define A where "A = analyse_record lib CHAIN_VERSION (ir_sequence_number r) (ir_audit_log_id r) (edit ?l)
     (ir_payload_hash r) (ir_row_hash r) (ir_prev_hash r) (ir_signature_status r)
     (if 1 < ir_sequence_number r then prev else None) ''n/a''"
  have e: "(edit ?l)\<lparr>al_id := ir_audit_log_id r\<rparr> = edit ?l" using w(2) assms(2)[of ?l] by (cases "edit ?l") simp
  have seq: "ir_sequence_number r = p + 1" by (rule w(3))
  have types: "fa_failure_types A = [] \<longleftrightarrow> \<not> payload_changed lib edit ?l"
    "payload_changed lib edit ?l \<Longrightarrow> FAILURE_CANONICAL_PAYLOAD_HASH \<in> set (fa_failure_types A)"
  proof -
    have "fa_failure_types A = [] \<longleftrightarrow> compute_payload_hash lib (build_canonical_payload lib (edit ?l)) = ir_payload_hash r"
      unfolding A_def analyse_failure_types no_failure_types e using w(6,7) seq by auto
    then show "fa_failure_types A = [] \<longleftrightarrow> \<not> payload_changed lib edit ?l" using w(5) by (simp add: payload_changed_def)
    show "payload_changed lib edit ?l \<Longrightarrow> FAILURE_CANONICAL_PAYLOAD_HASH \<in> set (fa_failure_types A)"
      unfolding A_def analyse_failure_types e using w(5) by (auto simp: failure_types_def payload_changed_def)
  qed
  have fields: "fa_sequence A = p + 1" "fa_tamper_marker A = (strip_known_marker (al_summary (edit ?l)) \<noteq> None)"
    "fa_decision_type A = or_empty (al_decision_type (edit ?l))"
    "fa_production_executed A = extract_production_executed lib (al_artifact_refs (edit ?l))"
    unfolding A_def analyse_record_def Let_def classify_record_keeps using seq by simp_all
  have step: "scan_rows lib CHAIN_VERSION (map (\<lambda>r. (r, edit (log_of logs r))) (r # rs)) p prev =
      (if payload_changed lib edit ?l then [A] else []) @
      scan_rows lib CHAIN_VERSION (map (\<lambda>r. (r, edit (log_of logs r))) rs) (p + 1) (Some (ir_row_hash r))"
    unfolding list.map scan_rows.simps Let_def A_def[symmetric] using seq types(1) by simp
  have IH: "linked lib ring logs (p + 1 + 1) (Some (ir_row_hash r)) rs" "0 \<le> p + 1" using Cons.prems by simp_all
  show ?case
    unfolding step using Cons.IH[OF IH] types(2) fields w(4) seq by auto
qed simp

text \<open>Besides the chain, the ids of the records stay distinct in every history.\<close>

lemma audit_step_ids:
  "audit_step lib ring db db' \<Longrightarrow> distinct (map ir_integrity_id (ad_records db)) \<Longrightarrow>
   distinct (map ir_integrity_id (ad_records db'))"
proof (induction rule: audit_step.induct)
  case (add_record l db kr iid status r db')
  then show ?case
    by (auto simp: create_integrity_record_in_txn_def insert_integrity_def list_ex_iff Let_def
        split: if_split_asm prod.splits) (metis+)
qed simp

interpretation audit_ids: invariant_system empty_audit_db "audit_step lib ring"
    "\<lambda>db. distinct (map ir_integrity_id (ad_records db))" for lib ring
  by unfold_locales (simp_all add: audit_step_ids, simp add: empty_audit_db_def)

lemma rewritten_complete:
  assumes "chain_inv lib ring db" "distinct (map ir_integrity_id (ad_records db))" "\<And>l. al_id (edit l) = al_id l"
  shows "complete_chain CHAIN_VERSION (rewrite_logs edit db)"
    "joined_rows CHAIN_VERSION (rewrite_logs edit db) = map (\<lambda>r. (r, edit (log_of (ad_logs db) r))) (ad_records db)"
proof -
  have l: "linked lib ring (ad_logs db) 1 None (ad_records db)" using assms(1) by (simp add: chain_inv_def)
  show j: "joined_rows CHAIN_VERSION (rewrite_logs edit db) = map (\<lambda>r. (r, edit (log_of (ad_logs db) r))) (ad_records db)"
    unfolding joined_rows_rewrite[of edit, OF assms(3)] joined_rows_eq[OF assms(1)] by simp
  have s: "map ir_sequence_number (ad_records db) = [1..int (length (ad_records db))]" using linked_seqs[OF l] by simp
  then have "distinct (map ir_sequence_number (ad_records db))" by simp
  then have "distinct (map (\<lambda>r. (ir_chain_version r, ir_sequence_number r)) (ad_records db))"
    by (auto simp: distinct_map inj_on_def)
  then show "complete_chain CHAIN_VERSION (rewrite_logs edit db)"
    using assms(2) s unfolding complete_chain_def j by (simp add: rewrite_logs_def comp_def)
qed

text \<open>
  C39. Rewritten history can be repaired into the verified one. Take any history and rewrite three or more
  recorded audit rows of one decision type, so that their content hash changes, without the test marker
  and without marking them production. The scan then finds failing records none of which is repairable
  by itself, each suspected of a mutated audit row, and yet the classification allows the repair as
  canonicalisation drift; the approved repair completes, keeps the rewritten rows, and the chain
  verifies with the verifier that ignores signatures.
\<close>

theorem rewritten_history_repaired:
  assumes "(audit_step lib ring)\<^sup>*\<^sup>* empty_audit_db db" "\<And>l. al_id (edit l) = al_id l" "t \<noteq> []"
    "\<forall>l \<in> set (ad_logs db). payload_changed lib edit l \<longrightarrow> al_decision_type (edit l) = Some t \<and>
       strip_known_marker (al_summary (edit l)) = None \<and>
       extract_production_executed lib (al_artifact_refs (edit l)) \<noteq> Some True"
    "3 \<le> length (filter (\<lambda>r. payload_changed lib edit (log_of (ad_logs db) r)) (ad_records db))"
    "db1 = rewrite_logs edit db"
  shows "(\<forall>a \<in> set (scan lib CHAIN_VERSION db1). \<not> fa_repairable a \<and> fa_root_cause a = ROOT_CAUSE_AUDIT_LOG_MUTATED) \<and>
    cc_repair_allowed (classify_chain_root_cause (scan lib CHAIN_VERSION db1)) \<and>
    (\<exists>rep db2 res. apply_repair lib (plan_for lib CHAIN_VERSION db1) True False CHAIN_VERSION db1 = (rep, db2) \<and>
       rep_status rep = REPAIR_STATUS_COMPLETED \<and> ad_logs db2 = map edit (ad_logs db) \<and>
       verify_chain lib kr ''chain_only'' legacy CHAIN_VERSION db2 = Inr res \<and> vr_status res \<noteq> ''failed'')"
proof -
  have inv: "chain_inv lib ring db" using audit.inv_reachable[OF assms(1)] .
  have ids: "distinct (map ir_integrity_id (ad_records db))" using audit_ids.inv_reachable[OF assms(1)] .
  have l: "linked lib ring (ad_logs db) (0 + 1) None (ad_records db)" and d: "distinct (map al_id (ad_logs db))"
    using inv by (simp_all add: chain_inv_def)
  note cj = rewritten_complete[OF inv ids assms(2), folded assms(6)]
  define F where "F = scan lib CHAIN_VERSION db1"
  define C where "C = filter (\<lambda>r. payload_changed lib edit (log_of (ad_logs db) r)) (ad_records db)"
  have sc: "map fa_sequence F = map ir_sequence_number C"
    "\<forall>a \<in> set F. FAILURE_CANONICAL_PAYLOAD_HASH \<in> set (fa_failure_types a) \<and>
       (\<exists>l \<in> set (ad_logs db). payload_changed lib edit l \<and>
         fa_tamper_marker a = (strip_known_marker (al_summary (edit l)) \<noteq> None) \<and>
         fa_decision_type a = or_empty (al_decision_type (edit l)) \<and>
         fa_production_executed a = extract_production_executed lib (al_artifact_refs (edit l)))"
    using rewritten_scan[OF d assms(2) l] by (simp_all add: F_def C_def scan_def cj(2))
  have len: "3 \<le> length F" "F \<noteq> []" using assms(5) map_eq_imp_length_eq[OF sc(1)] by (auto simp: C_def)
  have un: "\<forall>a \<in> set F. unexplained_change a \<and> fa_decision_type a = t \<and> fa_production_executed a \<noteq> Some True"
    using sc(2) assms(4) by (fastforce simp: unexplained_change_def or_empty_def)
  have cl: "\<And>a. a \<in> set F \<Longrightarrow> classified a" unfolding F_def scan_def by (rule scan_classified)
  have mut: "\<forall>a \<in> set F. \<not> fa_repairable a \<and> fa_root_cause a = ROOT_CAUSE_AUDIT_LOG_MUTATED"
    using un classified_facts(1,4)[OF cl] by (auto simp: unexplained_change_def proven_test_tamper_def)
  have "fa_decision_type ` set F - {[]} = {t}" using un assms(3) len(2) by (cases F) auto
  then have ok: "cc_repair_allowed (classify_chain_root_cause F)"
    using repair_offer_iff[of lib CHAIN_VERSION db1] un mut len unfolding F_def by blast
  have cr: "chain_records CHAIN_VERSION db1 = ad_records db"
    using chain_records_eq[OF inv] by (simp add: assms(6) chain_records_def rewrite_logs_def)
  have "C \<noteq> []" using len(2) sc(1) by auto
  then have ne: "chain_records CHAIN_VERSION db1 \<noteq> []" unfolding cr by (auto simp: C_def)
  note plan = plan_for_allowed[OF ok[unfolded F_def] len(2)[unfolded F_def] ne]
  define n where "n = least_sequence F"
  have n: "n = Min (ir_sequence_number ` set C)"
    unfolding n_def least_sequence_Min[OF len(2)] using arg_cong[OF sc(1), of set] by simp
  then have nC: "n \<in> ir_sequence_number ` set C" "\<forall>r \<in> set C. n \<le> ir_sequence_number r"
    using Min_in[of "ir_sequence_number ` set C"] \<open>C \<noteq> []\<close> by simp_all
  have bounds: "1 \<le> n" "n \<le> int (length (ad_records db))"
    using nC(1) upto_bounds[OF linked_seqs[OF l]] by (auto simp: C_def)
  have start: "start_of (plan_for lib CHAIN_VERSION db1) = n"
    using plan(2) bounds(1) by (simp add: start_of_def n_def F_def)
  have pre: "hashes_ok lib CHAIN_VERSION 0 None (filter (\<lambda>rl. ir_sequence_number (fst rl) < n) (joined_rows CHAIN_VERSION db1))"
    unfolding cj(2) by (rule rewritten_prefix_ok[OF d assms(2) l]) (use nC(2) in \<open>auto simp: C_def\<close>)
  obtain rep db2 where a: "apply_repair lib (plan_for lib CHAIN_VERSION db1) True False CHAIN_VERSION db1 = (rep, db2)"
    by fastforce
  have r: "rep_status rep = REPAIR_STATUS_COMPLETED \<and> hashes_ok lib CHAIN_VERSION 0 None (joined_rows CHAIN_VERSION db2)"
    by (rule repair_restores[OF cj(1) plan(1) _ _ _ a]) (use start bounds pre cj(2) in simp_all)
  have "ad_logs db2 = map edit (ad_logs db)"
    using a r by (cases rule: apply_repair_cases) (auto simp: assms(6) rewrite_logs_def)
  then show ?thesis using mut ok a r chain_only_verdict[of lib kr legacy CHAIN_VERSION db2] unfolding F_def by blast
qed

section \<open>Concrete runs\<close>

definition sample_edit :: "audit_log \<Rightarrow> audit_log" where
  "sample_edit l = l\<lparr>al_decision_type := Some ''deploy'', al_summary := Some ''rewritten''\<rparr>"

lemma sample_edit_id: "al_id (sample_edit l) = al_id l"
  by (simp add: sample_edit_def)

lemma sample_edit_changes:
  assumes "al_summary l = Some ''s''" shows "payload_changed hex_lib sample_edit l"
proof (rule ccontr)
  assume "\<not> payload_changed hex_lib sample_edit l"
  then have e: "canonical_json (build_canonical_payload hex_lib (sample_edit l)) =
      canonical_json (build_canonical_payload hex_lib l)"
    by (simp add: payload_changed_def compute_payload_hash_def hex_lib_def hex_text_inj)
  define r where "r = new_integrity hex_lib (sample_ring []) [] [] l 1 None"
  have r: "ir_audit_log_id r = al_id l" by (simp add: r_def new_integrity_fields)
  have "payload_text hex_lib (r, sample_edit l) = payload_text hex_lib (r, l)"
  proof -
    have "(sample_edit l)\<lparr>al_id := al_id l\<rparr> = sample_edit l" "l\<lparr>al_id := al_id l\<rparr> = l"
      by (cases l; simp add: sample_edit_def)+
    then show ?thesis using e by (simp add: payload_text_def r)
  qed
  then have "view_of hex_lib (r, sample_edit l) = view_of hex_lib (r, l)" by (rule payload_text_view)
  then show False using assms by (simp add: view_of_def sample_edit_def or_empty_def)
qed

theorem rewritten_history_repaired_witness:
  "\<exists>db rep db2 res. length (ad_logs db) = 3 \<and>
    cc_repair_allowed (classify_chain_root_cause (scan hex_lib CHAIN_VERSION (rewrite_logs sample_edit db))) \<and>
    apply_repair hex_lib (plan_for hex_lib CHAIN_VERSION (rewrite_logs sample_edit db)) True False CHAIN_VERSION
      (rewrite_logs sample_edit db) = (rep, db2) \<and>
    rep_status rep = REPAIR_STATUS_COMPLETED \<and>
    map al_summary (ad_logs db2) = [Some ''rewritten'', Some ''rewritten'', Some ''rewritten''] \<and>
    verify_chain hex_lib (sample_ring ''x'') ''chain_only'' False CHAIN_VERSION db2 = Inr res \<and>
    vr_status res \<noteq> ''failed''"
proof -
  define ls where "ls = [sample_log RefsNone, (sample_log RefsNone)\<lparr>al_id := ''a2''\<rparr>, (sample_log RefsNone)\<lparr>al_id := ''a3''\<rparr>]"
  have "distinct (map al_id ls)" "\<forall>l \<in> set ls. al_id l \<noteq> []" by (simp_all add: ls_def sample_log_def)
  from recorded_history[OF this sample_ring_facts(4)[of "''x''"], of hex_lib] obtain db where
    db: "(audit_step hex_lib (sample_ring ''x''))\<^sup>*\<^sup>* empty_audit_db db" "ad_logs db = ls"
      "map ir_audit_log_id (ad_records db) = map al_id ls" by blast
  have nm: "strip_known_marker (Some ''rewritten'') = None" by code_simp
  have ch: "\<forall>l \<in> set (ad_logs db). payload_changed hex_lib sample_edit l \<longrightarrow>
      al_decision_type (sample_edit l) = Some ''deploy'' \<and> strip_known_marker (al_summary (sample_edit l)) = None \<and>
      extract_production_executed hex_lib (al_artifact_refs (sample_edit l)) \<noteq> Some True"
    unfolding db(2) by (simp add: ls_def sample_edit_def sample_log_def nm)
  have inv: "chain_inv hex_lib (sample_ring ''x'') db" using audit.inv_reachable[OF db(1)] .
  have "payload_changed hex_lib sample_edit (log_of (ad_logs db) r)" if rin: "r \<in> set (ad_records db)" for r
  proof -
    obtain l where l: "l \<in> set (ad_logs db)" "al_id l = ir_audit_log_id r"
      using linked_logs[OF _ rin, of hex_lib "sample_ring ''x''" "ad_logs db" 1 None] inv by (auto simp: chain_inv_def)
    then have "log_of (ad_logs db) r = l" using find_log[of "ad_logs db" l r] inv by (simp add: chain_inv_def log_of_def)
    moreover have "al_summary l = Some ''s''" using l(1) db(2) by (auto simp: ls_def sample_log_def)
    ultimately show ?thesis using sample_edit_changes by simp
  qed
  then have "filter (\<lambda>r. payload_changed hex_lib sample_edit (log_of (ad_logs db) r)) (ad_records db) = ad_records db"
    by (simp add: filter_id_conv)
  then have n: "3 \<le> length (filter (\<lambda>r. payload_changed hex_lib sample_edit (log_of (ad_logs db) r)) (ad_records db))"
    using map_eq_imp_length_eq[OF db(3)] by (simp add: ls_def)
  have m: "map al_summary (map sample_edit (ad_logs db)) = [Some ''rewritten'', Some ''rewritten'', Some ''rewritten'']"
    "length (ad_logs db) = 3" by (simp_all add: db(2) ls_def sample_edit_def)
  show ?thesis
    using rewritten_history_repaired[OF db(1) sample_edit_id _ ch n refl, of "sample_ring ''x''" False] m by fastforce
qed

text \<open>One rewritten row under one signed record: the plan repairs it from the first sequence.\<close>

definition one_plan :: repair_plan where
  "one_plan = \<lparr>rp_root_cause = ROOT_CAUSE_TEST_TAMPER_NOT_RESTORED, rp_repair_allowed = True,
     rp_repair_risk = REPAIR_RISK_LOW, rp_first_failed = Some 1, rp_affected = [1], rp_reason = []\<rparr>"

definition edited_db :: audit_db where
  "edited_db = rewrite_logs sample_edit (sample_db (sample_ring ''x'') RefsNone)"

lemma edited_db_facts:
  "complete_chain CHAIN_VERSION edited_db" "length (joined_rows CHAIN_VERSION edited_db) = 1"
  "distinct (map ir_integrity_id (ad_records edited_db))" "start_of one_plan = 1" "rp_repair_allowed one_plan"
  "filter (\<lambda>rl. ir_sequence_number (fst rl) < 1) (joined_rows CHAIN_VERSION edited_db) = []"
proof -
  note r = sample_db_reachable[of "''x''" RefsNone]
  note c = rewritten_complete[of hex_lib "sample_ring ''x''" "sample_db (sample_ring ''x'') RefsNone" sample_edit,
      OF audit.inv_reachable[OF r] audit_ids.inv_reachable[OF r] sample_edit_id]
  show "complete_chain CHAIN_VERSION edited_db" using c(1) by (simp add: edited_db_def)
  show "length (joined_rows CHAIN_VERSION edited_db) = 1" using c(2) by (simp add: edited_db_def sample_db_def)
  show "distinct (map ir_integrity_id (ad_records edited_db))" by (simp add: edited_db_def rewrite_logs_def sample_db_def)
  show "start_of one_plan = 1" "rp_repair_allowed one_plan" by (simp_all add: start_of_def one_plan_def)
  show "filter (\<lambda>rl. ir_sequence_number (fst rl) < 1) (joined_rows CHAIN_VERSION edited_db) = []"
    using c(2) by (simp add: edited_db_def sample_db_def new_integrity_fields)
qed

theorem repair_restores_chain_witness:
  "\<exists>rep db' res. apply_repair hex_lib one_plan True False CHAIN_VERSION edited_db = (rep, db') \<and>
    rep_status rep = REPAIR_STATUS_COMPLETED \<and> map al_summary (ad_logs db') = [Some ''rewritten''] \<and>
    verify_chain hex_lib (sample_ring ''x'') ''chain_only'' False CHAIN_VERSION db' = Inr res \<and>
    vr_status res \<noteq> ''failed''"
proof -
  have l: "map al_summary (ad_logs edited_db) = [Some ''rewritten'']"
    by (simp add: edited_db_def rewrite_logs_def sample_db_def sample_edit_def)
  have "hashes_ok hex_lib CHAIN_VERSION 0 None (filter (\<lambda>rl. ir_sequence_number (fst rl) < start_of one_plan)
      (joined_rows CHAIN_VERSION edited_db))"
    unfolding edited_db_facts(4,6) by simp
  then show ?thesis using repair_restores_chain[OF edited_db_facts(1,5), of hex_lib] l
    by (auto simp: edited_db_facts)
qed

lemma edited_repair:
  obtains rep db' where "apply_repair hex_lib one_plan True False CHAIN_VERSION edited_db = (rep, db')"
    "rep_status rep = REPAIR_STATUS_COMPLETED" "hashes_ok hex_lib CHAIN_VERSION 0 None (joined_rows CHAIN_VERSION db')"
    "ad_logs db' = [sample_edit (sample_log RefsNone)]"
    "map identity_columns (ad_records db') = map identity_columns (ad_records edited_db)"
proof -
  obtain rep db' where a: "apply_repair hex_lib one_plan True False CHAIN_VERSION edited_db = (rep, db')" by fastforce
  have r: "rep_status rep = REPAIR_STATUS_COMPLETED \<and> hashes_ok hex_lib CHAIN_VERSION 0 None (joined_rows CHAIN_VERSION db')"
    by (rule repair_restores[OF edited_db_facts(1,5) _ _ _ a])
      (unfold edited_db_facts(4,6), simp_all add: edited_db_facts(2))
  have "ad_logs db' = ad_logs edited_db" "map identity_columns (ad_records db') = map identity_columns (ad_records edited_db)"
    using a r by (cases rule: apply_repair_cases; simp)+
  moreover have "ad_logs edited_db = [sample_edit (sample_log RefsNone)]"
    by (simp add: edited_db_def rewrite_logs_def sample_db_def)
  ultimately show ?thesis using that[OF a] r by simp
qed

theorem repair_atomic_witness:
  "\<exists>rep db'. apply_repair hex_lib one_plan True False CHAIN_VERSION edited_db = (rep, db') \<and>
    rep_status rep = REPAIR_STATUS_COMPLETED \<and> ad_logs db' = ad_logs edited_db \<and>
    (\<exists>res. verify_chain hex_lib no_keyring ''chain_only'' True CHAIN_VERSION db' = Inr res \<and> vr_status res \<noteq> ''failed'')"
proof -
  obtain rep db' where "apply_repair hex_lib one_plan True False CHAIN_VERSION edited_db = (rep, db')"
    "rep_status rep = REPAIR_STATUS_COMPLETED" using edited_repair by metis
  then show ?thesis using repair_atomic[OF _ edited_db_facts(3), of hex_lib one_plan True False CHAIN_VERSION rep db']
    by blast
qed

theorem repaired_signature_rejected_witness:
  "\<exists>rep db' res. apply_repair hex_lib one_plan True False CHAIN_VERSION edited_db = (rep, db') \<and>
    rep_status rep = REPAIR_STATUS_COMPLETED \<and>
    verify_chain hex_lib (sample_ring ''x'') ''permissive'' False CHAIN_VERSION db' = Inr res \<and> vr_status res = ''failed''"
proof -
  obtain rep db' where a: "apply_repair hex_lib one_plan True False CHAIN_VERSION edited_db = (rep, db')"
    "rep_status rep = REPAIR_STATUS_COMPLETED" "hashes_ok hex_lib CHAIN_VERSION 0 None (joined_rows CHAIN_VERSION db')"
    "ad_logs db' = [sample_edit (sample_log RefsNone)]"
    "map identity_columns (ad_records db') = map identity_columns (ad_records edited_db)" using edited_repair by metis
  let ?l = "sample_log RefsNone"
  let ?r = "new_integrity hex_lib (sample_ring ''x'') ''i1'' ''active'' ?l 1 None"
  have er: "ad_records edited_db = [?r]" by (simp add: edited_db_def rewrite_logs_def sample_db_def)
  then obtain r' where r': "ad_records db' = [r']" "identity_columns r' = identity_columns ?r"
    using a(5) by (cases "ad_records db'") auto
  have ident: "ir_audit_log_id r' = ''a1''" "ir_chain_version r' = CHAIN_VERSION" "ir_sequence_number r' = 1"
    using r'(2) by (simp_all add: identity_columns_def new_integrity_fields sample_log_def)
  have j: "joined_rows CHAIN_VERSION db' = [(r', sample_edit ?l)]"
    using ident a(4) r'(1)
    by (simp add: joined_rows_def chain_records_def List.map_filter_def sample_edit_id sample_log_def sample_edit_def)
  then have "check_hashes hex_lib CHAIN_VERSION 0 None r' (sample_edit ?l) = None" using a(3) by simp
  note h' = check_hashes_None(2)[OF this]
  have "ir_row_hash r' \<noteq> ir_row_hash ?r"
  proof
    assume "ir_row_hash r' = ir_row_hash ?r"
    then have e: "row_envelope CHAIN_VERSION 1 ''a1'' (ir_prev_hash r') (hex_text (payload_text hex_lib (r', sample_edit ?l))) =
        row_envelope CHAIN_VERSION 1 ''a1'' None (hex_text (payload_text hex_lib (?r, ?l)))"
      using h' ident
      by (simp add: new_integrity_fields compute_row_hash_def envelope_text_def compute_payload_hash_def payload_text_def
          hex_lib_def hex_text_inj sample_log_def)
    have "payload_text hex_lib (r', sample_edit ?l) = payload_text hex_lib (?r, ?l)"
      using row_envelope_inj[OF e] hex_text_digest by (simp add: hex_text_inj)
    then have "view_of hex_lib (r', sample_edit ?l) = view_of hex_lib (?r, ?l)" by (rule payload_text_view)
    then show False by (simp add: view_of_def sample_edit_def sample_log_def or_empty_def)
  qed
  then have mac: "hmac_sha256 hex_lib ''x'' (ir_row_hash r') \<noteq> hmac_sha256 hex_lib ''x'' (ir_row_hash ?r)"
    by (simp add: hex_lib_def hex_text_inj)
  have "ir_row_hash ?r \<noteq> []" using hex_text_digest by (simp add: new_integrity_fields compute_row_hash_def hex_lib_def)
  then have sg: "ir_signature ?r = Some (hmac_sha256 hex_lib ''x'' (ir_row_hash ?r))" "ir_signature_status ?r = ''signed''"
    "ir_signing_key_id ?r = Some ''k1''"
    unfolding new_integrity_fields by (simp_all add: new_integrity_def Let_def sign_def sample_ring_facts)
  have asc: "\<forall>r \<in> set (ad_records edited_db). is_ascii (or_empty (ir_signature r))"
    using sg(1) hex_text_digest by (simp add: er or_empty_def hex_lib_def)
  have s': "ir_signature_status r' = ''signed''" "ir_signing_key_id r' = Some ''k1''"
    using r'(2) sg by (simp_all add: identity_columns_def)
  show ?thesis
    using repaired_signature_rejected[OF a(1,2) hex_lib_digests, of "''permissive''" "sample_ring ''x''" r' "sample_edit ?l" "''k1''" "''x''" ?r False]
      asc j s' er r'(2) sg(1) mac a(1,2) by (auto simp: sample_ring_facts)
qed

text \<open>A single rewritten row is not offered for repair; a severed record is seen by the verifier only.\<close>

theorem repair_offer_exact_witness:
  "\<not> cc_repair_allowed (classify_chain_root_cause (scan hex_lib CHAIN_VERSION edited_db)) \<and>
   length (scan hex_lib CHAIN_VERSION edited_db) = 1"
proof -
  let ?db = "sample_db (sample_ring ''x'') RefsNone"
  note r = sample_db_reachable[of "''x''" RefsNone]
  have inv: "chain_inv hex_lib (sample_ring ''x'') ?db" using audit.inv_reachable[OF r] .
  then have l: "linked hex_lib (sample_ring ''x'') (ad_logs ?db) (0 + 1) None (ad_records ?db)"
    and d: "distinct (map al_id (ad_logs ?db))" by (simp_all add: chain_inv_def)
  have j: "scan hex_lib CHAIN_VERSION edited_db = scan_rows hex_lib CHAIN_VERSION
      (map (\<lambda>r. (r, sample_edit (log_of (ad_logs ?db) r))) (ad_records ?db)) 0 None"
    unfolding scan_def edited_db_def
    using rewritten_complete(2)[OF inv audit_ids.inv_reachable[OF r] sample_edit_id] by simp
  note sc = rewritten_scan[of "ad_logs ?db" sample_edit hex_lib "sample_ring ''x''" 0 None "ad_records ?db",
      OF d sample_edit_id l, folded j]
  have lo: "log_of (ad_logs ?db) (new_integrity hex_lib (sample_ring ''x'') ''i1'' ''active'' (sample_log RefsNone) 1 None) =
      sample_log RefsNone"
    by (simp add: log_of_def sample_db_def new_integrity_fields)
  have "payload_changed hex_lib sample_edit (sample_log RefsNone)"
    by (rule sample_edit_changes) (simp add: sample_log_def)
  then have "length (map fa_sequence (scan hex_lib CHAIN_VERSION edited_db)) = 1"
    using sc lo by (simp add: sample_db_def)
  then have n: "length (scan hex_lib CHAIN_VERSION edited_db) = 1" by simp
  then obtain a where a: "scan hex_lib CHAIN_VERSION edited_db = [a]" by (auto simp: length_Suc_conv)
  have "fa_tamper_marker a = (strip_known_marker (Some ''rewritten'') \<noteq> None)"
    using sc a by (auto simp: sample_db_def sample_edit_def)
  moreover have "strip_known_marker (Some ''rewritten'') = None" by code_simp
  ultimately have "\<not> proven_test_tamper a" by (simp add: proven_test_tamper_def)
  then show ?thesis using repair_offer_exact[of hex_lib CHAIN_VERSION edited_db] n a by simp
qed

definition severed_db :: audit_db where
  "severed_db =
    (let l = sample_log RefsNone; l' = l\<lparr>al_id := ''a2''\<rparr> in
     \<lparr>ad_logs = [l, l'], ad_records = [new_integrity hex_lib no_keyring ''i1'' ''active'' l 1 None,
        new_integrity hex_lib no_keyring ''i2'' ''active'' l' 2 None]\<rparr>)"

theorem scan_agrees_with_verifier_witness:
  "scan hex_lib CHAIN_VERSION severed_db = [] \<and>
   (\<exists>res. verify_chain hex_lib no_keyring ''chain_only'' False CHAIN_VERSION severed_db = Inr res \<and>
      vr_status res = ''failed'')"
proof -
  let ?l = "sample_log RefsNone" and ?l' = "(sample_log RefsNone)\<lparr>al_id := ''a2''\<rparr>"
  let ?r = "new_integrity hex_lib no_keyring ''i1'' ''active'' ?l 1 None"
  let ?r' = "new_integrity hex_lib no_keyring ''i2'' ''active'' ?l' 2 None"
  have j: "joined_rows CHAIN_VERSION severed_db = [(?r, ?l), (?r', ?l')]"
    by (simp add: joined_rows_def chain_records_def severed_db_def Let_def List.map_filter_def new_integrity_fields
        sample_log_def)
  have e: "?l\<lparr>al_id := al_id ?l\<rparr> = ?l" "?l'\<lparr>al_id := al_id ?l'\<rparr> = ?l'" by simp_all
  have s: "scan hex_lib CHAIN_VERSION severed_db = []"
    unfolding scan_def j scan_rows.simps Let_def analyse_failure_types
    by (simp add: new_integrity_fields no_failure_types e analyse_failure_types)
  have "\<exists>r \<in> fst ` set (joined_rows CHAIN_VERSION severed_db). 1 < ir_sequence_number r \<and> ir_prev_hash r = None"
    unfolding j by (simp add: new_integrity_fields)
  then show ?thesis
    using scan_agrees_with_verifier[of hex_lib no_keyring False CHAIN_VERSION severed_db] s by blast
qed

end
