(* ===== verification/Py_Regex.thy ===== *)
theory Py_Regex imports Prelude begin

text \<open>
  The parts of \<^verbatim>\<open>re\<close> and \<^verbatim>\<open>fnmatch\<close> that the policies use. A pattern is a value of \<open>rx\<close>; only the
  truth of \<^verbatim>\<open>search\<close> is used by the code, so a match is a set of ends and no order of alternatives
  matters. Text is ASCII. \<open>rx_match\<close> is the reading of a pattern as a relation, and \<open>ends\<close> computes it.
\<close>

section \<open>Regular expressions\<close>

datatype rx =
    Cls "char \<Rightarrow> bool"
  | Seq rx rx
  | Alt rx rx
  | Star rx
  | Nil_rx
  | Boundary

definition word_char :: "char \<Rightarrow> bool" where
  "word_char c =
     (let n = (of_char c :: nat)
      in (48 \<le> n \<and> n \<le> 57) \<or> (65 \<le> n \<and> n \<le> 90) \<or> n = 95 \<or> (97 \<le> n \<and> n \<le> 122))"

definition at_boundary :: "char option \<Rightarrow> string \<Rightarrow> bool" where
  "at_boundary prev s \<longleftrightarrow>
     (case prev of None \<Rightarrow> False | Some c \<Rightarrow> word_char c) \<noteq> (case s of [] \<Rightarrow> False | c # r \<Rightarrow> word_char c)"

text \<open>A position is the character before it, if any, and the rest of the text.\<close>

type_synonym position = "char option \<times> string"

inductive rx_match :: "rx \<Rightarrow> position \<Rightarrow> position \<Rightarrow> bool" where
  cls: "p c \<Longrightarrow> rx_match (Cls p) (b, c # s) (Some c, s)"
| seq: "rx_match r x y \<Longrightarrow> rx_match q y z \<Longrightarrow> rx_match (Seq r q) x z"
| left: "rx_match r x y \<Longrightarrow> rx_match (Alt r q) x y"
| right: "rx_match q x y \<Longrightarrow> rx_match (Alt r q) x y"
| stop: "rx_match (Star r) x x"
| more: "rx_match r x y \<Longrightarrow> rx_match (Star r) y z \<Longrightarrow> rx_match (Star r) x z"
| nil: "rx_match Nil_rx x x"
| boundary: "at_boundary b s \<Longrightarrow> rx_match Boundary (b, s) (b, s)"

inductive_simps rx_match_simps:
  "rx_match (Cls p) x y" "rx_match (Seq r q) x y" "rx_match (Alt r q) x y" "rx_match Nil_rx x y"
  "rx_match Boundary x y"

text \<open>A repetition that consumes nothing is not repeated, as in \<^verbatim>\<open>re\<close>.\<close>

function ends :: "rx \<Rightarrow> position \<Rightarrow> position list" where
  "ends (Cls p) (b, s) = (case s of [] \<Rightarrow> [] | c # r \<Rightarrow> if p c then [(Some c, r)] else [])"
| "ends (Seq r q) x = concat (map (\<lambda>y. ends q y) (ends r x))"
| "ends (Alt r q) x = ends r x @ ends q x"
| "ends (Star r) x =
     x # concat (map (\<lambda>y. if length (snd y) < length (snd x) then ends (Star r) y else []) (ends r x))"
| "ends Nil_rx x = [x]"
| "ends Boundary (b, s) = (if at_boundary b s then [(b, s)] else [])"
  by pat_completeness auto
termination
  by (relation "measures [size \<circ> fst, length \<circ> snd \<circ> snd]") auto

fun rx_search_from :: "rx \<Rightarrow> char option \<Rightarrow> string \<Rightarrow> bool" where
  "rx_search_from r b [] = (ends r (b, []) \<noteq> [])"
| "rx_search_from r b (c # s) = (ends r (b, c # s) \<noteq> [] \<or> rx_search_from r (Some c) s)"

definition rx_search :: "rx \<Rightarrow> string \<Rightarrow> bool" where
  "rx_search r s = rx_search_from r None s"

lemma rx_match_suffix: "rx_match r x y \<Longrightarrow> y = x \<or> length (snd y) < length (snd x)"
  by (induction rule: rx_match.induct) auto

declare ends.simps(4) [simp del]

lemma ends_sound: "y \<in> set (ends r x) \<Longrightarrow> rx_match r x y"
proof (induction r x arbitrary: y rule: ends.induct)
  case (4 r x)
  then consider "y = x" | z where "z \<in> set (ends r x)" "length (snd z) < length (snd x)" "y \<in> set (ends (Star r) z)"
    by (auto simp: ends.simps(4)[of r x] split: if_split_asm)
  then show ?case
  proof cases
    case 2
    then show ?thesis using 4 rx_match.more by metis
  qed (simp add: rx_match.stop)
next
  case (2 r q x)
  then obtain z where "z \<in> set (ends r x)" "y \<in> set (ends q z)" by auto
  then show ?case using 2 rx_match.seq by blast
qed (auto split: list.splits if_split_asm intro: rx_match.intros)

lemma ends_complete: "rx_match r x y \<Longrightarrow> y \<in> set (ends r x)"
proof (induction rule: rx_match.induct)
  case (stop r x)
  then show ?case by (subst ends.simps(4)) simp
next
  case (more r x y z)
  show ?case
  proof (cases "y = x")
    case False
    then have "length (snd y) < length (snd x)" using rx_match_suffix[OF more.hyps(1)] by blast
    then show ?thesis using more.IH by (subst ends.simps(4)) auto
  qed (use more.IH in simp)
qed auto

lemma ends_iff: "y \<in> set (ends r x) \<longleftrightarrow> rx_match r x y"
  using ends_sound ends_complete by blast

text \<open>A search finds the pattern exactly when some position of the text starts a match.\<close>

lemma rx_search_from_iff:
  "rx_search_from r b s \<longleftrightarrow> (\<exists>l t y. s = l @ t \<and> rx_match r (if l = [] then b else Some (last l), t) y)"
proof (induction r b s rule: rx_search_from.induct)
  case (1 r b)
  have "ends r (b, []) \<noteq> [] \<longleftrightarrow> (\<exists>y. rx_match r (b, []) y)" by (metis ends_iff list.set_intros(1) neq_Nil_conv empty_iff empty_set)
  then show ?case by auto
next
  case (2 r b c s)
  have e: "ends r (b, c # s) \<noteq> [] \<longleftrightarrow> (\<exists>y. rx_match r (b, c # s) y)"
    by (metis ends_iff list.set_intros(1) neq_Nil_conv empty_iff empty_set)
  show ?case
  proof
    assume "rx_search_from r b (c # s)"
    then consider y where "rx_match r (b, c # s) y"
      | l t y where "s = l @ t" "rx_match r (if l = [] then Some c else Some (last l), t) y"
      using e 2 by (metis rx_search_from.simps(2))
    then show "\<exists>l t y. c # s = l @ t \<and> rx_match r (if l = [] then b else Some (last l), t) y"
    proof cases
      case 1
      then have "c # s = [] @ (c # s)" "rx_match r (if ([] :: string) = [] then b else Some (last []), c # s) y" by simp_all
      then show ?thesis by blast
    next
      case m: 2
      then have "c # s = (c # l) @ t" "rx_match r (if c # l = [] then b else Some (last (c # l)), t) y"
        by (auto split: if_split_asm)
      then show ?thesis by blast
    qed
  next
    assume "\<exists>l t y. c # s = l @ t \<and> rx_match r (if l = [] then b else Some (last l), t) y"
    then obtain l t y where l: "c # s = l @ t" "rx_match r (if l = [] then b else Some (last l), t) y" by blast
    show "rx_search_from r b (c # s)"
    proof (cases l)
      case Nil
      then have "rx_match r (b, c # s) y" using l by simp
      then show ?thesis using e by fastforce
    next
      case (Cons d m)
      then have "s = m @ t" "rx_match r (if m = [] then Some c else Some (last m), t) y"
        using l by (auto split: if_split_asm)
      then have "rx_search_from r (Some c) s" unfolding 2 by blast
      then show ?thesis by simp
    qed
  qed
qed

subsection \<open>Building patterns\<close>

definition one_rx :: "char \<Rightarrow> rx" where "one_rx c = Cls (\<lambda>x. x = c)"

fun lit :: "string \<Rightarrow> rx" where
  "lit [] = Nil_rx"
| "lit (c # cs) = Seq (one_rx c) (lit cs)"

fun any_case :: "string \<Rightarrow> rx" where
  "any_case [] = Nil_rx"
| "any_case (c # cs) = Seq (Cls (\<lambda>x. py_lower_char x = py_lower_char c)) (any_case cs)"

fun seqs :: "rx list \<Rightarrow> rx" where
  "seqs [] = Nil_rx"
| "seqs [r] = r"
| "seqs (r # q # rs) = Seq r (seqs (q # rs))"

fun alts :: "rx list \<Rightarrow> rx" where
  "alts [] = Cls (\<lambda>_. False)"
| "alts [r] = r"
| "alts (r # q # rs) = Alt r (alts (q # rs))"

fun at_least :: "nat \<Rightarrow> rx \<Rightarrow> rx" where
  "at_least 0 r = Star r"
| "at_least (Suc n) r = Seq r (at_least n r)"

definition opt_rx :: "rx \<Rightarrow> rx" where "opt_rx r = Alt r Nil_rx"

definition is_upper :: "char \<Rightarrow> bool" where
  "is_upper c = (let n = (of_char c :: nat) in 65 \<le> n \<and> n \<le> 90)"
definition is_lower :: "char \<Rightarrow> bool" where
  "is_lower c = (let n = (of_char c :: nat) in 97 \<le> n \<and> n \<le> 122)"
definition is_num :: "char \<Rightarrow> bool" where
  "is_num c = (let n = (of_char c :: nat) in 48 \<le> n \<and> n \<le> 57)"
definition is_alnum :: "char \<Rightarrow> bool" where
  "is_alnum c \<longleftrightarrow> is_upper c \<or> is_lower c \<or> is_num c"
definition blank_rx :: rx where "blank_rx = Cls py_isspace"
definition word_rx :: rx where "word_rx = Cls word_char"

section \<open>Shell patterns\<close>

datatype glob = GLit char | GAny | GStar | GSet bool "char \<Rightarrow> bool"

text \<open>The members of a bracket: ranges, and single characters.\<close>

fun set_items :: "string \<Rightarrow> char \<Rightarrow> bool" where
  "set_items (a # d # b # r) x =
     (if d = CHR ''-''
      then ((of_char a :: nat) \<le> of_char x \<and> (of_char x :: nat) \<le> of_char b) \<or> set_items r x
      else x = a \<or> set_items (d # b # r) x)"
| "set_items (a # r) x = (x = a \<or> set_items r x)"
| "set_items [] x = False"

text \<open>The text of a bracket up to its end, which a leading \<^verbatim>\<open>!\<close> and then a leading \<^verbatim>\<open>]\<close> do not close.\<close>

definition bracket :: "string \<Rightarrow> (string \<times> string) option" where
  "bracket s =
    (let bang = (case s of c # r \<Rightarrow> if c = CHR ''!'' then [c] else [] | [] \<Rightarrow> []);
         s1 = drop (length bang) s;
         close = (case s1 of c # r \<Rightarrow> if c = CHR '']'' then [c] else [] | [] \<Rightarrow> []);
         s2 = drop (length close) s1;
         body = takeWhile (\<lambda>c. c \<noteq> CHR '']'') s2
     in case drop (length body) s2 of [] \<Rightarrow> None | _ # r \<Rightarrow> Some (bang @ close @ body, r))"

definition glob_set :: "string \<Rightarrow> glob" where
  "glob_set stuff =
     (case stuff of [] \<Rightarrow> GSet False (\<lambda>_. False)
      | c # r \<Rightarrow> if c = CHR ''!'' then (if r = [] then GAny else GSet True (set_items r))
          else GSet False (set_items stuff))"

lemma bracket_shorter:
  assumes "bracket s = Some (body, r)"
  shows "length r < Suc (length s)"
proof -
  obtain n m k x where "drop n (drop m (drop k s)) = x # r"
    using assms unfolding bracket_def Let_def by (auto split: list.splits)
  then have "length (x # r) = length s - k - m - n" by (metis length_drop)
  then show ?thesis by simp
qed

function glob_of :: "string \<Rightarrow> glob list" where
  "glob_of [] = []"
| "glob_of (c # s) =
     (if c = CHR ''*'' then GStar # glob_of s
      else if c = CHR ''?'' then GAny # glob_of s
      else if c = CHR ''['' then
        (case bracket s of None \<Rightarrow> GLit c # glob_of s | Some (body, r) \<Rightarrow> glob_set body # glob_of r)
      else GLit c # glob_of s)"
  by pat_completeness auto
termination
  by (relation "measure length") (auto dest: bracket_shorter)

fun glob_match :: "glob list \<Rightarrow> string \<Rightarrow> bool" where
  "glob_match [] s = (s = [])"
| "glob_match (GStar # g) [] = glob_match g []"
| "glob_match (GStar # g) (c # s) = (glob_match g (c # s) \<or> glob_match (GStar # g) s)"
| "glob_match (GLit a # g) (c # s) = (c = a \<and> glob_match g s)"
| "glob_match (GAny # g) (c # s) = glob_match g s"
| "glob_match (GSet neg p # g) (c # s) = (p c \<noteq> neg \<and> glob_match g s)"
| "glob_match (_ # g) [] = False"

definition fnmatch :: "string \<Rightarrow> string \<Rightarrow> bool" where
  "fnmatch name pattern = glob_match (glob_of pattern) name"

lemma glob_star_iff: "glob_match (GStar # g) s \<longleftrightarrow> (\<exists>l r. s = l @ r \<and> glob_match g r)"
proof (induction s)
  case (Cons c s)
  have "(\<exists>l r. c # s = l @ r \<and> glob_match g r) \<longleftrightarrow> glob_match g (c # s) \<or> (\<exists>l r. s = l @ r \<and> glob_match g r)"
    by (metis append_Cons append_Nil list.exhaust list.sel(3))
  then show ?case using Cons by simp
qed simp

lemma glob_lit_append: "glob_match (map GLit p @ g) s \<longleftrightarrow> (\<exists>r. s = p @ r \<and> glob_match g r)"
proof (induction p arbitrary: s)
  case (Cons c p)
  then show ?case by (cases s) auto
qed simp

end
