(* ===== verification/Code_Policy.thy ===== *)
theory Code_Policy imports Py_Regex Py_Json begin

text \<open>
  The path, change and content rules of generated code (\<^verbatim>\<open>shared/sdk/code_workspace/policy.py\<close>). A
  result is \<^verbatim>\<open>(ok, reason)\<close>.
\<close>

section \<open>The lists\<close>

definition DEFAULT_ALLOWED_PATHS :: "string list" where
  "DEFAULT_ALLOWED_PATHS =
    [''docs/generated/'', ''apps/demo-generated/'', ''tests/generated/'', ''source/generated/'']"

definition DEFAULT_DENIED_PATHS :: "string list" where
  "DEFAULT_DENIED_PATHS =
    [''.github/*'', ''.github/**'', ''infra/*'', ''infra/**'', ''migrations/*'', ''migrations/**'',
     ''shared/sdk/secrets/*'', ''shared/sdk/secrets/**'', ''docs/operations/secrets-management.md'',
     ''docker-compose*.yml'', ''infra/docker-compose/*'', ''infra/docker-compose/**'', ''*secret*'',
     ''*.pem'', ''*.key'', ''*.env'', ''*.env.*'', ''source/progress.md'']"

definition ALLOWED_CHANGE_TYPES :: "string list" where
  "ALLOWED_CHANGE_TYPES = [''create'', ''update'']"

abbreviation (input) quote_rx :: rx where
  "quote_rx \<equiv> Cls (\<lambda>c. c = CHR 0x27 \<or> c = CHR 0x22)"

definition SECRET_PATTERNS :: "(string \<times> rx) list" where
  "SECRET_PATTERNS =
    [(''github_token'', seqs [Boundary, lit ''ghp_'', at_least 20 (Cls is_alnum), Boundary]),
     (''github_token_pat'',
       seqs [Boundary, lit ''github_pat_'', at_least 20 (Cls (\<lambda>c. is_alnum c \<or> c = CHR ''_'')), Boundary]),
     (''aws_access_key'',
       seqs [Boundary, lit ''AKIA'', at_least 12 (Cls (\<lambda>c. is_num c \<or> is_upper c)), Boundary]),
     (''slack_token'',
       seqs [Boundary, lit ''xox'', Cls (\<lambda>c. c \<in> set ''abprs''), lit ''-'',
         at_least 10 (Cls (\<lambda>c. is_alnum c \<or> c = CHR ''-'')), Boundary]),
     (''private_key'',
       seqs [lit ''-----BEGIN '', Star (Cls (\<lambda>c. is_upper c \<or> c = CHR '' '')), lit ''PRIVATE KEY-----'']),
     (''password_assignment'',
       seqs [alts [any_case ''password'', any_case ''passwd'', any_case ''pwd''], Star blank_rx, lit ''='',
         Star blank_rx, quote_rx, at_least 4 (Cls (\<lambda>c. c \<noteq> CHR 0x27 \<and> c \<noteq> CHR 0x22)), quote_rx]),
     (''bearer_token'',
       seqs [any_case ''bearer'', at_least 1 blank_rx,
         at_least 20 (Cls (\<lambda>c. is_alnum c \<or> c \<in> set ''_-.=''))]),
     (''openai_key'', seqs [Boundary, lit ''sk-'', at_least 20 (Cls is_alnum), Boundary]),
     (''hashicorp_token'',
       seqs [Boundary, lit ''hvs.'', at_least 20 (Cls (\<lambda>c. is_alnum c \<or> c = CHR ''_'' \<or> c = CHR ''-'')), Boundary])]"

definition DESTRUCTIVE_PATTERNS :: "(string \<times> rx) list" where
  "DESTRUCTIVE_PATTERNS =
    [(''rm_rf'', seqs [Boundary, lit ''rm'', at_least 1 blank_rx, lit ''-rf'', Boundary]),
     (''rm_rf_quoted'',
       seqs [quote_rx, lit ''rm'', quote_rx, Star blank_rx, lit '','', Star blank_rx, quote_rx, lit ''-rf'', quote_rx]),
     (''drop_database'',
       seqs [Boundary, any_case ''drop'', at_least 1 blank_rx,
         alts [any_case ''database'', any_case ''schema'', any_case ''table''], Boundary]),
     (''truncate_table'',
       seqs [Boundary, any_case ''truncate'', at_least 1 blank_rx, any_case ''table'', Boundary]),
     (''force_push'',
       seqs [Boundary, lit ''git'', at_least 1 blank_rx, lit ''push'', at_least 1 blank_rx,
         Star (Cls (\<lambda>c. c \<noteq> CHR 0x0A)), lit ''--force'', Boundary]),
     (''kubectl_delete_ns'',
       seqs [Boundary, lit ''kubectl'', at_least 1 blank_rx, lit ''delete'', at_least 1 blank_rx,
         alts [lit ''ns'', lit ''namespace''], Boundary]),
     (''shutdown'',
       seqs [Boundary, alts [lit ''shutdown'', lit ''halt'', lit ''reboot''], at_least 1 blank_rx,
         opt_rx (lit ''-''), Star word_rx])]"

section \<open>Paths\<close>

definition to_posix :: "string \<Rightarrow> string" where
  "to_posix = map (\<lambda>c. if c = CHR 0x5C then CHR ''/'' else c)"

fun drop_dot_slash :: "string \<Rightarrow> string" where
  "drop_dot_slash (a # b # r) =
     (if a = CHR ''.'' \<and> b = CHR ''/'' then drop_dot_slash r else a # b # r)"
| "drop_dot_slash s = s"

definition normalise_path :: "string \<Rightarrow> string" where
  "normalise_path file_path = drop_dot_slash (py_strip (to_posix file_path))"

fun split_on :: "char \<Rightarrow> string \<Rightarrow> string list" where
  "split_on d [] = [[]]"
| "split_on d (c # s) =
     (if c = d then [] # split_on d s
      else case split_on d s of [] \<Rightarrow> [[c]] | w # ws \<Rightarrow> (c # w) # ws)"

definition path_basename :: "string \<Rightarrow> string" where
  "path_basename p = last (split_on (CHR ''/'') p)"

definition denied_by :: "string \<Rightarrow> string \<Rightarrow> bool" where
  "denied_by p pat \<longleftrightarrow>
     fnmatch p pat \<or> fnmatch (py_lower p) (py_lower pat) \<or>
     fnmatch (path_basename p) pat \<or> fnmatch (py_lower (path_basename p)) (py_lower pat)"

definition absolute_path :: "string \<Rightarrow> bool" where
  "absolute_path p \<longleftrightarrow> starts_with ''/'' p \<or> (length p \<ge> 2 \<and> p ! 1 = CHR '':'')"

definition validate_allowed_path :: "string \<Rightarrow> string list \<Rightarrow> string list \<Rightarrow> bool \<times> string" where
  "validate_allowed_path file_path allowed_prefixes denied =
    (let p = normalise_path file_path in
     if p = [] then (False, ''empty_path'')
     else if absolute_path p then (False, ''absolute_path'')
     else if ''..'' \<in> set (split_on (CHR ''/'') p) then (False, ''path_traversal'')
     else case find (denied_by p) denied of
       Some pat \<Rightarrow> (False, ''denied:'' @ pat)
     | None \<Rightarrow>
        (case find (\<lambda>prefix. normalise_path prefix \<noteq> [] \<and> starts_with (normalise_path prefix) p) allowed_prefixes of
           Some prefix \<Rightarrow> (True, ''allowed:'' @ normalise_path prefix)
         | None \<Rightarrow> (False, ''not_in_allowlist'')))"

section \<open>Change types and content\<close>

definition validate_change_type :: "string option \<Rightarrow> bool \<times> string" where
  "validate_change_type change_type =
    (let ct = py_lower (py_strip (or_empty change_type)) in
     if ct \<notin> set ALLOWED_CHANGE_TYPES
     then (False, ''disallowed_change_type:'' @ (if ct = [] then ''empty'' else ct))
     else (True, ''change_type:'' @ ct))"

definition validate_no_secret_content :: "string option \<Rightarrow> bool \<times> string" where
  "validate_no_secret_content content =
    (case content of None \<Rightarrow> (True, ''empty_content'')
     | Some s \<Rightarrow>
        (case find (\<lambda>np. rx_search (snd np) s) SECRET_PATTERNS of
           Some np \<Rightarrow> (False, ''secret_like:'' @ fst np) | None \<Rightarrow> (True, ''no_secret_signature'')))"

definition validate_no_destructive_change :: "string option \<Rightarrow> bool \<times> string" where
  "validate_no_destructive_change diff =
    (if \<not> truthy diff then (True, ''empty_diff'')
     else case find (\<lambda>np. rx_search (snd np) (or_empty diff)) DESTRUCTIVE_PATTERNS of
       Some np \<Rightarrow> (False, ''destructive:'' @ fst np) | None \<Rightarrow> (True, ''no_destructive_signature''))"

section \<open>Risk\<close>

text \<open>A changed file is a path, or an object whose \<^verbatim>\<open>file_path\<close> may be missing.\<close>

datatype changed_file = PathText string | FileEntry "string option"

fun changed_path :: "changed_file \<Rightarrow> string" where
  "changed_path (PathText p) = p"
| "changed_path (FileEntry p) = or_empty p"

record change_risk =
  cr_level :: string
  cr_reason :: string
  cr_files :: nat
  cr_docs :: nat
  cr_tests :: nat
  cr_app :: nat
  cr_outside :: nat
  cr_paths :: "string list"

definition inside_default :: "string \<Rightarrow> bool" where
  "inside_default path = fst (validate_allowed_path path DEFAULT_ALLOWED_PATHS DEFAULT_DENIED_PATHS)"

definition count_under :: "string list \<Rightarrow> string list \<Rightarrow> string list \<Rightarrow> nat" where
  "count_under prefixes excluded paths =
     length (filter (\<lambda>p. inside_default p \<and> list_ex (\<lambda>x. starts_with x (normalise_path p)) prefixes \<and>
       \<not> list_ex (\<lambda>x. starts_with x (normalise_path p)) excluded) paths)"

definition nat_text :: "nat \<Rightarrow> string" where "nat_text n = decimal n"

definition classify_change_risk :: "changed_file list \<Rightarrow> change_risk" where
  "classify_change_risk changed_files =
    (if changed_files = []
     then \<lparr>cr_level = ''low'', cr_reason = ''no_files'', cr_files = 0, cr_docs = 0, cr_tests = 0,
           cr_app = 0, cr_outside = 0, cr_paths = []\<rparr>
     else
      let paths = map changed_path changed_files;
          docs = count_under [''docs/generated/''] [] paths;
          tests = count_under [''tests/generated/''] [''docs/generated/''] paths;
          app = count_under [''apps/demo-generated/'', ''source/generated/'']
            [''docs/generated/'', ''tests/generated/''] paths;
          outside = length (filter (\<lambda>p. \<not> inside_default p) paths);
          base = (if outside > 0 then (''high'', ''outside_allowlist:'' @ nat_text outside)
            else if app > 0 then (''medium'', ''app_code:'' @ nat_text app)
            else if tests > 0 \<and> docs = 0 \<and> app = 0 then (''low'', ''tests_only'')
            else (''low'', ''docs_only''));
          verdict = (if length changed_files > 10
            then (''high'', ''too_many_files:'' @ nat_text (length changed_files)) else base)
      in \<lparr>cr_level = fst verdict, cr_reason = snd verdict, cr_files = length changed_files,
          cr_docs = docs, cr_tests = tests, cr_app = app, cr_outside = outside,
          cr_paths = paths\<rparr>)"

end
