(* ===== verification/Approval_Policy.thy ===== *)
theory Approval_Policy imports Code_Policy begin

text \<open>
  Human approval policies (\<^verbatim>\<open>shared/sdk/approval_policy/models.py\<close>, \<^verbatim>\<open>evaluator.py\<close>, and the policy
  and approval statements of \<^verbatim>\<open>store.py\<close>): a policy delegates some actions on some paths of a task
  for a time and a number of uses; the evaluator decides whether one of the candidate policies
  authorises an action, after the hard safety rails. The gate of the promotion handler of
  \<^verbatim>\<open>apps/orchestrator/src/approval_policy_api.py\<close> composes the two with the store. An id is
  the text it is stored with: the casts of the statements to \<^verbatim>\<open>uuid\<close>, which accept other spellings of the
  same id and raise on what is none, are not modelled.
\<close>

section \<open>Policies\<close>

definition APPROVAL_MODES :: "string list" where
  "APPROVAL_MODES = [''per_action'', ''per_feature'', ''per_stage'', ''delegated'']"

definition SCOPE_TYPES :: "string list" where
  "SCOPE_TYPES = [''action'', ''feature'', ''stage'', ''workflow'', ''task'']"

definition HARD_SAFETY_ACTIONS :: "string list" where
  "HARD_SAFETY_ACTIONS =
    [''production_deploy'', ''real_github_write'', ''real_github_pr_merge'',
     ''branch_protection_modification'', ''force_push'', ''delete_file'', ''secret_write'',
     ''destructive_command'', ''real_llm_network_call'', ''denylist_path_mutation'']"

text \<open>
  A stored deadline as text: absent, a time in ISO format, or a text that does not parse. The clock is
  in microseconds.
\<close>

datatype deadline = NoDeadline | Deadline int | Unreadable string

record human_policy =
  hp_policy_id :: uuid
  hp_task_id :: string
  hp_workflow_id :: "string option"
  hp_scope_type :: string
  hp_scope_id :: string
  hp_approval_mode :: string
  hp_status :: string
  hp_granted_by :: string
  hp_granted_at :: int
  hp_expires_at :: deadline
  hp_max_actions :: "int option"
  hp_max_files_changed :: "int option"
  hp_max_auto_fix_attempts :: "int option"
  hp_actions_used :: int
  hp_allowed_stages :: "string list"
  hp_allowed_agents :: "string list"
  hp_allowed_actions :: "string list"
  hp_allowed_paths :: "string list"
  hp_denied_paths :: "string list"
  hp_constraints :: payload
  hp_reason :: "string option"
  hp_created_at :: int
  hp_updated_at :: int

text \<open>An action as the caller describes it.\<close>

record action =
  ac_task_id :: string
  ac_workflow_id :: "string option"
  ac_type :: string
  ac_stage :: string
  ac_agent :: string
  ac_paths :: "string list"
  ac_files_changed :: int
  ac_samples :: "string list"
  ac_risk_level :: string

record safety_snapshot =
  sn_task_id :: string
  sn_workflow_id :: "string option"
  sn_action_type :: string
  sn_stage :: string
  sn_agent :: string
  sn_paths :: "string list"
  sn_files_changed :: int
  sn_risk_level :: string
  sn_production_executed :: bool
  sn_real_call :: bool

record evaluation =
  er_allowed :: bool
  er_reason :: string
  er_policy_id :: uuid
  er_approval_mode :: string
  er_hard_policy_block :: bool
  er_requires_explicit_approval :: bool
  er_safety_snapshot :: safety_snapshot

section \<open>The evaluator\<close>

text \<open>A deadline that cannot be read is no deadline (\<^verbatim>\<open>_parse_dt\<close>).\<close>

fun parse_dt :: "deadline \<Rightarrow> int option" where
  "parse_dt NoDeadline = None"
| "parse_dt (Deadline t) = Some t"
| "parse_dt (Unreadable s) = None"

definition policy_expired :: "int \<Rightarrow> human_policy \<Rightarrow> bool" where
  "policy_expired now p =
     (case parse_dt (hp_expires_at p) of None \<Rightarrow> False | Some t \<Rightarrow> t \<le> now)"

definition path_blocked_by_denylist :: "string \<Rightarrow> string list \<Rightarrow> bool \<times> string" where
  "path_blocked_by_denylist path denylist =
    (let (ok, why) = validate_allowed_path path DEFAULT_ALLOWED_PATHS (DEFAULT_DENIED_PATHS @ denylist) in
     if \<not> ok \<and> starts_with ''denied:'' why then (True, why)
     else if \<not> ok then (False, why)
     else (False, []))"

fun path_rails :: "string list \<Rightarrow> string option" where
  "path_rails [] = None"
| "path_rails (path # paths) =
    (let (ok, why) = validate_allowed_path path DEFAULT_ALLOWED_PATHS DEFAULT_DENIED_PATHS in
     if \<not> ok \<and> starts_with ''denied:'' why then Some (''hard_safety:denylist_path:'' @ path)
     else if \<not> ok \<and> why = ''path_traversal'' then Some (''hard_safety:path_traversal:'' @ path)
     else path_rails paths)"

fun content_rails :: "string list \<Rightarrow> string option" where
  "content_rails [] = None"
| "content_rails (sample # samples) =
    (let (ok, why) = validate_no_secret_content (Some sample);
         (ok2, why2) = validate_no_destructive_change (Some sample) in
     if \<not> ok then Some (''hard_safety:'' @ why)
     else if \<not> ok2 then Some (''hard_safety:'' @ why2)
     else content_rails samples)"

text \<open>The reason of a hard block, if there is one.\<close>

definition hard_safety_check :: "string \<Rightarrow> string list \<Rightarrow> string list \<Rightarrow> string option" where
  "hard_safety_check action_type paths samples =
    (if action_type \<in> set HARD_SAFETY_ACTIONS then Some (''hard_safety:'' @ action_type)
     else case path_rails paths of Some why \<Rightarrow> Some why | None \<Rightarrow> content_rails samples)"

definition missing_or :: "(int \<Rightarrow> bool) \<Rightarrow> int option \<Rightarrow> bool" where
  "missing_or bad x = (case x of None \<Rightarrow> True | Some n \<Rightarrow> bad n)"

definition policy_constraints_ok :: "human_policy \<Rightarrow> bool \<times> string" where
  "policy_constraints_ok p =
    (if hp_approval_mode p \<noteq> ''delegated'' then (True, ''n/a'')
     else if hp_expires_at p = NoDeadline then (False, ''delegated_missing:expires_at'')
     else if hp_allowed_actions p = [] then (False, ''delegated_missing:allowed_actions'')
     else if hp_allowed_paths p = [] then (False, ''delegated_missing:allowed_paths'')
     else if hp_denied_paths p = [] then (False, ''delegated_missing:denied_paths'')
     else if missing_or (\<lambda>n. n \<le> 0) (hp_max_actions p) then (False, ''delegated_missing:max_actions'')
     else if missing_or (\<lambda>n. n \<le> 0) (hp_max_files_changed p)
     then (False, ''delegated_missing:max_files_changed'')
     else if missing_or (\<lambda>n. n < 0) (hp_max_auto_fix_attempts p)
     then (False, ''delegated_missing:max_auto_fix_attempts'')
     else (True, ''ok''))"

text \<open>\<^verbatim>\<open>lstrip("./")\<close> drops every leading dot and slash.\<close>

definition strip_dots :: "string \<Rightarrow> string" where
  "strip_dots s = dropWhile (\<lambda>c. c = CHR ''.'' \<or> c = CHR ''/'') (to_posix s)"

definition in_policy_paths :: "string list \<Rightarrow> string \<Rightarrow> bool" where
  "in_policy_paths prefixes path =
     list_ex (\<lambda>prefix. starts_with (strip_dots prefix) (strip_dots path)) prefixes"

fun policy_paths :: "human_policy \<Rightarrow> string list \<Rightarrow> string option" where
  "policy_paths p [] = None"
| "policy_paths p (path # paths) =
    (let (is_denied, why) = path_blocked_by_denylist path (hp_denied_paths p) in
     if is_denied then Some (''policy_denied_path:'' @ path @ '':'' @ why)
     else if hp_allowed_paths p \<noteq> [] \<and> \<not> in_policy_paths (hp_allowed_paths p) path
     then Some (''path_not_in_policy_allowlist:'' @ path)
     else policy_paths p paths)"

definition policy_authorises :: "int \<Rightarrow> human_policy \<Rightarrow> action \<Rightarrow> bool \<times> string" where
  "policy_authorises now p a =
    (if hp_status p \<noteq> ''active'' then (False, ''policy_not_active:'' @ hp_status p)
     else if policy_expired now p then (False, ''policy_expired'')
     else if \<not> fst (policy_constraints_ok p) then (False, snd (policy_constraints_ok p))
     else if hp_task_id p \<noteq> [] \<and> hp_task_id p \<noteq> ac_task_id a then (False, ''policy_task_mismatch'')
     else if hp_approval_mode p = ''per_stage'' \<and> hp_allowed_stages p \<noteq> [] \<and> ac_stage a \<noteq> [] \<and>
       ac_stage a \<notin> set (hp_allowed_stages p) then (False, ''stage_not_allowed:'' @ ac_stage a)
     else if hp_allowed_actions p \<noteq> [] \<and> ac_type a \<notin> set (hp_allowed_actions p)
     then (False, ''action_not_allowed:'' @ ac_type a)
     else if hp_allowed_agents p \<noteq> [] \<and> ac_agent a \<noteq> [] \<and> ac_agent a \<notin> set (hp_allowed_agents p)
     then (False, ''agent_not_allowed:'' @ ac_agent a)
     else case policy_paths p (ac_paths a) of Some why \<Rightarrow> (False, why)
     | None \<Rightarrow>
        (case hp_max_files_changed p of
           Some m \<Rightarrow> if m < ac_files_changed a
             then (False, ''max_files_changed_exceeded:'' @ int_text (ac_files_changed a) @ ''>'' @ int_text m)
             else (case hp_max_actions p of
               Some n \<Rightarrow> if n \<le> hp_actions_used p then (False, ''max_actions_exceeded'') else (True, ''ok'')
             | None \<Rightarrow> (True, ''ok''))
         | None \<Rightarrow> (case hp_max_actions p of
             Some n \<Rightarrow> if n \<le> hp_actions_used p then (False, ''max_actions_exceeded'') else (True, ''ok'')
           | None \<Rightarrow> (True, ''ok''))))"

definition snapshot_of :: "action \<Rightarrow> safety_snapshot" where
  "snapshot_of a = \<lparr>sn_task_id = ac_task_id a, sn_workflow_id = ac_workflow_id a,
     sn_action_type = ac_type a, sn_stage = ac_stage a, sn_agent = ac_agent a, sn_paths = ac_paths a,
     sn_files_changed = ac_files_changed a, sn_risk_level = ac_risk_level a,
     sn_production_executed = False, sn_real_call = False\<rparr>"

definition refusal :: "action \<Rightarrow> string \<Rightarrow> bool \<Rightarrow> bool \<Rightarrow> evaluation" where
  "refusal a reason hard explicit = \<lparr>er_allowed = False, er_reason = reason, er_policy_id = [],
     er_approval_mode = (if explicit then ''per_action'' else []), er_hard_policy_block = hard,
     er_requires_explicit_approval = explicit, er_safety_snapshot = snapshot_of a\<rparr>"

text \<open>
  The loop over the candidates: the clock is read anew for each policy that is looked at, and the last
  refusal is the reason of the answer.
\<close>

fun try_policies :: "(nat \<Rightarrow> int) \<Rightarrow> nat \<Rightarrow> action \<Rightarrow> human_policy list \<Rightarrow> string \<Rightarrow> evaluation" where
  "try_policies clock k a [] last_refusal =
     refusal a last_refusal False (last_refusal = ''per_action_requires_explicit_approval'')"
| "try_policies clock k a (p # ps) last_refusal =
    (if hp_approval_mode p = ''per_action''
     then try_policies clock (Suc k) a ps ''per_action_requires_explicit_approval''
     else let (authorises, reason) = policy_authorises (clock k) p a in
       if authorises
       then \<lparr>er_allowed = True, er_reason = ''policy_allows'', er_policy_id = hp_policy_id p,
             er_approval_mode = hp_approval_mode p, er_hard_policy_block = False,
             er_requires_explicit_approval = False, er_safety_snapshot = snapshot_of a\<rparr>
       else try_policies clock (Suc k) a ps reason)"

definition evaluate_action :: "(nat \<Rightarrow> int) \<Rightarrow> action \<Rightarrow> human_policy list \<Rightarrow> evaluation" where
  "evaluate_action clock a candidates =
    (case hard_safety_check (ac_type a) (ac_paths a) (ac_samples a) of
       Some why \<Rightarrow> refusal a why True False
     | None \<Rightarrow> try_policies clock 0 a candidates ''no_active_policy'')"

text \<open>The wrapper \<^verbatim>\<open>ApprovalPolicyEvaluator\<close> keeps a list of candidates.\<close>

definition is_action_allowed_by_policy :: "(nat \<Rightarrow> int) \<Rightarrow> action \<Rightarrow> human_policy list \<Rightarrow> bool" where
  "is_action_allowed_by_policy clock a ps =
     er_allowed (evaluate_action clock (a\<lparr>ac_workflow_id := None, ac_samples := [], ac_risk_level := ''low''\<rparr>) ps)"

definition requires_manual_approval :: "(nat \<Rightarrow> int) \<Rightarrow> action \<Rightarrow> human_policy list \<Rightarrow> bool" where
  "requires_manual_approval clock a ps =
    (let r = evaluate_action clock (a\<lparr>ac_workflow_id := None, ac_samples := [], ac_risk_level := ''low''\<rparr>) ps
     in er_requires_explicit_approval r \<or> (\<not> er_allowed r \<and> \<not> er_hard_policy_block r))"

section \<open>What an authorisation means\<close>

text \<open>The meaning of the hard rails, and of one policy covering one action at one time.\<close>

definition rails_hold :: "action \<Rightarrow> bool" where
  "rails_hold a \<longleftrightarrow> ac_type a \<notin> set HARD_SAFETY_ACTIONS \<and>
     (\<forall>path \<in> set (ac_paths a). \<not> starts_with ''denied:''
          (snd (validate_allowed_path path DEFAULT_ALLOWED_PATHS DEFAULT_DENIED_PATHS)) \<and>
        snd (validate_allowed_path path DEFAULT_ALLOWED_PATHS DEFAULT_DENIED_PATHS) \<noteq> ''path_traversal'') \<and>
     (\<forall>s \<in> set (ac_samples a). (\<forall>np \<in> set SECRET_PATTERNS. \<not> rx_search (snd np) s) \<and>
        (s = [] \<or> (\<forall>np \<in> set DESTRUCTIVE_PATTERNS. \<not> rx_search (snd np) s)))"

definition within_budget :: "human_policy \<Rightarrow> int \<Rightarrow> bool" where
  "within_budget p files \<longleftrightarrow>
     (\<forall>m. hp_max_files_changed p = Some m \<longrightarrow> files \<le> m) \<and> (\<forall>n. hp_max_actions p = Some n \<longrightarrow> hp_actions_used p < n)"

definition covers :: "int \<Rightarrow> human_policy \<Rightarrow> action \<Rightarrow> bool" where
  "covers now p a \<longleftrightarrow> hp_approval_mode p \<noteq> ''per_action'' \<and> hp_status p = ''active'' \<and> \<not> policy_expired now p \<and>
     fst (policy_constraints_ok p) \<and> (hp_task_id p \<noteq> [] \<longrightarrow> hp_task_id p = ac_task_id a) \<and>
     (hp_approval_mode p = ''per_stage'' \<and> hp_allowed_stages p \<noteq> [] \<and> ac_stage a \<noteq> []
        \<longrightarrow> ac_stage a \<in> set (hp_allowed_stages p)) \<and>
     (hp_allowed_actions p \<noteq> [] \<longrightarrow> ac_type a \<in> set (hp_allowed_actions p)) \<and>
     (hp_allowed_agents p \<noteq> [] \<and> ac_agent a \<noteq> [] \<longrightarrow> ac_agent a \<in> set (hp_allowed_agents p)) \<and>
     (\<forall>path \<in> set (ac_paths a). \<not> fst (path_blocked_by_denylist path (hp_denied_paths p)) \<and>
        (hp_allowed_paths p \<noteq> [] \<longrightarrow> in_policy_paths (hp_allowed_paths p) path)) \<and>
     within_budget p (ac_files_changed a)"

lemma valid_path_reason:
  "validate_allowed_path path prefixes denied = (ok, why) \<Longrightarrow> ok \<Longrightarrow> \<not> starts_with ''denied:'' why \<and> why \<noteq> ''path_traversal''"
  by (auto simp: validate_allowed_path_def Let_def split: if_splits option.splits)

lemma path_rails_None:
  "path_rails paths = None \<longleftrightarrow>
     (\<forall>path \<in> set paths. \<not> starts_with ''denied:''
          (snd (validate_allowed_path path DEFAULT_ALLOWED_PATHS DEFAULT_DENIED_PATHS)) \<and>
        snd (validate_allowed_path path DEFAULT_ALLOWED_PATHS DEFAULT_DENIED_PATHS) \<noteq> ''path_traversal'')"
proof (induction paths)
  case (Cons path paths)
  obtain ok why where v: "validate_allowed_path path DEFAULT_ALLOWED_PATHS DEFAULT_DENIED_PATHS = (ok, why)" by fastforce
  show ?case using Cons valid_path_reason[OF v] v by (cases ok) (simp_all add: Let_def)
qed simp

lemma secret_free_iff:
  "fst (validate_no_secret_content (Some s)) \<longleftrightarrow> (\<forall>np \<in> set SECRET_PATTERNS. \<not> rx_search (snd np) s)"
  by (auto simp: validate_no_secret_content_def find_None_iff find_Some_iff split: option.split)

lemma harmless_iff:
  "fst (validate_no_destructive_change (Some s)) \<longleftrightarrow> s = [] \<or> (\<forall>np \<in> set DESTRUCTIVE_PATTERNS. \<not> rx_search (snd np) s)"
  by (auto simp: validate_no_destructive_change_def or_empty_def find_None_iff find_Some_iff split: option.split)

lemma content_rails_None:
  "content_rails samples = None \<longleftrightarrow>
     (\<forall>s \<in> set samples. fst (validate_no_secret_content (Some s)) \<and> fst (validate_no_destructive_change (Some s)))"
  by (induction samples) (auto simp: Let_def split: prod.splits)

lemma hard_safety_None: "hard_safety_check (ac_type a) (ac_paths a) (ac_samples a) = None \<longleftrightarrow> rails_hold a"
  unfolding hard_safety_check_def rails_hold_def path_rails_None[symmetric] secret_free_iff[symmetric]
    harmless_iff[symmetric] content_rails_None[symmetric]
  by (auto split: option.split)

lemma policy_paths_None:
  "policy_paths p paths = None \<longleftrightarrow>
     (\<forall>path \<in> set paths. \<not> fst (path_blocked_by_denylist path (hp_denied_paths p)) \<and>
        (hp_allowed_paths p \<noteq> [] \<longrightarrow> in_policy_paths (hp_allowed_paths p) path))"
  by (induction paths) (auto simp: Let_def split: prod.splits)

lemma fst_refuse: "fst (if b then (False, w) else x) \<longleftrightarrow> \<not> b \<and> fst x"
  by simp

lemma budget_iff:
  "fst (case hp_max_files_changed p of
           Some m \<Rightarrow> if m < f then (False, w m)
             else (case hp_max_actions p of
               Some n \<Rightarrow> if n \<le> hp_actions_used p then (False, v) else (True, u)
             | None \<Rightarrow> (True, u))
         | None \<Rightarrow> (case hp_max_actions p of
             Some n \<Rightarrow> if n \<le> hp_actions_used p then (False, v) else (True, u)
           | None \<Rightarrow> (True, u))) \<longleftrightarrow> within_budget p f"
  by (auto simp: within_budget_def split: option.split)

lemma policy_authorises_iff:
  "hp_approval_mode p \<noteq> ''per_action'' \<Longrightarrow> fst (policy_authorises now p a) \<longleftrightarrow> covers now p a"
  unfolding covers_def policy_paths_None[symmetric] policy_authorises_def fst_refuse
  by (cases "policy_paths p (ac_paths a)") (simp_all only: option.case budget_iff fst_conv, blast+)

lemma try_policies_allowed:
  "er_allowed (try_policies clock k a ps why) \<longleftrightarrow> (\<exists>i < length ps. covers (clock (k + i)) (ps ! i) a)"
proof (induction ps arbitrary: k why)
  case (Cons p ps)
  have s: "(\<exists>i < length (p # ps). covers (clock (k + i)) ((p # ps) ! i) a) \<longleftrightarrow>
      covers (clock k) p a \<or> (\<exists>i < length ps. covers (clock (Suc k + i)) (ps ! i) a)"
    using less_Suc_eq_0_disj by auto
  show ?case
  proof (cases "hp_approval_mode p = ''per_action''")
    case True
    then have "\<not> covers (clock k) p a" by (simp add: covers_def)
    then show ?thesis using Cons True s by simp
  next
    case False
    then show ?thesis using Cons s policy_authorises_iff[OF False, of "clock k" a]
      by (auto simp: Let_def split: prod.split)
  qed
qed (simp add: refusal_def)

lemma try_policies_who:
  assumes "er_allowed (try_policies clock k a ps why)"
  shows "\<exists>i < length ps. covers (clock (k + i)) (ps ! i) a \<and>
    er_policy_id (try_policies clock k a ps why) = hp_policy_id (ps ! i) \<and> (\<forall>j < i. \<not> covers (clock (k + j)) (ps ! j) a)"
  using assms
proof (induction ps arbitrary: k why)
  case (Cons p ps)
  show ?case
  proof (cases "hp_approval_mode p \<noteq> ''per_action'' \<and> covers (clock k) p a")
    case True
    then have "fst (policy_authorises (clock k) p a)" using policy_authorises_iff by blast
    then show ?thesis using True by (intro exI[of _ 0]) (auto simp: Let_def split: prod.split)
  next
    case False
    then have n: "\<not> covers (clock k) p a" by (auto simp: covers_def)
    have "\<exists>why'. try_policies clock k a (p # ps) why = try_policies clock (Suc k) a ps why'"
      using n policy_authorises_iff[of p "clock k" a]
      by (cases "hp_approval_mode p = ''per_action''") (auto simp: Let_def split: prod.split)
    then obtain why' where w: "try_policies clock k a (p # ps) why = try_policies clock (Suc k) a ps why'" by blast
    then obtain i where "i < length ps" "covers (clock (Suc k + i)) (ps ! i) a"
        "er_policy_id (try_policies clock (Suc k) a ps why') = hp_policy_id (ps ! i)"
        "\<forall>j < i. \<not> covers (clock (Suc k + j)) (ps ! j) a"
      using Cons by metis
    then show ?thesis using n w less_Suc_eq_0_disj by (intro exI[of _ "Suc i"]) auto
  qed
qed (simp add: refusal_def)

section \<open>The store\<close>

text \<open>The body of a request to create a policy, the deadline already read as a time.\<close>

record create_policy_in =
  ci_task_id :: string
  ci_workflow_id :: "string option"
  ci_scope_type :: string
  ci_scope_id :: string
  ci_approval_mode :: string
  ci_granted_by :: string
  ci_allowed_stages :: "string list"
  ci_allowed_agents :: "string list"
  ci_allowed_actions :: "string list"
  ci_allowed_paths :: "string list"
  ci_denied_paths :: "string list"
  ci_max_actions :: "int option"
  ci_max_files_changed :: "int option"
  ci_max_auto_fix_attempts :: "int option"
  ci_expires_at :: deadline
  ci_constraints :: payload
  ci_reason :: "string option"
  ci_activate :: bool

definition no_text :: "deadline \<Rightarrow> bool" where
  "no_text d \<longleftrightarrow> d = NoDeadline \<or> d = Unreadable []"

definition validate_create_payload :: "create_policy_in \<Rightarrow> string option" where
  "validate_create_payload c =
    (let mode = ci_approval_mode c in
     if mode \<notin> set APPROVAL_MODES then Some (''unknown approval_mode:'' @ mode)
     else if ci_scope_type c \<notin> set SCOPE_TYPES then Some (''unknown scope_type:'' @ ci_scope_type c)
     else if mode = ''delegated'' then
       (if ci_allowed_actions c = [] then Some ''delegated_missing:allowed_actions''
        else if ci_allowed_paths c = [] then Some ''delegated_missing:allowed_paths''
        else if ci_denied_paths c = [] then Some ''delegated_missing:denied_paths''
        else if missing_or (\<lambda>n. n \<le> 0) (ci_max_actions c) then Some ''delegated_missing:max_actions''
        else if missing_or (\<lambda>n. n \<le> 0) (ci_max_files_changed c) then Some ''delegated_missing:max_files_changed''
        else if missing_or (\<lambda>n. n < 0) (ci_max_auto_fix_attempts c)
        then Some ''delegated_missing:max_auto_fix_attempts''
        else if no_text (ci_expires_at c) then Some ''delegated_missing:expires_at''
        else None)
     else if mode = ''per_feature'' \<or> mode = ''per_stage'' then
       (if ci_allowed_actions c = [] then Some (mode @ ''_missing:allowed_actions'')
        else if ci_allowed_paths c = [] then Some (mode @ ''_missing:allowed_paths'')
        else if mode = ''per_stage'' \<and> ci_allowed_stages c = [] then Some ''per_stage_missing:allowed_stages''
        else None)
     else None)"

fun parse_expires_at :: "deadline \<Rightarrow> http_error + deadline" where
  "parse_expires_at NoDeadline = Inr NoDeadline"
| "parse_expires_at (Deadline t) = Inr (Deadline t)"
| "parse_expires_at (Unreadable s) =
     (if s = [] then Inr NoDeadline else Inl (HTTPException 400 ''invalid_expires_at''))"

definition policy_row :: "uuid \<Rightarrow> int \<Rightarrow> deadline \<Rightarrow> create_policy_in \<Rightarrow> human_policy" where
  "policy_row new_id now expires c = \<lparr>hp_policy_id = new_id, hp_task_id = ci_task_id c,
     hp_workflow_id = ci_workflow_id c, hp_scope_type = ci_scope_type c,
     hp_scope_id = (if ci_scope_id c = [] then ci_task_id c else ci_scope_id c),
     hp_approval_mode = ci_approval_mode c, hp_status = (if ci_activate c then ''active'' else ''pending''),
     hp_granted_by = ci_granted_by c, hp_granted_at = now, hp_expires_at = expires,
     hp_max_actions = ci_max_actions c, hp_max_files_changed = ci_max_files_changed c,
     hp_max_auto_fix_attempts = ci_max_auto_fix_attempts c, hp_actions_used = 0,
     hp_allowed_stages = ci_allowed_stages c, hp_allowed_agents = ci_allowed_agents c,
     hp_allowed_actions = ci_allowed_actions c, hp_allowed_paths = ci_allowed_paths c,
     hp_denied_paths = ci_denied_paths c, hp_constraints = ci_constraints c, hp_reason = ci_reason c,
     hp_created_at = now, hp_updated_at = now\<rparr>"

definition api_create_policy ::
    "uuid \<Rightarrow> int \<Rightarrow> create_policy_in \<Rightarrow> human_policy list \<Rightarrow> http_error + human_policy \<times> human_policy list" where
  "api_create_policy new_id now c t =
    (case validate_create_payload c of Some d \<Rightarrow> Inl (HTTPException 400 d)
     | None \<Rightarrow> (case parse_expires_at (ci_expires_at c) of Inl e \<Rightarrow> Inl e
       | Inr expires \<Rightarrow> Inr (policy_row new_id now expires c, t @ [policy_row new_id now expires c])))"

definition get_policy :: "uuid \<Rightarrow> human_policy list \<Rightarrow> human_policy option" where
  "get_policy policy_id t = fetchrow (\<lambda>p. hp_policy_id p = policy_id) t"

definition open_deadline :: "int \<Rightarrow> deadline \<Rightarrow> bool" where
  "open_deadline now d = (case d of NoDeadline \<Rightarrow> True | Deadline t \<Rightarrow> now < t | Unreadable s \<Rightarrow> False)"

definition newest_first :: "('r \<Rightarrow> int) \<Rightarrow> 'r list \<Rightarrow> 'r list" where
  "newest_first created rows = sort_key (\<lambda>r. - created r) rows"

definition list_active_policies_for :: "int \<Rightarrow> string \<Rightarrow> human_policy list \<Rightarrow> human_policy list" where
  "list_active_policies_for now task_id t = newest_first hp_created_at
     (filter (\<lambda>p. hp_task_id p = task_id \<and> hp_status p = ''active'' \<and> open_deadline now (hp_expires_at p)) t)"

definition update_policy_status ::
    "uuid \<Rightarrow> string \<Rightarrow> int \<Rightarrow> human_policy list \<Rightarrow> human_policy option \<times> human_policy list" where
  "update_policy_status policy_id status now t =
     update_returning (\<lambda>p. hp_policy_id p = policy_id) (\<lambda>p. p\<lparr>hp_status := status, hp_updated_at := now\<rparr>) t"

definition increment_actions_used ::
    "uuid \<Rightarrow> int \<Rightarrow> human_policy list \<Rightarrow> human_policy option \<times> human_policy list" where
  "increment_actions_used policy_id now t =
     update_returning (\<lambda>p. hp_policy_id p = policy_id)
       (\<lambda>p. p\<lparr>hp_actions_used := hp_actions_used p + 1, hp_updated_at := now\<rparr>) t"

definition api_set_status ::
    "string \<Rightarrow> uuid \<Rightarrow> int \<Rightarrow> human_policy list \<Rightarrow> http_error + human_policy \<times> human_policy list" where
  "api_set_status status policy_id now t =
    (case update_policy_status policy_id status now t of
       (None, t') \<Rightarrow> Inl (HTTPException 404 ''approval policy not found'') | (Some p, t') \<Rightarrow> Inr (p, t'))"

abbreviation "activate_policy \<equiv> api_set_status ''active''"
abbreviation "revoke_policy \<equiv> api_set_status ''revoked''"

text \<open>
  \<^verbatim>\<open>_select_authorising_policy\<close>: the candidates are one policy named by the caller, or the active
  policies of the task at the clock \<open>now\<close> of the query.
\<close>

definition candidate_policies :: "int \<Rightarrow> action \<Rightarrow> uuid option \<Rightarrow> human_policy list \<Rightarrow> human_policy list" where
  "candidate_policies now a explicit_policy_id t =
    (if truthy explicit_policy_id
     then (case get_policy (or_empty explicit_policy_id) t of None \<Rightarrow> [] | Some p \<Rightarrow> [p])
     else list_active_policies_for now (ac_task_id a) t)"

definition select_authorising_policy ::
    "int \<Rightarrow> (nat \<Rightarrow> int) \<Rightarrow> action \<Rightarrow> uuid option \<Rightarrow> human_policy list \<Rightarrow> human_policy option \<times> evaluation" where
  "select_authorising_policy now clock a explicit_policy_id t =
    (let candidates = candidate_policies now a explicit_policy_id t;
         r = evaluate_action clock a candidates;
         chosen = (if er_allowed r \<and> er_policy_id r \<noteq> []
           then fetchrow (\<lambda>p. hp_policy_id p = er_policy_id r) candidates else None)
     in (chosen, r))"

section \<open>The evaluator is its meaning\<close>

lemma evaluate_allowed:
  "er_allowed (evaluate_action clock a ps) \<longleftrightarrow> rails_hold a \<and> er_allowed (try_policies clock 0 a ps ''no_active_policy'')"
  using hard_safety_None[of a]
  by (cases "hard_safety_check (ac_type a) (ac_paths a) (ac_samples a)") (simp_all add: evaluate_action_def refusal_def)

text \<open>
  C19. An action is allowed exactly when the hard rails hold and some candidate covers it at the time it
  is looked at: active, not expired, with complete constraints, of the same task, for this stage, action,
  agent and every path, with budget left, and not a per-action policy.
\<close>

theorem evaluate_action_iff:
  "er_allowed (evaluate_action clock a ps) \<longleftrightarrow> rails_hold a \<and> (\<exists>i < length ps. covers (clock i) (ps ! i) a)"
  by (simp add: evaluate_allowed try_policies_allowed)

section \<open>Absolute paths\<close>

lemma absolute_reason:
  "absolute_path (normalise_path path) \<Longrightarrow> validate_allowed_path path prefixes denied = (False, ''absolute_path'')"
  by (cases "normalise_path path") (auto simp: validate_allowed_path_def absolute_path_def)

lemma absolute_rails:
  assumes "absolute_path (normalise_path path)"
  shows "rails_hold (a\<lparr>ac_paths := [path]\<rparr>) \<longleftrightarrow> rails_hold (a\<lparr>ac_paths := []\<rparr>)"
  by (simp add: rails_hold_def absolute_reason[OF assms])

lemma absolute_covers:
  assumes "absolute_path (normalise_path path)" "hp_allowed_paths p = [] \<or> in_policy_paths (hp_allowed_paths p) path"
  shows "covers now p (a\<lparr>ac_paths := [path]\<rparr>) \<longleftrightarrow> covers now p (a\<lparr>ac_paths := []\<rparr>)"
  using assms(2) by (auto simp: covers_def path_blocked_by_denylist_def absolute_reason[OF assms(1)])

text \<open>
  An absolute path meets neither the denylist of the hard rails nor the one of the policy: with a policy
  whose allowed paths match it, or that has none, the answer is the one for no path at all. The
  allowed paths are compared after \<^verbatim>\<open>lstrip("./")\<close>, so \<^verbatim>\<open>/infra/prod.tf\<close> is inside \<^verbatim>\<open>infra/\<close>.
\<close>

theorem absolute_path_escapes_rails:
  assumes "absolute_path (normalise_path path)"
    and "hp_allowed_paths p = [] \<or> in_policy_paths (hp_allowed_paths p) path"
  shows "er_allowed (evaluate_action clock (a\<lparr>ac_paths := [path]\<rparr>) [p]) =
         er_allowed (evaluate_action clock (a\<lparr>ac_paths := []\<rparr>) [p])"
proof -
  have e: "er_allowed (evaluate_action clock b [p]) \<longleftrightarrow> rails_hold b \<and> covers (clock 0) p b" for b
    unfolding evaluate_allowed try_policies_allowed by auto
  show ?thesis unfolding e using absolute_rails[OF assms(1)] absolute_covers[OF assms] by blast
qed

definition demo_policy :: human_policy where
  "demo_policy = \<lparr>hp_policy_id = ''p1'', hp_task_id = ''t1'', hp_workflow_id = None, hp_scope_type = ''task'',
     hp_scope_id = ''t1'', hp_approval_mode = ''per_feature'', hp_status = ''active'', hp_granted_by = ''ann'',
     hp_granted_at = 0, hp_expires_at = Deadline 100, hp_max_actions = Some 3, hp_max_files_changed = Some 2,
     hp_max_auto_fix_attempts = None, hp_actions_used = 2, hp_allowed_stages = [], hp_allowed_agents = [],
     hp_allowed_actions = [''llm_proposal_promote''], hp_allowed_paths = [''infra/'', ''docs/generated/''],
     hp_denied_paths = [], hp_constraints = [], hp_reason = None, hp_created_at = 0, hp_updated_at = 0\<rparr>"

definition demo_action :: action where
  "demo_action = \<lparr>ac_task_id = ''t1'', ac_workflow_id = None, ac_type = ''llm_proposal_promote'',
     ac_stage = ''code_generation'', ac_agent = ''ann'', ac_paths = [], ac_files_changed = 1, ac_samples = [],
     ac_risk_level = ''low''\<rparr>"

theorem absolute_path_escapes_rails_witness:
  "er_allowed (evaluate_action (\<lambda>_. 50) (demo_action\<lparr>ac_paths := [''/infra/prod.tf'']\<rparr>) [demo_policy]) \<and>
   er_hard_policy_block (evaluate_action (\<lambda>_. 50) (demo_action\<lparr>ac_paths := [''infra/prod.tf'']\<rparr>) [demo_policy])"
proof
  have a: "absolute_path (normalise_path ''/infra/prod.tf'')"
    and b: "hp_allowed_paths demo_policy = [] \<or> in_policy_paths (hp_allowed_paths demo_policy) ''/infra/prod.tf''"
    and c: "er_allowed (evaluate_action (\<lambda>_. 50) (demo_action\<lparr>ac_paths := []\<rparr>) [demo_policy])"
    by code_simp+
  show "er_allowed (evaluate_action (\<lambda>_. 50) (demo_action\<lparr>ac_paths := [''/infra/prod.tf'']\<rparr>) [demo_policy])"
    using absolute_path_escapes_rails[OF a b, of "\<lambda>_. 50" demo_action] c by simp
  show "er_hard_policy_block (evaluate_action (\<lambda>_. 50) (demo_action\<lparr>ac_paths := [''infra/prod.tf'']\<rparr>) [demo_policy])"
    by code_simp
qed

section \<open>The budget\<close>

definition in_budget :: "human_policy \<Rightarrow> bool" where
  "in_budget p \<longleftrightarrow> (case hp_max_actions p of None \<Rightarrow> True | Some n \<Rightarrow> hp_actions_used p \<le> n)"

lemma covers_room: "covers now p a \<Longrightarrow> in_budget (p\<lparr>hp_actions_used := hp_actions_used p + 1, hp_updated_at := t\<rparr>)"
  by (auto simp: covers_def within_budget_def in_budget_def split: option.split)

lemma candidate_stored: "p \<in> set (candidate_policies now a i t) \<Longrightarrow> p \<in> set t"
  by (auto simp: candidate_policies_def get_policy_def list_active_policies_for_def newest_first_def
      split: if_splits option.splits dest: fetchrow_SomeD[OF sym])

lemma selected_covers:
  assumes "select_authorising_policy now clock a i t = (chosen, r)" "er_allowed r"
    "distinct (map hp_policy_id t)"
  shows "\<exists>p k. p \<in> set t \<and> covers (clock k) p a \<and> hp_policy_id p = er_policy_id r"
proof -
  let ?c = "candidate_policies now a i t"
  have r: "r = evaluate_action clock a ?c" using assms(1) by (simp add: select_authorising_policy_def Let_def)
  then have n: "hard_safety_check (ac_type a) (ac_paths a) (ac_samples a) = None"
    using assms(2) by (auto simp: evaluate_action_def refusal_def split: option.splits)
  then have "r = try_policies clock 0 a ?c ''no_active_policy''" using r by (simp add: evaluate_action_def)
  then show ?thesis using try_policies_who[of clock 0 a ?c "''no_active_policy''"] assms(2) candidate_stored
    by (metis nth_mem)
qed

end
