(* ===== verification/Llm_Safety.thy ===== *)
theory Llm_Safety imports Code_Policy begin

text \<open>
  The safety policy of model output (\<^verbatim>\<open>shared/sdk/llm/policy.py\<close> on the records of
  \<^verbatim>\<open>shared/sdk/llm/models.py\<close>): a patch is allowed when no change of it breaks the path, change-type,
  content or size rules; a plan when none of its texts carries a secret or a destructive command. A
  confidence is kept in hundredths.
\<close>

section \<open>Model output\<close>

record file_change =
  fc_file_path :: string
  fc_change_type :: string
  fc_proposed_content :: string
  fc_diff_summary :: string
  fc_reason :: string

record patch_proposal =
  lp_task_id :: string
  lp_proposed_files :: "string list"
  lp_changes :: "file_change list"
  lp_confidence :: nat

record development_plan =
  dp_task_id :: string
  dp_summary :: string
  dp_files_to_consider :: "string list"
  dp_proposed_steps :: "string list"
  dp_assumptions :: "string list"
  dp_questions :: "string list"
  dp_risks :: "string list"
  dp_test_strategy :: string
  dp_confidence :: nat

record test_plan =
  tp_task_id :: string
  tp_unit_tests :: "string list"
  tp_integration_tests :: "string list"
  tp_manual_tests :: "string list"
  tp_acceptance_checks :: "string list"
  tp_risks :: "string list"

datatype llm_output = NoOutput | Patch patch_proposal | DevPlan development_plan | TestPlan test_plan
  | OtherOutput string

definition LLM_CHANGE_TYPES :: "string list" where
  "LLM_CHANGE_TYPES = [''create'', ''update'']"

record safety_policy =
  sp_max_files_changed :: nat
  sp_max_content_chars :: nat
  sp_min_confidence :: nat
  sp_allowed_paths :: "string list"
  sp_denied_paths :: "string list"

definition default_safety_policy :: safety_policy where
  "default_safety_policy = \<lparr>sp_max_files_changed = 5, sp_max_content_chars = 20000, sp_min_confidence = 70,
     sp_allowed_paths = DEFAULT_ALLOWED_PATHS, sp_denied_paths = DEFAULT_DENIED_PATHS\<rparr>"

record violation =
  vi_rule :: string
  vi_file_path :: "string option"
  vi_reason :: string

record safety_result =
  sr_allowed :: bool
  sr_warnings :: "string list"
  sr_violations :: "violation list"
  sr_inspected_files :: nat
  sr_requires_human_review :: bool

section \<open>The checks\<close>

definition check_path :: "safety_policy \<Rightarrow> string \<Rightarrow> bool \<times> string" where
  "check_path sp path = validate_allowed_path path (sp_allowed_paths sp) (sp_denied_paths sp)"

definition violates :: "bool \<Rightarrow> string \<Rightarrow> string option \<Rightarrow> string \<Rightarrow> violation list" where
  "violates ok rule path why = (if ok then [] else [\<lparr>vi_rule = rule, vi_file_path = path, vi_reason = why\<rparr>])"

definition check_change :: "safety_policy \<Rightarrow> file_change \<Rightarrow> violation list" where
  "check_change sp c =
    (let path = Some (fc_file_path c); content = fc_proposed_content c in
       violates (fst (check_path sp (fc_file_path c))) ''path_blocked'' path (snd (check_path sp (fc_file_path c)))
     @ violates (fst (validate_change_type (Some (fc_change_type c))) \<and> fc_change_type c \<in> set LLM_CHANGE_TYPES)
         ''change_type_blocked'' path (snd (validate_change_type (Some (fc_change_type c))))
     @ violates (fst (validate_no_secret_content (Some content))) ''secret_like_content'' path
         (snd (validate_no_secret_content (Some content)))
     @ violates (fst (validate_no_destructive_change (Some content))) ''destructive_content'' path
         (snd (validate_no_destructive_change (Some content)))
     @ violates (length content \<le> sp_max_content_chars sp) ''content_too_large'' path
         (''content_chars='' @ decimal (length content) @ '' > max='' @ decimal (sp_max_content_chars sp)))"

definition check_texts :: "string list \<Rightarrow> violation list" where
  "check_texts snippets = concat (map (\<lambda>s.
       violates (fst (validate_no_secret_content (Some s))) ''secret_like_content'' None
         (snd (validate_no_secret_content (Some s)))
     @ violates (fst (validate_no_destructive_change (Some s))) ''destructive_content'' None
         (snd (validate_no_destructive_change (Some s)))) snippets)"

definition plan_texts :: "development_plan \<Rightarrow> string list" where
  "plan_texts p = dp_summary p # dp_test_strategy p # dp_assumptions p @ dp_questions p @ dp_risks p @
     dp_proposed_steps p"

definition test_plan_texts :: "test_plan \<Rightarrow> string list" where
  "test_plan_texts p = tp_unit_tests p @ tp_integration_tests p @ tp_manual_tests p @
     tp_acceptance_checks p @ tp_risks p"

definition hundredths :: "nat \<Rightarrow> string" where
  "hundredths n = decimal (n div 100) @ ''.'' @ decimal (n mod 100 div 10) @ decimal (n mod 10)"

definition low_confidence :: "safety_policy \<Rightarrow> nat \<Rightarrow> string list" where
  "low_confidence sp c =
     (if c < sp_min_confidence sp
      then [''low_confidence:'' @ hundredths c @ ''<'' @ hundredths (sp_min_confidence sp)] else [])"

definition patch_violations :: "safety_policy \<Rightarrow> patch_proposal \<Rightarrow> violation list" where
  "patch_violations sp p =
       violates (length (lp_changes p) \<le> sp_max_files_changed sp) ''too_many_files'' None
         (''changes='' @ decimal (length (lp_changes p)) @ '' > max='' @ decimal (sp_max_files_changed sp))
     @ concat (map (check_change sp) (lp_changes p))
     @ concat (map (\<lambda>path. violates (fst (check_path sp path)) ''path_blocked'' (Some path)
         (snd (check_path sp path))) (lp_proposed_files p))"

definition plan_warnings :: "safety_policy \<Rightarrow> development_plan \<Rightarrow> string list" where
  "plan_warnings sp p =
     map (\<lambda>path. ''file_listed_but_blocked:'' @ path @ '':'' @ snd (check_path sp path))
       (filter (\<lambda>path. \<not> fst (check_path sp path)) (dp_files_to_consider p))
     @ low_confidence sp (dp_confidence p)"

definition safety_verdict :: "string list \<Rightarrow> violation list \<Rightarrow> nat \<Rightarrow> safety_result" where
  "safety_verdict warnings violations n = \<lparr>sr_allowed = (violations = []), sr_warnings = warnings,
     sr_violations = violations, sr_inspected_files = n, sr_requires_human_review = True\<rparr>"

definition apply_llm_safety_policy :: "safety_policy \<Rightarrow> llm_output \<Rightarrow> safety_result" where
  "apply_llm_safety_policy sp out =
    (case out of
       NoOutput \<Rightarrow> safety_verdict [] (violates False ''schema_invalid'' None ''output_is_none'') 0
     | Patch p \<Rightarrow> safety_verdict (low_confidence sp (lp_confidence p)) (patch_violations sp p) (length (lp_changes p))
     | DevPlan p \<Rightarrow> safety_verdict (plan_warnings sp p) (check_texts (plan_texts p)) 0
     | TestPlan p \<Rightarrow> safety_verdict [] (check_texts (test_plan_texts p)) 0
     | OtherOutput t \<Rightarrow> safety_verdict [] (violates False ''schema_invalid'' None (''unknown_type:'' @ t)) 0)"

section \<open>What an allowed output guarantees\<close>

lemma violates_Nil [simp]: "violates ok rule path why = [] \<longleftrightarrow> ok"
  by (simp add: violates_def)

lemma check_change_Nil_iff:
  "check_change sp c = [] \<longleftrightarrow>
     fst (check_path sp (fc_file_path c)) \<and> fst (validate_change_type (Some (fc_change_type c))) \<and>
     fc_change_type c \<in> set LLM_CHANGE_TYPES \<and> fst (validate_no_secret_content (Some (fc_proposed_content c))) \<and>
     fst (validate_no_destructive_change (Some (fc_proposed_content c))) \<and>
     length (fc_proposed_content c) \<le> sp_max_content_chars sp"
  by (auto simp: check_change_def Let_def)

lemma patch_allowed_iff:
  "sr_allowed (apply_llm_safety_policy sp (Patch p)) \<longleftrightarrow>
     length (lp_changes p) \<le> sp_max_files_changed sp \<and>
     (\<forall>c \<in> set (lp_changes p). check_change sp c = []) \<and>
     (\<forall>path \<in> set (lp_proposed_files p). fst (check_path sp path))"
  by (auto simp: apply_llm_safety_policy_def safety_verdict_def patch_violations_def)

end
