(* ===== verification/Code_Diff.thy ===== *)
theory Code_Diff imports Py_Json begin

text \<open>
  The diff helpers of \<^verbatim>\<open>shared/sdk/code_workspace/diff.py\<close> for a new file, with the parts of the
  standard library they rest on: \<^verbatim>\<open>str.splitlines\<close> and what \<^verbatim>\<open>difflib.unified_diff\<close> prints when the
  text before is empty (one hunk of insertions, or nothing when the text after is empty too). The digest
  of \<^verbatim>\<open>hashlib\<close> is a parameter.
\<close>

section \<open>Lines\<close>

text \<open>The line boundaries of \<^verbatim>\<open>str.splitlines\<close> among the characters of the model.\<close>

definition is_line_break :: "char \<Rightarrow> bool" where
  "is_line_break c \<longleftrightarrow> (of_char c :: nat) \<in> {10, 11, 12, 13, 28, 29, 30, 133}"

text \<open>Each line with its ending; the argument holds the line read so far.\<close>

fun split_lines :: "string \<Rightarrow> string \<Rightarrow> (string \<times> string) list" where
  "split_lines cur [] = (if cur = [] then [] else [(cur, [])])"
| "split_lines cur [c] = (if is_line_break c then [(cur, [c])] else [(cur @ [c], [])])"
| "split_lines cur (c # d # cs) =
    (if c = CHR 0x0D \<and> d = CHR 0x0A then (cur, [c, d]) # split_lines [] cs
     else if is_line_break c then (cur, [c]) # split_lines [] (d # cs)
     else split_lines (cur @ [c]) (d # cs))"

definition splitlines :: "bool \<Rightarrow> string \<Rightarrow> string list" where
  "splitlines keepends s = map (\<lambda>(l, e). if keepends then l @ e else l) (split_lines [] s)"

lemma split_lines_concat: "concat (map (\<lambda>(l, e). l @ e) (split_lines cur s)) = cur @ s"
  by (induction cur s rule: split_lines.induct) auto

text \<open>Splitting with the endings kept loses no character.\<close>

lemma concat_splitlines: "concat (splitlines True s) = s"
  using split_lines_concat[of "[]" s] by (simp add: splitlines_def case_prod_beta')

lemma split_lines_Nil: "split_lines cur s = [] \<longleftrightarrow> cur = [] \<and> s = []"
  by (induction cur s rule: split_lines.induct) auto

lemma splitlines_Nil: "splitlines k s = [] \<longleftrightarrow> s = []"
  by (simp add: splitlines_def split_lines_Nil)

lemma split_lines_clean:
  "list_all (\<lambda>c. \<not> is_line_break c) cur \<Longrightarrow>
   list_all (\<lambda>p. list_all (\<lambda>c. \<not> is_line_break c) (fst p)) (split_lines cur s)"
proof (induction cur s rule: split_lines.induct)
  case (3 cur c d cs)
  then show ?case
    by (cases "c = CHR 0x0D \<and> d = CHR 0x0A"; cases "is_line_break c") simp_all
qed simp_all

text \<open>No line holds a boundary once its ending is taken off.\<close>

lemma splitlines_clean: "l \<in> set (splitlines False s) \<Longrightarrow> c \<in> set l \<Longrightarrow> \<not> is_line_break c"
  using split_lines_clean[of "[]" s] by (auto simp: splitlines_def list_all_iff)

section \<open>The diff of a new file\<close>

text \<open>\<^verbatim>\<open>_format_range_unified(0, n)\<close> for a range that is not empty.\<close>

definition added_range :: "nat \<Rightarrow> string" where
  "added_range n = (if n = 1 then ''1'' else ''1,'' @ decimal n)"

text \<open>\<^verbatim>\<open>compute_unified_diff("", after, file_path=path)\<close>.\<close>

definition compute_unified_diff :: "string \<Rightarrow> string \<Rightarrow> string" where
  "compute_unified_diff after path =
    (let after_lines = splitlines True after in
     if after_lines = [] then []
     else ''--- a/'' @ path @ [CHR 0x0A] @ ''+++ b/'' @ path @ [CHR 0x0A] @
       ''@@ -0,0 +'' @ added_range (length after_lines) @ '' @@'' @ [CHR 0x0A] @
       concat (map (\<lambda>l. CHR ''+'' # l) after_lines))"

record diff_counts =
  dc_added :: nat
  dc_removed :: nat
  dc_hunks :: nat

definition count_line :: "string \<Rightarrow> diff_counts \<Rightarrow> diff_counts" where
  "count_line l n =
    (if starts_with ''@@'' l then n\<lparr>dc_hunks := dc_hunks n + 1\<rparr>
     else if starts_with ''+'' l \<and> \<not> starts_with ''+++'' l then n\<lparr>dc_added := dc_added n + 1\<rparr>
     else if starts_with ''-'' l \<and> \<not> starts_with ''---'' l then n\<lparr>dc_removed := dc_removed n + 1\<rparr>
     else n)"

definition summarize_diff :: "string \<Rightarrow> diff_counts" where
  "summarize_diff diff_text = fold count_line (splitlines False diff_text)
     \<lparr>dc_added = 0, dc_removed = 0, dc_hunks = 0\<rparr>"

text \<open>The text the promotion stores: \<^verbatim>\<open>+added/-removed (n hunks)\<close>.\<close>

definition diff_summary_text :: "string \<Rightarrow> string" where
  "diff_summary_text diff_text = (let n = summarize_diff diff_text in
     CHR ''+'' # decimal (dc_added n) @ ''/-'' @ decimal (dc_removed n) @ '' ('' @ decimal (dc_hunks n) @ '' hunks)'')"

end
