(* ===== verification/Promotion.thy ===== *)
theory Promotion imports Approval_Policy Llm_Safety Code_Diff begin

text \<open>
  The promotion of a model's patch into a code workspace (\<^verbatim>\<open>promote_proposal\<close> and the approval handlers of
  \<^verbatim>\<open>apps/orchestrator/src/approval_policy_api.py\<close>, over the approval and promotion statements of
  \<^verbatim>\<open>shared/sdk/approval_policy/store.py\<close>). Three layers stand before a write: the safety policy of model
  output, an authority (a policy that covers the action, or an approved approval), and the path rules
  once more for each file. What a promotion writes is one row of \<^verbatim>\<open>code_change_artifacts\<close> for each file,
  with the diff of \<^verbatim>\<open>code_workspace/diff.py\<close>, the digest of the content and a preview of it. Metrics, spans, audit events and notifications are left out; the statements
  the handler wraps in \<^verbatim>\<open>contextlib.suppress\<close> may fail, which \<open>promote_env\<close> says.
\<close>

section \<open>Rows\<close>

record proposal_approval =
  la_approval_id :: uuid
  la_proposal_id :: uuid
  la_task_id :: string
  la_workflow_id :: "string option"
  la_approval_mode :: string
  la_policy_id :: "uuid option"
  la_requested_by :: string
  la_approved_by :: "string option"
  la_approved_at :: "int option"
  la_rejected_by :: "string option"
  la_rejected_at :: "int option"
  la_status :: string
  la_reason :: "string option"
  la_created_at :: int
  la_updated_at :: int

record approval_decision =
  hd_policy_id :: "uuid option"
  hd_task_id :: string
  hd_workflow_id :: "string option"
  hd_proposal_id :: "uuid option"
  hd_promotion_id :: "uuid option"
  hd_action_type :: string
  hd_decision :: string
  hd_decided_by :: string
  hd_reason :: "string option"

text \<open>\<open>pm_stage\<close> is the stage named in \<^verbatim>\<open>validation_result\<close>.\<close>

record promotion_row =
  pm_promotion_id :: uuid
  pm_proposal_id :: uuid
  pm_approval_id :: "uuid option"
  pm_policy_id :: "uuid option"
  pm_task_id :: string
  pm_workflow_id :: "string option"
  pm_workspace_id :: "uuid option"
  pm_status :: string
  pm_promoted_by :: string
  pm_promoted_at :: "int option"
  pm_promotion_mode :: string
  pm_promoted_files :: "(string \<times> string) list"
  pm_stage :: string
  pm_error :: "string option"

record code_artifact =
  ca_task_id :: string
  ca_workflow_id :: "string option"
  ca_workspace_id :: uuid
  ca_file_path :: string
  ca_change_type :: string
  ca_before_sha :: string
  ca_after_sha :: string
  ca_diff_summary :: string
  ca_diff_text :: string
  ca_preview :: string
  ca_validation_status :: string

text \<open>An entry of a stored proposal is an object with optional fields, or anything else.\<close>

datatype proposed_entry = NotAnObject | Entry "string option" "string option" "string option"

record llm_proposal =
  pr_proposal_id :: uuid
  pr_task_id :: string
  pr_status :: string
  pr_proposed_files :: "proposed_entry list"
  pr_confidence :: "nat option"
  pr_created_at :: int

record promo_db =
  pd_policies :: "human_policy list"
  pd_approvals :: "proposal_approval list"
  pd_decisions :: "approval_decision list"
  pd_promotions :: "promotion_row list"
  pd_artifacts :: "code_artifact list"
  pd_proposals :: "llm_proposal list"

section \<open>Approvals\<close>

definition list_proposals :: "string \<Rightarrow> nat \<Rightarrow> promo_db \<Rightarrow> llm_proposal list" where
  "list_proposals task_id limit db =
     take limit (newest_first pr_created_at (filter (\<lambda>r. pr_task_id r = task_id) (pd_proposals db)))"

definition load_proposal :: "uuid \<Rightarrow> string \<Rightarrow> promo_db \<Rightarrow> llm_proposal option" where
  "load_proposal proposal_id task_id db =
     fetchrow (\<lambda>r. pr_proposal_id r = proposal_id) (list_proposals task_id 200 db)"

definition get_latest_approval :: "uuid \<Rightarrow> promo_db \<Rightarrow> proposal_approval option" where
  "get_latest_approval proposal_id db =
     fetchrow (\<lambda>_. True) (newest_first la_created_at (filter (\<lambda>r. la_proposal_id r = proposal_id) (pd_approvals db)))"

definition list_approvals :: "string \<Rightarrow> uuid \<Rightarrow> nat \<Rightarrow> promo_db \<Rightarrow> proposal_approval list" where
  "list_approvals task_id proposal_id limit db = take limit (newest_first la_created_at
     (filter (\<lambda>r. la_task_id r = task_id \<and> la_proposal_id r = proposal_id) (pd_approvals db)))"

record approval_in =
  ai_task_id :: string
  ai_workflow_id :: "string option"
  ai_requested_by :: string
  ai_approval_mode :: string
  ai_policy_id :: "uuid option"

definition api_request_approval ::
    "uuid \<Rightarrow> int \<Rightarrow> uuid \<Rightarrow> approval_in \<Rightarrow> promo_db \<Rightarrow> http_error + proposal_approval \<times> promo_db" where
  "api_request_approval new_id now proposal_id c db =
    (if ai_approval_mode c \<notin> set APPROVAL_MODES
     then Inl (HTTPException 400 (''unknown approval_mode:'' @ ai_approval_mode c))
     else case load_proposal proposal_id (ai_task_id c) db of
       None \<Rightarrow> Inl (HTTPException 404 ''llm proposal not found'')
     | Some p \<Rightarrow>
        (let r = \<lparr>la_approval_id = new_id, la_proposal_id = proposal_id, la_task_id = ai_task_id c,
               la_workflow_id = ai_workflow_id c, la_approval_mode = ai_approval_mode c,
               la_policy_id = ai_policy_id c, la_requested_by = ai_requested_by c, la_approved_by = None,
               la_approved_at = None, la_rejected_by = None, la_rejected_at = None, la_status = ''pending'',
               la_reason = None, la_created_at = now, la_updated_at = now\<rparr>
         in Inr (r, db\<lparr>pd_approvals := pd_approvals db @ [r]\<rparr>)))"

definition coalesce :: "'a option \<Rightarrow> 'a option \<Rightarrow> 'a option" where
  "coalesce x y = (case x of None \<Rightarrow> y | Some v \<Rightarrow> Some v)"

definition approve_row :: "string \<Rightarrow> string option \<Rightarrow> int \<Rightarrow> proposal_approval \<Rightarrow> proposal_approval" where
  "approve_row approved_by reason now r = r\<lparr>la_status := ''approved'', la_approved_by := Some approved_by,
     la_approved_at := Some now, la_reason := coalesce reason (la_reason r), la_updated_at := now\<rparr>"

definition reject_row :: "string \<Rightarrow> string option \<Rightarrow> int \<Rightarrow> proposal_approval \<Rightarrow> proposal_approval" where
  "reject_row rejected_by reason now r = r\<lparr>la_status := ''rejected'', la_rejected_by := Some rejected_by,
     la_rejected_at := Some now, la_reason := coalesce reason (la_reason r), la_updated_at := now\<rparr>"

text \<open>The handlers decide the newest approval of the proposal, whatever its status, and record it.\<close>

definition decide_latest :: "(proposal_approval \<Rightarrow> proposal_approval) \<Rightarrow> string \<Rightarrow> string \<Rightarrow> string \<Rightarrow> uuid
    \<Rightarrow> string \<Rightarrow> string option \<Rightarrow> promo_db \<Rightarrow> http_error + proposal_approval \<times> promo_db" where
  "decide_latest f action_type decision fail_text proposal_id decided_by reason db =
    (case get_latest_approval proposal_id db of
       None \<Rightarrow> Inl (HTTPException 404 ''approval request not found'')
     | Some e \<Rightarrow>
        (case update_returning (\<lambda>r. la_approval_id r = la_approval_id e) f (pd_approvals db) of
           (None, t') \<Rightarrow> Inl (HTTPException 503 fail_text)
         | (Some r, t') \<Rightarrow> Inr (r, db\<lparr>pd_approvals := t', pd_decisions := pd_decisions db @
             [\<lparr>hd_policy_id = la_policy_id r, hd_task_id = la_task_id r, hd_workflow_id = la_workflow_id r,
               hd_proposal_id = Some proposal_id, hd_promotion_id = None, hd_action_type = action_type,
               hd_decision = decision, hd_decided_by = decided_by, hd_reason = reason\<rparr>]\<rparr>)))"

definition api_approve_proposal ::
    "int \<Rightarrow> uuid \<Rightarrow> string \<Rightarrow> string option \<Rightarrow> promo_db \<Rightarrow> http_error + proposal_approval \<times> promo_db" where
  "api_approve_proposal now proposal_id approved_by reason db =
     decide_latest (approve_row approved_by reason now) ''llm_proposal_approve'' ''approved''
       ''failed to record approval'' proposal_id approved_by reason db"

definition api_reject_proposal ::
    "int \<Rightarrow> uuid \<Rightarrow> string \<Rightarrow> string option \<Rightarrow> promo_db \<Rightarrow> http_error + proposal_approval \<times> promo_db" where
  "api_reject_proposal now proposal_id rejected_by reason db =
     decide_latest (reject_row rejected_by reason now) ''llm_proposal_reject'' ''rejected''
       ''failed to record rejection'' proposal_id rejected_by reason db"

section \<open>The promotion\<close>

record promote_in =
  pi_task_id :: string
  pi_workflow_id :: "string option"
  pi_promoted_by :: string
  pi_approval_id :: "uuid option"
  pi_policy_id :: "uuid option"
  pi_promotion_mode :: string

text \<open>
  What one call meets: the id of its promotion row, the clock of the policy query and of the candidates,
  the workspace of the task if it could be read, which of the suppressed statements succeed, and the
  SHA-256 digest of the standard library, as hexadecimal text over the UTF-8 bytes of a string.
\<close>

record promote_env =
  pe_promotion_id :: uuid
  pe_now :: int
  pe_clock :: "nat \<Rightarrow> int"
  pe_workspace :: "uuid option"
  pe_artifact_ok :: "nat \<Rightarrow> bool"
  pe_increment_ok :: bool
  pe_proposal_ok :: bool
  pe_sha256 :: "string \<Rightarrow> string"

fun entry_change :: "proposed_entry \<Rightarrow> file_change option" where
  "entry_change NotAnObject = None"
| "entry_change (Entry path ct content) =
     (if \<not> truthy path then None
      else Some \<lparr>fc_file_path = or_empty path,
        fc_change_type = (if truthy ct then or_empty ct else ''create''),
        fc_proposed_content = or_empty content, fc_diff_summary = [], fc_reason = []\<rparr>)"

definition proposal_changes :: "llm_proposal \<Rightarrow> file_change list" where
  "proposal_changes p = List.map_filter entry_change (pr_proposed_files p)"

definition proposal_to_patch :: "llm_proposal \<Rightarrow> patch_proposal" where
  "proposal_to_patch p = \<lparr>lp_task_id = pr_task_id p,
     lp_proposed_files = map fc_file_path (proposal_changes p), lp_changes = proposal_changes p,
     lp_confidence = (case pr_confidence p of None \<Rightarrow> 50 | Some c \<Rightarrow> if c = 0 then 50 else c)\<rparr>"

text \<open>The action the evaluator is asked about.\<close>

definition promote_action :: "promote_in \<Rightarrow> patch_proposal \<Rightarrow> action" where
  "promote_action c patch = \<lparr>ac_task_id = pi_task_id c, ac_workflow_id = pi_workflow_id c,
     ac_type = ''llm_proposal_promote'', ac_stage = ''code_generation'', ac_agent = pi_promoted_by c,
     ac_paths = lp_proposed_files patch, ac_files_changed = int (length (lp_proposed_files patch)),
     ac_samples = map fc_proposed_content (lp_changes patch), ac_risk_level = ''low''\<rparr>"

definition explicit_approval :: "promote_in \<Rightarrow> uuid \<Rightarrow> promo_db \<Rightarrow> proposal_approval option" where
  "explicit_approval c proposal_id db =
    (if truthy (pi_approval_id c)
     then fetchrow (\<lambda>a. la_approval_id a = or_empty (pi_approval_id c)) (list_approvals (pi_task_id c) proposal_id 20 db)
     else get_latest_approval proposal_id db)"

definition explicit_ok :: "promote_in \<Rightarrow> uuid \<Rightarrow> promo_db \<Rightarrow> bool" where
  "explicit_ok c proposal_id db =
     (case explicit_approval c proposal_id db of None \<Rightarrow> False | Some a \<Rightarrow> la_status a = ''approved'')"

definition blocked_row :: "promote_env \<Rightarrow> uuid \<Rightarrow> promote_in \<Rightarrow> string \<Rightarrow> string \<Rightarrow> promotion_row" where
  "blocked_row env proposal_id c stage err = \<lparr>pm_promotion_id = pe_promotion_id env,
     pm_proposal_id = proposal_id, pm_approval_id = pi_approval_id c, pm_policy_id = pi_policy_id c,
     pm_task_id = pi_task_id c, pm_workflow_id = pi_workflow_id c, pm_workspace_id = None,
     pm_status = ''blocked_by_policy'', pm_promoted_by = pi_promoted_by c, pm_promoted_at = None,
     pm_promotion_mode = pi_promotion_mode c, pm_promoted_files = [], pm_stage = stage, pm_error = Some err\<rparr>"

definition block :: "promotion_row \<Rightarrow> promo_db \<Rightarrow> promotion_row \<times> promo_db" where
  "block r db = (r, db\<lparr>pd_promotions := pd_promotions db @ [r]\<rparr>)"

text \<open>\<^verbatim>\<open>hash_content\<close>; content is a string here, so its \<^verbatim>\<open>or ""\<close> changes nothing.\<close>

definition hash_content :: "promote_env \<Rightarrow> string \<Rightarrow> string" where
  "hash_content env content = pe_sha256 env content"

text \<open>The row that one change becomes.\<close>

definition change_artifact :: "promote_env \<Rightarrow> promote_in \<Rightarrow> uuid \<Rightarrow> file_change \<Rightarrow> code_artifact" where
  "change_artifact env p workspace_id c =
    (let content = fc_proposed_content c;
         diff_text = compute_unified_diff content (fc_file_path c)
     in \<lparr>ca_task_id = pi_task_id p, ca_workflow_id = pi_workflow_id p, ca_workspace_id = workspace_id,
         ca_file_path = fc_file_path c, ca_change_type = fc_change_type c, ca_before_sha = [],
         ca_after_sha = hash_content env content, ca_diff_summary = diff_summary_text diff_text,
         ca_diff_text = take 4000 diff_text, ca_preview = take 20000 content,
         ca_validation_status = ''pending''\<rparr>)"

text \<open>
  The loop that writes the files: the artifacts and the accepted files. The third argument numbers the
  changes; a write that fails leaves its file out.
\<close>

fun materialise ::
    "promote_env \<Rightarrow> promote_in \<Rightarrow> nat \<Rightarrow> file_change list \<Rightarrow> code_artifact list \<times> (string \<times> string) list" where
  "materialise env p k [] = ([], [])"
| "materialise env p k (c # cs) =
    (let (arts, acc) = materialise env p (Suc k) cs in
     if \<not> fst (validate_allowed_path (fc_file_path c) DEFAULT_ALLOWED_PATHS DEFAULT_DENIED_PATHS) then (arts, acc)
     else case pe_workspace env of None \<Rightarrow> (arts, acc)
     | Some w \<Rightarrow>
        if pe_artifact_ok env k
        then (change_artifact env p w c # arts, (fc_file_path c, fc_change_type c) # acc)
        else (arts, acc))"

definition effective_mode :: "promote_in \<Rightarrow> bool \<Rightarrow> bool \<Rightarrow> human_policy option \<Rightarrow> string" where
  "effective_mode c ok auto chosen =
    (if auto \<and> \<not> ok
     then (case chosen of Some p \<Rightarrow> if hp_approval_mode p = ''delegated'' then ''delegated_agent'' else ''policy_allowed''
           | None \<Rightarrow> ''policy_allowed'')
     else pi_promotion_mode c)"

definition effective_policy_id :: "promote_in \<Rightarrow> human_policy option \<Rightarrow> uuid option" where
  "effective_policy_id c chosen = (if truthy (pi_policy_id c) then pi_policy_id c else map_option hp_policy_id chosen)"

definition promoted_row ::
    "promote_env \<Rightarrow> uuid \<Rightarrow> promote_in \<Rightarrow> proposal_approval option \<Rightarrow> bool \<Rightarrow> evaluation
      \<Rightarrow> human_policy option \<Rightarrow> (string \<times> string) list \<Rightarrow> promotion_row" where
  "promoted_row env proposal_id c approval ok r chosen accepted = \<lparr>pm_promotion_id = pe_promotion_id env,
     pm_proposal_id = proposal_id,
     pm_approval_id = (if truthy (pi_approval_id c) then pi_approval_id c
       else map_option la_approval_id approval),
     pm_policy_id = effective_policy_id c chosen, pm_task_id = pi_task_id c,
     pm_workflow_id = pi_workflow_id c, pm_workspace_id = pe_workspace env,
     pm_status = (if accepted = [] then ''validation_failed'' else ''promoted''),
     pm_promoted_by = pi_promoted_by c, pm_promoted_at = Some (pe_now env),
     pm_promotion_mode = effective_mode c ok (er_allowed r) chosen, pm_promoted_files = accepted,
     pm_stage = ''promotion'', pm_error = None\<rparr>"

definition spend :: "promote_env \<Rightarrow> uuid option \<Rightarrow> human_policy list \<Rightarrow> human_policy list" where
  "spend env policy_id t =
    (case policy_id of None \<Rightarrow> t
     | Some i \<Rightarrow> if pe_increment_ok env then snd (increment_actions_used i (pe_now env) t) else t)"

definition promotion_decision ::
    "promote_in \<Rightarrow> uuid \<Rightarrow> promotion_row \<Rightarrow> bool \<Rightarrow> evaluation \<Rightarrow> approval_decision" where
  "promotion_decision c proposal_id row ok r = \<lparr>hd_policy_id = pm_policy_id row, hd_task_id = pi_task_id c,
     hd_workflow_id = pi_workflow_id c, hd_proposal_id = Some proposal_id,
     hd_promotion_id = Some (pm_promotion_id row), hd_action_type = ''llm_proposal_promote'',
     hd_decision = (if ok then ''approved'' else ''delegated''), hd_decided_by = pi_promoted_by c,
     hd_reason = Some (if ok then ''explicit_approval'' else er_reason r)\<rparr>"

text \<open>The last statement of the handler, on the proposal.\<close>

definition close_proposal :: "promote_env \<Rightarrow> uuid \<Rightarrow> bool \<Rightarrow> llm_proposal list \<Rightarrow> llm_proposal list" where
  "close_proposal env proposal_id some_accepted t =
    (if pe_proposal_ok env
     then update_where (\<lambda>p. pr_proposal_id p = proposal_id)
       (\<lambda>p. p\<lparr>pr_status := (if some_accepted then ''accepted_for_workspace'' else ''policy_passed'')\<rparr>) t
     else t)"

text \<open>
  The handler reads before it writes. \<open>promote_check\<close> is everything up to the gate: the proposal, the
  safety policy, the authority. It answers with the error, with the row of a blocked promotion, or with
  what the rest of the handler needs. \<open>promote_commit\<close> is the rest. Each statement runs on a connection
  of its own, so another promotion may run in between.
\<close>

record cleared =
  cl_patch :: patch_proposal
  cl_chosen :: "human_policy option"
  cl_result :: evaluation
  cl_approval :: "proposal_approval option"

definition cl_ok :: "cleared \<Rightarrow> bool" where
  "cl_ok cl = (case cl_approval cl of None \<Rightarrow> False | Some a \<Rightarrow> la_status a = ''approved'')"

definition promote_check ::
    "promote_env \<Rightarrow> uuid \<Rightarrow> promote_in \<Rightarrow> promo_db \<Rightarrow> http_error + (promotion_row + cleared)" where
  "promote_check env proposal_id c db =
    (case load_proposal proposal_id (pi_task_id c) db of
       None \<Rightarrow> Inl (HTTPException 404 ''llm proposal not found'')
     | Some p \<Rightarrow>
        (let patch = proposal_to_patch p;
             safety = apply_llm_safety_policy default_safety_policy (Patch patch) in
         if pr_status p = ''blocked'' \<or> \<not> sr_allowed safety
         then Inr (Inl (blocked_row env proposal_id c ''llm_safety_policy'' ''llm safety policy refused promotion''))
         else
          (let (chosen, r) = select_authorising_policy (pe_now env) (pe_clock env) (promote_action c patch)
                 (pi_policy_id c) (pd_policies db);
               cl = \<lparr>cl_patch = patch, cl_chosen = chosen, cl_result = r,
                 cl_approval = explicit_approval c proposal_id db\<rparr> in
           if \<not> er_allowed r \<and> \<not> cl_ok cl
           then Inr (Inl (blocked_row env proposal_id c ''approval_policy'' (er_reason r)))
           else Inr (Inr cl))))"

definition promote_commit ::
    "promote_env \<Rightarrow> uuid \<Rightarrow> promote_in \<Rightarrow> cleared \<Rightarrow> promo_db \<Rightarrow> promotion_row \<times> promo_db" where
  "promote_commit env proposal_id c cl db =
    (let (arts, accepted) = materialise env c 0 (lp_changes (cl_patch cl));
         row = promoted_row env proposal_id c (cl_approval cl) (cl_ok cl) (cl_result cl) (cl_chosen cl) accepted
     in (row, db\<lparr>pd_artifacts := pd_artifacts db @ arts,
         pd_promotions := pd_promotions db @ [row],
         pd_policies := spend env (pm_policy_id row) (pd_policies db),
         pd_decisions := pd_decisions db @ [promotion_decision c proposal_id row (cl_ok cl) (cl_result cl)],
         pd_proposals := close_proposal env proposal_id (accepted \<noteq> []) (pd_proposals db)\<rparr>))"

definition promote_proposal ::
    "promote_env \<Rightarrow> uuid \<Rightarrow> promote_in \<Rightarrow> promo_db \<Rightarrow> http_error + promotion_row \<times> promo_db" where
  "promote_proposal env proposal_id c db =
    (case promote_check env proposal_id c db of
       Inl e \<Rightarrow> Inl e
     | Inr (Inl row) \<Rightarrow> Inr (block row db)
     | Inr (Inr cl) \<Rightarrow> Inr (promote_commit env proposal_id c cl db))"

section \<open>The layers compose\<close>

lemma allowed_path_reason:
  "fst (validate_allowed_path path prefixes denied) \<Longrightarrow>
     \<not> starts_with ''denied:'' (snd (validate_allowed_path path prefixes denied)) \<and>
     snd (validate_allowed_path path prefixes denied) \<noteq> ''path_traversal''"
  by (cases "validate_allowed_path path prefixes denied") (simp add: valid_path_reason)

lemma promote_not_hard: "''llm_proposal_promote'' \<notin> set HARD_SAFETY_ACTIONS"
  by (simp add: HARD_SAFETY_ACTIONS_def)

text \<open>A patch that the safety policy allows cannot be stopped by the hard rails of the evaluator.\<close>

lemma safety_policy_implies_rails:
  assumes "sr_allowed (apply_llm_safety_policy default_safety_policy (Patch patch))"
  shows "rails_hold (promote_action c patch)"
  unfolding hard_safety_None[symmetric] hard_safety_check_def
proof -
  have files: "\<forall>path \<in> set (lp_proposed_files patch). fst (validate_allowed_path path DEFAULT_ALLOWED_PATHS DEFAULT_DENIED_PATHS)"
    and samples: "\<forall>s \<in> set (map fc_proposed_content (lp_changes patch)).
      fst (validate_no_secret_content (Some s)) \<and> fst (validate_no_destructive_change (Some s))"
    using assms by (auto simp: patch_allowed_iff check_change_Nil_iff check_path_def default_safety_policy_def)
  have "ac_type (promote_action c patch) \<notin> set HARD_SAFETY_ACTIONS"
    using promote_not_hard by (simp add: promote_action_def)
  moreover have "path_rails (ac_paths (promote_action c patch)) = None" unfolding promote_action_def action.simps
    unfolding path_rails_None using files allowed_path_reason by blast
  moreover have "content_rails (ac_samples (promote_action c patch)) = None" unfolding promote_action_def action.simps
    unfolding content_rails_None using samples by blast
  ultimately show "(if ac_type (promote_action c patch) \<in> set HARD_SAFETY_ACTIONS
      then Some (''hard_safety:'' @ ac_type (promote_action c patch))
      else case path_rails (ac_paths (promote_action c patch)) of Some why \<Rightarrow> Some why
        | None \<Rightarrow> content_rails (ac_samples (promote_action c patch))) = None"
    by (simp only: if_False option.case)
qed

lemma materialise_sound:
  assumes "materialise env p k cs = (arts, accepted)" "art \<in> set arts"
  shows "\<exists>c \<in> set cs. \<exists>w. pe_workspace env = Some w \<and> art = change_artifact env p w c \<and>
    fst (validate_allowed_path (fc_file_path c) DEFAULT_ALLOWED_PATHS DEFAULT_DENIED_PATHS)"
  using assms
proof (induction cs arbitrary: k arts accepted)
  case (Cons c cs)
  obtain arts' acc' where m: "materialise env p (Suc k) cs = (arts', acc')" by fastforce
  then have "art \<in> set arts' \<or> (fst (validate_allowed_path (fc_file_path c) DEFAULT_ALLOWED_PATHS DEFAULT_DENIED_PATHS)
      \<and> (\<exists>w. pe_workspace env = Some w \<and> art = change_artifact env p w c))"
    using Cons.prems by (auto split: if_splits option.splits)
  then show ?case using Cons.IH[OF m] by auto
qed simp

lemma materialise_accepted:
  "materialise env p k cs = (arts, accepted) \<Longrightarrow> accepted = map (\<lambda>a. (ca_file_path a, ca_change_type a)) arts"
proof (induction cs arbitrary: k arts accepted)
  case (Cons c cs)
  obtain arts' acc' where m: "materialise env p (Suc k) cs = (arts', acc')" by fastforce
  then show ?case using Cons.prems Cons.IH[OF m]
    by (auto simp: change_artifact_def Let_def split: if_splits option.splits)
qed simp

text \<open>Every answer of the handler is a block by one of the first two layers, or a run of the loop.\<close>

lemma cl_ok_explicit: "cl_approval cl = explicit_approval c pid db \<Longrightarrow> cl_ok cl \<longleftrightarrow> explicit_ok c pid db"
  by (simp add: cl_ok_def explicit_ok_def)

lemma promote_check_cleared:
  assumes "promote_check env pid c db = Inr (Inr cl)"
  obtains p where "load_proposal pid (pi_task_id c) db = Some p" "pr_status p \<noteq> ''blocked''"
    "cl_patch cl = proposal_to_patch p"
    "sr_allowed (apply_llm_safety_policy default_safety_policy (Patch (proposal_to_patch p)))"
    "select_authorising_policy (pe_now env) (pe_clock env) (promote_action c (proposal_to_patch p))
       (pi_policy_id c) (pd_policies db) = (cl_chosen cl, cl_result cl)"
    "cl_approval cl = explicit_approval c pid db" "er_allowed (cl_result cl) \<or> explicit_ok c pid db"
  using assms unfolding promote_check_def Let_def
  by (auto simp: cl_ok_def explicit_ok_def split: option.splits if_splits prod.splits)

lemma promote_cases [consumes 1, case_names blocked ran]:
  assumes "promote_proposal env pid c db = Inr (row, db')"
  obtains stage err where "row = blocked_row env pid c stage err" "db' = db\<lparr>pd_promotions := pd_promotions db @ [row]\<rparr>"
  | p chosen r arts accepted where
      "load_proposal pid (pi_task_id c) db = Some p" "pr_status p \<noteq> ''blocked''"
      "sr_allowed (apply_llm_safety_policy default_safety_policy (Patch (proposal_to_patch p)))"
      "select_authorising_policy (pe_now env) (pe_clock env) (promote_action c (proposal_to_patch p))
         (pi_policy_id c) (pd_policies db) = (chosen, r)"
      "er_allowed r \<or> explicit_ok c pid db"
      "materialise env c 0 (lp_changes (proposal_to_patch p)) = (arts, accepted)"
      "row = promoted_row env pid c (explicit_approval c pid db) (explicit_ok c pid db) r chosen accepted"
      "db' = db\<lparr>pd_artifacts := pd_artifacts db @ arts, pd_promotions := pd_promotions db @ [row],
         pd_policies := spend env (pm_policy_id row) (pd_policies db),
         pd_decisions := pd_decisions db @ [promotion_decision c pid row (explicit_ok c pid db) r],
         pd_proposals := close_proposal env pid (accepted \<noteq> []) (pd_proposals db)\<rparr>"
proof (cases "promote_check env pid c db")
  case (Inr out)
  show ?thesis
  proof (cases out)
    case (Inl b)
    then have "\<exists>stage err. b = blocked_row env pid c stage err"
      using Inr unfolding promote_check_def Let_def by (auto split: option.splits if_splits prod.splits)
    then show ?thesis using that(1) assms Inl Inr by (auto simp: promote_proposal_def block_def)
  next
    case (Inr cl)
    then have i: "promote_check env pid c db = Inr (Inr cl)" using \<open>promote_check env pid c db = Inr out\<close> by simp
    then have "promote_commit env pid c cl db = (row, db')" using assms by (simp add: promote_proposal_def)
    from i show ?thesis
    proof (rule promote_check_cleared)
      fix p assume p: "load_proposal pid (pi_task_id c) db = Some p" "pr_status p \<noteq> ''blocked''"
        "cl_patch cl = proposal_to_patch p"
        "sr_allowed (apply_llm_safety_policy default_safety_policy (Patch (proposal_to_patch p)))"
        "select_authorising_policy (pe_now env) (pe_clock env) (promote_action c (proposal_to_patch p))
           (pi_policy_id c) (pd_policies db) = (cl_chosen cl, cl_result cl)"
        "cl_approval cl = explicit_approval c pid db" "er_allowed (cl_result cl) \<or> explicit_ok c pid db"
      obtain arts accepted where m: "materialise env c 0 (lp_changes (proposal_to_patch p)) = (arts, accepted)"
        by fastforce
      show ?thesis
        by (rule that(2)[OF p(1,2,4,5,7) m])
          (use \<open>promote_commit env pid c cl db = (row, db')\<close> m p(3,6) cl_ok_explicit[OF p(6)] in
            \<open>auto simp: promote_commit_def Let_def\<close>)
    qed
  qed
qed (use assms in \<open>simp add: promote_proposal_def\<close>)

text \<open>
  C18. What stands behind a promotion that wrote a file: a stored proposal that is not blocked, hard rails
  that hold for it, and an approved approval or a policy of the candidates that covers it. Each artifact
  row comes from one change of the proposal: its path is the change's and inside the allowed prefixes, its
  preview, digest and diff are those of the change's content, and that content was found without secret
  and without destructive change. The promotion lists exactly the files written, which are not validated
  yet. In particular an explicit approval does not lift the hard rails.
\<close>

theorem promotion_is_authorised:
  assumes "promote_proposal env pid c db = Inr (row, db')" and "pm_status row = ''promoted''"
    and "distinct (map hp_policy_id (pd_policies db))"
  shows "\<exists>p arts. load_proposal pid (pi_task_id c) db = Some p \<and> pr_status p \<noteq> ''blocked'' \<and>
    rails_hold (promote_action c (proposal_to_patch p)) \<and>
    (explicit_ok c pid db \<or> (\<exists>q \<in> set (pd_policies db). \<exists>k.
       covers (pe_clock env k) q (promote_action c (proposal_to_patch p)))) \<and>
    pd_artifacts db' = pd_artifacts db @ arts \<and> arts \<noteq> [] \<and>
    pm_promoted_files row = map (\<lambda>art. (ca_file_path art, ca_change_type art)) arts \<and>
    (\<forall>art \<in> set arts. pe_workspace env = Some (ca_workspace_id art) \<and> ca_task_id art = pi_task_id c \<and>
       ca_validation_status art = ''pending'' \<and>
       (\<exists>ch \<in> set (proposal_changes p). ca_file_path art = fc_file_path ch \<and>
         ca_change_type art = fc_change_type ch \<and>
         ca_preview art = take 20000 (fc_proposed_content ch) \<and>
         ca_after_sha art = pe_sha256 env (fc_proposed_content ch) \<and>
         ca_diff_text art = take 4000 (compute_unified_diff (fc_proposed_content ch) (fc_file_path ch)) \<and>
         fst (validate_allowed_path (fc_file_path ch) DEFAULT_ALLOWED_PATHS DEFAULT_DENIED_PATHS) \<and>
         fst (validate_no_secret_content (Some (fc_proposed_content ch))) \<and>
         fst (validate_no_destructive_change (Some (fc_proposed_content ch)))))"
  using assms(1)
proof (cases rule: promote_cases)
  case (ran p chosen r arts accepted)
  have "\<exists>q \<in> set (pd_policies db). \<exists>k. covers (pe_clock env k) q (promote_action c (proposal_to_patch p))"
    if "er_allowed r" using selected_covers[OF ran(4) that assms(3)] by blast
  moreover have "\<exists>ch \<in> set (proposal_changes p). \<exists>w. pe_workspace env = Some w \<and> art = change_artifact env c w ch \<and>
       fst (validate_allowed_path (fc_file_path ch) DEFAULT_ALLOWED_PATHS DEFAULT_DENIED_PATHS) \<and>
       fst (validate_no_secret_content (Some (fc_proposed_content ch))) \<and>
       fst (validate_no_destructive_change (Some (fc_proposed_content ch)))" if "art \<in> set arts" for art
    using materialise_sound[OF ran(6) that] ran(3)
    by (auto simp: proposal_to_patch_def patch_allowed_iff check_change_Nil_iff)
  moreover have "arts \<noteq> [] \<and> pm_promoted_files row = map (\<lambda>art. (ca_file_path art, ca_change_type art)) arts"
    using materialise_accepted[OF ran(6)] ran(7) assms(2) by (auto simp: promoted_row_def)
  ultimately show ?thesis
    using ran(1,2,5,8) safety_policy_implies_rails[OF ran(3), of c]
    by (intro exI[of _ p] exI[of _ arts]) (fastforce simp: change_artifact_def hash_content_def Let_def)
next
  case (blocked stage err)
  then show ?thesis using assms(2) by (simp add: blocked_row_def)
qed

section \<open>The budget of a policy\<close>

lemma spent_policy:
  assumes "select_authorising_policy now clock a (pi_policy_id c) t = (chosen, r)" "er_allowed r"
    "distinct (map hp_policy_id t)" "effective_policy_id c chosen = Some i"
  shows "\<exists>p k. p \<in> set t \<and> hp_policy_id p = i \<and> covers (clock k) p a"
proof -
  let ?cands = "candidate_policies now a (pi_policy_id c) t"
  obtain p k where p: "p \<in> set t" "covers (clock k) p a" "hp_policy_id p = er_policy_id r"
    using selected_covers[OF assms(1,2,3)] by blast
  have e: "r = evaluate_action clock a ?cands" and ch: "chosen = (if er_allowed r \<and> er_policy_id r \<noteq> []
      then fetchrow (\<lambda>p. hp_policy_id p = er_policy_id r) ?cands else None)"
    using assms(1) by (auto simp: select_authorising_policy_def Let_def)
  show ?thesis
  proof (cases "truthy (pi_policy_id c)")
    case True
    then have i: "i = or_empty (pi_policy_id c)" using assms(4)
      by (cases "pi_policy_id c") (auto simp: effective_policy_id_def or_empty_def)
    obtain j where j: "j < length ?cands" "covers (clock j) (?cands ! j) a"
      using assms(2) unfolding e evaluate_allowed try_policies_allowed by auto
    then have "?cands ! j \<in> set ?cands" by simp
    then have "?cands ! j \<in> set t" "hp_policy_id (?cands ! j) = i"
      using True i by (auto simp: candidate_policies_def get_policy_def split: option.splits dest: fetchrow_SomeD[OF sym] fetchrow_SomeD)
    then show ?thesis using j by blast
  next
    case False
    then obtain q where "chosen = Some q" "hp_policy_id q = i" using assms(4) by (auto simp: effective_policy_id_def)
    then have "i = er_policy_id r" using ch by (auto split: if_splits dest: fetchrow_SomeD)
    then show ?thesis using p by blast
  qed
qed

lemma spend_rows:
  "q \<in> set (spend env i t) \<Longrightarrow> q \<in> set t \<or> (\<exists>p \<in> set t. i = Some (hp_policy_id p) \<and>
     q = p\<lparr>hp_actions_used := hp_actions_used p + 1, hp_updated_at := pe_now env\<rparr>)"
  by (auto simp: spend_def increment_actions_used_def update_returning_def set_update_where
      split: option.splits if_splits)

text \<open>
  C20. One promotion after the other, the uses of every policy stay within its \<^verbatim>\<open>max_actions\<close>, as long as
  no explicit approval stands in for the policy.
\<close>

theorem policy_budget_kept:
  assumes "promote_proposal env pid c db = Inr (row, db')" and "\<not> explicit_ok c pid db"
    and d: "distinct (map hp_policy_id (pd_policies db))" and inv: "\<forall>p \<in> set (pd_policies db). in_budget p"
  shows "\<forall>p \<in> set (pd_policies db'). in_budget p"
  using assms(1)
proof (cases rule: promote_cases)
  case (ran p chosen r arts accepted)
  show ?thesis
  proof
    fix q assume "q \<in> set (pd_policies db')"
    then have "q \<in> set (spend env (effective_policy_id c chosen) (pd_policies db))"
      using ran by (simp add: promoted_row_def)
    then consider "q \<in> set (pd_policies db)"
      | x where "x \<in> set (pd_policies db)" "effective_policy_id c chosen = Some (hp_policy_id x)"
          "q = x\<lparr>hp_actions_used := hp_actions_used x + 1, hp_updated_at := pe_now env\<rparr>"
      using spend_rows by blast
    then show "in_budget q"
    proof cases
      case 2
      have "er_allowed r" using ran(5) assms(2) by blast
      from spent_policy[OF ran(4) this d 2(2)] obtain y k where
        y: "y \<in> set (pd_policies db)" "hp_policy_id y = hp_policy_id x"
          "covers (pe_clock env k) y (promote_action c (proposal_to_patch p))" by blast
      then have "y = x" using distinct_map_eqD[OF d] 2(1) by blast
      then show ?thesis using covers_room[OF y(3)] 2(3) by simp
    qed (use inv in blast)
  qed
next
  case (blocked stage err)
  then show ?thesis using inv by simp
qed

lemma get_spent_policy:
  "pe_increment_ok e \<Longrightarrow> get_policy i (spend e (Some i) t) = map_option (\<lambda>p. p\<lparr>hp_actions_used := hp_actions_used p + 1,
     hp_updated_at := pe_now e\<rparr>) (get_policy i t)"
  by (induction t) (auto simp: spend_def get_policy_def increment_actions_used_def update_returning_def table_simps)

lemma commit_tables:
  "pd_policies (snd (promote_commit e pid c cl db)) = spend e (effective_policy_id c (cl_chosen cl)) (pd_policies db)"
  "pd_approvals (snd (promote_commit e pid c cl db)) = pd_approvals db"
  by (simp_all add: promote_commit_def promoted_row_def Let_def split: prod.split)

lemma named_policy_room:
  assumes "promote_check e pid c db = Inr (Inr cl)" "\<not> explicit_ok c pid db" "pi_policy_id c = Some i" "i \<noteq> []"
    "get_policy i (pd_policies db) = Some p"
  shows "\<exists>k. within_budget p k"
  using assms(1)
proof (rule promote_check_cleared)
  fix q assume s: "select_authorising_policy (pe_now e) (pe_clock e) (promote_action c (proposal_to_patch q))
      (pi_policy_id c) (pd_policies db) = (cl_chosen cl, cl_result cl)" and "er_allowed (cl_result cl) \<or> explicit_ok c pid db"
  then have "er_allowed (evaluate_action (pe_clock e) (promote_action c (proposal_to_patch q)) [p])"
    using assms(2-5) by (auto simp: select_authorising_policy_def candidate_policies_def or_empty_def Let_def)
  then show ?thesis unfolding evaluate_allowed try_policies_allowed by (auto simp: covers_def)
qed

text \<open>
  C21. The check and the increment are separate statements, and the increment has no guard. Let two
  promotions without an explicit approval name the same policy, with one use left, and let both be
  cleared on the same database. Committed one after the other they push its uses past \<^verbatim>\<open>max_actions\<close>,
  although the second one is not cleared any more on the database the first one leaves.
\<close>

theorem concurrent_promotions_overspend:
  assumes "promote_check e1 pid1 c1 db = Inr (Inr cl1)" and "promote_check e2 pid2 c2 db = Inr (Inr cl2)"
    and "\<not> explicit_ok c1 pid1 db" and "\<not> explicit_ok c2 pid2 db"
    and "pi_policy_id c1 = Some i" and "pi_policy_id c2 = Some i" and "i \<noteq> []"
    and "get_policy i (pd_policies db) = Some p" and "hp_max_actions p = Some n" and "hp_actions_used p = n - 1"
    and "pe_increment_ok e1" and "pe_increment_ok e2"
  shows "let db1 = snd (promote_commit e1 pid1 c1 cl1 db); db2 = snd (promote_commit e2 pid2 c2 cl2 db1) in
    promote_proposal e1 pid1 c1 db = Inr (promote_commit e1 pid1 c1 cl1 db) \<and>
    (\<nexists>cl. promote_check e2 pid2 c2 db1 = Inr (Inr cl)) \<and>
    (\<exists>q. get_policy i (pd_policies db2) = Some q \<and> hp_max_actions q = Some n \<and>
       hp_actions_used q = n + 1 \<and> \<not> in_budget q)"
proof -
  let ?db1 = "snd (promote_commit e1 pid1 c1 cl1 db)"
  have e: "effective_policy_id c1 x = Some i" "effective_policy_id c2 x = Some i" for x
    using assms(5-7) by (simp_all add: effective_policy_id_def)
  have g: "get_policy i (pd_policies ?db1) = Some (p\<lparr>hp_actions_used := n, hp_updated_at := pe_now e1\<rparr>)"
    using assms(8,10,11) by (simp add: commit_tables e get_spent_policy)
  have "explicit_ok c2 pid2 ?db1 = explicit_ok c2 pid2 db"
    by (simp add: explicit_ok_def explicit_approval_def list_approvals_def get_latest_approval_def commit_tables)
  then have "\<nexists>cl. promote_check e2 pid2 c2 ?db1 = Inr (Inr cl)"
    using named_policy_room[OF _ _ assms(6,7) g] assms(4,9) by (auto simp: within_budget_def)
  then show ?thesis using assms(1,9,12) g
    by (simp add: Let_def promote_proposal_def commit_tables(1)[of e2] e get_spent_policy in_budget_def)
qed

text \<open>With an explicit approval the policy that the caller names is charged, whoever it belongs to.\<close>

lemma explicit_approval_charges_named_policy:
  assumes "promote_proposal env pid c db = Inr (row, db')" "pm_status row \<noteq> ''blocked_by_policy''"
    "pi_policy_id c = Some i" "i \<noteq> []" "pe_increment_ok env"
  shows "pd_policies db' = snd (increment_actions_used i (pe_now env) (pd_policies db))"
  using assms(1)
proof (cases rule: promote_cases)
  case (ran p chosen r arts accepted)
  then show ?thesis using assms(3-5) by (simp add: promoted_row_def effective_policy_id_def spend_def)
next
  case (blocked stage err)
  then show ?thesis using assms(2) by (simp add: blocked_row_def)
qed

section \<open>Witnesses\<close>

definition demo_proposal :: llm_proposal where
  "demo_proposal = \<lparr>pr_proposal_id = ''q1'', pr_task_id = ''t1'', pr_status = ''proposed'',
     pr_proposed_files = [Entry (Some ''docs/generated/a'') None None, NotAnObject],
     pr_confidence = Some 80, pr_created_at = 1\<rparr>"

definition demo_db :: promo_db where
  "demo_db = \<lparr>pd_policies = [demo_policy], pd_approvals = [], pd_decisions = [], pd_promotions = [],
     pd_artifacts = [], pd_proposals = [demo_proposal]\<rparr>"

definition demo_env :: promote_env where
  "demo_env = \<lparr>pe_promotion_id = ''m1'', pe_now = 50, pe_clock = (\<lambda>_. 50), pe_workspace = Some ''w1'',
     pe_artifact_ok = (\<lambda>_. True), pe_increment_ok = True, pe_proposal_ok = True, pe_sha256 = (\<lambda>s. s)\<rparr>"

definition demo_promote :: promote_in where
  "demo_promote = \<lparr>pi_task_id = ''t1'', pi_workflow_id = None, pi_promoted_by = ''ann'', pi_approval_id = None,
     pi_policy_id = Some ''p1'', pi_promotion_mode = ''manual''\<rparr>"

lemma demo_path:
  "validate_allowed_path ''docs/generated/a'' DEFAULT_ALLOWED_PATHS DEFAULT_DENIED_PATHS = (True, ''allowed:docs/generated/'')"
  by code_simp

lemma demo_content: "validate_no_secret_content (Some []) = (True, ''no_secret_signature'')"
    "validate_no_destructive_change (Some []) = (True, ''empty_diff'')" "validate_change_type (Some ''create'') = (True, ''change_type:create'')"
  by code_simp+

lemma demo_patch:
  "load_proposal ''q1'' (pi_task_id demo_promote) demo_db = Some demo_proposal"
  "proposal_changes demo_proposal = [\<lparr>fc_file_path = ''docs/generated/a'', fc_change_type = ''create'',
     fc_proposed_content = [], fc_diff_summary = [], fc_reason = []\<rparr>]"
  by (simp_all add: load_proposal_def list_proposals_def newest_first_def demo_db_def demo_promote_def fetchrow_def
      demo_proposal_def proposal_changes_def or_empty_def List.map_filter_simps)

lemma demo_safe: "sr_allowed (apply_llm_safety_policy default_safety_policy (Patch (proposal_to_patch demo_proposal)))"
  by (simp add: patch_allowed_iff check_change_Nil_iff check_path_def default_safety_policy_def proposal_to_patch_def
      demo_patch demo_path demo_content LLM_CHANGE_TYPES_def)

lemma demo_covered: "covers 50 demo_policy (promote_action demo_promote (proposal_to_patch demo_proposal))"
proof -
  have d: "\<not> fst (path_blocked_by_denylist ''docs/generated/a'' [])"
    by (simp add: path_blocked_by_denylist_def demo_path)
  have i: "in_policy_paths (hp_allowed_paths demo_policy) ''docs/generated/a''" by code_simp
  show ?thesis using d i
    by (simp add: covers_def promote_action_def proposal_to_patch_def demo_patch demo_promote_def demo_policy_def
        policy_expired_def policy_constraints_ok_def within_budget_def)
qed

lemma demo_candidates: "candidate_policies now a (pi_policy_id demo_promote) (pd_policies demo_db) = [demo_policy]"
  by (simp add: candidate_policies_def demo_promote_def demo_db_def get_policy_def fetchrow_def or_empty_def demo_policy_def)

lemma demo_selects:
  "\<exists>r. er_allowed r \<and> select_authorising_policy (pe_now demo_env) (pe_clock demo_env)
     (promote_action demo_promote (proposal_to_patch demo_proposal)) (pi_policy_id demo_promote) (pd_policies demo_db)
     = (Some demo_policy, r)"
proof -
  let ?a = "promote_action demo_promote (proposal_to_patch demo_proposal)"
  let ?r = "evaluate_action (pe_clock demo_env) ?a [demo_policy]"
  have "rails_hold ?a" by (rule safety_policy_implies_rails[OF demo_safe])
  then have r: "er_allowed ?r" "?r = try_policies (pe_clock demo_env) 0 ?a [demo_policy] ''no_active_policy''"
    using demo_covered hard_safety_None[of ?a] unfolding evaluate_allowed try_policies_allowed
    by (simp_all add: demo_env_def evaluate_action_def del: try_policies.simps)
  then have "er_policy_id ?r = ''p1''"
    using try_policies_who[of "pe_clock demo_env" 0 ?a "[demo_policy]" "''no_active_policy''"] by (simp add: demo_policy_def)
  then show ?thesis using r(1)
    by (simp add: select_authorising_policy_def Let_def demo_candidates fetchrow_def) (simp add: demo_policy_def)
qed

lemma demo_cleared:
  "\<exists>cl. promote_check demo_env ''q1'' demo_promote demo_db = Inr (Inr cl) \<and> cl_patch cl = proposal_to_patch demo_proposal"
proof -
  obtain r where r: "er_allowed r" "select_authorising_policy (pe_now demo_env) (pe_clock demo_env)
     (promote_action demo_promote (proposal_to_patch demo_proposal)) (pi_policy_id demo_promote) (pd_policies demo_db)
     = (Some demo_policy, r)" using demo_selects by blast
  have b: "pr_status demo_proposal \<noteq> ''blocked''" by (simp add: demo_proposal_def)
  show ?thesis by (simp add: promote_check_def demo_patch(1) Let_def demo_safe b r)
qed

lemma demo_promotes:
  "\<exists>row db'. promote_proposal demo_env ''q1'' demo_promote demo_db = Inr (row, db') \<and> pm_status row = ''promoted''"
proof -
  obtain cl where "promote_check demo_env ''q1'' demo_promote demo_db = Inr (Inr cl)"
    "cl_patch cl = proposal_to_patch demo_proposal" using demo_cleared by blast
  moreover have "lp_changes (proposal_to_patch demo_proposal) = proposal_changes demo_proposal"
    by (simp add: proposal_to_patch_def)
  ultimately show ?thesis
    by (simp add: promote_proposal_def promote_commit_def Let_def)
      (simp add: demo_patch(2) demo_path demo_env_def promoted_row_def)
qed

lemma demo_facts:
  "distinct (map hp_policy_id (pd_policies demo_db))" "\<forall>p \<in> set (pd_policies demo_db). in_budget p"
  "\<not> explicit_ok demo_promote ''q1'' demo_db"
  by (simp_all add: demo_db_def demo_policy_def in_budget_def explicit_ok_def explicit_approval_def demo_promote_def
      get_latest_approval_def newest_first_def fetchrow_def)

theorem promotion_is_authorised_witness:
  "\<exists>row db' p arts. promote_proposal demo_env ''q1'' demo_promote demo_db = Inr (row, db') \<and>
    load_proposal ''q1'' (pi_task_id demo_promote) demo_db = Some p \<and> pd_artifacts db' = pd_artifacts demo_db @ arts \<and>
    arts \<noteq> []"
proof -
  obtain row db' where r: "promote_proposal demo_env ''q1'' demo_promote demo_db = Inr (row, db')"
    "pm_status row = ''promoted''" using demo_promotes by blast
  from promotion_is_authorised[OF r demo_facts(1)] show ?thesis using r by blast
qed

theorem policy_budget_kept_witness:
  "\<exists>row db'. promote_proposal demo_env ''q1'' demo_promote demo_db = Inr (row, db') \<and>
    (\<forall>p \<in> set (pd_policies db'). in_budget p)"
proof -
  obtain row db' where r: "promote_proposal demo_env ''q1'' demo_promote demo_db = Inr (row, db')"
    using demo_promotes by blast
  from policy_budget_kept[OF r demo_facts(3,1,2)] show ?thesis using r by blast
qed

theorem concurrent_promotions_overspend_witness:
  "\<exists>cl q. promote_check demo_env ''q1'' demo_promote demo_db = Inr (Inr cl) \<and>
    get_policy ''p1'' (pd_policies (snd (promote_commit demo_env ''q1'' demo_promote cl
      (snd (promote_commit demo_env ''q1'' demo_promote cl demo_db))))) = Some q \<and>
    hp_max_actions q = Some 3 \<and> hp_actions_used q = 4"
proof -
  obtain cl where cl: "promote_check demo_env ''q1'' demo_promote demo_db = Inr (Inr cl)"
    using demo_cleared by blast
  have g: "pi_policy_id demo_promote = Some ''p1''" "''p1'' \<noteq> []" "get_policy ''p1'' (pd_policies demo_db) = Some demo_policy"
      "hp_max_actions demo_policy = Some 3" "hp_actions_used demo_policy = 3 - 1" "pe_increment_ok demo_env"
    by (simp_all add: get_policy_def fetchrow_def demo_policy_def demo_env_def demo_promote_def demo_db_def)
  show ?thesis using cl
      concurrent_promotions_overspend[OF cl cl demo_facts(3,3) g(1) g(1) g(2,3,4,5) g(6) g(6)]
    by (auto simp: Let_def)
qed

end
