(* ===== verification/Workroom.thy ===== *)
theory Workroom imports Task_Roles Resume_Repo begin

text \<open>
  Tasks, workroom messages and clarifications: the tables of migrations 029 to 031 with their
  constraints, the statements of \<^verbatim>\<open>shared/sdk/tasks/store.py\<close> and \<^verbatim>\<open>workroom_store.py\<close>, and the handlers of
  \<^verbatim>\<open>apps/orchestrator/src/task_api.py\<close> and \<^verbatim>\<open>workroom_api.py\<close> that change state. Every store call opens a
  connection of its own, so each statement commits by itself: a handler that raises keeps what its earlier
  statements wrote. Ids are canonical UUID texts; audit events, which are published on a best effort, are
  left out.
\<close>

section \<open>Tables\<close>

record task_row = task +
  tk_title :: string
  tk_description :: "string option"
  tk_task_type :: string
  tk_priority :: string
  tk_created_by :: string
  tk_owner :: "string option"
  tk_environment :: string
  tk_requires_approval :: bool
  tk_clarification_status :: string
  tk_intake_planning_only :: bool
  tk_metadata :: payload
  tk_created_at :: int
  tk_updated_at :: int

record message_row = task_message +
  ms_task_id :: string
  ms_sender_type :: string
  ms_sender_id :: string
  ms_sender_role :: "string option"
  ms_message_type :: string
  ms_reply_to_message_id :: "string option"
  ms_created_at :: int

record clarification_row = clarification +
  cq_question_message_id :: string
  cq_question :: string
  cq_requested_by_type :: string
  cq_requested_by_id :: string
  cq_assigned_to :: "string option"
  cq_due_at :: int
  cq_reminder_at :: int
  cq_answered_at :: "int option"
  cq_reminder_sent_at :: "int option"
  cq_expired_at :: "int option"
  cq_created_at :: int

record work_db =
  wd_tasks :: "task_row list"
  wd_messages :: "message_row list"
  wd_clarifications :: "clarification_row list"
  wd_outbox :: outbox_table

definition TASK_TYPES :: "string list" where
  "TASK_TYPES =
    [''software_delivery'', ''documentation'', ''platform_improvement'', ''research'', ''it_operations'',
     ''security_review'', ''incident_analysis'', ''data_knowledge_analysis'',
     ''business_process_automation'', ''other'']"

definition TASK_PRIORITIES :: "string list" where
  "TASK_PRIORITIES = [''low'', ''medium'', ''high'', ''critical'']"

definition TASK_ENVIRONMENTS :: "string list" where "TASK_ENVIRONMENTS = [''test'', ''staging'']"

definition SENDER_TYPES :: "string list" where "SENDER_TYPES = [''human'', ''agent'', ''system'', ''audit'']"

definition MESSAGE_TYPES :: "string list" where
  "MESSAGE_TYPES =
    [''human_message'', ''agent_message'', ''clarification_question'', ''clarification_answer'',
     ''system_event'', ''audit_event'', ''delivery_comment'', ''request_changes_note'', ''qa_result_note'',
     ''approval_request_note'']"

definition CLARIFICATION_STATUSES :: "string list" where
  "CLARIFICATION_STATUSES = [''open'', ''answered'', ''expired'', ''canceled'']"

definition task_checks :: "task_row \<Rightarrow> bool" where
  "task_checks r \<longleftrightarrow> btrim_nonempty (tk_title r) \<and> tk_task_type r \<in> set TASK_TYPES \<and>
     tk_priority r \<in> set TASK_PRIORITIES \<and> ot_status r \<in> set TASK_STATUS \<and>
     tk_environment r \<in> set TASK_ENVIRONMENTS"

definition message_checks :: "message_row \<Rightarrow> bool" where
  "message_checks r \<longleftrightarrow> ms_sender_type r \<in> set SENDER_TYPES \<and> ms_message_type r \<in> set MESSAGE_TYPES \<and>
     tm_visibility r \<in> set (map fst VISIBILITY_ROLES) \<and> btrim_nonempty (tm_body r) \<and>
     length (tm_body r) \<le> MESSAGE_BODY_MAX_LENGTH"

definition clarification_checks :: "clarification_row \<Rightarrow> bool" where
  "clarification_checks r \<longleftrightarrow> oc_status r \<in> set CLARIFICATION_STATUSES \<and> btrim_nonempty (cq_question r) \<and>
     length (cq_question r) \<le> CLARIFICATION_QUESTION_MAX_LENGTH \<and>
     (oc_resume_authorized_at r = None \<or> oc_resume_eligible_at r \<noteq> None)"

definition has_task :: "string \<Rightarrow> work_db \<Rightarrow> bool" where
  "has_task i db \<longleftrightarrow> list_ex (\<lambda>r. ot_id r = i) (wd_tasks db)"

definition has_message :: "string \<Rightarrow> work_db \<Rightarrow> bool" where
  "has_message i db \<longleftrightarrow> list_ex (\<lambda>r. tm_id r = i) (wd_messages db)"

section \<open>The task store\<close>

definition insert_task :: "task_row \<Rightarrow> work_db \<Rightarrow> (task_row \<times> work_db) outcome" where
  "insert_task r db =
    (if \<not> task_checks r then Inl (CheckViolation ''operator_tasks'')
     else if has_task (ot_id r) db then Inl (UniqueViolation ''operator_tasks_pkey'')
     else Inr (r, db\<lparr>wd_tasks := wd_tasks db @ [r]\<rparr>))"

definition store_get_task :: "string \<Rightarrow> work_db \<Rightarrow> task_row option" where
  "store_get_task i db = fetchrow (\<lambda>r. ot_id r = i) (wd_tasks db)"

record task_filter =
  tf_status :: "string option"
  tf_task_type :: "string option"
  tf_owner :: "string option"
  tf_created_by :: "string option"
  tf_priority :: "string option"
  tf_environment :: "string option"

text \<open>A filter that is not given selects everything; a \<^verbatim>\<open>NULL\<close> column equals no given value.\<close>

definition selects :: "string option \<Rightarrow> string option \<Rightarrow> bool" where
  "selects val col \<longleftrightarrow> val = None \<or> col = val"

definition task_clauses :: "task_filter \<Rightarrow> task_row \<Rightarrow> bool" where
  "task_clauses p r \<longleftrightarrow> selects (tf_status p) (Some (ot_status r)) \<and> selects (tf_task_type p) (Some (tk_task_type r)) \<and>
     selects (tf_owner p) (tk_owner r) \<and> selects (tf_created_by p) (Some (tk_created_by r)) \<and>
     selects (tf_priority p) (Some (tk_priority r)) \<and> selects (tf_environment p) (Some (tk_environment r))"

definition list_tasks :: "task_filter \<Rightarrow> work_db \<Rightarrow> task_row list" where
  "list_tasks p db = sort_key (\<lambda>r. - tk_created_at r) (filter (task_clauses p) (wd_tasks db))"

text \<open>The row that an update returns is read without a test, so an update of no row raises.\<close>

definition task_update :: "(task_row \<Rightarrow> task_row) \<Rightarrow> string \<Rightarrow> work_db \<Rightarrow> (task_row \<times> work_db) outcome" where
  "task_update f i db =
    try_then (checked_update ''operator_tasks'' task_checks (\<lambda>r. ot_id r = i) f (wd_tasks db))
      (\<lambda>(row, t). case row of None \<Rightarrow> Inl (TypeError ''NoneType'') | Some r \<Rightarrow> Inr (r, db\<lparr>wd_tasks := t\<rparr>))"

definition update_status :: "int \<Rightarrow> string \<Rightarrow> string \<Rightarrow> work_db \<Rightarrow> (task_row \<times> work_db) outcome" where
  "update_status now i new_status = task_update (\<lambda>r. r\<lparr>ot_status := new_status, tk_updated_at := now\<rparr>) i"

definition set_clarification_state ::
    "int \<Rightarrow> string \<Rightarrow> string \<Rightarrow> string \<Rightarrow> work_db \<Rightarrow> (task_row \<times> work_db) outcome" where
  "set_clarification_state now i status clarification_status =
     task_update (\<lambda>r. r\<lparr>ot_status := status, tk_clarification_status := clarification_status, tk_updated_at := now\<rparr>) i"

section \<open>The workroom store\<close>

definition create_message :: "message_row \<Rightarrow> work_db \<Rightarrow> (message_row \<times> work_db) outcome" where
  "create_message r db =
    (if \<not> message_checks r then Inl (CheckViolation ''task_messages'')
     else if has_message (tm_id r) db then Inl (UniqueViolation ''task_messages_pkey'')
     else if \<not> has_task (ms_task_id r) db then Inl (ForeignKeyViolation ''task_messages_task_id_fkey'')
     else if (case ms_reply_to_message_id r of None \<Rightarrow> False | Some m \<Rightarrow> \<not> has_message m db)
     then Inl (ForeignKeyViolation ''task_messages_reply_to_message_id_fkey'')
     else Inr (r, db\<lparr>wd_messages := wd_messages db @ [r]\<rparr>))"

definition list_messages :: "string \<Rightarrow> work_db \<Rightarrow> message_row list" where
  "list_messages task_id db = sort_key ms_created_at (filter (\<lambda>r. ms_task_id r = task_id) (wd_messages db))"

text \<open>\<open>now\<close> is the clock of the caller, from which the deadlines are computed, and \<open>created\<close> the clock of the database.\<close>

definition new_clarification ::
    "string \<Rightarrow> int \<Rightarrow> int \<Rightarrow> string \<Rightarrow> string \<Rightarrow> string \<Rightarrow> string option \<Rightarrow> string \<Rightarrow> string \<Rightarrow> clarification_row" where
  "new_clarification new_id now created requested_by_type requested_by_id question assigned_to task_id message_id =
    \<lparr>oc_id = new_id, oc_task_id = task_id, oc_status = ''open'', oc_answer_message_id = None,
     oc_resume_eligible_at = None, oc_resume_requested_at = None, oc_resume_requested_by = None,
     oc_resume_authorized_at = None, oc_updated_at = created, cq_question_message_id = message_id,
     cq_question = question, cq_requested_by_type = requested_by_type, cq_requested_by_id = requested_by_id,
     cq_assigned_to = assigned_to, cq_due_at = now + seconds (CLARIFICATION_DUE_HOURS * 3600),
     cq_reminder_at = now + seconds (CLARIFICATION_REMINDER_HOURS * 3600), cq_answered_at = None,
     cq_reminder_sent_at = None, cq_expired_at = None, cq_created_at = created\<rparr>"

definition insert_clarification ::
    "clarification_row \<Rightarrow> work_db \<Rightarrow> (clarification_row \<times> work_db) outcome" where
  "insert_clarification r db =
    (if \<not> clarification_checks r then Inl (CheckViolation ''operator_clarification_requests'')
     else if list_ex (\<lambda>x. oc_id x = oc_id r) (wd_clarifications db)
     then Inl (UniqueViolation ''operator_clarification_requests_pkey'')
     else if \<not> has_task (oc_task_id r) db
     then Inl (ForeignKeyViolation ''operator_clarification_requests_task_id_fkey'')
     else if \<not> has_message (cq_question_message_id r) db
     then Inl (ForeignKeyViolation ''operator_clarification_requests_question_message_id_fkey'')
     else Inr (r, db\<lparr>wd_clarifications := wd_clarifications db @ [r]\<rparr>))"

definition store_get_clarification :: "string \<Rightarrow> work_db \<Rightarrow> clarification_row option" where
  "store_get_clarification i db = fetchrow (\<lambda>r. oc_id r = i) (wd_clarifications db)"

definition list_clarifications :: "string \<Rightarrow> work_db \<Rightarrow> clarification_row list" where
  "list_clarifications task_id db =
     sort_key cq_created_at (filter (\<lambda>r. oc_task_id r = task_id) (wd_clarifications db))"

text \<open>The compare-and-set of an answer: the deadline is exclusive.\<close>

definition answerable :: "int \<Rightarrow> clarification_row \<Rightarrow> bool" where
  "answerable now r \<longleftrightarrow> oc_status r = ''open'' \<and> cq_answered_at r = None \<and> now < cq_due_at r"

definition mark_answered :: "int \<Rightarrow> clarification_row \<Rightarrow> clarification_row" where
  "mark_answered now r = r\<lparr>oc_status := ''answered'', cq_answered_at := Some now, oc_updated_at := now\<rparr>"

definition claim_clarification_answer ::
    "int \<Rightarrow> string \<Rightarrow> work_db \<Rightarrow> clarification_row option \<times> work_db" where
  "claim_clarification_answer now i db =
    (let (row, t) = update_returning (\<lambda>r. oc_id r = i \<and> answerable now r) (mark_answered now) (wd_clarifications db)
     in (row, db\<lparr>wd_clarifications := t\<rparr>))"

definition set_answer_message ::
    "int \<Rightarrow> string \<Rightarrow> string \<Rightarrow> work_db \<Rightarrow> (clarification_row \<times> work_db) outcome" where
  "set_answer_message now i message_id db =
    (if \<not> list_ex (\<lambda>r. oc_id r = i) (wd_clarifications db) then Inl (TypeError ''NoneType'')
     else if \<not> has_message message_id db
     then Inl (ForeignKeyViolation ''operator_clarification_requests_answer_message_id_fkey'')
     else case update_returning (\<lambda>r. oc_id r = i)
         (\<lambda>r. r\<lparr>oc_answer_message_id := Some message_id, oc_updated_at := now\<rparr>) (wd_clarifications db) of
       (None, t) \<Rightarrow> Inl (TypeError ''NoneType'')
     | (Some r, t) \<Rightarrow> Inr (r, db\<lparr>wd_clarifications := t\<rparr>))"

section \<open>Handlers\<close>

text \<open>What the request models accept: the length of the texts, which counts blanks.\<close>

definition valid_body :: "string \<Rightarrow> bool" where
  "valid_body s \<longleftrightarrow> 1 \<le> length s \<and> length s \<le> MESSAGE_BODY_MAX_LENGTH"

definition valid_question :: "string \<Rightarrow> bool" where
  "valid_question s \<longleftrightarrow> 1 \<le> length s \<and> length s \<le> CLARIFICATION_QUESTION_MAX_LENGTH"

definition valid_answer :: "string \<Rightarrow> bool" where
  "valid_answer s \<longleftrightarrow> 1 \<le> length s \<and> length s \<le> CLARIFICATION_ANSWER_MAX_LENGTH"

text \<open>
  A handler is a run over the database that returns a value or raises; \<open>run_statement\<close> runs one statement and
  commits it, \<open>require\<close> is a guard with its error.
\<close>

type_synonym 'a handler = "work_db \<Rightarrow> (http_error + 'a) \<times> work_db"

definition give :: "'a \<Rightarrow> 'a handler" where "give x = (\<lambda>db. (Inr x, db))"
definition raise_http :: "nat \<Rightarrow> string \<Rightarrow> 'a handler" where
  "raise_http code detail = (\<lambda>db. (Inl (HTTPException code detail), db))"

definition andthen :: "'a handler \<Rightarrow> ('a \<Rightarrow> 'b handler) \<Rightarrow> 'b handler" where
  "andthen m f = (\<lambda>db. case m db of (Inl e, db') \<Rightarrow> (Inl e, db') | (Inr x, db') \<Rightarrow> f x db')"

definition run_statement :: "(work_db \<Rightarrow> ('a \<times> work_db) outcome) \<Rightarrow> 'a handler" where
  "run_statement f = (\<lambda>db. case f db of Inl e \<Rightarrow> (Inl (ServerError e), db) | Inr (x, db') \<Rightarrow> (Inr x, db'))"

definition read_db :: "(work_db \<Rightarrow> 'a) \<Rightarrow> 'a handler" where "read_db f = (\<lambda>db. (Inr (f db), db))"

definition require :: "bool \<Rightarrow> nat \<Rightarrow> string \<Rightarrow> unit handler" where
  "require b code detail = (if b then give () else raise_http code detail)"

lemma handler_simps [simp]:
  "give y db = (Inr y, db)"
  "raise_http code detail db = (Inl (HTTPException code detail), db)"
  "read_db g db = (Inr (g db), db)"
  "require True code detail = give ()"
  "require False code detail = raise_http code detail"
  "andthen (give x) f = f x"
  "andthen (raise_http code detail) f = raise_http code detail"
  "andthen (read_db h) k db = k (h db) db"
  by (simp_all add: give_def raise_http_def read_db_def require_def andthen_def fun_eq_iff)

record auth_context =
  ax_actor :: string
  ax_role :: string

text \<open>The test-only authentication: the flag of the process and the two headers of the request.\<close>

definition authenticate :: "environment \<Rightarrow> string \<Rightarrow> string \<Rightarrow> http_error + auth_context" where
  "authenticate env actor_header role_header =
    (let actor = py_strip actor_header; rl = py_strip role_header in
     if \<not> env_flag env ''TASK_API_TEST_AUTH_ENABLED'' then Inl (HTTPException 403 ''task_api_test_auth_disabled'')
     else if actor = [] then Inl (HTTPException 401 ''missing_actor'')
     else if rl = [] then Inl (HTTPException 401 ''missing_role'')
     else if rl \<notin> set TASK_ROLES then Inl (HTTPException 401 ''invalid_role'')
     else Inr \<lparr>ax_actor = actor, ax_role = rl\<rparr>)"

text \<open>Every handler below starts with the authentication; it is run as \<open>with_auth\<close> of its body.\<close>

definition with_auth ::
    "environment \<Rightarrow> string \<Rightarrow> string \<Rightarrow> (auth_context \<Rightarrow> 'a handler) \<Rightarrow> 'a handler" where
  "with_auth env actor_header role_header body =
    (case authenticate env actor_header role_header of Inl e \<Rightarrow> (\<lambda>db. (Inl e, db)) | Inr ctx \<Rightarrow> body ctx)"

definition get_task_or_404 :: "string \<Rightarrow> task_row handler" where
  "get_task_or_404 i = andthen (read_db (store_get_task i))
     (\<lambda>t. case t of None \<Rightarrow> raise_http 404 ''task_not_found'' | Some r \<Rightarrow> give r)"

definition own_task :: "auth_context \<Rightarrow> task_row \<Rightarrow> unit handler" where
  "own_task ctx tk = require (\<not> (ax_role ctx = ''requester'' \<and> tk_created_by tk \<noteq> ax_actor ctx)) 403 ''not_own_task''"

record task_create =
  tc_title :: string
  tc_description :: "string option"
  tc_task_type :: string
  tc_priority :: string
  tc_owner :: "string option"
  tc_project_id :: "string option"
  tc_environment :: string
  tc_production_effect :: bool
  tc_requires_approval :: bool
  tc_initial_status :: string
  tc_metadata :: payload

definition intake_row :: "string \<Rightarrow> int \<Rightarrow> auth_context \<Rightarrow> task_create \<Rightarrow> task_row" where
  "intake_row new_id now ctx c = \<lparr>ot_id = new_id, ot_project_id = tc_project_id c,
     ot_status = (if tc_production_effect c \<and> tc_initial_status c = ''submitted'' then ''blocked'' else tc_initial_status c),
     ot_production_effect = tc_production_effect c, tk_title = tc_title c, tk_description = tc_description c,
     tk_task_type = tc_task_type c, tk_priority = tc_priority c, tk_created_by = ax_actor ctx,
     tk_owner = Some (if truthy (tc_owner c) then or_empty (tc_owner c) else ax_actor ctx),
     tk_environment = tc_environment c, tk_requires_approval = (tc_requires_approval c \<or> tc_production_effect c),
     tk_clarification_status = ''none'', tk_intake_planning_only = (tc_task_type c \<notin> set FIRST_CLASS_TASK_TYPES),
     tk_metadata = tc_metadata c, tk_created_at = now, tk_updated_at = now\<rparr>"

definition api_create_task :: "string \<Rightarrow> int \<Rightarrow> auth_context \<Rightarrow> task_create \<Rightarrow> task_row handler" where
  "api_create_task new_id now ctx c =
     andthen (require (can_create (ax_role ctx)) 403 ''role_cannot_create_task'') (\<lambda>_.
       run_statement (insert_task (intake_row new_id now ctx c)))"

definition api_submit_task :: "int \<Rightarrow> auth_context \<Rightarrow> string \<Rightarrow> task_row handler" where
  "api_submit_task now ctx task_id =
     andthen (require (can_submit (ax_role ctx)) 403 ''role_cannot_submit_task'') (\<lambda>_.
     andthen (get_task_or_404 task_id) (\<lambda>tk.
     andthen (own_task ctx tk) (\<lambda>_.
     andthen (require (ot_status tk \<in> {''draft'', ''submitted''}) 409 (''invalid_state_for_submit:'' @ ot_status tk)) (\<lambda>_.
       run_statement (update_status now task_id (if ot_production_effect tk then ''blocked'' else ''intake_review''))))))"

definition human_message ::
    "string \<Rightarrow> int \<Rightarrow> auth_context \<Rightarrow> string \<Rightarrow> string \<Rightarrow> string \<Rightarrow> string option \<Rightarrow> message_row" where
  "human_message new_id now ctx task_id message_type body reply = \<lparr>tm_id = new_id, tm_body = body,
     tm_visibility = ''task_participants'', ms_task_id = task_id, ms_sender_type = ''human'',
     ms_sender_id = ax_actor ctx, ms_sender_role = Some (ax_role ctx), ms_message_type = message_type,
     ms_reply_to_message_id = reply, ms_created_at = now\<rparr>"

definition api_post_message :: "string \<Rightarrow> int \<Rightarrow> auth_context \<Rightarrow> string \<Rightarrow> string \<Rightarrow> message_row handler" where
  "api_post_message new_id now ctx task_id body =
     andthen (require (can_post_message (ax_role ctx)) 403 ''role_cannot_post_message'') (\<lambda>_.
     andthen (get_task_or_404 task_id) (\<lambda>tk.
     andthen (own_task ctx tk) (\<lambda>_.
       run_statement (create_message (human_message new_id now ctx task_id ''human_message'' body None)))))"

text \<open>The ids and the clock readings of the statements of one call.\<close>

definition api_create_clarification ::
    "string \<Rightarrow> string \<Rightarrow> (nat \<Rightarrow> int) \<Rightarrow> auth_context \<Rightarrow> string \<Rightarrow> string \<Rightarrow> string option
      \<Rightarrow> (clarification_row \<times> task_row) handler" where
  "api_create_clarification message_id clarification_id ts ctx task_id question assigned_to =
     andthen (require (can_create_clarification (ax_role ctx)) 403 ''role_cannot_create_clarification'') (\<lambda>_.
     andthen (get_task_or_404 task_id) (\<lambda>_.
     andthen (run_statement (create_message
       (human_message message_id (ts 0) ctx task_id ''clarification_question'' question None))) (\<lambda>m.
     andthen (run_statement (insert_clarification
       (new_clarification clarification_id (ts 1) (ts 2) ''human'' (ax_actor ctx) question assigned_to task_id (tm_id m)))) (\<lambda>c.
     andthen (run_statement (set_clarification_state (ts 3) task_id ''clarification_needed'' ''open'')) (\<lambda>tk.
       give (c, tk))))))"

text \<open>Why a claim was lost, from the row as it is now.\<close>

definition lost_claim :: "clarification_row option \<Rightarrow> 'a handler" where
  "lost_claim current =
    (case current of
       Some r \<Rightarrow> if oc_status r = ''open'' then raise_http 409 ''invalid_state_for_answer:expired''
         else if oc_status r \<noteq> ''answered'' then raise_http 409 (''invalid_state_for_answer:'' @ oc_status r)
         else raise_http 409 ''clarification_already_answered''
     | None \<Rightarrow> raise_http 409 ''clarification_already_answered'')"

text \<open>After the claim: the message, its link, and the task.\<close>

definition record_answer ::
    "string \<Rightarrow> (nat \<Rightarrow> int) \<Rightarrow> auth_context \<Rightarrow> string \<Rightarrow> string \<Rightarrow> string \<Rightarrow> clarification_row
      \<Rightarrow> (clarification_row \<times> task_row) handler" where
  "record_answer message_id ts ctx task_id clarification_id answer c =
     andthen (run_statement (create_message (human_message message_id (ts 1) ctx task_id ''clarification_answer''
       answer (Some (cq_question_message_id c))))) (\<lambda>m.
     andthen (run_statement (set_answer_message (ts 2) clarification_id (tm_id m))) (\<lambda>c'.
     andthen (run_statement (set_clarification_state (ts 3) task_id ''intake_review'' ''answered'')) (\<lambda>tk.
       give (c', tk))))"

definition claim_answer :: "int \<Rightarrow> string \<Rightarrow> clarification_row option handler" where
  "claim_answer now clarification_id =
     (\<lambda>db. let (row, db') = claim_clarification_answer now clarification_id db in (Inr row, db'))"

definition api_answer_clarification ::
    "string \<Rightarrow> (nat \<Rightarrow> int) \<Rightarrow> auth_context \<Rightarrow> string \<Rightarrow> string \<Rightarrow> string
      \<Rightarrow> (clarification_row \<times> task_row) handler" where
  "api_answer_clarification message_id ts ctx task_id clarification_id answer =
     andthen (require (can_answer_clarification (ax_role ctx)) 403 ''role_cannot_answer_clarification'') (\<lambda>_.
     andthen (get_task_or_404 task_id) (\<lambda>tk.
     andthen (own_task ctx tk) (\<lambda>_.
     andthen (read_db (store_get_clarification clarification_id)) (\<lambda>found.
       case found of None \<Rightarrow> raise_http 404 ''clarification_not_found''
       | Some c \<Rightarrow>
          andthen (require (oc_task_id c = task_id) 404 ''clarification_not_found'') (\<lambda>_.
          andthen (require (oc_status c \<noteq> ''answered'') 409 ''clarification_already_answered'') (\<lambda>_.
          andthen (require (oc_status c = ''open'') 409 (''invalid_state_for_answer:'' @ oc_status c)) (\<lambda>_.
          andthen (claim_answer (ts 0) clarification_id) (\<lambda>claimed.
            case claimed of
              None \<Rightarrow> andthen (read_db (store_get_clarification clarification_id)) lost_claim
            | Some _ \<Rightarrow> record_answer message_id ts ctx task_id clarification_id answer c))))))))"

definition api_get_workroom ::
    "auth_context \<Rightarrow> string \<Rightarrow> (string \<times> message_row list \<times> clarification_row list) handler" where
  "api_get_workroom ctx task_id =
     andthen (require (can_view_workroom (ax_role ctx)) 403 ''role_cannot_view_workroom'') (\<lambda>_.
     andthen (get_task_or_404 task_id) (\<lambda>tk.
     andthen (own_task ctx tk) (\<lambda>_.
     andthen (read_db (\<lambda>db. filter (\<lambda>m. visible_message (ax_role ctx) (tm_visibility m)) (list_messages task_id db))) (\<lambda>ms.
     andthen (read_db (list_clarifications task_id)) (\<lambda>cs. give (ot_status tk, ms, cs))))))"

definition api_list_tasks :: "auth_context \<Rightarrow> task_filter \<Rightarrow> task_row list handler" where
  "api_list_tasks ctx p =
     andthen (require (can_view (ax_role ctx)) 403 ''role_cannot_view_tasks'') (\<lambda>_.
       let scope_created_by = (if ax_role ctx = ''requester'' then Some (ax_actor ctx) else tf_created_by p) in
       read_db (list_tasks (p\<lparr>tf_created_by := scope_created_by\<rparr>)))"

definition api_get_task :: "auth_context \<Rightarrow> string \<Rightarrow> task_row handler" where
  "api_get_task ctx task_id =
     andthen (require (can_view (ax_role ctx)) 403 ''role_cannot_view_tasks'') (\<lambda>_.
     andthen (get_task_or_404 task_id) (\<lambda>tk. andthen (own_task ctx tk) (\<lambda>_. give tk)))"

end
