(* ===== verification/Lifecycle_Poller.thy ===== *)
theory Lifecycle_Poller imports Workroom begin

text \<open>
  The clarification lifecycle poller (\<^verbatim>\<open>shared/sdk/tasks/lifecycle_poller.py\<close>): one due reminder or one due
  expiry is claimed per transaction, the state change and its outbox row commit together, and a cycle
  claims up to a batch. A claim holds the locks of the rows it reads, so it is one step; \<open>ce_locked\<close> says
  which clarifications other workers hold, which \<^verbatim>\<open>SKIP LOCKED\<close> passes over. Metrics are the counts of the
  report of a cycle.
\<close>

section \<open>Claims\<close>

definition REMINDER_EVENT_TYPE :: string where "REMINDER_EVENT_TYPE = ''clarification.reminder_recorded''"
definition EXPIRED_EVENT_TYPE :: string where "EXPIRED_EVENT_TYPE = ''clarification.expired''"
definition EXPIRABLE_PARENT_TASK_STATUS :: string where "EXPIRABLE_PARENT_TASK_STATUS = ''clarification_needed''"
definition DEFAULT_BATCH_SIZE :: nat where "DEFAULT_BATCH_SIZE = 50"

definition reminder_key :: "string \<Rightarrow> string" where "reminder_key cid = cid @ '':reminder''"
definition expired_key :: "string \<Rightarrow> string" where "expired_key cid = cid @ '':expired''"

definition reminder_due :: "int \<Rightarrow> clarification_row \<Rightarrow> bool" where
  "reminder_due now r \<longleftrightarrow> oc_status r = ''open'' \<and> cq_answered_at r = None \<and> cq_reminder_sent_at r = None \<and>
     cq_reminder_at r \<le> now \<and> now < cq_due_at r"

definition clar_expiry_due :: "int \<Rightarrow> clarification_row \<Rightarrow> bool" where
  "clar_expiry_due now r \<longleftrightarrow> oc_status r = ''open'' \<and> cq_answered_at r = None \<and> cq_due_at r \<le> now"

text \<open>
  What one claim meets: the id of its outbox row, the clock (\<open>ce_ts 0\<close> at the start of the transaction,
  then one reading per statement), and the locks of other workers.
\<close>

record claim_env =
  ce_event_id :: string
  ce_ts :: "nat \<Rightarrow> int"
  ce_locked :: "string \<Rightarrow> bool"

datatype claim_outcome = NothingDue | Committed string | SuppressedTerminal string | Reconcile string

definition claim_row ::
    "(clarification_row \<Rightarrow> int) \<Rightarrow> (clarification_row \<Rightarrow> bool) \<Rightarrow> string list \<Rightarrow> (string \<Rightarrow> bool)
      \<Rightarrow> clarification_row list \<Rightarrow> clarification_row option" where
  "claim_row key p skip locked t =
     fetchrow (\<lambda>_. True) (sort_key key (filter (\<lambda>r. p r \<and> oc_id r \<notin> set skip \<and> \<not> locked (oc_id r)) t))"

definition mark_reminded :: "int \<Rightarrow> clarification_row \<Rightarrow> clarification_row" where
  "mark_reminded now r = r\<lparr>cq_reminder_sent_at := Some now, oc_updated_at := now\<rparr>"

definition mark_expired :: "int \<Rightarrow> clarification_row \<Rightarrow> clarification_row" where
  "mark_expired now r = r\<lparr>oc_status := ''expired'', cq_expired_at := Some now, oc_updated_at := now\<rparr>"

text \<open>
  The end of a claim: the changed tables and the outbox row, or nothing at all when the row's key is
  taken. Any other exception rolls back and escapes.
\<close>

definition commit_with_event ::
    "claim_env \<Rightarrow> int \<Rightarrow> clarification_row \<Rightarrow> string \<Rightarrow> string \<Rightarrow> payload \<Rightarrow> work_db \<Rightarrow> work_db
      \<Rightarrow> (claim_outcome \<times> work_db) outcome" where
  "commit_with_event env now r event_type key payload changed db =
    (case insert_lifecycle_outbox_event (ce_event_id env) (ce_ts env 0) now (oc_id r) (oc_task_id r)
        event_type key (Some payload) (wd_outbox db) of
       Inl (UniqueViolation c) \<Rightarrow> Inr (Reconcile (oc_id r), db)
     | Inl e \<Rightarrow> Inl e
     | Inr (row, t) \<Rightarrow> Inr (Committed (oc_id r), changed\<lparr>wd_outbox := t\<rparr>))"

definition claim_one_reminder ::
    "claim_env \<Rightarrow> string list \<Rightarrow> work_db \<Rightarrow> (claim_outcome \<times> work_db) outcome" where
  "claim_one_reminder env skip db =
    (case claim_row cq_reminder_at (reminder_due (ce_ts env 1)) skip (ce_locked env) (wd_clarifications db) of
       None \<Rightarrow> Inr (NothingDue, db)
     | Some r \<Rightarrow> commit_with_event env (ce_ts env 3) r REMINDER_EVENT_TYPE (reminder_key (oc_id r))
         [(''reason'', PStr ''reminder_recorded'')]
         (db\<lparr>wd_clarifications :=
            update_where (\<lambda>x. oc_id x = oc_id r) (mark_reminded (ce_ts env 2)) (wd_clarifications db)\<rparr>) db)"

definition expire_task :: "int \<Rightarrow> task_row \<Rightarrow> task_row" where
  "expire_task now tk = tk\<lparr>ot_status := ''clarification_expired'', tk_updated_at := now\<rparr>"

definition expirable_task :: "string \<Rightarrow> task_row \<Rightarrow> bool" where
  "expirable_task i tk \<longleftrightarrow> ot_id tk = i \<and> ot_status tk = ''clarification_needed''"

definition claim_one_expiry ::
    "claim_env \<Rightarrow> string list \<Rightarrow> work_db \<Rightarrow> (claim_outcome \<times> work_db) outcome" where
  "claim_one_expiry env skip db =
    (case claim_row cq_due_at (clar_expiry_due (ce_ts env 1)) skip (ce_locked env) (wd_clarifications db) of
       None \<Rightarrow> Inr (NothingDue, db)
     | Some r \<Rightarrow>
        (let task_status = map_option ot_status (store_get_task (oc_task_id r) db) in
         if (case task_status of None \<Rightarrow> False | Some s \<Rightarrow> s \<in> set TERMINAL_TASK_STATUSES)
         then Inr (SuppressedTerminal (oc_id r), db)
         else if task_status \<noteq> Some EXPIRABLE_PARENT_TASK_STATUS then Inr (Reconcile (oc_id r), db)
         else if length (filter (expirable_task (oc_task_id r)) (wd_tasks db)) \<noteq> 1
         then Inr (Reconcile (oc_id r), db)
         else commit_with_event env (ce_ts env 4) r EXPIRED_EVENT_TYPE (expired_key (oc_id r))
           [(''reason'', PStr ''expired'')]
           (db\<lparr>wd_tasks := update_where (expirable_task (oc_task_id r)) (expire_task (ce_ts env 2)) (wd_tasks db),
              wd_clarifications :=
                update_where (\<lambda>x. oc_id x = oc_id r) (mark_expired (ce_ts env 3)) (wd_clarifications db)\<rparr>) db))"

section \<open>Cycles\<close>

record cycle_report =
  cy_committed :: nat
  cy_suppressed :: nat
  cy_reconciled :: nat

definition empty_report :: cycle_report where
  "empty_report = \<lparr>cy_committed = 0, cy_suppressed = 0, cy_reconciled = 0\<rparr>"

text \<open>
  A cycle of at most \<open>n\<close> claims; \<open>envs k\<close> is what the k-th claim meets. A claim that raises ends the
  cycle, and the claims before it stay committed.
\<close>

type_synonym claim_fun = "claim_env \<Rightarrow> string list \<Rightarrow> work_db \<Rightarrow> (claim_outcome \<times> work_db) outcome"

fun run_cycle :: "claim_fun \<Rightarrow> (nat \<Rightarrow> claim_env) \<Rightarrow> nat \<Rightarrow> nat \<Rightarrow> string list \<Rightarrow> cycle_report \<Rightarrow> work_db
    \<Rightarrow> cycle_report outcome \<times> work_db" where
  "run_cycle claim envs 0 k skip rep db = (Inr rep, db)"
| "run_cycle claim envs (Suc n) k skip rep db =
    (case claim (envs k) skip db of
       Inl e \<Rightarrow> (Inl e, db)
     | Inr (NothingDue, db') \<Rightarrow> (Inr rep, db')
     | Inr (Committed i, db') \<Rightarrow>
         run_cycle claim envs n (Suc k) skip (rep\<lparr>cy_committed := cy_committed rep + 1\<rparr>) db'
     | Inr (SuppressedTerminal i, db') \<Rightarrow>
         run_cycle claim envs n (Suc k) (skip @ [i]) (rep\<lparr>cy_suppressed := cy_suppressed rep + 1\<rparr>) db'
     | Inr (Reconcile i, db') \<Rightarrow>
         run_cycle claim envs n (Suc k) (skip @ [i]) (rep\<lparr>cy_reconciled := cy_reconciled rep + 1\<rparr>) db')"

definition run_reminder_cycle :: "(nat \<Rightarrow> claim_env) \<Rightarrow> nat \<Rightarrow> work_db \<Rightarrow> cycle_report outcome \<times> work_db" where
  "run_reminder_cycle envs batch_size db = run_cycle claim_one_reminder envs batch_size 0 [] empty_report db"

definition run_expiry_cycle :: "(nat \<Rightarrow> claim_env) \<Rightarrow> nat \<Rightarrow> work_db \<Rightarrow> cycle_report outcome \<times> work_db" where
  "run_expiry_cycle envs batch_size db = run_cycle claim_one_expiry envs batch_size 0 [] empty_report db"

text \<open>Expiry first, then reminders; an exception of the first skips the second.\<close>

definition lifecycle_run_once :: "(nat \<Rightarrow> claim_env) \<Rightarrow> (nat \<Rightarrow> claim_env) \<Rightarrow> nat \<Rightarrow> work_db
    \<Rightarrow> (nat \<times> nat) outcome \<times> work_db" where
  "lifecycle_run_once expiry_envs reminder_envs batch_size db =
    (case run_expiry_cycle expiry_envs batch_size db of
       (Inl e, db') \<Rightarrow> (Inl e, db')
     | (Inr x, db') \<Rightarrow>
        (case run_reminder_cycle reminder_envs batch_size db' of
           (Inl e, db'') \<Rightarrow> (Inl e, db'')
         | (Inr m, db'') \<Rightarrow> (Inr (cy_committed x, cy_committed m), db'')))"

text \<open>The loop until the stop event: one entry per round that starts. An exception does not stop it.\<close>

fun poller_run :: "((nat \<Rightarrow> claim_env) \<times> (nat \<Rightarrow> claim_env)) list \<Rightarrow> nat \<Rightarrow> work_db \<Rightarrow> work_db" where
  "poller_run [] batch_size db = db"
| "poller_run ((x, m) # rounds) batch_size db = poller_run rounds batch_size (snd (lifecycle_run_once x m batch_size db))"

section \<open>One claim\<close>

lemma first_row: "fetchrow (\<lambda>_. True) l = (case l of [] \<Rightarrow> None | x # xs \<Rightarrow> Some x)"
  by (cases l) (simp_all add: fetchrow_def)

lemma sorted_first:
  assumes "(case sort_key key l of [] \<Rightarrow> None | x # xs \<Rightarrow> Some x) = Some r"
  shows "r \<in> set l \<and> (\<forall>x \<in> set l. key r \<le> key x)"
proof (cases "sort_key key l")
  case (Cons a as)
  then have r: "a = r" using assms by simp
  have e: "set (r # as) = set l" using Cons r by (metis set_sort)
  have "sorted (map key (r # as))" using sorted_sort_key[of key l] unfolding Cons r .
  then have "\<forall>x \<in> set (r # as). key r \<le> key x" by simp
  then show ?thesis unfolding e[symmetric] by simp
qed (use assms in simp)

lemma claim_row_Some:
  assumes "claim_row key p skip locked t = Some r"
  shows "r \<in> set t \<and> p r \<and> oc_id r \<notin> set skip \<and> \<not> locked (oc_id r) \<and>
     (\<forall>x \<in> set t. p x \<and> oc_id x \<notin> set skip \<and> \<not> locked (oc_id x) \<longrightarrow> key r \<le> key x)"
  using sorted_first[OF assms[unfolded claim_row_def first_row]] by simp

lemma claim_row_None:
  "claim_row key p skip locked t = None \<longleftrightarrow> (\<forall>x \<in> set t. p x \<longrightarrow> oc_id x \<in> set skip \<or> locked (oc_id x))"
  by (auto simp: claim_row_def fetchrow_None_iff)

text \<open>A claim that does not commit changes nothing.\<close>

lemma commit_with_event_cases:
  assumes "commit_with_event env now r ev key p changed db = Inr (out, db')"
  obtains "out = Reconcile (oc_id r)" "db' = db"
  | row t where "out = Committed (oc_id r)" "db' = changed\<lparr>wd_outbox := t\<rparr>"
      "insert_lifecycle_outbox_event (ce_event_id env) (ce_ts env 0) now (oc_id r) (oc_task_id r)
         ev key (Some p) (wd_outbox db) = Inr (row, t)"
  using assms unfolding commit_with_event_def by (auto split: sum.splits py_exn.splits)

end
