(* ===== verification/Lifecycle_Props.thy ===== *)
theory Lifecycle_Props imports Lifecycle_Poller begin

text \<open>
  What the task, workroom and poller statements guarantee together, in any interleaving: \<open>work_step\<close> is
  one statement of any caller (a claim of the poller is one step, since it holds the locks of its rows),
  \<open>work_typed\<close> the state every step keeps, \<open>events_match\<close> the agreement of the outbox with the
  clarifications, and \<open>clar_edge\<close> the abstract life cycle of one clarification.
\<close>

section \<open>Steps\<close>

text \<open>The columns that the resume statements do not write, and those that the relay does not.\<close>

definition without_resume_markers :: "clarification_row \<Rightarrow> clarification_row" where
  "without_resume_markers r = r\<lparr>oc_resume_eligible_at := None, oc_resume_requested_at := None,
     oc_resume_requested_by := None, oc_resume_authorized_at := None, oc_updated_at := 0\<rparr>"

definition event_identity :: "outbox_row \<Rightarrow> string \<times> string \<times> string \<times> string \<times> string" where
  "event_identity e = (ob_id e, ob_clarification_id e, ob_task_id e, ob_event_type e, ob_idempotency_key e)"

inductive work_step :: "work_db \<Rightarrow> work_db \<Rightarrow> bool" where
  new_task: "insert_task r db = Inr (r', db') \<Longrightarrow> work_step db db'"
| set_status: "update_status now i status db = Inr (r', db') \<Longrightarrow> work_step db db'"
| set_state: "set_clarification_state now i status cs db = Inr (r', db') \<Longrightarrow> work_step db db'"
| message: "create_message m db = Inr (m', db') \<Longrightarrow> work_step db db'"
| ask: "insert_clarification (new_clarification cid now created by_type by_id q who i mid) db = Inr (c, db')
    \<Longrightarrow> work_step db db'"
| answer: "claim_clarification_answer now cid db = (c, db') \<Longrightarrow> work_step db db'"
| link: "set_answer_message now cid mid db = Inr (c, db') \<Longrightarrow> work_step db db'"
| remind: "claim_one_reminder env skip db = Inr (out, db') \<Longrightarrow> mono (ce_ts env) \<Longrightarrow> work_step db db'"
| expire: "claim_one_expiry env skip db = Inr (out, db') \<Longrightarrow> mono (ce_ts env) \<Longrightarrow> work_step db db'"
| resume: "map without_resume_markers cs = map without_resume_markers (wd_clarifications db) \<Longrightarrow>
    list_all clarification_checks cs \<Longrightarrow> work_step db (db\<lparr>wd_clarifications := cs\<rparr>)"
| other_event: "insert_lifecycle_outbox_event eid created now cid i ev key p (wd_outbox db) = Inr (e, t) \<Longrightarrow>
    ev \<notin> {REMINDER_EVENT_TYPE, EXPIRED_EVENT_TYPE} \<Longrightarrow> work_step db (db\<lparr>wd_outbox := t\<rparr>)"
| relay: "map event_identity t = map event_identity (wd_outbox db) \<Longrightarrow> work_step db (db\<lparr>wd_outbox := t\<rparr>)"

definition empty_work :: work_db where
  "empty_work = \<lparr>wd_tasks = [], wd_messages = [], wd_clarifications = [], wd_outbox = []\<rparr>"

section \<open>The invariant\<close>

definition clarification_dates :: "clarification_row \<Rightarrow> bool" where
  "clarification_dates r \<longleftrightarrow> (oc_status r = ''answered'' \<longleftrightarrow> cq_answered_at r \<noteq> None) \<and>
     (oc_status r = ''expired'' \<longleftrightarrow> cq_expired_at r \<noteq> None) \<and> cq_due_at r = cq_reminder_at r + seconds (48 * 3600) \<and>
     (\<forall>t. cq_answered_at r = Some t \<longrightarrow> t < cq_due_at r) \<and> (\<forall>t. cq_expired_at r = Some t \<longrightarrow> cq_due_at r \<le> t) \<and>
     (\<forall>t. cq_reminder_sent_at r = Some t \<longrightarrow> cq_reminder_at r \<le> t)"

definition clarification_refs :: "work_db \<Rightarrow> clarification_row \<Rightarrow> bool" where
  "clarification_refs db r \<longleftrightarrow> has_task (oc_task_id r) db \<and> has_message (cq_question_message_id r) db \<and>
     (case oc_answer_message_id r of None \<Rightarrow> True | Some m \<Rightarrow> has_message m db)"

definition work_typed :: "work_db \<Rightarrow> bool" where
  "work_typed db \<longleftrightarrow> distinct (map ot_id (wd_tasks db)) \<and> distinct (map tm_id (wd_messages db)) \<and>
     distinct (map oc_id (wd_clarifications db)) \<and> (\<forall>r \<in> set (wd_tasks db). task_checks r) \<and>
     (\<forall>m \<in> set (wd_messages db). message_checks m \<and> has_task (ms_task_id m) db) \<and>
     (\<forall>r \<in> set (wd_clarifications db). clarification_checks r \<and> clarification_dates r \<and> clarification_refs db r)"

definition events_match :: "work_db \<Rightarrow> bool" where
  "events_match db \<longleftrightarrow> distinct (map ob_idempotency_key (wd_outbox db)) \<and>
     (\<forall>e \<in> set (wd_outbox db). ob_event_type e = EXPIRED_EVENT_TYPE \<longrightarrow>
        ob_idempotency_key e = expired_key (ob_clarification_id e) \<and>
        (\<exists>r \<in> set (wd_clarifications db). oc_id r = ob_clarification_id e \<and> oc_status r = ''expired'')) \<and>
     (\<forall>e \<in> set (wd_outbox db). ob_event_type e = REMINDER_EVENT_TYPE \<longrightarrow>
        ob_idempotency_key e = reminder_key (ob_clarification_id e) \<and>
        (\<exists>r \<in> set (wd_clarifications db). oc_id r = ob_clarification_id e \<and> cq_reminder_sent_at r \<noteq> None)) \<and>
     (\<forall>r \<in> set (wd_clarifications db).
        (oc_status r = ''expired'' \<longrightarrow> (\<exists>e \<in> set (wd_outbox db). ob_event_type e = EXPIRED_EVENT_TYPE \<and>
           ob_clarification_id e = oc_id r \<and> ob_task_id e = oc_task_id r)) \<and>
        (cq_reminder_sent_at r \<noteq> None \<longrightarrow> (\<exists>e \<in> set (wd_outbox db). ob_event_type e = REMINDER_EVENT_TYPE \<and>
           ob_clarification_id e = oc_id r \<and> ob_task_id e = oc_task_id r)))"

section \<open>Every step keeps the types\<close>

lemma has_task_ids: "map ot_id (wd_tasks db') = map ot_id (wd_tasks db) \<Longrightarrow> has_task i db' = has_task i db"
proof -
  have e: "has_task i d \<longleftrightarrow> i \<in> set (map ot_id (wd_tasks d))" for d by (auto simp: has_task_def list_ex_iff)
  assume "map ot_id (wd_tasks db') = map ot_id (wd_tasks db)"
  then show ?thesis unfolding e by simp
qed

lemma has_append: "has_task i (db\<lparr>wd_tasks := wd_tasks db @ [r]\<rparr>) \<longleftrightarrow> has_task i db \<or> ot_id r = i"
    "has_message i (db\<lparr>wd_messages := wd_messages db @ [m]\<rparr>) \<longleftrightarrow> has_message i db \<or> tm_id m = i"
  by (auto simp: has_task_def has_message_def)

lemma has_other [simp]:
  "has_task i (db\<lparr>wd_messages := ms\<rparr>) = has_task i db" "has_task i (db\<lparr>wd_clarifications := cs\<rparr>) = has_task i db"
  "has_task i (db\<lparr>wd_outbox := t\<rparr>) = has_task i db" "has_message i (db\<lparr>wd_tasks := ts\<rparr>) = has_message i db"
  "has_message i (db\<lparr>wd_clarifications := cs\<rparr>) = has_message i db" "has_message i (db\<lparr>wd_outbox := t\<rparr>) = has_message i db"
  by (simp_all add: has_task_def has_message_def)

lemma refs_mono:
  assumes "\<And>i. has_task i db \<Longrightarrow> has_task i db'" "\<And>i. has_message i db \<Longrightarrow> has_message i db'" "clarification_refs db r"
  shows "clarification_refs db' r"
  using assms by (auto simp: clarification_refs_def split: option.splits)

text \<open>The three ways a database changes: a task, a message or a clarification table with the same or more ids.\<close>

lemma typed_tasks:
  assumes "work_typed db" "\<And>i. has_task i db \<Longrightarrow> has_task i (db\<lparr>wd_tasks := ts\<rparr>)" "distinct (map ot_id ts)"
    "\<forall>r \<in> set ts. task_checks r"
  shows "work_typed (db\<lparr>wd_tasks := ts\<rparr>)"
  using assms refs_mono[of db "db\<lparr>wd_tasks := ts\<rparr>"] by (auto simp: work_typed_def)

lemma typed_clarifications:
  assumes "work_typed db" "distinct (map oc_id cs)"
    "\<And>r. r \<in> set cs \<Longrightarrow> clarification_checks r \<and> clarification_dates r \<and> clarification_refs db r"
  shows "work_typed (db\<lparr>wd_clarifications := cs\<rparr>)"
  using assms refs_mono[of db "db\<lparr>wd_clarifications := cs\<rparr>"] by (auto simp: work_typed_def)

lemma typed_update:
  assumes "work_typed db" "\<And>r. oc_id (f r) = oc_id r"
    "\<And>r. r \<in> set (wd_clarifications db) \<Longrightarrow> p r \<Longrightarrow> clarification_checks r \<Longrightarrow> clarification_dates r \<Longrightarrow>
       clarification_refs db r \<Longrightarrow> clarification_checks (f r) \<and> clarification_dates (f r) \<and> clarification_refs db (f r)"
  shows "work_typed (db\<lparr>wd_clarifications := update_where p f (wd_clarifications db)\<rparr>)"
proof (rule typed_clarifications)
  show "distinct (map oc_id (update_where p f (wd_clarifications db)))"
    using assms(1) by (simp add: map_update_where assms(2) work_typed_def)
  fix x assume "x \<in> set (update_where p f (wd_clarifications db))"
  then obtain r where "r \<in> set (wd_clarifications db)" "x = (if p r then f r else r)"
    unfolding set_update_where by blast
  then show "clarification_checks x \<and> clarification_dates x \<and> clarification_refs db x"
    using assms(1) assms(3)[of r] by (auto simp: work_typed_def)
qed (rule assms(1))

lemma typed_outbox: "work_typed db \<Longrightarrow> work_typed (db\<lparr>wd_outbox := t\<rparr>)"
  using refs_mono[of db "db\<lparr>wd_outbox := t\<rparr>"] by (auto simp: work_typed_def)

lemma typed_task_update:
  assumes "task_update f i db = Inr (r, db')" "work_typed db" "\<And>r. ot_id (f r) = ot_id r"
  shows "work_typed db'"
proof -
  obtain t where t: "checked_update ''operator_tasks'' task_checks (\<lambda>r. ot_id r = i) f (wd_tasks db) = Inr (Some r, t)"
      "db' = db\<lparr>wd_tasks := t\<rparr>"
    using assms(1) unfolding task_update_def by (auto elim!: try_then_InrE split: option.splits)
  have u: "t = update_where (\<lambda>r. ot_id r = i) f (wd_tasks db)"
      "\<forall>r \<in> set (wd_tasks db). ot_id r = i \<longrightarrow> task_checks (f r)"
    using t(1) unfolding checked_update_Inr update_returning_def by auto
  have m: "map ot_id t = map ot_id (wd_tasks db)" unfolding u(1) by (rule map_update_where) (rule assms(3))
  have c: "\<forall>r \<in> set t. task_checks r"
    unfolding u(1) using assms(2) u(2) by (intro all_update_where) (auto simp: work_typed_def)
  have h: "has_task j (db\<lparr>wd_tasks := t\<rparr>) = has_task j db" for j by (rule has_task_ids) (simp add: m)
  have d: "distinct (map ot_id t)" using assms(2) unfolding m work_typed_def by blast
  show ?thesis unfolding t(2) by (rule typed_tasks[OF assms(2) _ d c]) (simp add: h)
qed

subsection \<open>The steps\<close>

lemma typed_insert_task:
  assumes "insert_task r db = Inr (r', db')" "work_typed db"
  shows "work_typed db'"
proof -
  have r: "task_checks r" "\<not> has_task (ot_id r) db" "db' = db\<lparr>wd_tasks := wd_tasks db @ [r]\<rparr>"
    using assms(1) by (auto simp: insert_task_def split: if_splits)
  then have "ot_id r \<notin> ot_id ` set (wd_tasks db)" by (auto simp: has_task_def list_ex_iff)
  then show ?thesis unfolding r(3) using assms(2) r(1)
    by (intro typed_tasks) (auto simp: has_append work_typed_def)
qed

lemma typed_create_message:
  assumes "create_message m db = Inr (m', db')" "work_typed db"
  shows "work_typed db'"
proof -
  have r: "message_checks m" "\<not> has_message (tm_id m) db" "has_task (ms_task_id m) db"
      "db' = db\<lparr>wd_messages := wd_messages db @ [m]\<rparr>"
    using assms(1) by (auto simp: create_message_def split: if_splits)
  then have "tm_id m \<notin> tm_id ` set (wd_messages db)" by (auto simp: has_message_def list_ex_iff)
  then show ?thesis unfolding r(4) using assms(2) r(1,3) refs_mono[of db "db\<lparr>wd_messages := wd_messages db @ [m]\<rparr>"]
    by (auto simp: work_typed_def has_append)
qed

lemma typed_ask:
  assumes "insert_clarification (new_clarification cid now created by_type by_id q who i mid) db = Inr (c, db')" "work_typed db"
  shows "work_typed db'"
proof -
  define r where "r = new_clarification cid now created by_type by_id q who i mid"
  have r: "clarification_checks r" "oc_id r \<notin> oc_id ` set (wd_clarifications db)"
      "has_task (oc_task_id r) db" "has_message (cq_question_message_id r) db"
      "db' = db\<lparr>wd_clarifications := wd_clarifications db @ [r]\<rparr>"
    using assms(1) unfolding insert_clarification_def r_def[symmetric] by (auto simp: list_ex_iff split: if_splits)
  have d: "clarification_dates r" "oc_answer_message_id r = None"
    by (simp_all add: r_def new_clarification_def clarification_dates_def CLARIFICATION_DUE_HOURS_def CLARIFICATION_REMINDER_HOURS_def)
  show ?thesis unfolding r(5) using assms(2) r(1-4) d
    by (intro typed_clarifications) (auto simp: work_typed_def clarification_refs_def)
qed

lemma typed_answer:
  assumes "claim_clarification_answer now cid db = (c, db')" "work_typed db"
  shows "work_typed db'"
proof -
  have e: "db' = db\<lparr>wd_clarifications := update_where (\<lambda>r. oc_id r = cid \<and> answerable now r) (mark_answered now) (wd_clarifications db)\<rparr>"
    using assms(1) by (auto simp: claim_clarification_answer_def update_returning_def)
  show ?thesis unfolding e
  proof (rule typed_update[OF assms(2)])
    fix r assume "oc_id r = cid \<and> answerable now r" "clarification_checks r" "clarification_dates r" "clarification_refs db r"
    then show "clarification_checks (mark_answered now r) \<and> clarification_dates (mark_answered now r) \<and>
        clarification_refs db (mark_answered now r)"
      by (auto simp: answerable_def mark_answered_def clarification_checks_def CLARIFICATION_STATUSES_def
          clarification_dates_def clarification_refs_def)
  qed (simp add: mark_answered_def)
qed

lemma typed_link:
  assumes "set_answer_message now cid mid db = Inr (c, db')" "work_typed db"
  shows "work_typed db'"
proof -
  have e: "db' = db\<lparr>wd_clarifications := update_where (\<lambda>r. oc_id r = cid)
      (\<lambda>r. r\<lparr>oc_answer_message_id := Some mid, oc_updated_at := now\<rparr>) (wd_clarifications db)\<rparr>" "has_message mid db"
    using assms(1) by (auto simp: set_answer_message_def update_returning_def split: if_splits option.splits)
  show ?thesis unfolding e(1)
    by (rule typed_update[OF assms(2)])
      (auto simp: clarification_checks_def clarification_dates_def clarification_refs_def e(2))
qed

text \<open>The claims of the poller: what one that commits has found and written.\<close>

lemma reminder_claim_cases:
  assumes "claim_one_reminder env skip db = Inr (out, db')"
  obtains "db' = db" "\<And>i. out \<noteq> Committed i"
  | r e t where "out = Committed (oc_id r)" "r \<in> set (wd_clarifications db)" "reminder_due (ce_ts env 1) r" "oc_id r \<notin> set skip"
      "insert_lifecycle_outbox_event (ce_event_id env) (ce_ts env 0) (ce_ts env 3) (oc_id r) (oc_task_id r)
         REMINDER_EVENT_TYPE (reminder_key (oc_id r)) (Some [(''reason'', PStr ''reminder_recorded'')]) (wd_outbox db) = Inr (e, t)"
      "db' = db\<lparr>wd_clarifications := update_where (\<lambda>x. oc_id x = oc_id r) (mark_reminded (ce_ts env 2)) (wd_clarifications db),
         wd_outbox := t\<rparr>"
proof (cases "claim_row cq_reminder_at (reminder_due (ce_ts env 1)) skip (ce_locked env) (wd_clarifications db)")
  case None
  then show thesis using assms that(1) by (simp add: claim_one_reminder_def)
next
  case (Some r)
  have c: "commit_with_event env (ce_ts env 3) r REMINDER_EVENT_TYPE (reminder_key (oc_id r))
         [(''reason'', PStr ''reminder_recorded'')]
         (db\<lparr>wd_clarifications :=
            update_where (\<lambda>x. oc_id x = oc_id r) (mark_reminded (ce_ts env 2)) (wd_clarifications db)\<rparr>) db = Inr (out, db')"
    using assms unfolding claim_one_reminder_def Some by simp
  from c show thesis
  proof (cases rule: commit_with_event_cases)
    case 1
    then show ?thesis using that(1) by simp
  next
    case (2 row t)
    then show ?thesis using that(2)[of r row t] claim_row_Some[OF Some] by simp
  qed
qed

lemma expiry_claim_cases:
  assumes "claim_one_expiry env skip db = Inr (out, db')"
  obtains "db' = db" "\<And>i. out \<noteq> Committed i"
  | r e t tk where "out = Committed (oc_id r)" "r \<in> set (wd_clarifications db)" "clar_expiry_due (ce_ts env 1) r" "oc_id r \<notin> set skip"
      "store_get_task (oc_task_id r) db = Some tk" "ot_status tk = EXPIRABLE_PARENT_TASK_STATUS"
      "length (filter (expirable_task (oc_task_id r)) (wd_tasks db)) = 1"
      "insert_lifecycle_outbox_event (ce_event_id env) (ce_ts env 0) (ce_ts env 4) (oc_id r) (oc_task_id r)
         EXPIRED_EVENT_TYPE (expired_key (oc_id r)) (Some [(''reason'', PStr ''expired'')]) (wd_outbox db) = Inr (e, t)"
      "db' = db\<lparr>wd_tasks := update_where (expirable_task (oc_task_id r)) (expire_task (ce_ts env 2)) (wd_tasks db),
         wd_clarifications := update_where (\<lambda>x. oc_id x = oc_id r) (mark_expired (ce_ts env 3)) (wd_clarifications db),
         wd_outbox := t\<rparr>"
proof (cases "claim_row cq_due_at (clar_expiry_due (ce_ts env 1)) skip (ce_locked env) (wd_clarifications db)")
  case None
  then show thesis using assms that(1) by (simp add: claim_one_expiry_def)
next
  case (Some r)
  let ?changed = "db\<lparr>wd_tasks := update_where (expirable_task (oc_task_id r)) (expire_task (ce_ts env 2)) (wd_tasks db),
      wd_clarifications := update_where (\<lambda>x. oc_id x = oc_id r) (mark_expired (ce_ts env 3)) (wd_clarifications db)\<rparr>"
  show thesis
  proof (cases "map_option ot_status (store_get_task (oc_task_id r) db) = Some EXPIRABLE_PARENT_TASK_STATUS \<and>
      length (filter (expirable_task (oc_task_id r)) (wd_tasks db)) = 1")
    case True
    have "EXPIRABLE_PARENT_TASK_STATUS \<notin> set TERMINAL_TASK_STATUSES"
      by (simp add: EXPIRABLE_PARENT_TASK_STATUS_def TERMINAL_TASK_STATUSES_def)
    then have c: "commit_with_event env (ce_ts env 4) r EXPIRED_EVENT_TYPE (expired_key (oc_id r))
        [(''reason'', PStr ''expired'')] ?changed db = Inr (out, db')"
      using assms True unfolding claim_one_expiry_def Some Let_def by simp
    from c show ?thesis
    proof (cases rule: commit_with_event_cases)
      case 1
      then show ?thesis using that(1) by simp
    next
      case (2 row t)
      obtain tk where "store_get_task (oc_task_id r) db = Some tk" "ot_status tk = EXPIRABLE_PARENT_TASK_STATUS"
        using True by auto
      then show ?thesis using that(2)[of r tk row t] claim_row_Some[OF Some] 2 True by simp
    qed
  next
    case False
    then have "db' = db \<and> (\<forall>i. out \<noteq> Committed i)"
      using assms unfolding claim_one_expiry_def Some Let_def by (auto split: if_split_asm)
    then show ?thesis using that(1) by blast
  qed
qed

lemma typed_remind:
  assumes "claim_one_reminder env skip db = Inr (out, db')" "mono (ce_ts env)" "work_typed db"
  shows "work_typed db'"
  using assms(1)
proof (cases rule: reminder_claim_cases)
  case (2 r e t)
  let ?f = "mark_reminded (ce_ts env 2)"
  have le: "cq_reminder_at r \<le> ce_ts env 2"
    using 2(3) monoD[OF assms(2), of 1 2] by (simp add: reminder_due_def)
  have "work_typed (db\<lparr>wd_clarifications := update_where (\<lambda>x. oc_id x = oc_id r) ?f (wd_clarifications db)\<rparr>)"
  proof (rule typed_update[OF assms(3)])
    fix x assume x: "x \<in> set (wd_clarifications db)" "oc_id x = oc_id r" "clarification_checks x" "clarification_dates x"
        "clarification_refs db x"
    have "x = r" using distinct_map_eqD[OF _ x(1) 2(2) x(2)] assms(3) by (simp add: work_typed_def)
    then show "clarification_checks (?f x) \<and> clarification_dates (?f x) \<and> clarification_refs db (?f x)"
      using x(3-5) le by (auto simp: mark_reminded_def clarification_checks_def clarification_dates_def clarification_refs_def)
  qed (simp add: mark_reminded_def)
  then show ?thesis unfolding 2(6) using typed_outbox by fastforce
qed (use assms(3) in simp)

lemma typed_expire:
  assumes "claim_one_expiry env skip db = Inr (out, db')" "mono (ce_ts env)" "work_typed db"
  shows "work_typed db'"
  using assms(1)
proof (cases rule: expiry_claim_cases)
  case (2 r e t tk)
  let ?f = "mark_expired (ce_ts env 3)"
  let ?ts = "update_where (expirable_task (oc_task_id r)) (expire_task (ce_ts env 2)) (wd_tasks db)"
  let ?db1 = "db\<lparr>wd_tasks := ?ts\<rparr>"
  have m: "map ot_id ?ts = map ot_id (wd_tasks db)" by (rule map_update_where) (simp add: expire_task_def)
  have c: "\<forall>r \<in> set ?ts. task_checks r" using assms(3)
    by (intro all_update_where) (auto simp: work_typed_def expire_task_def task_checks_def TASK_STATUS_def)
  have h: "has_task j ?db1 = has_task j db" for j by (rule has_task_ids) (simp add: m)
  have d: "distinct (map ot_id ?ts)" using assms(3) unfolding m work_typed_def by blast
  have t1: "work_typed ?db1" by (rule typed_tasks[OF assms(3) _ d c]) (simp add: h)
  have le: "cq_due_at r \<le> ce_ts env 3"
    using 2(3) monoD[OF assms(2), of 1 3] by (simp add: clar_expiry_due_def)
  have "work_typed (?db1\<lparr>wd_clarifications := update_where (\<lambda>x. oc_id x = oc_id r) ?f (wd_clarifications ?db1)\<rparr>)"
  proof (rule typed_update[OF t1])
    fix x assume x: "x \<in> set (wd_clarifications ?db1)" "oc_id x = oc_id r" "clarification_checks x" "clarification_dates x"
        "clarification_refs ?db1 x"
    then have "x = r" using distinct_map_eqD[OF _ _ 2(2), of oc_id x] assms(3) by (simp add: work_typed_def)
    then show "clarification_checks (?f x) \<and> clarification_dates (?f x) \<and> clarification_refs ?db1 (?f x)"
      using x(3-5) le 2(3) by (auto simp: mark_expired_def clarification_checks_def CLARIFICATION_STATUSES_def
          clarification_dates_def clarification_refs_def clar_expiry_due_def)
  qed (simp add: mark_expired_def)
  then show ?thesis unfolding 2(9) using typed_outbox by fastforce
qed (use assms(3) in simp)

lemma resume_frame:
  assumes "map without_resume_markers cs = map without_resume_markers t"
  shows "map oc_id cs = map oc_id t" "x \<in> set cs \<Longrightarrow> \<exists>y \<in> set t. without_resume_markers x = without_resume_markers y"
proof -
  have e: "oc_id = oc_id \<circ> without_resume_markers" by (simp add: fun_eq_iff without_resume_markers_def)
  show "map oc_id cs = map oc_id t" using arg_cong[OF assms, of "map oc_id"] unfolding map_map e[symmetric] .
  show "\<exists>y \<in> set t. without_resume_markers x = without_resume_markers y" if "x \<in> set cs"
    using arg_cong[OF assms, of set] that unfolding set_map by blast
qed

lemma same_columns:
  assumes "without_resume_markers x = without_resume_markers y"
  shows "oc_id x = oc_id y" "oc_task_id x = oc_task_id y" "oc_status x = oc_status y" "oc_answer_message_id x = oc_answer_message_id y"
    "cq_question_message_id x = cq_question_message_id y" "cq_due_at x = cq_due_at y" "cq_reminder_at x = cq_reminder_at y"
    "cq_answered_at x = cq_answered_at y" "cq_reminder_sent_at x = cq_reminder_sent_at y" "cq_expired_at x = cq_expired_at y"
  using arg_cong[OF assms, of oc_id]
    arg_cong[OF assms, of oc_task_id]
    arg_cong[OF assms, of oc_status]
    arg_cong[OF assms, of oc_answer_message_id]
    arg_cong[OF assms, of cq_question_message_id]
    arg_cong[OF assms, of cq_due_at]
    arg_cong[OF assms, of cq_reminder_at]
    arg_cong[OF assms, of cq_answered_at]
    arg_cong[OF assms, of cq_reminder_sent_at]
    arg_cong[OF assms, of cq_expired_at]
  by (simp_all add: without_resume_markers_def)

lemma typed_resume:
  assumes "map without_resume_markers cs = map without_resume_markers (wd_clarifications db)" "list_all clarification_checks cs"
    "work_typed db"
  shows "work_typed (db\<lparr>wd_clarifications := cs\<rparr>)"
proof (rule typed_clarifications[OF assms(3)])
  show "distinct (map oc_id cs)" using assms(3) unfolding resume_frame(1)[OF assms(1)] work_typed_def by blast
  fix x assume x: "x \<in> set cs"
  then obtain y where y: "y \<in> set (wd_clarifications db)" "without_resume_markers x = without_resume_markers y"
    using resume_frame(2)[OF assms(1)] by blast
  then have "clarification_dates y" "clarification_refs db y" using assms(3) by (auto simp: work_typed_def)
  then have "clarification_dates x" "clarification_refs db x"
    unfolding clarification_dates_def clarification_refs_def same_columns[OF y(2)] .
  then show "clarification_checks x \<and> clarification_dates x \<and> clarification_refs db x"
    using x assms(2) by (simp add: list_all_iff)
qed

lemma work_step_typed: "work_step db db' \<Longrightarrow> work_typed db \<Longrightarrow> work_typed db'"
proof (induction rule: work_step.induct)
  case (set_status now i status db r' db')
  then show ?case unfolding update_status_def by (rule typed_task_update) simp
next
  case (set_state now i status cs db r' db')
  then show ?case unfolding set_clarification_state_def by (rule typed_task_update) simp
qed (blast intro: typed_insert_task typed_create_message typed_ask typed_answer typed_link typed_remind typed_expire
    typed_resume typed_outbox)+

section \<open>Events and rows agree\<close>

text \<open>What the agreement reads of a clarification.\<close>

definition event_view :: "clarification_row \<Rightarrow> string \<times> string \<times> bool \<times> bool" where
  "event_view r = (oc_id r, oc_task_id r, oc_status r = ''expired'', cq_reminder_sent_at r \<noteq> None)"

definition views_match ::
    "(string \<times> string \<times> bool \<times> bool) list \<Rightarrow> (string \<times> string \<times> string \<times> string \<times> string) list \<Rightarrow> bool" where
  "views_match C E \<longleftrightarrow> distinct (map (\<lambda>(_, _, _, _, k). k) E) \<and>
     (\<forall>(eid, c, i, ev, k) \<in> set E.
        (ev = EXPIRED_EVENT_TYPE \<longrightarrow> k = expired_key c \<and> (\<exists>j m. (c, j, True, m) \<in> set C)) \<and>
        (ev = REMINDER_EVENT_TYPE \<longrightarrow> k = reminder_key c \<and> (\<exists>j x. (c, j, x, True) \<in> set C))) \<and>
     (\<forall>(c, i, x, m) \<in> set C.
        (x \<longrightarrow> (\<exists>eid k. (eid, c, i, EXPIRED_EVENT_TYPE, k) \<in> set E)) \<and>
        (m \<longrightarrow> (\<exists>eid k. (eid, c, i, REMINDER_EVENT_TYPE, k) \<in> set E)))"

lemma view_member:
  "(c, j, True, m) \<in> set (map event_view cs) \<longleftrightarrow>
     (\<exists>r \<in> set cs. oc_id r = c \<and> oc_task_id r = j \<and> oc_status r = ''expired'' \<and> (cq_reminder_sent_at r \<noteq> None) = m)"
  "(c, j, x, True) \<in> set (map event_view cs) \<longleftrightarrow>
     (\<exists>r \<in> set cs. oc_id r = c \<and> oc_task_id r = j \<and> (oc_status r = ''expired'') = x \<and> cq_reminder_sent_at r \<noteq> None)"
  by (auto simp: event_view_def image_iff)

lemma event_member:
  "(eid, c, i, ev, k) \<in> set (map event_identity t) \<longleftrightarrow>
     (\<exists>e \<in> set t. ob_id e = eid \<and> ob_clarification_id e = c \<and> ob_task_id e = i \<and> ob_event_type e = ev \<and> ob_idempotency_key e = k)"
  by (auto simp: event_identity_def image_iff)

lemma events_match_views:
  "events_match db \<longleftrightarrow> views_match (map event_view (wd_clarifications db)) (map event_identity (wd_outbox db))"
proof -
  have d: "map (\<lambda>(_, _, _, _, k). k) (map event_identity t) = map ob_idempotency_key t" for t
    by (simp add: event_identity_def)
  have a: "(\<forall>(eid, c, i, ev, k) \<in> set (map event_identity t). P eid c i ev k) \<longleftrightarrow>
      (\<forall>e \<in> set t. P (ob_id e) (ob_clarification_id e) (ob_task_id e) (ob_event_type e) (ob_idempotency_key e))" for t P
    by (simp add: event_identity_def)
  have b: "(\<forall>(c, i, x, m) \<in> set (map event_view cs). P c i x m) \<longleftrightarrow>
      (\<forall>r \<in> set cs. P (oc_id r) (oc_task_id r) (oc_status r = ''expired'') (cq_reminder_sent_at r \<noteq> None))" for cs P
    by (simp add: event_view_def)
  show ?thesis unfolding views_match_def events_match_def d a b view_member event_member by blast
qed

lemma views_matchD:
  assumes "views_match C E"
  shows "distinct (map (\<lambda>(_, _, _, _, k). k) E)"
    "(e, d, j, v, l) \<in> set E \<Longrightarrow>
      (v = EXPIRED_EVENT_TYPE \<longrightarrow> l = expired_key d \<and> (\<exists>j m. (d, j, True, m) \<in> set C)) \<and>
      (v = REMINDER_EVENT_TYPE \<longrightarrow> l = reminder_key d \<and> (\<exists>j x. (d, j, x, True) \<in> set C))"
    "(d, j, y, n) \<in> set C \<Longrightarrow> (y \<longrightarrow> (\<exists>e l. (e, d, j, EXPIRED_EVENT_TYPE, l) \<in> set E)) \<and>
      (n \<longrightarrow> (\<exists>e l. (e, d, j, REMINDER_EVENT_TYPE, l) \<in> set E))"
proof -
  show "distinct (map (\<lambda>(_, _, _, _, k). k) E)" using assms unfolding views_match_def by blast
  note b = conjunct1[OF conjunct2[OF assms[unfolded views_match_def]]]
    conjunct2[OF conjunct2[OF assms[unfolded views_match_def]]]
  show "(v = EXPIRED_EVENT_TYPE \<longrightarrow> l = expired_key d \<and> (\<exists>j m. (d, j, True, m) \<in> set C)) \<and>
      (v = REMINDER_EVENT_TYPE \<longrightarrow> l = reminder_key d \<and> (\<exists>j x. (d, j, x, True) \<in> set C))"
    if "(e, d, j, v, l) \<in> set E" using bspec[OF b(1) that] unfolding prod.case .
  show "(y \<longrightarrow> (\<exists>e l. (e, d, j, EXPIRED_EVENT_TYPE, l) \<in> set E)) \<and>
      (n \<longrightarrow> (\<exists>e l. (e, d, j, REMINDER_EVENT_TYPE, l) \<in> set E))"
    if "(d, j, y, n) \<in> set C" using bspec[OF b(2) that] unfolding prod.case .
qed

lemma views_append_row: "views_match C E \<Longrightarrow> views_match (C @ [(c, i, False, False)]) E"
  unfolding views_match_def by (force simp: case_prod_beta)

lemma views_append_other:
  assumes "views_match C E" "ev \<noteq> EXPIRED_EVENT_TYPE" "ev \<noteq> REMINDER_EVENT_TYPE" "k \<notin> set (map (\<lambda>(_, _, _, _, k). k) E)"
  shows "views_match C (E @ [(eid, c, i, ev, k)])"
  using assms unfolding views_match_def by (fastforce simp: case_prod_beta)

lemma inserted_event:
  assumes "insert_lifecycle_outbox_event eid created now cid i ev key p t = Inr (e, t')"
  shows "map event_identity t' = map event_identity t @ [(eid, cid, i, ev, key)]"
    "key \<notin> set (map (\<lambda>(_, _, _, _, k). k) (map event_identity t))"
  using assms unfolding insert_lifecycle_outbox_event_def
  by (auto simp: Let_def event_identity_def list_ex_iff elim!: try_then_InrE split: if_split_asm)

text \<open>The change of one row by its key.\<close>

definition set_flag :: "string \<Rightarrow> bool \<Rightarrow> (string \<times> string \<times> bool \<times> bool) \<Rightarrow> string \<times> string \<times> bool \<times> bool" where
  "set_flag c reminder v = (case v of (d, i, x, m) \<Rightarrow>
     if d = c then (if reminder then (d, i, x, True) else (d, i, True, m)) else v)"

lemma views_flag:
  assumes "views_match C E" "(c, i, x, m) \<in> set C" "distinct (map fst C)"
    "k = (if reminder then reminder_key c else expired_key c)"
    "ev = (if reminder then REMINDER_EVENT_TYPE else EXPIRED_EVENT_TYPE)"
    "k \<notin> set (map (\<lambda>(_, _, _, _, k). k) E)"
  shows "views_match (map (set_flag c reminder) C) (E @ [(eid, c, i, ev, k)])"
proof -
  have ne: "REMINDER_EVENT_TYPE \<noteq> EXPIRED_EVENT_TYPE" by (simp add: REMINDER_EVENT_TYPE_def EXPIRED_EVENT_TYPE_def)
  have flagged: "set_flag c reminder (d, j, y, n) = (d, j, y \<or> d = c \<and> \<not> reminder, n \<or> d = c \<and> reminder)" for d j y n
    by (simp add: set_flag_def)
  have moved: "(d, j, y, n) \<in> set C \<Longrightarrow>
      (d, j, y \<or> d = c \<and> \<not> reminder, n \<or> d = c \<and> reminder) \<in> set (map (set_flag c reminder) C)" for d j y n
    unfolding set_map flagged[symmetric] by (rule imageI)
  have keepX: "\<exists>j m. (d, j, True, m) \<in> set (map (set_flag c reminder) C)" if a: "\<exists>j m. (d, j, True, m) \<in> set C" for d
  proof -
    obtain j m where "(d, j, True, m) \<in> set C" using a by blast
    from moved[OF this] show ?thesis unfolding simp_thms by blast
  qed
  have keepM: "\<exists>j x. (d, j, x, True) \<in> set (map (set_flag c reminder) C)" if a: "\<exists>j x. (d, j, x, True) \<in> set C" for d
  proof -
    obtain j x where "(d, j, x, True) \<in> set C" using a by blast
    from moved[OF this] show ?thesis unfolding simp_thms by blast
  qed
  have new: "reminder \<Longrightarrow> \<exists>j x. (c, j, x, True) \<in> set (map (set_flag c reminder) C)"
      "\<not> reminder \<Longrightarrow> \<exists>j m. (c, j, True, m) \<in> set (map (set_flag c reminder) C)"
    using moved[OF assms(2)] by (cases reminder; simp; blast)+
  have one: "(c, j, y, n) \<in> set C \<Longrightarrow> j = i" for j y n
    using assms(2,3) distinct_map_eqD[OF assms(3), of "(c, j, y, n)" "(c, i, x, m)"] by simp
  have orig: "(d, j, y, n) \<in> set (map (set_flag c reminder) C) \<Longrightarrow>
      (d = c \<and> j = i) \<or> (d \<noteq> c \<and> (d, j, y, n) \<in> set C)" for d j y n
    using one by (auto simp: set_flag_def split: if_split_asm)
  have flag: "(d, j, y, n) \<in> set (map (set_flag c reminder) C) \<Longrightarrow> d = c \<Longrightarrow>
      \<exists>y' n'. (c, i, y', n') \<in> set C \<and> (if reminder then y = y' else n = n')" for d j y n
    using one by (auto simp: set_flag_def split: if_split_asm)
  have E: "\<And>e d j v l. (e, d, j, v, l) \<in> set E \<Longrightarrow>
      (v = EXPIRED_EVENT_TYPE \<longrightarrow> l = expired_key d \<and> (\<exists>j m. (d, j, True, m) \<in> set C)) \<and>
      (v = REMINDER_EVENT_TYPE \<longrightarrow> l = reminder_key d \<and> (\<exists>j x. (d, j, x, True) \<in> set C))"
    and C: "\<And>d j y n. (d, j, y, n) \<in> set C \<Longrightarrow> (y \<longrightarrow> (\<exists>e l. (e, d, j, EXPIRED_EVENT_TYPE, l) \<in> set E)) \<and>
      (n \<longrightarrow> (\<exists>e l. (e, d, j, REMINDER_EVENT_TYPE, l) \<in> set E))"
    and D: "distinct (map (\<lambda>(_, _, _, _, k). k) E)"
    using views_matchD[OF assms(1)] by blast+
  show ?thesis unfolding views_match_def
  proof (intro conjI)
    show "distinct (map (\<lambda>(_, _, _, _, k). k) (E @ [(eid, c, i, ev, k)]))" using D assms(6) by simp
    have "(v = EXPIRED_EVENT_TYPE \<longrightarrow> l = expired_key d \<and> (\<exists>j m. (d, j, True, m) \<in> set (map (set_flag c reminder) C))) \<and>
        (v = REMINDER_EVENT_TYPE \<longrightarrow> l = reminder_key d \<and> (\<exists>j x. (d, j, x, True) \<in> set (map (set_flag c reminder) C)))"
      if "(e, d, j, v, l) \<in> set (E @ [(eid, c, i, ev, k)])" for e d j v l
    proof (cases "(e, d, j, v, l) \<in> set E")
      case True
      show ?thesis using E[OF True] keepX[of d] keepM[of d] by blast
    next
      case False
      then have "d = c" "v = ev" "l = k" using that by auto
      then show ?thesis using assms(4,5) ne new by (cases reminder) simp_all
    qed
    then show "\<forall>(eid, c', i, ev, k) \<in> set (E @ [(eid, c, i, ev, k)]).
        (ev = EXPIRED_EVENT_TYPE \<longrightarrow> k = expired_key c' \<and> (\<exists>j m. (c', j, True, m) \<in> set (map (set_flag c reminder) C))) \<and>
        (ev = REMINDER_EVENT_TYPE \<longrightarrow> k = reminder_key c' \<and> (\<exists>j x. (c', j, x, True) \<in> set (map (set_flag c reminder) C)))"
      by blast
    have "(y \<longrightarrow> (\<exists>e l. (e, d, j, EXPIRED_EVENT_TYPE, l) \<in> set (E @ [(eid, c, i, ev, k)]))) \<and>
        (n \<longrightarrow> (\<exists>e l. (e, d, j, REMINDER_EVENT_TYPE, l) \<in> set (E @ [(eid, c, i, ev, k)])))"
      if v: "(d, j, y, n) \<in> set (map (set_flag c reminder) C)" for d j y n
    proof (cases "d = c")
      case True
      then have "j = i" using orig[OF v] by blast
      obtain y' n' where "(c, i, y', n') \<in> set C" "if reminder then y = y' else n = n'" using flag[OF v True] by blast
      then show ?thesis using C[of c i y' n'] assms(5) True \<open>j = i\<close> by (cases reminder) auto
    next
      case False
      then show ?thesis using orig[OF v] C by fastforce
    qed
    then show "\<forall>(c', i', x, m) \<in> set (map (set_flag c reminder) C).
        (x \<longrightarrow> (\<exists>eid' k'. (eid', c', i', EXPIRED_EVENT_TYPE, k') \<in> set (E @ [(eid, c, i, ev, k)]))) \<and>
        (m \<longrightarrow> (\<exists>eid' k'. (eid', c', i', REMINDER_EVENT_TYPE, k') \<in> set (E @ [(eid, c, i, ev, k)])))"
      by blast
  qed
qed

subsection \<open>Every step keeps the agreement\<close>

lemma events_frame:
  assumes "map event_view (wd_clarifications db') = map event_view (wd_clarifications db)"
    "map event_identity (wd_outbox db') = map event_identity (wd_outbox db)"
  shows "events_match db' = events_match db"
  unfolding events_match_views assms ..

lemma view_update:
  assumes "\<And>r. p r \<Longrightarrow> event_view (f r) = event_view r"
  shows "map event_view (update_where p f t) = map event_view t"
  by (induction t) (auto simp: update_where_def assms)

lemma view_claimed:
  assumes "\<And>x. event_view (f x) = set_flag (oc_id x) b (event_view x)"
  shows "map event_view (update_where (\<lambda>x. oc_id x = i) f t) = map (set_flag i b) (map event_view t)"
proof -
  have "set_flag i b (event_view x) = event_view x" if "oc_id x \<noteq> i" for x
    using that by (simp add: set_flag_def event_view_def)
  then show ?thesis by (induction t) (auto simp: update_where_def assms)
qed

lemma view_marks:
  "event_view (mark_expired now x) = set_flag (oc_id x) False (event_view x)"
  "event_view (mark_reminded now x) = set_flag (oc_id x) True (event_view x)"
  by (simp_all add: mark_expired_def mark_reminded_def set_flag_def event_view_def)

lemma distinct_views: "work_typed db \<Longrightarrow> distinct (map fst (map event_view (wd_clarifications db)))"
proof -
  have e: "fst \<circ> event_view = oc_id" by (simp add: fun_eq_iff event_view_def)
  show "work_typed db \<Longrightarrow> distinct (map fst (map event_view (wd_clarifications db)))"
    unfolding map_map e work_typed_def by blast
qed

lemma task_update_frame: "task_update f i db = Inr (r, db') \<Longrightarrow> \<exists>t. db' = db\<lparr>wd_tasks := t\<rparr>"
  by (auto simp: task_update_def elim!: try_then_InrE split: option.splits)

lemma events_remind:
  assumes "claim_one_reminder env skip db = Inr (out, db')" "work_typed db" "events_match db"
  shows "events_match db'"
  using assms(1)
proof (cases rule: reminder_claim_cases)
  case (2 r e t)
  note v = events_match_views[THEN iffD1, OF assms(3)]
  have m: "(oc_id r, oc_task_id r, oc_status r = ''expired'', cq_reminder_sent_at r \<noteq> None) \<in> set (map event_view (wd_clarifications db))"
    using 2(2) by (simp add: event_view_def rev_image_eqI)
  have a: "wd_clarifications db' = update_where (\<lambda>x. oc_id x = oc_id r) (mark_reminded (ce_ts env 2)) (wd_clarifications db)" "wd_outbox db' = t"
    by (simp_all add: 2(6))
  have c: "map event_view (wd_clarifications db') = map (set_flag (oc_id r) True) (map event_view (wd_clarifications db))"
    unfolding a by (rule view_claimed) (rule view_marks)
  show ?thesis unfolding events_match_views c a(2) inserted_event(1)[OF 2(5)]
    by (rule views_flag[OF v m distinct_views[OF assms(2)] _ _ inserted_event(2)[OF 2(5)]]) simp_all
qed (use assms(3) in simp)

lemma events_expire:
  assumes "claim_one_expiry env skip db = Inr (out, db')" "work_typed db" "events_match db"
  shows "events_match db'"
  using assms(1)
proof (cases rule: expiry_claim_cases)
  case (2 r e t tk)
  note v = events_match_views[THEN iffD1, OF assms(3)]
  have m: "(oc_id r, oc_task_id r, oc_status r = ''expired'', cq_reminder_sent_at r \<noteq> None) \<in> set (map event_view (wd_clarifications db))"
    using 2(2) by (simp add: event_view_def rev_image_eqI)
  have a: "wd_clarifications db' = update_where (\<lambda>x. oc_id x = oc_id r) (mark_expired (ce_ts env 3)) (wd_clarifications db)" "wd_outbox db' = t"
    by (simp_all add: 2(9))
  have c: "map event_view (wd_clarifications db') = map (set_flag (oc_id r) False) (map event_view (wd_clarifications db))"
    unfolding a by (rule view_claimed) (rule view_marks)
  show ?thesis unfolding events_match_views c a(2) inserted_event(1)[OF 2(8)]
    by (rule views_flag[OF v m distinct_views[OF assms(2)] _ _ inserted_event(2)[OF 2(8)]]) simp_all
qed (use assms(3) in simp)

lemma events_answer:
  assumes "claim_clarification_answer now cid db = (c, db')" "events_match db"
  shows "events_match db'"
proof -
  have e: "db' = db\<lparr>wd_clarifications := update_where (\<lambda>r. oc_id r = cid \<and> answerable now r) (mark_answered now) (wd_clarifications db)\<rparr>"
    using assms(1) by (auto simp: claim_clarification_answer_def update_returning_def)
  have a: "wd_clarifications db' = update_where (\<lambda>r. oc_id r = cid \<and> answerable now r) (mark_answered now) (wd_clarifications db)"
    by (simp add: e)
  have "map event_view (wd_clarifications db') = map event_view (wd_clarifications db)"
    unfolding a by (rule view_update) (auto simp: event_view_def mark_answered_def answerable_def)
  then show ?thesis using assms(2) events_frame[of db' db] by (simp add: e)
qed

lemma events_link:
  assumes "set_answer_message now cid mid db = Inr (c, db')" "events_match db"
  shows "events_match db'"
proof -
  have e: "db' = db\<lparr>wd_clarifications := update_where (\<lambda>r. oc_id r = cid)
      (\<lambda>r. r\<lparr>oc_answer_message_id := Some mid, oc_updated_at := now\<rparr>) (wd_clarifications db)\<rparr>"
    using assms(1) by (auto simp: set_answer_message_def update_returning_def split: if_splits option.splits)
  have a: "wd_clarifications db' = update_where (\<lambda>r. oc_id r = cid)
      (\<lambda>r. r\<lparr>oc_answer_message_id := Some mid, oc_updated_at := now\<rparr>) (wd_clarifications db)" by (simp add: e)
  have "map event_view (wd_clarifications db') = map event_view (wd_clarifications db)"
    unfolding a by (rule view_update) (auto simp: event_view_def)
  then show ?thesis using assms(2) events_frame[of db' db] by (simp add: e)
qed

lemma events_ask:
  assumes "insert_clarification (new_clarification cid now created by_type by_id q who i mid) db = Inr (c, db')" "events_match db"
  shows "events_match db'"
proof -
  have "db' = db\<lparr>wd_clarifications := wd_clarifications db @ [new_clarification cid now created by_type by_id q who i mid]\<rparr>"
    using assms(1) by (auto simp: insert_clarification_def split: if_splits)
  then have a: "map event_view (wd_clarifications db') = map event_view (wd_clarifications db) @ [(cid, i, False, False)]"
      "wd_outbox db' = wd_outbox db"
    by (simp_all add: event_view_def new_clarification_def)
  show ?thesis using assms(2) unfolding events_match_views a by (rule views_append_row)
qed

lemma view_without_markers: "event_view = event_view \<circ> without_resume_markers"
  by (simp add: fun_eq_iff event_view_def without_resume_markers_def)

lemma work_step_events: "work_step db db' \<Longrightarrow> work_typed db \<Longrightarrow> events_match db \<Longrightarrow> events_match db'"
proof (induction rule: work_step.induct)
  case (new_task r db r' db')
  then have "db' = db\<lparr>wd_tasks := wd_tasks db @ [r]\<rparr>" by (auto simp: insert_task_def split: if_splits)
  then show ?case using new_task(3) events_frame[of db' db] by simp
next
  case (set_status now i status db r' db')
  then obtain t where "db' = db\<lparr>wd_tasks := t\<rparr>" using task_update_frame unfolding update_status_def by blast
  then show ?case using set_status(3) events_frame[of db' db] by simp
next
  case (set_state now i status cs db r' db')
  then obtain t where "db' = db\<lparr>wd_tasks := t\<rparr>" using task_update_frame unfolding set_clarification_state_def by blast
  then show ?case using set_state(3) events_frame[of db' db] by simp
next
  case (message m db m' db')
  then have "db' = db\<lparr>wd_messages := wd_messages db @ [m]\<rparr>" by (auto simp: create_message_def split: if_splits)
  then show ?case using message(3) events_frame[of db' db] by simp
next
  case (resume cs db)
  have "map event_view cs = map event_view (wd_clarifications db)"
    using arg_cong[OF resume(1), of "map event_view"] unfolding map_map view_without_markers[symmetric] .
  then show ?case using resume(4) events_frame[of "db\<lparr>wd_clarifications := cs\<rparr>" db] by simp
next
  case (other_event eid created now cid i ev key p db e t)
  then show ?case using views_append_other[OF _ _ _ inserted_event(2)[OF other_event(1)]]
    by (simp add: events_match_views inserted_event(1)[OF other_event(1)])
next
  case (relay t db)
  then show ?case using events_frame[of "db\<lparr>wd_outbox := t\<rparr>" db] by simp
qed (blast intro: events_ask events_answer events_link events_remind events_expire)+

lemma empty_work_good: "work_typed empty_work \<and> events_match empty_work"
  by (simp add: empty_work_def work_typed_def events_match_def)

interpretation workroom: invariant_system empty_work work_step "\<lambda>db. work_typed db \<and> events_match db"
  using empty_work_good work_step_typed work_step_events by unfold_locales blast+

section \<open>Properties of every interleaving\<close>

text \<open>
  C12. In every interleaving of task, workroom, resume, relay and poller statements the tables are well
  formed: keys are unique, every row satisfies the constraints of its table and refers to rows that
  exist; a clarification is answered exactly when it has an answer time, which lies before its deadline,
  and expired exactly when it has an expiry time, which does not; a reminder is never recorded early.
\<close>

theorem workroom_tables_typed:
  assumes "work_step\<^sup>*\<^sup>* empty_work db"
  shows "distinct (map ot_id (wd_tasks db)) \<and> distinct (map oc_id (wd_clarifications db)) \<and>
    (\<forall>tk \<in> set (wd_tasks db). task_checks tk) \<and>
    (\<forall>m \<in> set (wd_messages db). message_checks m \<and> has_task (ms_task_id m) db) \<and>
    (\<forall>r \<in> set (wd_clarifications db). clarification_checks r \<and> clarification_refs db r \<and>
       (oc_status r = ''answered'' \<longleftrightarrow> (\<exists>t < cq_due_at r. cq_answered_at r = Some t)) \<and>
       (oc_status r = ''expired'' \<longleftrightarrow> (\<exists>t \<ge> cq_due_at r. cq_expired_at r = Some t)) \<and>
       \<not> (cq_answered_at r \<noteq> None \<and> cq_expired_at r \<noteq> None) \<and>
       (case cq_reminder_sent_at r of None \<Rightarrow> True | Some t \<Rightarrow> cq_due_at r - seconds (48 * 3600) \<le> t))"
proof -
  have t: "work_typed db" using workroom.inv_reachable[OF assms] by blast
  have "clarification_checks r \<and> clarification_refs db r \<and>
       (oc_status r = ''answered'' \<longleftrightarrow> (\<exists>t < cq_due_at r. cq_answered_at r = Some t)) \<and>
       (oc_status r = ''expired'' \<longleftrightarrow> (\<exists>t \<ge> cq_due_at r. cq_expired_at r = Some t)) \<and>
       \<not> (cq_answered_at r \<noteq> None \<and> cq_expired_at r \<noteq> None) \<and>
       (case cq_reminder_sent_at r of None \<Rightarrow> True | Some t \<Rightarrow> cq_due_at r - seconds (48 * 3600) \<le> t)"
    if "r \<in> set (wd_clarifications db)" for r
  proof -
    have r: "clarification_checks r" "clarification_dates r" "clarification_refs db r"
      using t that by (auto simp: work_typed_def)
    have n: "''answered'' \<noteq> (''expired'' :: string)" by simp
    show ?thesis using r n unfolding clarification_dates_def
      by (cases "cq_answered_at r"; cases "cq_expired_at r"; cases "cq_reminder_sent_at r") auto
  qed
  then show ?thesis using t unfolding work_typed_def by blast
qed

text \<open>
  C10. The transactional outbox of the poller, in every interleaving: a clarification is expired exactly
  when there is one expiry event of it, and has its reminder recorded exactly when there is one reminder
  event of it; there is never a second one.
\<close>

theorem lifecycle_events_exactly_once:
  assumes "work_step\<^sup>*\<^sup>* empty_work db" and "r \<in> set (wd_clarifications db)"
  shows "(oc_status r = ''expired'' \<longleftrightarrow>
      (\<exists>!e. e \<in> set (wd_outbox db) \<and> ob_event_type e = EXPIRED_EVENT_TYPE \<and> ob_clarification_id e = oc_id r)) \<and>
    (cq_reminder_sent_at r \<noteq> None \<longleftrightarrow>
      (\<exists>!e. e \<in> set (wd_outbox db) \<and> ob_event_type e = REMINDER_EVENT_TYPE \<and> ob_clarification_id e = oc_id r))"
proof -
  have t: "work_typed db" and m: "events_match db" using workroom.inv_reachable[OF assms(1)] by blast+
  have own: "x = r" if "x \<in> set (wd_clarifications db)" "oc_id x = oc_id r" for x
    using distinct_map_eqD[OF _ that(1) assms(2) that(2)] t by (simp add: work_typed_def)
  have once: "e = e'" if "e \<in> set (wd_outbox db)" "e' \<in> set (wd_outbox db)" "ob_idempotency_key e = ob_idempotency_key e'" for e e'
    using m distinct_map_eqD[of ob_idempotency_key "wd_outbox db", OF _ that] by (simp add: events_match_def)
  have x: "oc_status r = ''expired'' \<longleftrightarrow>
      (\<exists>e. e \<in> set (wd_outbox db) \<and> ob_event_type e = EXPIRED_EVENT_TYPE \<and> ob_clarification_id e = oc_id r)"
    using m assms(2) own unfolding events_match_def by metis
  have y: "cq_reminder_sent_at r \<noteq> None \<longleftrightarrow>
      (\<exists>e. e \<in> set (wd_outbox db) \<and> ob_event_type e = REMINDER_EVENT_TYPE \<and> ob_clarification_id e = oc_id r)"
    using m assms(2) own unfolding events_match_def by metis
  have kx: "ob_idempotency_key e = expired_key (oc_id r)"
    if "e \<in> set (wd_outbox db)" "ob_event_type e = EXPIRED_EVENT_TYPE" "ob_clarification_id e = oc_id r" for e
    using m that unfolding events_match_def by metis
  have ky: "ob_idempotency_key e = reminder_key (oc_id r)"
    if "e \<in> set (wd_outbox db)" "ob_event_type e = REMINDER_EVENT_TYPE" "ob_clarification_id e = oc_id r" for e
    using m that unfolding events_match_def by metis
  have u: "(\<exists>e. P e) \<longleftrightarrow> (\<exists>!e. P e)" if "\<And>e e'. P e \<Longrightarrow> P e' \<Longrightarrow> e = e'" for P :: "outbox_row \<Rightarrow> bool"
    using that by blast
  have a: "(\<exists>e. e \<in> set (wd_outbox db) \<and> ob_event_type e = EXPIRED_EVENT_TYPE \<and> ob_clarification_id e = oc_id r) \<longleftrightarrow>
      (\<exists>!e. e \<in> set (wd_outbox db) \<and> ob_event_type e = EXPIRED_EVENT_TYPE \<and> ob_clarification_id e = oc_id r)"
    by (rule u) (use once kx in force)
  have b: "(\<exists>e. e \<in> set (wd_outbox db) \<and> ob_event_type e = REMINDER_EVENT_TYPE \<and> ob_clarification_id e = oc_id r) \<longleftrightarrow>
      (\<exists>!e. e \<in> set (wd_outbox db) \<and> ob_event_type e = REMINDER_EVENT_TYPE \<and> ob_clarification_id e = oc_id r)"
    by (rule u) (use once ky in force)
  show ?thesis using x y a b by blast
qed

section \<open>The life cycle of one clarification\<close>

datatype phase = Waiting | AnsweredAt int | ExpiredAt int | Other

definition phase_of :: "clarification_row \<Rightarrow> phase" where
  "phase_of r = (case (cq_answered_at r, cq_expired_at r) of
     (None, None) \<Rightarrow> if oc_status r = ''open'' then Waiting else Other
   | (Some t, None) \<Rightarrow> AnsweredAt t | (None, Some t) \<Rightarrow> ExpiredAt t | _ \<Rightarrow> Other)"

text \<open>The abstract machine: an answer before the deadline, an expiry not before it, and nothing after either.\<close>

inductive phase_step :: "int \<Rightarrow> phase \<Rightarrow> phase \<Rightarrow> bool" for due :: int where
  stay: "phase_step due p p"
| answer: "t < due \<Longrightarrow> phase_step due Waiting (AnsweredAt t)"
| expire: "due \<le> t \<Longrightarrow> phase_step due Waiting (ExpiredAt t)"

definition follows :: "clarification_row \<Rightarrow> clarification_row \<Rightarrow> bool" where
  "follows r r' \<longleftrightarrow> oc_id r' = oc_id r \<and> oc_task_id r' = oc_task_id r \<and> cq_due_at r' = cq_due_at r \<and>
     phase_step (cq_due_at r) (phase_of r) (phase_of r')"

lemma follows_refl [simp]: "follows r r"
  by (simp add: follows_def phase_step.stay)

lemma follows_update:
  assumes "r \<in> set t" "p r \<Longrightarrow> follows r (f r)"
  shows "\<exists>r' \<in> set (update_where p f t). follows r r'"
proof
  show "(if p r then f r else r) \<in> set (update_where p f t)" unfolding set_update_where using assms(1) by blast
  show "follows r (if p r then f r else r)" using assms(2) by simp
qed

lemma follows_mark_answered: "answerable now r \<Longrightarrow> cq_expired_at r = None \<Longrightarrow> follows r (mark_answered now r)"
  by (auto simp: answerable_def follows_def mark_answered_def phase_of_def intro: phase_step.answer)

lemma follows_mark_expired:
  "clar_expiry_due now r \<Longrightarrow> now \<le> t \<Longrightarrow> cq_expired_at r = None \<Longrightarrow> follows r (mark_expired t r)"
  by (auto simp: clar_expiry_due_def follows_def mark_expired_def phase_of_def intro: phase_step.expire)

lemma follows_mark_reminded: "follows r (mark_reminded now r)"
  by (simp add: follows_def mark_reminded_def phase_of_def phase_step.stay)

lemma open_not_expired: "clarification_dates r \<Longrightarrow> oc_status r = ''open'' \<Longrightarrow> cq_expired_at r = None"
  by (auto simp: clarification_dates_def)

text \<open>
  C11. Refinement: whatever statement runs, each clarification keeps its id, task and deadline and makes
  one step of the abstract machine. An answer and an expiry never both win, the deadline is exclusive
  for the answer, and an answered or expired clarification stays so.
\<close>

theorem work_step_refines_phases:
  assumes "work_step db db'" and "work_typed db" and "r \<in> set (wd_clarifications db)"
  shows "\<exists>r' \<in> set (wd_clarifications db'). oc_id r' = oc_id r \<and> oc_task_id r' = oc_task_id r \<and>
    cq_due_at r' = cq_due_at r \<and> phase_step (cq_due_at r) (phase_of r) (phase_of r')"
proof -
  have d: "x \<in> set (wd_clarifications db) \<Longrightarrow> clarification_dates x" for x using assms(2) by (simp add: work_typed_def)
  have own: "x \<in> set (wd_clarifications db) \<Longrightarrow> oc_id r = oc_id x \<Longrightarrow> x = r" for x
    using distinct_map_eqD[OF _ _ assms(3), of oc_id x] assms(2) by (simp add: work_typed_def)
  have "\<exists>r' \<in> set (wd_clarifications db'). follows r r'"
    using assms(1)
  proof (cases rule: work_step.cases)
    case (set_status now i status r')
    then obtain t where "db' = db\<lparr>wd_tasks := t\<rparr>" using task_update_frame unfolding update_status_def by blast
    then show ?thesis using assms(3) by (auto intro!: bexI[of _ r])
  next
    case (set_state now i status cs r')
    then obtain t where "db' = db\<lparr>wd_tasks := t\<rparr>" using task_update_frame unfolding set_clarification_state_def by blast
    then show ?thesis using assms(3) by (auto intro!: bexI[of _ r])
  next
    case (answer now cid c)
    then have "wd_clarifications db' = update_where (\<lambda>r. oc_id r = cid \<and> answerable now r) (mark_answered now) (wd_clarifications db)"
      by (auto simp: claim_clarification_answer_def update_returning_def)
    moreover have "follows r (mark_answered now r)" if "oc_id r = cid \<and> answerable now r"
      using that follows_mark_answered open_not_expired[OF d[OF assms(3)]] by (simp add: answerable_def)
    ultimately show ?thesis using follows_update[OF assms(3)] by simp
  next
    case (link now cid mid c)
    then have "wd_clarifications db' = update_where (\<lambda>r. oc_id r = cid)
      (\<lambda>r. r\<lparr>oc_answer_message_id := Some mid, oc_updated_at := now\<rparr>) (wd_clarifications db)"
      by (auto simp: set_answer_message_def update_returning_def split: if_splits option.splits)
    moreover have "follows r (r\<lparr>oc_answer_message_id := Some mid, oc_updated_at := now\<rparr>)"
      by (simp add: follows_def phase_of_def phase_step.stay)
    ultimately show ?thesis using follows_update[OF assms(3)] by simp
  next
    case (remind env skip out)
    from remind(1) show ?thesis
    proof (cases rule: reminder_claim_cases)
      case (2 x e t)
      then show ?thesis
        using follows_update[OF assms(3), of "\<lambda>y. oc_id y = oc_id x" "mark_reminded (ce_ts env 2)"] follows_mark_reminded by simp
    qed (use assms(3) in \<open>auto intro!: bexI[of _ r]\<close>)
  next
    case (expire env skip out)
    from expire(1) show ?thesis
    proof (cases rule: expiry_claim_cases)
      case (2 x e t tk)
      have "follows r (mark_expired (ce_ts env 3) r)" if "oc_id r = oc_id x"
      proof -
        have "x = r" by (rule own[OF 2(2) that])
        then show ?thesis using 2(3) monoD[OF expire(2), of 1 3] open_not_expired[OF d[OF assms(3)]]
          by (intro follows_mark_expired[of "ce_ts env 1"]) (auto simp: clar_expiry_due_def)
      qed
      then show ?thesis using follows_update[OF assms(3), of "\<lambda>y. oc_id y = oc_id x"] 2(9) by simp
    qed (use assms(3) in \<open>auto intro!: bexI[of _ r]\<close>)
  next
    case (resume cs)
    have "without_resume_markers r \<in> set (map without_resume_markers cs)" using assms(3) unfolding resume(2) by simp
    then obtain y where y: "y \<in> set cs" "without_resume_markers y = without_resume_markers r" by auto
    have "follows r y" unfolding follows_def phase_of_def same_columns[OF y(2)] by (simp add: phase_step.stay)
    then show ?thesis using y(1) resume(1) by auto
  qed (use assms(3) in \<open>auto simp: insert_task_def create_message_def insert_clarification_def
      intro!: bexI[of _ r] split: if_splits\<close>)
  then show ?thesis unfolding follows_def .
qed

end
