(* ===== verification/Lifecycle_Faults.thy ===== *)
theory Lifecycle_Faults imports Lifecycle_Props begin

text \<open>
  One expiry in full, and what a cycle of expiries does: clarifications whose parent task cannot be
  expired use up the batch of every cycle, and a cycle with room for all that is due leaves only those.
\<close>

section \<open>One expiry\<close>

text \<open>
  An expiry claim is atomic: it changes nothing, or it found an open clarification past its deadline
  whose task waits for it, and then the clarification, the task and one pending event change together
  and no other row does.
\<close>

theorem expiry_is_atomic:
  assumes "claim_one_expiry env skip db = Inr (out, db')" and "work_typed db"
  shows "db' = db \<and> (\<forall>i. out \<noteq> Committed i) \<or>
    (\<exists>r \<in> set (wd_clarifications db). \<exists>tk \<in> set (wd_tasks db). \<exists>e.
       out = Committed (oc_id r) \<and> clar_expiry_due (ce_ts env 1) r \<and> oc_id r \<notin> set skip \<and>
       ot_id tk = oc_task_id r \<and> ot_status tk = ''clarification_needed'' \<and>
       wd_clarifications db' = map (\<lambda>x. if x = r then mark_expired (ce_ts env 3) x else x) (wd_clarifications db) \<and>
       wd_tasks db' = map (\<lambda>x. if x = tk then expire_task (ce_ts env 2) x else x) (wd_tasks db) \<and>
       wd_outbox db' = wd_outbox db @ [e] \<and> ob_event_type e = EXPIRED_EVENT_TYPE \<and> ob_status e = ''pending'' \<and>
       ob_clarification_id e = oc_id r \<and> ob_task_id e = oc_task_id r \<and> wd_messages db' = wd_messages db)"
  using assms(1)
proof (cases rule: expiry_claim_cases)
  case (2 r e t tk)
  have tk: "tk \<in> set (wd_tasks db)" "ot_id tk = oc_task_id r"
    using 2(5) fetchrow_SomeD unfolding store_get_task_def by fastforce+
  have "oc_id x = oc_id r \<longleftrightarrow> x = r" if "x \<in> set (wd_clarifications db)" for x
    using distinct_map_eqD[OF _ that 2(2)] assms(2) by (auto simp: work_typed_def)
  then have c: "update_where (\<lambda>x. oc_id x = oc_id r) f (wd_clarifications db) =
      map (\<lambda>x. if x = r then f x else x) (wd_clarifications db)" for f
    by (simp add: update_where_def)
  have "expirable_task (oc_task_id r) x \<longleftrightarrow> x = tk" if "x \<in> set (wd_tasks db)" for x
    using distinct_map_eqD[OF _ that tk(1), of ot_id] assms(2) tk(2) 2(6)
    by (auto simp: work_typed_def expirable_task_def EXPIRABLE_PARENT_TASK_STATUS_def)
  then have k: "update_where (expirable_task (oc_task_id r)) f (wd_tasks db) =
      map (\<lambda>x. if x = tk then f x else x) (wd_tasks db)" for f
    by (simp add: update_where_def)
  have o: "t = wd_outbox db @ [e]" "ob_event_type e = EXPIRED_EVENT_TYPE" "ob_status e = ''pending''"
      "ob_clarification_id e = oc_id r" "ob_task_id e = oc_task_id r"
    using 2(8) unfolding insert_lifecycle_outbox_event_def
    by (auto simp: Let_def elim!: try_then_InrE split: if_split_asm)
  show ?thesis using 2(1-4,6) tk o
    by (intro disjI2 bexI[of _ r] bexI[of _ tk] exI[of _ e]) (simp_all add: 2(9) c k EXPIRABLE_PARENT_TASK_STATUS_def)
qed simp

section \<open>Stuck clarifications\<close>

definition stuck :: "work_db \<Rightarrow> clarification_row \<Rightarrow> bool" where
  "stuck db r \<longleftrightarrow> map_option ot_status (store_get_task (oc_task_id r) db) \<noteq> Some EXPIRABLE_PARENT_TASK_STATUS"

lemma claim_stuck:
  assumes r: "claim_row cq_due_at (clar_expiry_due (ce_ts env 1)) skip (ce_locked env) (wd_clarifications db) = Some r"
    and s: "stuck db r"
  shows "claim_one_expiry env skip db = Inr (SuppressedTerminal (oc_id r), db) \<or>
    claim_one_expiry env skip db = Inr (Reconcile (oc_id r), db)"
  using s unfolding claim_one_expiry_def r Let_def stuck_def by simp

lemma next_stuck:
  assumes "s \<in> set stuck_rows" "oc_id s \<notin> set skip" "set stuck_rows \<subseteq> set (wd_clarifications db)"
    and due: "\<forall>s \<in> set stuck_rows. clar_expiry_due (ce_ts env 1) s \<and> \<not> ce_locked env (oc_id s)"
    and first: "\<forall>r \<in> set (wd_clarifications db). r \<notin> set stuck_rows \<longrightarrow> oc_status r = ''open'' \<longrightarrow>
       (\<forall>s \<in> set stuck_rows. cq_due_at s < cq_due_at r)"
  shows "\<exists>r \<in> set stuck_rows. oc_id r \<notin> set skip \<and>
    claim_row cq_due_at (clar_expiry_due (ce_ts env 1)) skip (ce_locked env) (wd_clarifications db) = Some r"
proof (cases "claim_row cq_due_at (clar_expiry_due (ce_ts env 1)) skip (ce_locked env) (wd_clarifications db)")
  case None
  then show ?thesis using assms(1-3) due unfolding claim_row_None by blast
next
  case (Some r)
  note c = claim_row_Some[OF Some]
  have "cq_due_at r \<le> cq_due_at s" using c assms(1-3) due by blast
  moreover have "oc_status r = ''open''" using c by (simp add: clar_expiry_due_def)
  ultimately have "r \<in> set stuck_rows" using c first assms(1) by fastforce
  then show ?thesis using c Some by blast
qed

lemma cycle_starved:
  assumes "distinct (map oc_id stuck_rows)" "set stuck_rows \<subseteq> set (wd_clarifications db)"
    and st: "\<forall>s \<in> set stuck_rows. stuck db s"
    and due: "\<forall>s \<in> set stuck_rows. \<forall>k. clar_expiry_due (ce_ts (envs k) 1) s \<and> \<not> ce_locked (envs k) (oc_id s)"
    and first: "\<forall>r \<in> set (wd_clarifications db). r \<notin> set stuck_rows \<longrightarrow> oc_status r = ''open'' \<longrightarrow>
       (\<forall>s \<in> set stuck_rows. cq_due_at s < cq_due_at r)"
  shows "n \<le> length (filter (\<lambda>s. oc_id s \<notin> set skip) stuck_rows) \<Longrightarrow>
    \<exists>rep'. run_cycle claim_one_expiry envs n k skip rep db = (Inr rep', db) \<and> cy_committed rep' = cy_committed rep \<and>
      cy_suppressed rep' + cy_reconciled rep' = cy_suppressed rep + cy_reconciled rep + n"
proof (induction n arbitrary: k skip rep)
  case (Suc n)
  obtain s where s: "s \<in> set stuck_rows" "oc_id s \<notin> set skip"
    using Suc.prems by (metis (mono_tags, lifting) filter_False list.size(3) not_less_eq_eq le0)
  obtain r where r: "r \<in> set stuck_rows" "oc_id r \<notin> set skip"
      "claim_row cq_due_at (clar_expiry_due (ce_ts (envs k) 1)) skip (ce_locked (envs k)) (wd_clarifications db) = Some r"
    using next_stuck[OF s assms(2) _ first, of "envs k"] due by blast
  have "length (filter (\<lambda>s. oc_id s \<notin> set skip) stuck_rows) = Suc (length (filter (\<lambda>s. oc_id s \<notin> set (skip @ [oc_id r])) stuck_rows))"
    using assms(1) r(1,2)
  proof (induction stuck_rows)
    case (Cons a l)
    show ?case
    proof (cases "a = r")
      case True
      then have "filter (\<lambda>s. oc_id s \<notin> set (skip @ [oc_id r])) l = filter (\<lambda>s. oc_id s \<notin> set skip) l"
        using Cons.prems(1) by (intro filter_cong) (auto simp: image_iff)
      then show ?thesis using True r(2) by simp
    next
      case False
      then have "oc_id a \<noteq> oc_id r" using Cons.prems(1,2) by auto
      then show ?thesis using Cons False by simp
    qed
  qed simp
  then have n: "n \<le> length (filter (\<lambda>s. oc_id s \<notin> set (skip @ [oc_id r])) stuck_rows)" using Suc.prems by simp
  have "stuck db r" using st r(1) by blast
  from claim_stuck[OF r(3) this] show ?case
  proof
    assume "claim_one_expiry (envs k) skip db = Inr (SuppressedTerminal (oc_id r), db)"
    then show ?thesis using Suc.IH[OF n, of "Suc k" "rep\<lparr>cy_suppressed := cy_suppressed rep + 1\<rparr>"] by auto
  next
    assume "claim_one_expiry (envs k) skip db = Inr (Reconcile (oc_id r), db)"
    then show ?thesis using Suc.IH[OF n, of "Suc k" "rep\<lparr>cy_reconciled := cy_reconciled rep + 1\<rparr>"] by auto
  qed
qed simp

text \<open>
  C24. A batch of clarifications that are due first but cannot be expired (their task was canceled, or has
  moved on after another clarification of it) uses up a whole cycle: nothing is expired, and since nothing
  changes, no later cycle expires anything either. The list of skipped rows lasts for one cycle only.
\<close>

theorem stuck_rows_starve_expiry:
  assumes "distinct (map oc_id stuck_rows)" and "set stuck_rows \<subseteq> set (wd_clarifications db)"
    and "batch_size \<le> length stuck_rows" and "\<forall>s \<in> set stuck_rows. stuck db s"
    and "\<forall>s \<in> set stuck_rows. \<forall>k. clar_expiry_due (ce_ts (envs k) 1) s \<and> \<not> ce_locked (envs k) (oc_id s)"
    and "\<forall>r \<in> set (wd_clarifications db). r \<notin> set stuck_rows \<longrightarrow> oc_status r = ''open'' \<longrightarrow>
       (\<forall>s \<in> set stuck_rows. cq_due_at s < cq_due_at r)"
  shows "\<exists>rep. run_expiry_cycle envs batch_size db = (Inr rep, db) \<and> cy_committed rep = 0 \<and>
    cy_suppressed rep + cy_reconciled rep = batch_size"
  using cycle_starved[OF assms(1,2,4-6), of batch_size "[]" 0 empty_report] assms(3)
  by (simp add: run_expiry_cycle_def empty_report_def)

section \<open>A cycle with room drains\<close>

text \<open>No event of another type uses the key of an expiry, and the ids of the new events are fresh.\<close>

definition keys_reserved :: "work_db \<Rightarrow> bool" where
  "keys_reserved db \<longleftrightarrow> (\<forall>e \<in> set (wd_outbox db). \<forall>i. ob_idempotency_key e = expired_key i \<longrightarrow>
     ob_event_type e = EXPIRED_EVENT_TYPE)"

lemma expired_event_accepted:
  assumes "key = expired_key i" "key \<notin> ob_idempotency_key ` set t" "eid \<notin> ob_id ` set t"
  shows "\<exists>e. insert_lifecycle_outbox_event eid created now i tid EXPIRED_EVENT_TYPE key (Some [(''reason'', PStr ''expired'')]) t = Inr (e, t @ [e])
    \<and> ob_id e = eid \<and> ob_event_type e = EXPIRED_EVENT_TYPE"
proof -
  have p: "assert_safe_outbox_payload (Some [(''reason'', PStr ''expired'')]) EXPIRED_EVENT_TYPE = Inr [(''reason'', PStr ''expired'')]"
    by code_simp
  have k: "btrim_nonempty EXPIRED_EVENT_TYPE" "btrim_nonempty key"
    using assms(1) by (simp_all add: EXPIRED_EVENT_TYPE_def expired_key_def btrim_nonempty_def)
  show ?thesis using assms(2,3) k
    by (auto simp: insert_lifecycle_outbox_event_def p Let_def clo_checks_def list_ex_iff)
qed

lemma stuck_kept:
  assumes "stuck db r" "wd_tasks db' = update_where (expirable_task i) (expire_task now) (wd_tasks db)"
  shows "stuck db' r"
proof -
  have "ot_status (expire_task now x) \<noteq> EXPIRABLE_PARENT_TASK_STATUS" for x
    by (simp add: expire_task_def EXPIRABLE_PARENT_TASK_STATUS_def)
  moreover have "fetchrow (\<lambda>x. ot_id x = j) (update_where (expirable_task i) (expire_task now) t) =
      map_option (\<lambda>x. if expirable_task i x then expire_task now x else x) (fetchrow (\<lambda>x. ot_id x = j) t)" for j t
    by (induction t) (auto simp: table_simps expire_task_def)
  ultimately show ?thesis using assms(1)
    by (auto simp: stuck_def store_get_task_def assms(2) split: option.splits if_splits)
qed

lemma claim_commits:
  assumes r: "claim_row cq_due_at (clar_expiry_due (ce_ts env 1)) skip (ce_locked env) (wd_clarifications db) = Some r"
    and n: "\<not> stuck db r" and t: "work_typed db" and m: "events_match db" and k: "keys_reserved db"
    and f: "ce_event_id env \<notin> ob_id ` set (wd_outbox db)"
  shows "\<exists>e. claim_one_expiry env skip db = Inr (Committed (oc_id r),
    db\<lparr>wd_tasks := update_where (expirable_task (oc_task_id r)) (expire_task (ce_ts env 2)) (wd_tasks db),
       wd_clarifications := update_where (\<lambda>x. oc_id x = oc_id r) (mark_expired (ce_ts env 3)) (wd_clarifications db),
       wd_outbox := wd_outbox db @ [e]\<rparr>) \<and> ob_id e = ce_event_id env \<and> ob_event_type e = EXPIRED_EVENT_TYPE"
proof -
  have due: "r \<in> set (wd_clarifications db)" "oc_status r = ''open''" using claim_row_Some[OF r] by (simp_all add: clar_expiry_due_def)
  have s: "map_option ot_status (store_get_task (oc_task_id r) db) = Some EXPIRABLE_PARENT_TASK_STATUS"
    using n unfolding stuck_def by blast
  then obtain tk where tk: "fetchrow (\<lambda>x. ot_id x = oc_task_id r) (wd_tasks db) = Some tk" "ot_status tk = EXPIRABLE_PARENT_TASK_STATUS"
    unfolding store_get_task_def by auto
  then have tkd: "tk \<in> set (wd_tasks db)" "ot_id tk = oc_task_id r" using fetchrow_SomeD by fastforce+
  have one: "length (filter (expirable_task (oc_task_id r)) (wd_tasks db)) = 1"
  proof -
    have "expirable_task (oc_task_id r) x \<longleftrightarrow> x = tk" if "x \<in> set (wd_tasks db)" for x
      using distinct_map_eqD[OF _ that tkd(1), of ot_id] t tkd(2) tk(2)
      by (auto simp: work_typed_def expirable_task_def EXPIRABLE_PARENT_TASK_STATUS_def)
    then have "filter (expirable_task (oc_task_id r)) (wd_tasks db) = filter ((=) tk) (wd_tasks db)"
      by (intro filter_cong) auto
    moreover have "distinct (wd_tasks db)" using t by (simp add: work_typed_def distinct_map)
    ultimately show ?thesis using tkd(1) by (simp add: distinct_length_filter)
  qed
  have "expired_key (oc_id r) \<notin> ob_idempotency_key ` set (wd_outbox db)"
  proof
    assume "expired_key (oc_id r) \<in> ob_idempotency_key ` set (wd_outbox db)"
    then obtain e where e: "e \<in> set (wd_outbox db)" "ob_idempotency_key e = expired_key (oc_id r)" by fastforce
    then have "ob_event_type e = EXPIRED_EVENT_TYPE" using k unfolding keys_reserved_def by blast
    then obtain x where x: "x \<in> set (wd_clarifications db)" "oc_id x = ob_clarification_id e" "oc_status x = ''expired''"
        "expired_key (ob_clarification_id e) = expired_key (oc_id r)"
      using m e unfolding events_match_def by metis
    then have "oc_id x = oc_id r" by (simp add: expired_key_def)
    moreover have "distinct (map oc_id (wd_clarifications db))" using t by (simp add: work_typed_def)
    ultimately have "x = r" using distinct_map_eqD[OF _ x(1) due(1), of oc_id] by simp
    then show False using x(3) due(2) by simp
  qed
  from expired_event_accepted[OF refl this f] obtain e where e:
      "insert_lifecycle_outbox_event (ce_event_id env) (ce_ts env 0) (ce_ts env 4) (oc_id r) (oc_task_id r) EXPIRED_EVENT_TYPE
         (expired_key (oc_id r)) (Some [(''reason'', PStr ''expired'')]) (wd_outbox db) = Inr (e, wd_outbox db @ [e])"
      "ob_id e = ce_event_id env" "ob_event_type e = EXPIRED_EVENT_TYPE" by blast
  have nt: "EXPIRABLE_PARENT_TASK_STATUS \<notin> set TERMINAL_TASK_STATUSES"
    by (simp add: EXPIRABLE_PARENT_TASK_STATUS_def TERMINAL_TASK_STATUSES_def)
  show ?thesis
    unfolding claim_one_expiry_def r option.case Let_def s one commit_with_event_def e(1)
    by (rule exI[of _ e]) (simp add: nt e)
qed

lemma fewer_left:
  assumes "r \<in> set t" "P r" "\<And>x. x \<in> set t \<Longrightarrow> Q (g x) \<Longrightarrow> P x" "\<not> Q (g r)"
  shows "length (filter Q (map g t)) < length (filter P t)"
proof -
  have "length (filter Q (map g t)) = length (filter (\<lambda>x. Q (g x)) t)" by (simp add: filter_map comp_def)
  also have "\<dots> < length (filter P t)"
    using assms
  proof (induction t)
    case (Cons a t)
    have "(\<forall>x \<in> set l. Q (g x) \<longrightarrow> P x) \<Longrightarrow> length (filter (\<lambda>x. Q (g x)) l) \<le> length (filter P l)" for l
      by (induction l) auto
    then have le: "length (filter (\<lambda>x. Q (g x)) t) \<le> length (filter P t)" using Cons.prems(3) by simp
    show ?case
    proof (cases "r = a")
      case True
      then show ?thesis using Cons.prems le by simp
    next
      case False
      then have "length (filter (\<lambda>x. Q (g x)) t) < length (filter P t)" using Cons by simp
      then show ?thesis using Cons.prems(3)[of a] by auto
    qed
  qed simp
  finally show ?thesis .
qed

lemma cycle_drains:
  assumes envs: "\<And>k. ce_ts (envs k) 1 = now \<and> (\<forall>i. \<not> ce_locked (envs k) i) \<and> mono (ce_ts (envs k))"
    and ids: "inj (\<lambda>k. ce_event_id (envs k))"
  shows "work_typed db \<Longrightarrow> events_match db \<Longrightarrow> keys_reserved db \<Longrightarrow>
    (\<forall>j \<ge> k. ce_event_id (envs j) \<notin> ob_id ` set (wd_outbox db)) \<Longrightarrow>
    (\<forall>r \<in> set (wd_clarifications db). oc_id r \<in> set skip \<longrightarrow> stuck db r) \<Longrightarrow>
    length (filter (\<lambda>r. clar_expiry_due now r \<and> oc_id r \<notin> set skip) (wd_clarifications db)) < n \<Longrightarrow>
    \<exists>rep' db'. run_cycle claim_one_expiry envs n k skip rep db = (Inr rep', db') \<and>
      (\<forall>r \<in> set (wd_clarifications db'). clar_expiry_due now r \<longrightarrow> stuck db' r)"
proof (induction n arbitrary: k skip rep db)
  case (Suc n)
  note t = Suc.prems(1) and m = Suc.prems(2) and kr = Suc.prems(3) and fresh = Suc.prems(4) and sk = Suc.prems(5)
  let ?P = "\<lambda>r. clar_expiry_due now r \<and> oc_id r \<notin> set skip"
  show ?case
  proof (cases "claim_row cq_due_at (clar_expiry_due (ce_ts (envs k) 1)) skip (ce_locked (envs k)) (wd_clarifications db)")
    case None
    then have "\<forall>r \<in> set (wd_clarifications db). clar_expiry_due now r \<longrightarrow> stuck db r"
      using envs[of k] sk unfolding claim_row_None by auto
    moreover have "claim_one_expiry (envs k) skip db = Inr (NothingDue, db)" unfolding claim_one_expiry_def None by simp
    ultimately show ?thesis by simp
  next
    case (Some r)
    have r: "r \<in> set (wd_clarifications db)" "?P r" using claim_row_Some[OF Some] envs[of k] by auto
    have own: "x = r" if "x \<in> set (wd_clarifications db)" "oc_id x = oc_id r" for x
      using distinct_map_eqD[of oc_id, OF _ that(1) r(1) that(2)] t by (simp add: work_typed_def)
    show ?thesis
    proof (cases "stuck db r")
      case True
      let ?skip = "skip @ [oc_id r]"
      have "length (filter (\<lambda>x. clar_expiry_due now x \<and> oc_id x \<notin> set ?skip) (map id (wd_clarifications db))) <
          length (filter ?P (wd_clarifications db))"
        by (rule fewer_left[where r = r and P = ?P, OF r]) auto
      then have n: "length (filter (\<lambda>x. clar_expiry_due now x \<and> oc_id x \<notin> set ?skip) (wd_clarifications db)) < n"
        using Suc.prems(6) by simp
      have s: "\<forall>x \<in> set (wd_clarifications db). oc_id x \<in> set ?skip \<longrightarrow> stuck db x" using sk own True by auto
      have f: "\<forall>j \<ge> Suc k. ce_event_id (envs j) \<notin> ob_id ` set (wd_outbox db)" using fresh by simp
      from claim_stuck[OF Some True] show ?thesis
        using Suc.IH[OF t m kr f s n] by (elim disjE) simp_all
    next
      case False
      obtain e where c: "claim_one_expiry (envs k) skip db = Inr (Committed (oc_id r),
          db\<lparr>wd_tasks := update_where (expirable_task (oc_task_id r)) (expire_task (ce_ts (envs k) 2)) (wd_tasks db),
             wd_clarifications := update_where (\<lambda>x. oc_id x = oc_id r) (mark_expired (ce_ts (envs k) 3)) (wd_clarifications db),
             wd_outbox := wd_outbox db @ [e]\<rparr>)" (is "_ = Inr (_, ?db)")
          and e: "ob_id e = ce_event_id (envs k)" "ob_event_type e = EXPIRED_EVENT_TYPE"
        using claim_commits[OF Some False t m kr] fresh by blast
      have step: "work_typed ?db" "events_match ?db"
        using typed_expire[OF c _ t] events_expire[OF c t m] envs[of k] by blast+
      have kr': "keys_reserved ?db" using kr e(2) by (auto simp: keys_reserved_def)
      have f: "\<forall>j \<ge> Suc k. ce_event_id (envs j) \<notin> ob_id ` set (wd_outbox ?db)"
      proof (intro allI impI)
        fix j assume "Suc k \<le> j"
        then have "ce_event_id (envs j) \<noteq> ce_event_id (envs k)" "ce_event_id (envs j) \<notin> ob_id ` set (wd_outbox db)"
          using injD[OF ids, of j k] fresh by auto
        then show "ce_event_id (envs j) \<notin> ob_id ` set (wd_outbox ?db)" using e(1) by simp
      qed
      have g: "wd_clarifications ?db = map (\<lambda>x. if oc_id x = oc_id r then mark_expired (ce_ts (envs k) 3) x else x) (wd_clarifications db)"
        by (simp add: update_where_def)
      have st: "stuck db x \<Longrightarrow> stuck ?db x" for x by (rule stuck_kept) simp_all
      have s: "\<forall>x \<in> set (wd_clarifications ?db). oc_id x \<in> set skip \<longrightarrow> stuck ?db x"
      proof (intro ballI impI)
        fix x assume "x \<in> set (wd_clarifications ?db)" "oc_id x \<in> set skip"
        then have "x \<in> set (wd_clarifications db)" using r(2) unfolding g by (auto simp: mark_expired_def split: if_splits)
        then show "stuck ?db x" using sk st \<open>oc_id x \<in> set skip\<close> by blast
      qed
      have "length (filter ?P (map (\<lambda>x. if oc_id x = oc_id r then mark_expired (ce_ts (envs k) 3) x else x) (wd_clarifications db))) <
          length (filter ?P (wd_clarifications db))"
        by (rule fewer_left[where r = r and P = ?P, OF r]) (auto simp: mark_expired_def clar_expiry_due_def split: if_splits)
      then have n: "length (filter ?P (wd_clarifications ?db)) < n" using Suc.prems(6) unfolding g by simp
      show ?thesis using Suc.IH[OF step kr' f s n] c by simp
    qed
  qed
qed simp

text \<open>
  C23. A cycle whose batch has room for every due clarification, with nobody else holding one, expires all
  of them that can be expired: what is still due afterwards has a task that does not wait for it.
\<close>

theorem expiry_cycle_drains:
  assumes "\<And>k. ce_ts (envs k) 1 = now \<and> (\<forall>i. \<not> ce_locked (envs k) i) \<and> mono (ce_ts (envs k))"
    and "inj (\<lambda>k. ce_event_id (envs k))" and "\<forall>k. ce_event_id (envs k) \<notin> ob_id ` set (wd_outbox db)"
    and "work_step\<^sup>*\<^sup>* empty_work db" and "keys_reserved db"
    and "length (filter (clar_expiry_due now) (wd_clarifications db)) < batch_size"
  shows "\<exists>rep db'. run_expiry_cycle envs batch_size db = (Inr rep, db') \<and>
    (\<forall>r \<in> set (wd_clarifications db'). clar_expiry_due now r \<longrightarrow> stuck db' r)"
  using cycle_drains[OF assms(1,2), of db 0 "[]" batch_size empty_report] workroom.inv_reachable[OF assms(4)] assms(3,5,6)
  by (simp add: run_expiry_cycle_def)

end
