(* ===== verification/Lifecycle_Answers.thy ===== *)
theory Lifecycle_Answers imports Lifecycle_Faults begin

text \<open>
  The answer handler of the workroom: what an accepted answer changes, and an answer of blanks, which
  claims the clarification and then fails. A run of the store and the poller at the end is the concrete
  case of the theorems on clarifications.
\<close>

section \<open>Answers\<close>

text \<open>What the checks before the claim establish, for the clarification and the task they read.\<close>

definition may_answer :: "work_db \<Rightarrow> auth_context \<Rightarrow> task_row \<Rightarrow> clarification_row \<Rightarrow> bool" where
  "may_answer db ctx tk c \<longleftrightarrow> can_answer_clarification (ax_role ctx) \<and>
     \<not> (ax_role ctx = ''requester'' \<and> tk_created_by tk \<noteq> ax_actor ctx) \<and>
     store_get_task (ot_id tk) db = Some tk \<and> store_get_clarification (oc_id c) db = Some c \<and>
     oc_task_id c = ot_id tk \<and> oc_status c = ''open''"

lemma andthen_task: "store_get_task i db = Some tk \<Longrightarrow> andthen (get_task_or_404 i) f db = f tk db"
  by (simp add: andthen_def get_task_or_404_def)

lemma andthen_statement:
  "andthen (run_statement g) f db = (case g db of Inl e \<Rightarrow> (Inl (ServerError e), db) | Inr (x, db') \<Rightarrow> f x db')"
  by (simp add: andthen_def run_statement_def split: sum.splits prod.splits)

lemma andthen_claim: "andthen (claim_answer now i) f db = (\<lambda>(row, db'). f row db') (claim_clarification_answer now i db)"
  by (simp add: andthen_def claim_answer_def split: prod.splits)

lemma fetchrow_mapped:
  "distinct (map k l) \<Longrightarrow> x \<in> set l \<Longrightarrow> (\<And>r. k (f r) = k r) \<Longrightarrow>
     fetchrow (\<lambda>r. k r = k x) (map (\<lambda>r. if r = x then f r else r) l) = Some (f x)"
  by (induction l) (auto simp: table_simps image_iff)

lemma ex_mapped:
  "x \<in> set l \<Longrightarrow> (\<And>r. k (f r) = k r) \<Longrightarrow> list_ex (\<lambda>r. k r = k x) (map (\<lambda>r. if r = x then f r else r) l)"
  by (induction l) auto

lemma update_mapped:
  assumes "distinct (map k l)" "x \<in> set l" "\<And>r. k (f r) = k r" "\<And>r. k (g r) = k r"
  shows "update_returning (\<lambda>r. k r = k x) g (map (\<lambda>r. if r = x then f r else r) l) =
    (Some (g (f x)), map (\<lambda>r. if r = x then g (f r) else r) l)"
proof -
  have "update_where (\<lambda>r. k r = k x) g (map (\<lambda>r. if r = x then f r else r) l) = map (\<lambda>r. if r = x then g (f r) else r) l"
    using assms(1,2) by (auto simp: update_where_def assms(3) dest: distinct_map_eqD)
  then show ?thesis using fetchrow_mapped[OF assms(1,2), of f] assms(3) by (simp add: update_returning_def)
qed

lemma update_by_id:
  "distinct (map k l) \<Longrightarrow> x \<in> set l \<Longrightarrow> p x \<Longrightarrow> update_where (\<lambda>r. k r = k x \<and> p r) f l = map (\<lambda>r. if r = x then f r else r) l"
  by (auto simp: update_where_def dest: distinct_map_eqD)

lemma answer_starts:
  assumes "may_answer db ctx tk c"
  shows "api_answer_clarification mid ts ctx (ot_id tk) (oc_id c) answer db =
    andthen (claim_answer (ts 0) (oc_id c)) (\<lambda>claimed. case claimed of
        None \<Rightarrow> andthen (read_db (store_get_clarification (oc_id c))) lost_claim
      | Some _ \<Rightarrow> record_answer mid ts ctx (ot_id tk) (oc_id c) answer c) db"
proof -
  have "own_task ctx tk = give ()" using assms by (auto simp: own_task_def may_answer_def)
  then show ?thesis using assms by (simp add: api_answer_clarification_def may_answer_def andthen_task)
qed

lemma answer_claims:
  assumes "work_typed db" "may_answer db ctx tk c" "answerable (ts 0) c"
  shows "api_answer_clarification mid ts ctx (ot_id tk) (oc_id c) answer db =
    record_answer mid ts ctx (ot_id tk) (oc_id c) answer c
      (db\<lparr>wd_clarifications := map (\<lambda>r. if r = c then mark_answered (ts 0) r else r) (wd_clarifications db)\<rparr>)"
    and "store_get_clarification (oc_id c)
      (db\<lparr>wd_clarifications := map (\<lambda>r. if r = c then mark_answered (ts 0) r else r) (wd_clarifications db)\<rparr>)
      = Some (mark_answered (ts 0) c)"
proof -
  have d: "distinct (map oc_id (wd_clarifications db))" using assms(1) by (simp add: work_typed_def)
  have c: "fetchrow (\<lambda>r. oc_id r = oc_id c) (wd_clarifications db) = Some c"
    using assms(2) by (simp add: may_answer_def store_get_clarification_def)
  then have m: "c \<in> set (wd_clarifications db)" using fetchrow_SomeD by fast
  then have "fetchrow (\<lambda>r. oc_id r = oc_id c \<and> answerable (ts 0) r) (wd_clarifications db) \<noteq> None"
    using assms(3) by (auto simp: fetchrow_None_iff)
  then obtain x where "fetchrow (\<lambda>r. oc_id r = oc_id c \<and> answerable (ts 0) r) (wd_clarifications db) = Some x" by blast
  then show "api_answer_clarification mid ts ctx (ot_id tk) (oc_id c) answer db =
    record_answer mid ts ctx (ot_id tk) (oc_id c) answer c
      (db\<lparr>wd_clarifications := map (\<lambda>r. if r = c then mark_answered (ts 0) r else r) (wd_clarifications db)\<rparr>)"
    by (simp add: answer_starts[OF assms(2)] andthen_claim claim_clarification_answer_def update_returning_def
        update_by_id[OF d m, of "answerable (ts 0)", OF assms(3)])
  let ?l = "map (\<lambda>r. if r = c then mark_answered (ts 0) r else r) (wd_clarifications db)"
  show "store_get_clarification (oc_id c) (db\<lparr>wd_clarifications := ?l\<rparr>) = Some (mark_answered (ts 0) c)"
    using fetchrow_mapped[OF d m, of "mark_answered (ts 0)"] by (simp add: store_get_clarification_def mark_answered_def)
qed

text \<open>
  C26. An answer of blanks passes the length check of the request, and the claim commits before the message
  table refuses the text: the caller gets a server error, the clarification is answered without an answer,
  and neither a message nor the task changes. No later answer is accepted.
\<close>

theorem blank_answer_strands_clarification:
  assumes "work_typed db" and "may_answer db ctx tk c" and "answerable (ts 0) c"
    and "valid_answer answer" and "\<not> btrim_nonempty answer"
  shows "\<exists>db'. api_answer_clarification mid ts ctx (ot_id tk) (oc_id c) answer db =
      (Inl (ServerError (CheckViolation ''task_messages'')), db') \<and>
    store_get_clarification (oc_id c) db' = Some (mark_answered (ts 0) c) \<and>
    wd_tasks db' = wd_tasks db \<and> wd_messages db' = wd_messages db \<and> wd_outbox db' = wd_outbox db \<and>
    api_answer_clarification mid' ts' ctx (ot_id tk) (oc_id c) answer' db' =
      (Inl (HTTPException 409 ''clarification_already_answered''), db')"
proof -
  let ?db = "db\<lparr>wd_clarifications := map (\<lambda>r. if r = c then mark_answered (ts 0) r else r) (wd_clarifications db)\<rparr>"
  note g = answer_claims[OF assms(1,2), of ts, OF assms(3)]
  have a: "api_answer_clarification mid ts ctx (ot_id tk) (oc_id c) answer db = (Inl (ServerError (CheckViolation ''task_messages'')), ?db)"
    unfolding g(1) using assms(5)
    by (simp add: record_answer_def andthen_statement create_message_def message_checks_def human_message_def)
  have "store_get_task (ot_id tk) ?db = Some tk" "own_task ctx tk = give ()" "can_answer_clarification (ax_role ctx)"
    using assms(2) by (auto simp: may_answer_def store_get_task_def own_task_def)
  then have "api_answer_clarification mid' ts' ctx (ot_id tk) (oc_id c) answer' ?db =
      (Inl (HTTPException 409 ''clarification_already_answered''), ?db)"
    using assms(2) g(2) by (simp add: may_answer_def api_answer_clarification_def andthen_task mark_answered_def)
  then show ?thesis using a g(2) by simp
qed

text \<open>
  C25. An answer in time by somebody who may give it is recorded: the message, its link and the mark on the
  clarification, and the task goes to \<open>intake_review\<close> whatever its status was, a final one included.
\<close>

theorem answer_is_recorded:
  assumes "work_typed db" and "may_answer db ctx tk c" and "answerable (ts 0) c" and "\<not> has_message mid db"
    and "btrim_nonempty answer" and "valid_answer answer"
  shows "\<exists>db' c' tk'. api_answer_clarification mid ts ctx (ot_id tk) (oc_id c) answer db = (Inr (c', tk'), db') \<and>
    c' = (mark_answered (ts 0) c)\<lparr>oc_answer_message_id := Some mid, oc_updated_at := ts 2\<rparr> \<and>
    tk' = tk\<lparr>ot_status := ''intake_review'', tk_clarification_status := ''answered'', tk_updated_at := ts 3\<rparr> \<and>
    wd_messages db' = wd_messages db @ [human_message mid (ts 1) ctx (ot_id tk) ''clarification_answer'' answer
      (Some (cq_question_message_id c))] \<and>
    wd_tasks db' = map (\<lambda>x. if x = tk then tk' else x) (wd_tasks db) \<and>
    wd_clarifications db' = map (\<lambda>x. if x = c then c' else x) (wd_clarifications db) \<and> wd_outbox db' = wd_outbox db"
proof -
  let ?cs = "map (\<lambda>r. if r = c then mark_answered (ts 0) r else r) (wd_clarifications db)"
  let ?db1 = "db\<lparr>wd_clarifications := ?cs\<rparr>"
  let ?m = "human_message mid (ts 1) ctx (ot_id tk) ''clarification_answer'' answer (Some (cq_question_message_id c))"
  let ?db2 = "?db1\<lparr>wd_messages := wd_messages db @ [?m]\<rparr>"
  have c: "c \<in> set (wd_clarifications db)" and tk: "tk \<in> set (wd_tasks db)"
    using assms(2) by (auto simp: may_answer_def store_get_clarification_def store_get_task_def dest: fetchrow_SomeD)
  have d: "distinct (map oc_id (wd_clarifications db))" "distinct (map ot_id (wd_tasks db))"
    using assms(1) by (simp_all add: work_typed_def)
  have q: "has_message (cq_question_message_id c) db" "has_task (ot_id tk) db"
    using assms(1) c tk by (auto simp: work_typed_def clarification_refs_def has_task_def list_ex_iff)
  have s1: "create_message ?m ?db1 = Inr (?m, ?db2)"
    using assms(4,5,6) q by (auto simp: valid_answer_def CLARIFICATION_ANSWER_MAX_LENGTH_def create_message_def message_checks_def human_message_def SENDER_TYPES_def MESSAGE_TYPES_def VISIBILITY_ROLES_def)
  let ?c' = "(mark_answered (ts 0) c)\<lparr>oc_answer_message_id := Some mid, oc_updated_at := ts 2\<rparr>"
  let ?cs' = "map (\<lambda>x. if x = c then ?c' else x) (wd_clarifications db)"
  have ex: "list_ex (\<lambda>r. oc_id r = oc_id c) ?cs" 
    by (rule ex_mapped[OF c]) (simp add: mark_answered_def)
  have u: "update_returning (\<lambda>r. oc_id r = oc_id c) (\<lambda>r. r\<lparr>oc_answer_message_id := Some mid, oc_updated_at := ts 2\<rparr>) ?cs =
      (Some ?c', map (\<lambda>x. if x = c then (mark_answered (ts 0) x)\<lparr>oc_answer_message_id := Some mid, oc_updated_at := ts 2\<rparr> else x)
        (wd_clarifications db))"
    by (rule update_mapped[OF d(1) c]) (simp_all add: mark_answered_def)
  have e: "map (\<lambda>x. if x = c then (mark_answered (ts 0) x)\<lparr>oc_answer_message_id := Some mid, oc_updated_at := ts 2\<rparr> else x)
      (wd_clarifications db) = ?cs'" by simp
  have s2: "set_answer_message (ts 2) (oc_id c) (tm_id ?m) ?db2 = Inr (?c', ?db2\<lparr>wd_clarifications := ?cs'\<rparr>)"
    using ex u[unfolded e] by (simp add: set_answer_message_def has_message_def human_message_def)
  let ?tk = "tk\<lparr>ot_status := ''intake_review'', tk_clarification_status := ''answered'', tk_updated_at := ts 3\<rparr>"
  let ?ts = "map (\<lambda>x. if x = tk then ?tk else x) (wd_tasks db)"
  let ?f = "\<lambda>r. r\<lparr>ot_status := ''intake_review'', tk_clarification_status := ''answered'', tk_updated_at := ts 3\<rparr>"
  have ut: "update_returning (\<lambda>r. ot_id r = ot_id tk) ?f (wd_tasks db) = (Some ?tk, map (\<lambda>x. if x = tk then ?f x else x) (wd_tasks db))"
    using update_mapped[OF d(2) tk, of id ?f] by (simp cong: if_cong)
  have et: "map (\<lambda>x. if x = tk then ?f x else x) (wd_tasks db) = ?ts" by simp
  have chk: "\<forall>r \<in> set (wd_tasks db). ot_id r = ot_id tk \<longrightarrow> task_checks (?f r)"
    using assms(1) by (auto simp: work_typed_def task_checks_def TASK_STATUS_def)
  have ck: "checked_update ''operator_tasks'' task_checks (\<lambda>r. ot_id r = ot_id tk) ?f (wd_tasks db) = Inr (Some ?tk, ?ts)"
    using chk unfolding checked_update_Inr ut[unfolded et] by simp
  have s3: "set_clarification_state (ts 3) (ot_id tk) ''intake_review'' ''answered'' (?db2\<lparr>wd_clarifications := ?cs'\<rparr>) =
      Inr (?tk, ?db2\<lparr>wd_clarifications := ?cs', wd_tasks := ?ts\<rparr>)"
    by (simp add: set_clarification_state_def task_update_def ck)
  show ?thesis unfolding answer_claims(1)[OF assms(1,2), of ts, OF assms(3)]
    unfolding record_answer_def andthen_statement s1 s2 s3 sum.case prod.case by simp
qed

section \<open>A run\<close>

definition demo_ctx :: auth_context where "demo_ctx = \<lparr>ax_actor = ''u1'', ax_role = ''pm_engineering_lead''\<rparr>"

definition demo_create :: task_create where
  "demo_create = \<lparr>tc_title = ''T'', tc_description = None, tc_task_type = ''research'', tc_priority = ''low'',
    tc_owner = None, tc_project_id = None, tc_environment = ''test'', tc_production_effect = False,
    tc_requires_approval = False, tc_initial_status = ''submitted'', tc_metadata = []\<rparr>"

definition state_of :: "('a \<times> work_db) outcome \<Rightarrow> work_db" where
  "state_of r = (case r of Inl e \<Rightarrow> empty_work | Inr (x, db) \<Rightarrow> db)"

definition went_well :: "'a outcome \<Rightarrow> bool" where
  "went_well r = (case r of Inl e \<Rightarrow> False | Inr x \<Rightarrow> True)"

lemma state_ofI: "went_well r \<Longrightarrow> \<exists>x. r = Inr (x, state_of r)"
  by (cases r) (auto simp: went_well_def state_of_def)

definition demo_env :: claim_env where
  "demo_env = \<lparr>ce_event_id = ''e1'', ce_ts = (\<lambda>_. 259200000000), ce_locked = (\<lambda>_. False)\<rparr>"

definition demo_db1 :: "work_db" where
  "demo_db1 = state_of (insert_task (intake_row ''t1'' 0 demo_ctx demo_create) empty_work)"
definition demo_db2 :: "work_db" where
  "demo_db2 = state_of (create_message (human_message ''m1'' 0 demo_ctx ''t1'' ''clarification_question'' ''Q'' None) demo_db1)"
definition demo_db3 :: "work_db" where
  "demo_db3 = state_of (insert_clarification (new_clarification ''c1'' 0 0 ''human'' ''u1'' ''Q'' None ''t1'' ''m1'') demo_db2)"
definition demo_db4 :: "work_db" where
  "demo_db4 = state_of (set_clarification_state 0 ''t1'' ''clarification_needed'' ''open'' demo_db3)"
definition demo_db5 :: "work_db" where
  "demo_db5 = state_of (claim_one_expiry demo_env [] demo_db4)"

lemma demo_went:
  "went_well (insert_task (intake_row ''t1'' 0 demo_ctx demo_create) empty_work)"
  "went_well (create_message (human_message ''m1'' 0 demo_ctx ''t1'' ''clarification_question'' ''Q'' None) demo_db1)"
  "went_well (insert_clarification (new_clarification ''c1'' 0 0 ''human'' ''u1'' ''Q'' None ''t1'' ''m1'') demo_db2)"
  "went_well (set_clarification_state 0 ''t1'' ''clarification_needed'' ''open'' demo_db3)"
  "went_well (claim_one_expiry demo_env [] demo_db4)"
  by code_simp+

lemma demo_steps:
  "work_step empty_work demo_db1" "work_step demo_db1 demo_db2" "work_step demo_db2 demo_db3"
  "work_step demo_db3 demo_db4" "work_step demo_db4 demo_db5"
  using state_ofI[OF demo_went(1)] state_ofI[OF demo_went(2)] state_ofI[OF demo_went(3)] state_ofI[OF demo_went(4)]
    state_ofI[OF demo_went(5)]
  unfolding demo_db1_def[symmetric] demo_db2_def[symmetric] demo_db3_def[symmetric] demo_db4_def[symmetric] demo_db5_def[symmetric]
  by (auto intro: work_step.intros simp: demo_env_def monoI)

lemma demo_reached: "work_step\<^sup>*\<^sup>* empty_work demo_db4" "work_step\<^sup>*\<^sup>* empty_work demo_db5"
  using demo_steps by (meson rtranclp.rtrancl_into_rtrancl rtranclp.rtrancl_refl)+

definition demo_c :: clarification_row where
  "demo_c = new_clarification ''c1'' 0 0 ''human'' ''u1'' ''Q'' None ''t1'' ''m1''"

lemma demo_rows: "wd_clarifications demo_db4 = [demo_c]" "map ot_id (wd_tasks demo_db4) = [''t1'']"
  "wd_clarifications demo_db5 = [mark_expired 259200000000 demo_c]" "map ot_status (wd_tasks demo_db4) = [''clarification_needed'']"
  "wd_outbox demo_db4 = []" "map ot_status (wd_tasks demo_db5) = [''clarification_expired'']"
  by code_simp+

theorem workroom_tables_typed_witness:
  "\<exists>r \<in> set (wd_clarifications demo_db5). oc_status r = ''expired'' \<and> clarification_refs demo_db5 r \<and>
     (\<exists>t \<ge> cq_due_at r. cq_expired_at r = Some t)"
proof -
  have r: "mark_expired 259200000000 demo_c \<in> set (wd_clarifications demo_db5)" using demo_rows(3) by simp
  have s: "oc_status (mark_expired 259200000000 demo_c) = ''expired''" by (simp add: mark_expired_def)
  show ?thesis using workroom_tables_typed[OF demo_reached(2)] r s by blast
qed

theorem lifecycle_events_exactly_once_witness:
  "\<exists>!e. e \<in> set (wd_outbox demo_db5) \<and> ob_event_type e = EXPIRED_EVENT_TYPE \<and> ob_clarification_id e = ''c1''"
proof -
  have r: "mark_expired 259200000000 demo_c \<in> set (wd_clarifications demo_db5)" using demo_rows(3) by simp
  have "oc_status (mark_expired 259200000000 demo_c) = ''expired''" "oc_id (mark_expired 259200000000 demo_c) = ''c1''"
    by (simp_all add: mark_expired_def demo_c_def new_clarification_def)
  then show ?thesis using lifecycle_events_exactly_once[OF demo_reached(2) r] by simp
qed

lemma demo_typed: "work_typed demo_db4" "events_match demo_db4"
  using workroom.inv_reachable[OF demo_reached(1)] by simp_all

theorem work_step_refines_phases_witness:
  "\<exists>r' \<in> set (wd_clarifications demo_db5). phase_of demo_c = Waiting \<and>
     phase_step (cq_due_at demo_c) (phase_of demo_c) (phase_of r') \<and> phase_of r' = ExpiredAt 259200000000"
proof -
  have "demo_c \<in> set (wd_clarifications demo_db4)" using demo_rows(1) by simp
  from work_step_refines_phases[OF demo_steps(5) demo_typed(1) this] show ?thesis
    by (simp add: demo_rows(3)) (simp add: phase_of_def demo_c_def new_clarification_def mark_expired_def)
qed

theorem expiry_is_atomic_witness:
  "\<exists>out. claim_one_expiry demo_env [] demo_db4 = Inr (out, demo_db5) \<and> out = Committed ''c1'' \<and>
     (\<exists>tk \<in> set (wd_tasks demo_db4). ot_id tk = ''t1'' \<and> ot_status tk = ''clarification_needed'')"
proof -
  obtain out where c: "claim_one_expiry demo_env [] demo_db4 = Inr (out, demo_db5)"
    using state_ofI[OF demo_went(5)] unfolding demo_db5_def by blast
  have n: "demo_db5 \<noteq> demo_db4" using demo_rows(1,3) by (auto simp: mark_expired_def demo_c_def new_clarification_def)
  have i: "oc_id demo_c = ''c1''" "oc_task_id demo_c = ''t1''" by (simp_all add: demo_c_def new_clarification_def)
  show ?thesis using expiry_is_atomic[OF c demo_typed(1)] n c i by (auto simp: demo_rows(1))
qed

theorem expiry_cycle_drains_witness:
  "\<exists>rep db'. run_expiry_cycle (\<lambda>k. demo_env\<lparr>ce_event_id := replicate k CHR ''e''\<rparr>) 2 demo_db4 = (Inr rep, db') \<and>
    (\<forall>r \<in> set (wd_clarifications db'). clar_expiry_due 259200000000 r \<longrightarrow> stuck db' r)"
  by (rule expiry_cycle_drains)
    (auto simp: demo_env_def mono_def inj_def demo_rows keys_reserved_def intro: demo_reached dest: arg_cong[where f = length])

lemma demo_may_answer:
  "\<exists>tk \<in> set (wd_tasks demo_db4). may_answer demo_db4 demo_ctx tk demo_c \<and> ot_id tk = ''t1''"
proof -
  obtain tk where t: "store_get_task ''t1'' demo_db4 = Some tk" "ot_id tk = ''t1''" "tk \<in> set (wd_tasks demo_db4)"
    using demo_rows(2) by (cases "wd_tasks demo_db4") (auto simp: store_get_task_def table_simps)
  then have "may_answer demo_db4 demo_ctx tk demo_c"
    by (simp add: may_answer_def demo_ctx_def store_get_clarification_def demo_rows(1) table_simps
        demo_c_def new_clarification_def can_answer_clarification_def ANSWER_CLARIFICATION_ROLES_def)
  then show ?thesis using t by blast
qed

lemma demo_answerable: "answerable 100 demo_c"
  by (simp add: answerable_def demo_c_def new_clarification_def CLARIFICATION_DUE_HOURS_def)

theorem answer_is_recorded_witness:
  "\<exists>tk db' c' tk'. tk \<in> set (wd_tasks demo_db4) \<and>
     api_answer_clarification ''m2'' (\<lambda>_. 100) demo_ctx (ot_id tk) (oc_id demo_c) ''A'' demo_db4 = (Inr (c', tk'), db') \<and>
     ot_status tk' = ''intake_review'' \<and> length (wd_messages db') = Suc (length (wd_messages demo_db4))"
proof -
  obtain tk where t: "tk \<in> set (wd_tasks demo_db4)" "may_answer demo_db4 demo_ctx tk demo_c" using demo_may_answer by blast
  have "\<not> has_message ''m2'' demo_db4" by code_simp
  moreover have "btrim_nonempty ''A''" "valid_answer ''A''"
    by (simp_all add: btrim_nonempty_def valid_answer_def CLARIFICATION_ANSWER_MAX_LENGTH_def MESSAGE_BODY_MAX_LENGTH_def)
  ultimately show ?thesis
    using answer_is_recorded[OF demo_typed(1) t(2), of "\<lambda>_. 100", OF demo_answerable, of "''m2''" "''A''"] t(1) by force
qed

theorem blank_answer_strands_clarification_witness:
  "\<exists>tk db'. tk \<in> set (wd_tasks demo_db4) \<and>
     api_answer_clarification ''m2'' (\<lambda>_. 100) demo_ctx (ot_id tk) (oc_id demo_c) '' '' demo_db4
       = (Inl (ServerError (CheckViolation ''task_messages'')), db') \<and>
     api_answer_clarification ''m3'' (\<lambda>_. 101) demo_ctx (ot_id tk) (oc_id demo_c) ''A'' db'
       = (Inl (HTTPException 409 ''clarification_already_answered''), db')"
proof -
  obtain tk where t: "tk \<in> set (wd_tasks demo_db4)" "may_answer demo_db4 demo_ctx tk demo_c" using demo_may_answer by blast
  have "valid_answer '' ''" "\<not> btrim_nonempty '' ''"
    by (simp_all add: btrim_nonempty_def valid_answer_def CLARIFICATION_ANSWER_MAX_LENGTH_def MESSAGE_BODY_MAX_LENGTH_def)
  from blank_answer_strands_clarification[OF demo_typed(1) t(2), of "\<lambda>_. 100", OF demo_answerable this]
  show ?thesis using t(1) by blast
qed

text \<open>A second task waits for a clarification of its own, and the first one was canceled.\<close>

definition demo_canceled :: work_db where
  "demo_canceled =
    (let db = state_of (set_clarification_state 1 ''t1'' ''canceled'' ''open'' demo_db4);
         db = state_of (insert_task (intake_row ''t2'' 10 demo_ctx demo_create) db);
         db = state_of (insert_clarification (new_clarification ''c2'' 10 10 ''human'' ''u1'' ''Q'' None ''t2'' ''m1'') db)
     in state_of (set_clarification_state 11 ''t2'' ''clarification_needed'' ''open'' db))"

definition demo_c2 :: clarification_row where
  "demo_c2 = new_clarification ''c2'' 10 10 ''human'' ''u1'' ''Q'' None ''t2'' ''m1''"

lemma demo_canceled_rows: "wd_clarifications demo_canceled = [demo_c, demo_c2]"
  "map ot_status (wd_tasks demo_canceled) = [''canceled'', ''clarification_needed'']"
  "map ot_id (wd_tasks demo_canceled) = [''t1'', ''t2'']"
  by code_simp+

theorem stuck_rows_starve_expiry_witness:
  "clar_expiry_due 300000000000 demo_c2 \<and> \<not> stuck demo_canceled demo_c2 \<and>
    (\<exists>rep. run_expiry_cycle (\<lambda>_. demo_env\<lparr>ce_ts := \<lambda>_. 300000000000\<rparr>) 1 demo_canceled = (Inr rep, demo_canceled) \<and>
       cy_committed rep = 0)"
proof -
  obtain x y where ts: "wd_tasks demo_canceled = [x, y]" "ot_id x = ''t1''" "ot_id y = ''t2''" "ot_status x = ''canceled''"
      "ot_status y = ''clarification_needed''"
    using demo_canceled_rows(2,3) by (auto simp: map_eq_Cons_conv)
  have c: "oc_task_id demo_c = ''t1''" "oc_task_id demo_c2 = ''t2''" "cq_due_at demo_c = 259200000000" "cq_due_at demo_c2 = 259200000010"
      "clar_expiry_due 300000000000 demo_c" "clar_expiry_due 300000000000 demo_c2"
    by (simp_all add: demo_c_def demo_c2_def new_clarification_def clar_expiry_due_def CLARIFICATION_DUE_HOURS_def)
  have s: "stuck demo_canceled demo_c" "\<not> stuck demo_canceled demo_c2"
    using ts c(1,2) by (simp_all add: stuck_def store_get_task_def table_simps EXPIRABLE_PARENT_TASK_STATUS_def)
  have "\<exists>rep. run_expiry_cycle (\<lambda>_. demo_env\<lparr>ce_ts := \<lambda>_. 300000000000\<rparr>) 1 demo_canceled = (Inr rep, demo_canceled) \<and>
       cy_committed rep = 0 \<and> cy_suppressed rep + cy_reconciled rep = 1"
    by (rule stuck_rows_starve_expiry[where stuck_rows = "[demo_c]"])
      (use s c in \<open>auto simp: demo_canceled_rows(1) demo_env_def\<close>)
  then show ?thesis using c s by blast
qed

end
