(* ===== verification/Spec2Isabelle.thy ===== *)
theory Spec2Isabelle imports Resume_Request Replay_History Task_Graph Audit_Rewrite Promotion Lifecycle_Answers begin

text \<open>
  A verification library for the control plane of the AI Agents SWD Platform: the part of
  \<^verbatim>\<open>shared/sdk/tasks/\<close> that asks for clarifications, lets them expire, decides whether a paused task may
  be resumed, keeps the durable evidence of that decision, and delivers it; the policies that let the
  output of a model be written to a workspace; the planning of projects as graphs of work items; and the
  tamper-evident audit chain. All paths below are relative to \<^verbatim>\<open>src/\<close>.

  \<^bold>\<open>The program.\<close> A task waits for a human answer to a clarification. When the answer has arrived, an
  operator asks to resume the task; a policy authority authorizes the request; the service identity
  consumes the authorization, exactly once, and writes a command for the orchestrator into a
  transactional outbox; a reconciliation later confirms the outcome. Work that touches production
  needs a second object, an approval granted by a human approver, that is bound to one action on one
  resource at one version and is spent together with the authorization. Rows of the outbox that carry
  audit events are published by a relay with persisted retries; a row that failed too often is dead, and
  returns to the queue only by a replay that one operator requests, another person authorizes and the
  service identity executes.

  A clarification that is not answered in time is reminded of and then expires, by a poller that works one
  row at a time; the workroom API creates and answers clarifications. A patch that a language model
  proposes is promoted into a workspace only when the safety policy of model output, an authority (a human
  policy with a budget, or an approved approval) and the path rules agree.

  A project request is turned into work items with dependencies; the graph is validated before anything
  is dispatched. Every audit row gets an integrity record that hashes its content and the record before
  it and is signed with the active key of a key ring; a verifier walks that chain, a forensic scan
  explains its failures, and a controlled repair can rebind it to the audit rows as they are.

  \<^bold>\<open>How the code is read.\<close>
  \<^item> Text is \<open>string\<close>; a \<^verbatim>\<open>frozenset\<close> of labels is the list of its members; \<^verbatim>\<open>None\<close> is \<open>None\<close>.
  \<^item> A table is the list of its rows, a row the record of its columns (prefix \<open>ra_\<close> for
    \<^verbatim>\<open>resume_replay_authorizations\<close>, \<open>pa_\<close> for \<^verbatim>\<open>production_action_approvals\<close>, \<open>ob_\<close> for
    \<^verbatim>\<open>clarification_lifecycle_outbox\<close>, \<open>rr_\<close> for \<^verbatim>\<open>resume_requests\<close>, \<open>rpr_\<close> for
    \<^verbatim>\<open>replay_requests\<close>, \<open>oc_\<close> and \<open>ot_\<close> for the
    clarification and task columns that are read). The \<^verbatim>\<open>CHECK\<close> and unique constraints of the
    migrations are predicates, and a statement that would break one raises.
  \<^item> Exceptions are values (\<open>py_exn\<close>, on the left of a sum). An exception carries no state: the
    transaction it escapes from is rolled back.
  \<^item> \<^verbatim>\<open>statement_timestamp()\<close> moves between the statements of one call: \<open>ts k\<close> is the clock of the
    k-th statement that reads it, and no order of the values is assumed unless a theorem says so.
    Times are integers of microseconds, and an interval of the code is \<open>seconds\<close> of its length.
  \<^item> Generated ids are arguments. Row locks have no effect on one call at a time; interleavings of
    callers are the step relations below, one statement per step.
  \<^item> Code outside the repository is a parameter: the audit stream (\<open>bus\<close>), the order in which the
    database visits rows of a query without \<^verbatim>\<open>ORDER BY\<close> (\<open>scan\<close>), and the environment. SHA-256,
    HMAC-SHA256, the JSON parser and the text of a container are the fields of \<open>stdlib\<close>; the theorems
    that need it assume that digests are non-empty ASCII text in one line (\<open>hex_digests\<close>), and tamper
    evidence that the texts at hand do not collide.

  \<^bold>\<open>The theories.\<close>
  \<^item> \<open>Prelude\<close>: exceptions, text, tables, and three locales. \<open>keyed_cas\<close> and \<open>exclusive_cas\<close> are the
    contract of a guarded \<^verbatim>\<open>UPDATE ... RETURNING\<close>: keys are kept, a lost update changes nothing, one
    win switches the family off. \<open>invariant_system\<close> is a store that changes by the steps of a
    relation. They are interpreted on the authorizations (\<open>decides\<close>, \<open>finals\<close>, \<open>rra\<close>), the approvals
    (\<open>approvals\<close>), the outbox (\<open>outbox\<close>), the resume requests (\<open>resumes\<close>, \<open>confirmations\<close>,
    \<open>resume\<close>) and the services (\<open>svc\<close>).
  \<^item> \<open>Task_Roles\<close>: \<^verbatim>\<open>rbac.py\<close>, \<^verbatim>\<open>workroom_rbac.py\<close>, and the vocabularies of \<^verbatim>\<open>models.py\<close> and
    \<^verbatim>\<open>workroom_models.py\<close>.
  \<^item> \<open>Authz_Policy\<close>: \<^verbatim>\<open>authorization_policy.py\<close>. \<open>evaluate\<close> with every branch; who is permitted what,
    and the separation of duties.
  \<^item> \<open>Authz_Model\<close>, \<open>Authz_Repo\<close>, \<open>Authz_Lifecycle\<close>: \<^verbatim>\<open>authorization_model.py\<close>,
    \<^verbatim>\<open>authorization_repository.py\<close> and migration 032. One definition per statement; \<open>rra_step\<close> is one
    statement by any caller, \<open>rra_inv\<close> its invariant, \<open>life_step\<close> the abstract life cycle it refines.
  \<^item> \<open>Py_Uuid\<close>, \<open>Approval\<close>: the parsing of an approval reference, and
    \<^verbatim>\<open>production_approval_model.py\<close>, \<^verbatim>\<open>production_approval_repository.py\<close>,
    \<^verbatim>\<open>production_approval_service.py\<close> with migration 035.
  \<^item> \<open>Authz_Service\<close>, \<open>Authz_Service_Props\<close>, \<open>Authz_History\<close>: \<^verbatim>\<open>authorization_service.py\<close>; what one
    call guarantees; and the invariant of every history of calls (\<open>svc_step\<close>, \<open>svc_inv\<close>).
  \<^item> \<open>Py_Json\<close>, \<open>Outbox\<close>: \<^verbatim>\<open>json.dumps\<close> on a flat object, and \<^verbatim>\<open>lifecycle_outbox.py\<close> with
    migration 031: allowlists, destinations, the payload guard, the retry and replay plans.
  \<^item> \<open>Relay\<close>: \<^verbatim>\<open>outbox_relay.py\<close>. Claim, publish, persist the outcome, one batch, the operator replay;
    \<open>outbox_step\<close> is one insert or one attempt, and \<open>outbox_inv\<close> ties attempts to elapsed time. A batch
    recurses on its size, so it needs no fuel.
  \<^item> \<open>Resume_Repo\<close>, \<open>Resume\<close>, \<open>Resume_Lifecycle\<close>, \<open>Resume_Props\<close>, \<open>Resume_Request\<close>:
    \<^verbatim>\<open>resume_request_model.py\<close>, \<^verbatim>\<open>resume_request_repository.py\<close> with migration 033, and
    \<^verbatim>\<open>resume_service.py\<close>: the statements, the operations over one database, the state machine they
    refine (\<open>resume_life\<close>), and what requesting, preparing and confirming guarantee.
  \<^item> \<open>Request_Table\<close>: the contract of a table of requests (unique keys, one active row per resource,
    rows that move along a life cycle) and of its histories, as the locales \<open>request_table\<close> and
    \<open>request_history\<close>; both request tables interpret them.
  \<^item> \<open>Py_Time\<close>, \<open>Replay_Repo\<close>, \<open>Replay_Lifecycle\<close>, \<open>Replay\<close>, \<open>Replay_Demo\<close>, \<open>Replay_Props\<close>,
    \<open>Replay_History\<close>: \<^verbatim>\<open>datetime.isoformat\<close> on microseconds of UTC, which is injective;
    \<^verbatim>\<open>replay_request_model.py\<close>, \<^verbatim>\<open>replay_request_repository.py\<close> with migration 034, and
    \<^verbatim>\<open>replay_service.py\<close>; one replay run from request to execution; what requesting and executing
    guarantee; and the invariant \<open>coherent\<close> of every history (\<open>replay_svc_step\<close>), which ties each
    request to its own authorization. Event ids are UUID texts of 36 characters there.
  \<^item> \<open>Workroom\<close>, \<open>Lifecycle_Poller\<close>, \<open>Lifecycle_Props\<close>, \<open>Lifecycle_Faults\<close>, \<open>Lifecycle_Answers\<close>:
    \<^verbatim>\<open>tasks/store.py\<close> and \<^verbatim>\<open>workroom_store.py\<close> with the write handlers of \<^verbatim>\<open>task_api.py\<close> and
    \<^verbatim>\<open>workroom_api.py\<close> of \<^verbatim>\<open>apps/orchestrator/src/\<close>, and \<^verbatim>\<open>lifecycle_poller.py\<close>; the invariants of every interleaving of the statements of workroom, resume,
    relay and poller (\<open>work_step\<close>); what a cycle drains and what starves it; and what an answer leaves.
  \<^item> \<open>Py_Regex\<close>, \<open>Code_Policy\<close>, \<open>Llm_Safety\<close>, \<open>Approval_Policy\<close>, \<open>Code_Diff\<close>, \<open>Promotion\<close>: regular
    expressions and globs; \<^verbatim>\<open>code_workspace/policy.py\<close>; \<^verbatim>\<open>llm/policy.py\<close>; \<^verbatim>\<open>approval_policy/evaluator.py\<close>
    and \<^verbatim>\<open>store.py\<close>; the diff helpers of \<^verbatim>\<open>code_workspace/diff.py\<close> for a new file; and the handlers of
    \<^verbatim>\<open>apps/orchestrator/src/approval_policy_api.py\<close>. The promotion is split where it stops reading
    (\<open>promote_check\<close>) and starts writing (\<open>promote_commit\<close>), so that two of them can interleave.
  \<^item> \<open>Dep_Graph\<close>, \<open>Task_Graph\<close>: \<^verbatim>\<open>project_planning/dependency_validator.py\<close>, the iterative depth-first
    search with its colours, parents and iterators, which terminates on its own measure and needs no
    fuel; and \<^verbatim>\<open>task_graph.py\<close>, \<^verbatim>\<open>assignment_policy.py\<close>, \<^verbatim>\<open>acceptance.py\<close>, \<^verbatim>\<open>risk_model.py\<close>,
    \<^verbatim>\<open>routing.py\<close> and \<^verbatim>\<open>delivery_readiness.py\<close>.
  \<^item> \<open>Py_Float\<close>, \<open>Canon_Json\<close>, \<open>Audit_Chain\<close>, \<open>Audit_Verify\<close>: floats by their text; \<^verbatim>\<open>audit_integrity/canonical.py\<close>, \<^verbatim>\<open>hasher.py\<close>,
    \<^verbatim>\<open>keyring.py\<close>, \<^verbatim>\<open>signer.py\<close>, \<^verbatim>\<open>store.py\<close> with migration 012, and \<^verbatim>\<open>verifier.py\<close>. A database is the
    list of audit rows and the list of integrity records (\<open>audit_db\<close>); the advisory lock makes one
    append at a time. \<open>same_value\<close> says when two payloads are the same, and the canonical text decides it.
  \<^item> \<open>Audit_Chain_Props\<close>, \<open>Audit_Backfill\<close>, \<open>Audit_Tamper\<close>: \<open>audit_step\<close> is one insert of an audit row or
    one append of a record with whatever keys are active, \<open>chain_inv\<close> its invariant (interpretation
    \<open>audit\<close>); every reachable chain verifies, a backfill completes it, and a verified chain with a
    known newest hash determines its rows.
  \<^item> \<open>Audit_Forensics\<close>, \<open>Audit_Repair\<close> with \<open>Audit_Forensics_Props\<close>, \<open>Audit_Repair_Props\<close>,
    \<open>Audit_Rewrite\<close>: \<^verbatim>\<open>forensics.py\<close> and \<^verbatim>\<open>repair.py\<close>, apart and composed.

  \<^bold>\<open>What the theorems show.\<close> Safety of the decision: duties are separate, a consume wins once, a
  refusal changes nothing and gives the reason owed, and a consumed production authorization is backed
  by its own spent approval in every reachable database. Atomicity: the command row and the consumed
  authorization exist together or not at all; a resume request writes its four rows together. Life
  cycles: both request tables and the clarifications refine an abstract state machine under every
  interleaving, and an expiry or a reminder has exactly one event. Delivery: the
  relay publishes what is due, never a command, and retries on the documented schedule; a batch large
  enough hands each due row to the stream once, and a row whose outcome is not committed is handed over
  again later, so delivery is at least once. Promotion: what is written comes from a change that was
  found clean, under an authority, and one at a time promotions keep the budget of a policy. Planning: validation always returns and accepts
  exactly the graphs that can be executed. Audit: honest histories verify across key rotations, changes
  below a known newest hash are detected, a repair is all or nothing, changes hash columns and the
  status of records of the failed tail only, and completes exactly when the hashes below are right. Some theorems state what the code does where its
  comments say otherwise: both expiry scans fail on an authorized request, a second blocked replay raises, a failed request keeps its
  clarification claimed, a reused key answers with another team's row, an idempotent re-grant answers
  granted for a spent approval, two interleaved promotions overspend a policy, rows that cannot expire
  starve the poller, a blank answer strands its clarification, a production consume can raise instead of refusing; deleting the newest
  audit rows goes unseen, a repair leaves stale signatures, and a history rewritten in three rows of one
  decision type is offered for repair.

  \<^bold>\<open>Not modelled.\<close> Connections, logging and metrics; the relay's polling loop and timeout setting;
  the casts of ids to \<^verbatim>\<open>uuid\<close> in the approval policy store; diffs against earlier content; the texts and snapshots of a planned project; the restore of
  audit rows from backups; the HTTP layer of \<^verbatim>\<open>apps/orchestrator\<close>, which wraps each service call in a transaction
  (its task, workroom and promotion handlers apart); and the other
  packages of \<^verbatim>\<open>shared/sdk\<close>, listed with the reason in the manifest.
\<close>

end
